(* ===== verification/Prelude.thy ===== *)
theory Prelude
  imports Complex_Main "HOL-Library.Product_Lexorder" "HOL-Library.List_Lexorder"
    "HOL-Library.Char_ord" "HOL-Library.Sublist"
begin

text \<open>
  The vocabulary shared by the components: Python exceptions as values, actions that thread a
  state and may raise, and the four SQL statement shapes the engine is written in
  (\<^verbatim>\<open>SELECT ... WHERE\<close>, \<^verbatim>\<open>UPDATE ... WHERE ... RETURNING\<close>,
  \<^verbatim>\<open>ORDER BY ... LIMIT 1\<close> and \<^verbatim>\<open>ORDER BY ... LIMIT n\<close>) over a table that is
  a list of rows. The generic lemmas say what those statements do to membership, to lookups by
  key and to columns they do not write.
\<close>

named_theorems table_simps \<open>what the SQL statement shapes do to a table\<close>
named_theorems op_defs \<open>definitions of the queue operations, for unfolding\<close>
named_theorems act_simps \<open>evaluation of actions that may raise\<close>

section \<open>Python exceptions and actions\<close>

datatype py_error =
    ValueError string
  | KeyError string
  | TypeError string
  | IndexError
  | RuntimeError string
  | UniqueViolation
  | ForeignKeyViolation
  | CheckViolation
  | OtherError string

type_synonym 'a result = "py_error + 'a"

text \<open>
  An action may raise after it has already committed transactions, so the state is returned
  with the exception too.
\<close>

type_synonym ('s, 'a) act = "'s \<Rightarrow> 'a result \<times> 's"

definition ret :: "'a \<Rightarrow> ('s, 'a) act" where
  "ret x s = (Inr x, s)"

definition raise :: "py_error \<Rightarrow> ('s, 'a) act" where
  "raise e s = (Inl e, s)"

definition and_then :: "('s, 'a) act \<Rightarrow> ('a \<Rightarrow> ('s, 'b) act) \<Rightarrow> ('s, 'b) act" where
  "and_then m f s = (case m s of (Inl e, s') \<Rightarrow> (Inl e, s') | (Inr x, s') \<Rightarrow> f x s')"

definition lift_result :: "'a result \<Rightarrow> ('s, 'a) act" where
  "lift_result r s = (r, s)"

text \<open>A Python \<^verbatim>\<open>for\<close> loop whose body may raise: the first exception ends it.\<close>

fun for_each :: "('x \<Rightarrow> ('s, unit) act) \<Rightarrow> 'x list \<Rightarrow> ('s, unit) act" where
  "for_each f [] s = (Inr (), s)"
| "for_each f (x # xs) s =
     (case f x s of (Inl e, s') \<Rightarrow> (Inl e, s') | (Inr _, s') \<Rightarrow> for_each f xs s')"

text \<open>A transaction: an exception rolls the state back.\<close>

definition in_txn :: "('s, 'a) act \<Rightarrow> ('s, 'a) act" where
  "in_txn m s = (case m s of (Inl e, s') \<Rightarrow> (Inl e, s) | (Inr x, s') \<Rightarrow> (Inr x, s'))"

text \<open>A handler that swallows every exception: the answer is \<^verbatim>\<open>None\<close> then.\<close>

definition best_effort :: "('s, 'a) act \<Rightarrow> 's \<Rightarrow> 'a option \<times> 's" where
  "best_effort m s = (case m s of (Inl e, s') \<Rightarrow> (None, s') | (Inr x, s') \<Rightarrow> (Some x, s'))"

lemma in_txn_error: "in_txn m s = (Inl e, s') \<Longrightarrow> s' = s"
  by (auto simp: in_txn_def split: prod.splits sum.splits)

lemma in_txn_Inr: "in_txn m s = (Inr x, s') \<longleftrightarrow> m s = (Inr x, s')"
  by (auto simp: in_txn_def split: prod.splits sum.splits)

lemma ret_simp [act_simps, simp]: "ret x s = (Inr x, s)"
  by (simp add: ret_def)

lemma raise_simp [act_simps, simp]: "raise e s = (Inl e, s)"
  by (simp add: raise_def)

lemma lift_result_simp [act_simps, simp]: "lift_result r s = (r, s)"
  by (simp add: lift_result_def)

lemma and_then_Inl [act_simps]: "m s = (Inl e, s') \<Longrightarrow> and_then m f s = (Inl e, s')"
  by (simp add: and_then_def)

lemma and_then_Inr [act_simps]: "m s = (Inr x, s') \<Longrightarrow> and_then m f s = f x s'"
  by (simp add: and_then_def)

lemma and_then_InrE:
  assumes "and_then m f s = (Inr y, t)"
  obtains x s' where "m s = (Inr x, s')" and "f x s' = (Inr y, t)"
  using assms by (cases "m s"; cases "fst (m s)") (auto simp: and_then_def)

text \<open>An invariant kept by every iteration is kept by the loop, raised or not.\<close>

lemma for_each_inv:
  assumes step: "\<And>x s. x \<in> set xs \<Longrightarrow> I s \<Longrightarrow> I (snd (f x s))" and "I s"
  shows "I (snd (for_each f xs s))"
  using assms
proof (induction xs arbitrary: s)
  case Nil
  then show ?case by simp
next
  case (Cons x xs)
  obtain r s' where fx: "f x s = (r, s')" by fastforce
  with Cons.prems(1)[of x s] Cons.prems(2) have "I s'" by simp
  with Cons fx show ?case by (cases r) auto
qed

lemma distinct_of_count: "(\<And>i. count_list xs i \<le> 1) \<Longrightarrow> distinct xs"
proof (induction xs)
  case (Cons x xs)
  from Cons.prems[of x] have "x \<notin> set xs" by (simp add: count_list_0_iff)
  moreover have "count_list xs i \<le> 1" for i
    using Cons.prems[of i] by (simp split: if_splits)
  ultimately show ?case using Cons.IH by simp
qed simp

section \<open>Tables\<close>

definition sql_select :: "('r \<Rightarrow> bool) \<Rightarrow> 'r list \<Rightarrow> 'r list" where
  "sql_select P rows = filter P rows"

definition sql_update :: "('r \<Rightarrow> bool) \<Rightarrow> ('r \<Rightarrow> 'r) \<Rightarrow> 'r list \<Rightarrow> 'r list" where
  "sql_update P f rows = map (\<lambda>r. if P r then f r else r) rows"

text \<open>The rows an \<^verbatim>\<open>UPDATE ... RETURNING *\<close> returns: the updated versions.\<close>

definition sql_returning :: "('r \<Rightarrow> bool) \<Rightarrow> ('r \<Rightarrow> 'r) \<Rightarrow> 'r list \<Rightarrow> 'r list" where
  "sql_returning P f rows = map f (filter P rows)"

definition sql_delete :: "('r \<Rightarrow> bool) \<Rightarrow> 'r list \<Rightarrow> 'r list" where
  "sql_delete P rows = filter (\<lambda>r. \<not> P r) rows"

text \<open>\<^verbatim>\<open>cur.fetchone()\<close>\<close>

definition fetchone :: "'r list \<Rightarrow> 'r option" where
  "fetchone rs = (case rs of [] \<Rightarrow> None | r # _ \<Rightarrow> Some r)"

text \<open>
  \<^verbatim>\<open>ORDER BY key ASC LIMIT 1\<close>. SQL leaves ties open; this picks the first tied row of the
  table, and every statement below about a claim is about the key, never about the tie.
\<close>

fun first_by :: "('r \<Rightarrow> 'k::linorder) \<Rightarrow> 'r list \<Rightarrow> 'r option" where
  "first_by k [] = None"
| "first_by k (r # rs) =
     (case first_by k rs of None \<Rightarrow> Some r
      | Some r' \<Rightarrow> if k r \<le> k r' then Some r else Some r')"

definition order_by :: "('r \<Rightarrow> 'k::linorder) \<Rightarrow> nat \<Rightarrow> 'r list \<Rightarrow> 'r list" where
  "order_by k n rows = take n (sort_key k rows)"

lemma first_by_None [table_simps, simp]: "first_by k rs = None \<longleftrightarrow> rs = []"
  by (cases rs) (auto split: option.splits)

lemma first_by_mem: "first_by k rs = Some r \<Longrightarrow> r \<in> set rs"
  by (induction rs arbitrary: r) (auto split: option.splits if_splits)

lemma first_by_min: "first_by k rs = Some r \<Longrightarrow> r' \<in> set rs \<Longrightarrow> k r \<le> k r'"
proof (induction rs arbitrary: r r')
  case Nil
  then show ?case by simp
next
  case (Cons a rs)
  show ?case
  proof (cases "first_by k rs")
    case None
    then have "rs = []" by simp
    with Cons.prems show ?thesis by simp
  next
    case (Some b)
    with Cons.IH have b: "\<And>x. x \<in> set rs \<Longrightarrow> k b \<le> k x" by blast
    from Cons.prems Some b show ?thesis
      by (auto split: if_splits intro: order_trans)
  qed
qed

lemma set_order_by: "set (order_by k n rows) \<subseteq> set rows"
  unfolding order_by_def using set_take_subset[of n "sort_key k rows"] by simp

lemma length_sql_update [table_simps, simp]: "length (sql_update P f rows) = length rows"
  by (simp add: sql_update_def)

lemma sql_update_Nil [table_simps, simp]: "sql_update P f [] = []"
  by (simp add: sql_update_def)

lemma sql_update_Cons [table_simps, simp]:
  "sql_update P f (r # rs) = (if P r then f r else r) # sql_update P f rs"
  by (simp add: sql_update_def)

lemma set_sql_update [table_simps]:
  "set (sql_update P f rows) = {if P r then f r else r |r. r \<in> set rows}"
  by (auto simp: sql_update_def)

lemma mem_sql_updateE:
  assumes "r' \<in> set (sql_update P f rows)"
  obtains r where "r \<in> set rows" and "r' = (if P r then f r else r)"
  using assms by (auto simp: sql_update_def)

lemma mem_sql_returning [table_simps]:
  "r' \<in> set (sql_returning P f rows) \<longleftrightarrow> (\<exists>r\<in>set rows. P r \<and> r' = f r)"
  by (auto simp: sql_returning_def)

text \<open>A statement that writes no part of a column keeps that column.\<close>

lemma map_sql_update [table_simps]:
  assumes "\<And>r. P r \<Longrightarrow> g (f r) = g r"
  shows "map g (sql_update P f rows) = map g rows"
  by (induction rows) (auto simp: assms)

lemma sql_update_False [table_simps]:
  "(\<And>r. r \<in> set rows \<Longrightarrow> \<not> P r) \<Longrightarrow> sql_update P f rows = rows"
  by (induction rows) auto

lemma sql_returning_Nil_iff [table_simps]:
  "sql_returning P f rows = [] \<longleftrightarrow> (\<forall>r\<in>set rows. \<not> P r)"
  by (auto simp: sql_returning_def filter_empty_conv)

lemma sql_update_id: "sql_returning P f rows = [] \<Longrightarrow> sql_update P f rows = rows"
  by (auto simp: sql_returning_Nil_iff intro: sql_update_False)

lemma sql_update_all:
  assumes "\<And>r. r \<in> set rows \<Longrightarrow> I r" and "\<And>r. r \<in> set rows \<Longrightarrow> P r \<Longrightarrow> I r \<Longrightarrow> I (f r)"
    and "r' \<in> set (sql_update P f rows)"
  shows "I r'"
  using assms by (auto elim!: mem_sql_updateE split: if_splits)

lemma distinct_map_filter_eq:
  "distinct (map k rows) \<Longrightarrow> r \<in> set rows \<Longrightarrow> r' \<in> set rows \<Longrightarrow> k r = k r' \<Longrightarrow> r = r'"
  by (auto simp: distinct_map dest: inj_onD)

lemma distinct_map_sql_delete: "distinct (map k rows) \<Longrightarrow> distinct (map k (sql_delete P rows))"
  by (simp add: sql_delete_def distinct_map_filter)

text \<open>\<^verbatim>\<open>INSERT ... ON CONFLICT (key) DO UPDATE SET f\<close>, for a row whose conflict set is \<open>P\<close>.\<close>

definition sql_upsert :: "('r \<Rightarrow> bool) \<Rightarrow> ('r \<Rightarrow> 'r) \<Rightarrow> 'r \<Rightarrow> 'r list \<Rightarrow> 'r list" where
  "sql_upsert P f r rows = (if list_ex P rows then sql_update P f rows else rows @ [r])"

section \<open>Lookup by key\<close>

text \<open>\<^verbatim>\<open>SELECT * ... WHERE key = k\<close>, fetchone.\<close>

definition row_of :: "('r \<Rightarrow> 'k) \<Rightarrow> 'k \<Rightarrow> 'r list \<Rightarrow> 'r option" where
  "row_of key k rows = fetchone (sql_select (\<lambda>r. key r = k) rows)"

lemma row_of_Nil [simp]: "row_of key k [] = None"
  by (simp add: row_of_def sql_select_def fetchone_def)

lemma row_of_Cons [simp]:
  "row_of key k (r # rs) = (if key r = k then Some r else row_of key k rs)"
  by (simp add: row_of_def sql_select_def fetchone_def)

lemma row_of_SomeD: "row_of key k rows = Some r \<Longrightarrow> r \<in> set rows \<and> key r = k"
  by (induction rows) (auto split: if_splits)

lemma row_of_None [table_simps]: "row_of key k rows = None \<longleftrightarrow> k \<notin> key ` set rows"
  by (induction rows) (auto split: if_splits)

lemma row_of_mem:
  "distinct (map key rows) \<Longrightarrow> r \<in> set rows \<Longrightarrow> row_of key (key r) rows = Some r"
  by (induction rows) (auto split: if_splits)

lemma row_of_update [table_simps]:
  assumes "\<And>r. P r \<Longrightarrow> key (f r) = key r"
  shows "row_of key k (sql_update P f rows) =
    map_option (\<lambda>r. if P r then f r else r) (row_of key k rows)"
  by (induction rows) (auto simp: assms)

lemma row_of_append [table_simps]:
  "row_of key k (xs @ ys) = (case row_of key k xs of None \<Rightarrow> row_of key k ys | Some r \<Rightarrow> Some r)"
  by (induction xs) auto

lemma row_of_upsert [table_simps]:
  assumes "key r = k" and "\<And>r'. key (f r') = key r'"
  shows "row_of key k' (sql_upsert (\<lambda>r'. key r' = k) f r rows) =
    (if k' = k then Some (case row_of key k rows of None \<Rightarrow> r | Some r' \<Rightarrow> f r') else row_of key k' rows)"
proof -
  have "list_ex (\<lambda>r'. key r' = k) rows \<longleftrightarrow> row_of key k rows \<noteq> None"
    by (auto simp: row_of_None list_ex_iff)
  moreover have "key r' = k'" if "row_of key k' rows = Some r'" for r'
    using row_of_SomeD[OF that] by simp
  ultimately show ?thesis using assms
    by (cases "row_of key k' rows"; cases "row_of key k rows")
      (auto simp: sql_upsert_def row_of_update row_of_append)
qed

lemma distinct_sql_upsert:
  assumes "distinct (map key rows)" and "key r = k" and "\<And>r'. key (f r') = key r'"
  shows "distinct (map key (sql_upsert (\<lambda>r'. key r' = k) f r rows))"
  using assms by (auto simp: sql_upsert_def list_ex_iff map_sql_update)

text \<open>
  An \<^verbatim>\<open>UPDATE ... WHERE id = k AND Q RETURNING *\<close> on a unique id touches that row or
  nothing.
\<close>

lemma fetchone_returning:
  assumes "distinct (map key rows)" and "\<And>r. key (f r) = key r"
  shows "fetchone (sql_returning (\<lambda>r. key r = k \<and> Q r) f rows) =
    (case row_of key k rows of None \<Rightarrow> None | Some r \<Rightarrow> if Q r then Some (f r) else None)"
  using assms(1)
proof (induction rows)
  case Nil
  then show ?case by (simp add: sql_returning_def fetchone_def)
next
  case (Cons a rows)
  from Cons.prems have "r \<in> set rows \<Longrightarrow> key r \<noteq> key a" for r
    by (metis distinct.simps(2) image_eqI list.set_map list.simps(9))
  then have none: "key a = k \<Longrightarrow> filter (\<lambda>r. key r = k \<and> Q r) rows = []"
    by (auto simp: filter_empty_conv)
  with Cons show ?case
    by (auto simp: sql_returning_def fetchone_def)
qed

section \<open>Strings\<close>

fun show_nat :: "nat \<Rightarrow> string" where
  "show_nat n = (if n < 10 then [char_of (48 + n)] else show_nat (n div 10) @ [char_of (48 + n mod 10)])"

declare show_nat.simps [simp del]

definition show_int :: "int \<Rightarrow> string" where
  "show_int i = (if i < 0 then CHR ''-'' # show_nat (nat (- i)) else show_nat (nat i))"

definition starts_with :: "string \<Rightarrow> string \<Rightarrow> bool" where
  "starts_with s p \<longleftrightarrow> take (length p) s = p"

lemma starts_with_append [simp]: "starts_with (p @ s) p"
  by (simp add: starts_with_def)

definition to_lower :: "char \<Rightarrow> char" where
  "to_lower c = (let n = of_char c :: nat in if 65 \<le> n \<and> n \<le> 90 then char_of (n + 32) else c)"

text \<open>Python's \<^verbatim>\<open>needle in haystack\<close>.\<close>

fun contains_sub :: "string \<Rightarrow> string \<Rightarrow> bool" where
  "contains_sub [] needle \<longleftrightarrow> needle = []"
| "contains_sub (c # cs) needle \<longleftrightarrow> starts_with (c # cs) needle \<or> contains_sub cs needle"

lemma contains_sub_iff: "contains_sub s n \<longleftrightarrow> sublist n s"
proof (induction s)
  case Nil
  then show ?case by simp
next
  case (Cons c cs)
  have "starts_with (c # cs) n \<longleftrightarrow> prefix n (c # cs)"
    by (metis append_eq_conv_conj prefix_def starts_with_def append_take_drop_id)
  with Cons show ?case by (simp add: sublist_Cons_right)
qed

section \<open>Python strings\<close>

text \<open>\<^verbatim>\<open>str.isspace\<close> on the characters below 256, and \<^verbatim>\<open>str.strip\<close>.\<close>

definition is_space :: "char \<Rightarrow> bool" where
  "is_space c \<longleftrightarrow> (let n = of_char c :: nat in 9 \<le> n \<and> n \<le> 13 \<or> 28 \<le> n \<and> n \<le> 32 \<or> n = 133 \<or> n = 160)"

definition py_strip :: "string \<Rightarrow> string" where
  "py_strip s = rev (dropWhile is_space (rev (dropWhile is_space s)))"

definition is_digit :: "char \<Rightarrow> bool" where
  "is_digit c \<longleftrightarrow> (let n = of_char c :: nat in 48 \<le> n \<and> n \<le> 57)"

definition digits_val :: "string \<Rightarrow> nat" where
  "digits_val ds = fold (\<lambda>c acc. 10 * acc + (of_char c - 48)) ds 0"

text \<open>Python's \<^verbatim>\<open>int(s)\<close>: surrounding blanks, a sign, digits with single underscores between.\<close>

definition py_int :: "string \<Rightarrow> int option" where
  "py_int s =
     (let t = py_strip s;
          neg = starts_with t ''-'';
          body = (if neg \<or> starts_with t ''+'' then drop 1 t else t)
      in if body \<noteq> [] \<and> is_digit (hd body) \<and> is_digit (last body) \<and>
            list_all (\<lambda>c. is_digit c \<or> c = CHR ''_'') body \<and> \<not> contains_sub body ''__''
         then (let n = int (digits_val (filter is_digit body)) in Some (if neg then - n else n))
         else None)"

text \<open>\<^verbatim>\<open>str.split()\<close> at runs of white space, and \<^verbatim>\<open>str.splitlines()\<close>.\<close>

function py_split :: "string \<Rightarrow> string list" where
  "py_split [] = []"
| "py_split (c # cs) =
     (if is_space c then py_split cs
      else (c # takeWhile (\<lambda>x. \<not> is_space x) cs) # py_split (dropWhile (\<lambda>x. \<not> is_space x) cs))"
  by pat_completeness auto
termination
  by (relation "measure length") (auto simp: le_imp_less_Suc length_dropWhile_le)

definition is_line_break :: "char \<Rightarrow> bool" where
  "is_line_break c \<longleftrightarrow> (let n = of_char c :: nat in 10 \<le> n \<and> n \<le> 13 \<or> 28 \<le> n \<and> n \<le> 30 \<or> n = 133)"

function splitlines_from :: "string \<Rightarrow> string \<Rightarrow> string list" where
  "splitlines_from buf [] = (if buf = [] then [] else [rev buf])"
| "splitlines_from buf (c # cs) =
     (if is_line_break c
      then rev buf # splitlines_from [] (if c = CHR 0x0D \<and> cs \<noteq> [] \<and> hd cs = CHR 0x0A then tl cs else cs)
      else splitlines_from (c # buf) cs)"
  by pat_completeness auto
termination
  by (relation "measure (\<lambda>(buf, s). length s)") auto

definition py_splitlines :: "string \<Rightarrow> string list" where
  "py_splitlines s = splitlines_from [] s"

text \<open>\<^verbatim>\<open>str.rstrip\<close> of one character, and \<^verbatim>\<open>str.partition\<close> at the first occurrence of one.\<close>

definition rstrip :: "char \<Rightarrow> string \<Rightarrow> string" where
  "rstrip c s = rev (dropWhile (\<lambda>x. x = c) (rev s))"

definition partition_at :: "char \<Rightarrow> string \<Rightarrow> string \<times> string" where
  "partition_at c s = (takeWhile (\<lambda>x. x \<noteq> c) s, tl (dropWhile (\<lambda>x. x \<noteq> c) s))"

lemma rstrip_append_replicate [simp]: "rstrip c (s @ replicate n c) = rstrip c s"
proof -
  have "dropWhile (\<lambda>x. x = c) (replicate n c @ xs) = dropWhile (\<lambda>x. x = c) xs" for xs
    by (induction n) simp_all
  then show ?thesis by (simp add: rstrip_def)
qed

lemma rstrip_id: "s = [] \<or> last s \<noteq> c \<Longrightarrow> rstrip c s = s"
  by (cases s rule: rev_cases) (simp_all add: rstrip_def)

lemma last_rstrip: "rstrip c s = [] \<or> last (rstrip c s) \<noteq> c"
  by (induction s rule: rev_induct) (simp_all add: rstrip_def)

lemma rstrip_idem [simp]: "rstrip c (rstrip c s) = rstrip c s"
  by (rule rstrip_id) (rule last_rstrip)

lemma partition_at_found: "c \<notin> set s \<Longrightarrow> partition_at c (s @ c # r) = (s, r)"
  by (simp add: partition_at_def takeWhile_append dropWhile_append)

text \<open>Python's \<^verbatim>\<open>s.split(c)\<close>: never empty, empty segments kept.\<close>

fun split_on :: "char \<Rightarrow> string \<Rightarrow> string list" where
  "split_on c [] = [[]]"
| "split_on c (x # xs) =
     (if x = c then [] # split_on c xs
      else (case split_on c xs of [] \<Rightarrow> [[x]] | y # ys \<Rightarrow> (x # y) # ys))"

lemma split_on_nosep: "c \<notin> set s \<Longrightarrow> split_on c s = [s]"
  by (induction s) auto

lemma split_on_neq_Nil [simp]: "split_on c s \<noteq> []"
  by (induction s) (auto split: list.splits)

lemma split_on_append: "split_on c (p @ c # q) = split_on c p @ split_on c q"
proof (induction p)
  case Nil
  then show ?case by simp
next
  case (Cons x p)
  then show ?case
    by (cases "split_on c p") auto
qed

text \<open>\<^verbatim>\<open>sep.join\<close>.\<close>

fun join_with :: "string \<Rightarrow> string list \<Rightarrow> string" where
  "join_with sep [] = []"
| "join_with sep [x] = x"
| "join_with sep (x # y # ys) = x @ sep @ join_with sep (y # ys)"

end
