(* ===== verification/Json_Refs.thy ===== *)
theory Json_Refs
  imports Prelude
begin

text \<open>
  The reference mini-language of \<^verbatim>\<open>refs.py\<close> (\<^verbatim>\<open>$value\<close>, \<^verbatim>\<open>$from\<close>,
  \<^verbatim>\<open>$filter\<close>, \<^verbatim>\<open>$eq\<close>, \<^verbatim>\<open>$ne\<close>, \<^verbatim>\<open>$coalesce\<close>) over JSON values.
  A dict is an association list in insertion order. The regular-expression engine, \<^verbatim>\<open>str()\<close>
  and attribute lookup on a non-dict value are Python run-time services and are parameters
  (\<open>py_rt\<close>).
\<close>

section \<open>JSON values\<close>

datatype json =
    JNull
  | JBool bool
  | JInt int
  | JFloat rat
  | JStr string
  | JList "json list"
  | JObj "(string \<times> json) list"

type_synonym jdict = "(string \<times> json) list"

text \<open>Python truth value testing, as \<^verbatim>\<open>bool(x)\<close> and \<^verbatim>\<open>x or y\<close> use it.\<close>

fun truthy :: "json \<Rightarrow> bool" where
  "truthy JNull = False"
| "truthy (JBool b) = b"
| "truthy (JInt i) = (i \<noteq> 0)"
| "truthy (JFloat q) = (q \<noteq> 0)"
| "truthy (JStr s) = (s \<noteq> [])"
| "truthy (JList xs) = (xs \<noteq> [])"
| "truthy (JObj kvs) = (kvs \<noteq> [])"

text \<open>
  Python equality: \<^verbatim>\<open>True == 1 == 1.0\<close>, and dict equality ignores the key order. Both sides are
  brought to a normal form.
\<close>

primrec canon :: "json \<Rightarrow> json" where
  "canon JNull = JNull"
| "canon (JBool b) = JFloat (if b then 1 else 0)"
| "canon (JInt i) = JFloat (of_int i)"
| "canon (JFloat q) = JFloat q"
| "canon (JStr s) = JStr s"
| "canon (JList xs) = JList (map canon xs)"
| "canon (JObj kvs) = JObj (sort_key fst (map (map_prod id canon) kvs))"

definition py_eq :: "json \<Rightarrow> json \<Rightarrow> bool" where
  "py_eq a b \<longleftrightarrow> canon a = canon b"

text \<open>\<^verbatim>\<open>dict[k] = v\<close> keeps the position of an existing key.\<close>

fun jset :: "string \<Rightarrow> 'v \<Rightarrow> (string \<times> 'v) list \<Rightarrow> (string \<times> 'v) list" where
  "jset k v [] = [(k, v)]"
| "jset k v ((k', v') # kvs) = (if k' = k then (k, v) # kvs else (k', v') # jset k v kvs)"

definition jget :: "(string \<times> 'v) list \<Rightarrow> string \<Rightarrow> 'v option" where
  "jget kvs k = map_of kvs k"

definition jpop :: "string \<Rightarrow> (string \<times> 'v) list \<Rightarrow> (string \<times> 'v) list" where
  "jpop k kvs = filter (\<lambda>kv. fst kv \<noteq> k) kvs"

text \<open>\<^verbatim>\<open>{**a, **b}\<close>\<close>

definition jmerge :: "(string \<times> 'v) list \<Rightarrow> (string \<times> 'v) list \<Rightarrow> (string \<times> 'v) list" where
  "jmerge a b = fold (\<lambda>(k, v) acc. jset k v acc) b a"

lemma jget_jset [simp]: "jget (jset k v kvs) k' = (if k' = k then Some v else jget kvs k')"
  unfolding jget_def by (induction kvs) auto

lemma jget_jpop [simp]: "jget (jpop k kvs) k' = (if k' = k then None else jget kvs k')"
  unfolding jget_def jpop_def by (induction kvs) auto

lemma jset_keys [simp]: "fst ` set (jset k v kvs) = insert k (fst ` set kvs)"
  by (induction kvs rule: jset.induct) (simp_all add: insert_commute)

lemma jset_distinct: "distinct (map fst kvs) \<Longrightarrow> distinct (map fst (jset k v kvs))"
proof (induction kvs)
  case (Cons kv kvs)
  have "fst ` set (jset k v kvs) = insert k (fst ` set kvs)" by simp
  with Cons show ?case by (cases kv) auto
qed simp

section \<open>The resolver\<close>

record py_rt =
  rt_getattr :: "json \<Rightarrow> string \<Rightarrow> json option"
  rt_re_search :: "json \<Rightarrow> string \<Rightarrow> bool result"
  rt_str :: "json \<Rightarrow> string"

text \<open>One step of \<^verbatim>\<open>_dig\<close>: a dict key, or an attribute of anything else.\<close>

fun dig_step :: "py_rt \<Rightarrow> json \<Rightarrow> string \<Rightarrow> json result" where
  "dig_step rt (JObj kvs) part =
     (case jget kvs part of None \<Rightarrow> Inl (KeyError part) | Some v \<Rightarrow> Inr v)"
| "dig_step rt v part =
     (case rt_getattr rt v part of None \<Rightarrow> Inl (KeyError part) | Some w \<Rightarrow> Inr w)"

fun dig_path :: "py_rt \<Rightarrow> json \<Rightarrow> string list \<Rightarrow> json result" where
  "dig_path rt cur [] = Inr cur"
| "dig_path rt cur (part # parts) =
     (case dig_step rt cur part of Inl e \<Rightarrow> Inl e | Inr v \<Rightarrow> dig_path rt v parts)"

definition dig :: "py_rt \<Rightarrow> json \<Rightarrow> string \<Rightarrow> json result" where
  "dig rt obj dotted_path = dig_path rt obj (split_on CHR ''.'' dotted_path)"

text \<open>\<^verbatim>\<open>item.get(field)\<close> on a dict, \<^verbatim>\<open>getattr(item, field, None)\<close> otherwise.\<close>

fun item_field :: "py_rt \<Rightarrow> json \<Rightarrow> string \<Rightarrow> json" where
  "item_field rt (JObj kvs) field = (case jget kvs field of None \<Rightarrow> JNull | Some v \<Rightarrow> v)"
| "item_field rt v field = (case rt_getattr rt v field of None \<Rightarrow> JNull | Some w \<Rightarrow> w)"

fun match_spec :: "py_rt \<Rightarrow> json \<Rightarrow> jdict \<Rightarrow> bool result" where
  "match_spec rt item [] = Inr True"
| "match_spec rt item ((key, expected) # rest) =
     (if CHR '':'' \<notin> set key then Inl (ValueError key)
      else let field = takeWhile (\<lambda>c. c \<noteq> CHR '':'') key;
               oper = tl (dropWhile (\<lambda>c. c \<noteq> CHR '':'') key);
               actual = item_field rt item field
      in if oper = ''eq'' then
           (if \<not> py_eq actual expected then Inr False else match_spec rt item rest)
         else if oper = ''matches'' then
           (if actual = JNull then Inr False
            else case rt_re_search rt expected (rt_str rt actual) of
                   Inl e \<Rightarrow> Inl e
                 | Inr found \<Rightarrow> if \<not> found then Inr False else match_spec rt item rest)
         else Inl (ValueError oper))"

text \<open>A list comprehension with a condition that may raise.\<close>

fun filter_res :: "('a \<Rightarrow> bool result) \<Rightarrow> 'a list \<Rightarrow> 'a list result" where
  "filter_res p [] = Inr []"
| "filter_res p (x # xs) =
     (case p x of Inl e \<Rightarrow> Inl e
      | Inr b \<Rightarrow> (case filter_res p xs of Inl e \<Rightarrow> Inl e
                  | Inr ys \<Rightarrow> Inr (if b then x # ys else ys)))"

text \<open>The filter specification must be a dict: \<^verbatim>\<open>filter_spec.items()\<close>.\<close>

fun match_item :: "py_rt \<Rightarrow> json \<Rightarrow> json \<Rightarrow> bool result" where
  "match_item rt (JObj spec) item = match_spec rt item spec"
| "match_item rt _ item = Inl (OtherError ''AttributeError'')"

text \<open>The \<^verbatim>\<open>$from\<close> branch of \<^verbatim>\<open>resolve_ref\<close>, once the path is in hand.\<close>

definition resolve_from :: "py_rt \<Rightarrow> jdict \<Rightarrow> json \<Rightarrow> json \<Rightarrow> json result" where
  "resolve_from rt kvs path context =
     (case path of
        JStr p \<Rightarrow>
          (case dig rt context p of
             Inl e \<Rightarrow> Inl e
           | Inr result \<Rightarrow>
               (case jget kvs ''$filter'' of
                  Some spec \<Rightarrow>
                    (case result of
                       JList items \<Rightarrow>
                         (case filter_res (match_item rt spec) items of
                            Inl e \<Rightarrow> Inl e | Inr ys \<Rightarrow> Inr (JList ys))
                     | _ \<Rightarrow> Inl (TypeError p))
                | None \<Rightarrow>
                    (case jget kvs ''$eq'' of
                       Some x \<Rightarrow> Inr (JBool (py_eq result x))
                     | None \<Rightarrow>
                         (case jget kvs ''$ne'' of
                            Some x \<Rightarrow> Inr (JBool (\<not> py_eq result x))
                          | None \<Rightarrow> Inr result))))
      | _ \<Rightarrow> Inl (OtherError ''AttributeError''))"

lemma size_jget: "jget kvs k = Some v \<Longrightarrow> size v < Suc (size_list (size_prod (\<lambda>x. 0) size) kvs)"
  unfolding jget_def by (induction kvs) (auto split: if_splits)

text \<open>
  \<^verbatim>\<open>resolve_ref\<close>, with the loop of \<^verbatim>\<open>_coalesce\<close> and the dict comprehension as the two
  companions. \<open>resolve_cands\<close> returns the first candidate that resolves to a non-None value.
\<close>

function (sequential) resolve_ref :: "py_rt \<Rightarrow> json \<Rightarrow> json \<Rightarrow> json result"
  and resolve_cands :: "py_rt \<Rightarrow> json list \<Rightarrow> json \<Rightarrow> json option result"
  and resolve_items :: "py_rt \<Rightarrow> jdict \<Rightarrow> json \<Rightarrow> jdict result" where
  "resolve_ref rt (JObj kvs) context =
     (case jget kvs ''$value'' of
        Some v \<Rightarrow> Inr v
      | None \<Rightarrow>
          (case jget kvs ''$coalesce'' of
             Some (JList cands) \<Rightarrow>
               (case resolve_cands rt cands context of
                  Inl e \<Rightarrow> Inl e
                | Inr (Some v) \<Rightarrow> Inr v
                | Inr None \<Rightarrow>
                    (case jget kvs ''$default'' of
                       Some d \<Rightarrow> Inr d
                     | None \<Rightarrow> Inl (KeyError ''$coalesce'')))
           | Some _ \<Rightarrow> Inl (TypeError ''$coalesce'')
           | None \<Rightarrow>
               (case jget kvs ''$from'' of
                  Some path \<Rightarrow> resolve_from rt kvs path context
                | None \<Rightarrow>
                    (case resolve_items rt kvs context of
                       Inl e \<Rightarrow> Inl e | Inr kvs' \<Rightarrow> Inr (JObj kvs')))))"
| "resolve_ref rt v context = Inr v"
| "resolve_cands rt [] context = Inr None"
| "resolve_cands rt (c # cs) context =
     (case resolve_ref rt c context of
        Inl (KeyError _) \<Rightarrow> resolve_cands rt cs context
      | Inl e \<Rightarrow> Inl e
      | Inr v \<Rightarrow> if v \<noteq> JNull then Inr (Some v) else resolve_cands rt cs context)"
| "resolve_items rt [] context = Inr []"
| "resolve_items rt ((k, v) # kvs) context =
     (case resolve_ref rt v context of
        Inl e \<Rightarrow> Inl e
      | Inr w \<Rightarrow> (case resolve_items rt kvs context of
                    Inl e \<Rightarrow> Inl e | Inr kvs' \<Rightarrow> Inr ((k, w) # kvs')))"
  by pat_completeness auto
termination
  by (relation "measure (case_sum (\<lambda>(rt, v, c). size v)
      (case_sum (\<lambda>(rt, vs, c). Suc (size_list size vs))
        (\<lambda>(rt, kvs, c). size_list (size_prod (\<lambda>x. 0) size) kvs)))")
    (auto dest: size_jget)

section \<open>Laws\<close>

lemma dig_path_append:
  "dig_path rt v (ps @ qs) =
     (case dig_path rt v ps of Inl e \<Rightarrow> Inl e | Inr w \<Rightarrow> dig_path rt w qs)"
  by (induction ps arbitrary: v) (auto split: sum.splits)

lemma filter_res_Inr:
  "filter_res p xs = Inr ys \<Longrightarrow>
   ys = filter (\<lambda>x. p x = Inr True) xs \<and> (\<forall>x\<in>set xs. \<exists>b. p x = Inr b)"
  by (induction xs arbitrary: ys) (auto split: sum.splits if_splits)

lemma resolve_cands_first:
  assumes "resolve_cands rt cs context = Inr (Some v)"
  shows "\<exists>pre c post. cs = pre @ c # post \<and> resolve_ref rt c context = Inr v \<and> v \<noteq> JNull \<and>
    (\<forall>d\<in>set pre. resolve_ref rt d context = Inr JNull \<or> (\<exists>k. resolve_ref rt d context = Inl (KeyError k)))"
  using assms
proof (induction cs)
  case Nil
  then show ?case by simp
next
  case (Cons c cs)
  show ?case
  proof (cases "resolve_cands rt cs context = Inr (Some v) \<and>
      (resolve_ref rt c context = Inr JNull \<or> (\<exists>k. resolve_ref rt c context = Inl (KeyError k)))")
    case True
    with Cons.IH obtain pre d post where "cs = pre @ d # post" and "resolve_ref rt d context = Inr v"
      and "v \<noteq> JNull" and "\<forall>e\<in>set pre. resolve_ref rt e context = Inr JNull \<or>
        (\<exists>k. resolve_ref rt e context = Inl (KeyError k))" by blast
    with True show ?thesis
      by (intro exI[of _ "c # pre"] exI[of _ d] exI[of _ post]) auto
  next
    case False
    with Cons.prems have "resolve_ref rt c context = Inr v \<and> v \<noteq> JNull"
      by (auto split: sum.splits if_splits py_error.splits)
    then show ?thesis by (intro exI[of _ "[]"] exI[of _ c] exI[of _ cs]) auto
  qed
qed

end
