(* ===== verification/Schema.thy ===== *)
theory Schema
  imports Json_Refs
begin

text \<open>
  The tables of the engine (migrations 0001 to 0017) as records and lists of rows, the database
  as one record, and the engine configuration the queue layer reads. Time is in microseconds, as
  Postgres keeps it. Row ids that the code draws from \<^verbatim>\<open>uuid4\<close> or from a sequence are drawn
  from a counter of the database, which is what their freshness amounts to.
\<close>

section \<open>Rows\<close>

datatype job_status =
  Queued | Running | Completed | Failed | Cancelled | Awaiting_input | Skipped

datatype run_status =
  R_queued | R_running | R_completed | R_failed | R_cancelled | R_other string

fun status_text :: "job_status \<Rightarrow> string" where
  "status_text Queued = ''queued''"
| "status_text Running = ''running''"
| "status_text Completed = ''completed''"
| "status_text Failed = ''failed''"
| "status_text Cancelled = ''cancelled''"
| "status_text Awaiting_input = ''awaiting_input''"
| "status_text Skipped = ''skipped''"

abbreviation secs :: "int \<Rightarrow> int" where
  "secs n \<equiv> n * 1000000"

record node_job =
  nj_id :: nat
  nj_run :: string
  nj_pipeline :: "string option"
  nj_node :: string
  nj_module :: string
  nj_queue :: string
  nj_model :: "string option"
  nj_project :: string
  nj_status :: job_status
  nj_priority :: int
  nj_is_priority :: bool
  nj_inputs :: jdict
  nj_resolved :: "jdict option"
  nj_input_spec :: "json option"
  nj_delta :: jdict
  nj_created :: int
  nj_started :: "int option"
  nj_finished :: "int option"
  nj_lane :: "int option"
  nj_claimed :: "string option"
  nj_lease :: "int option"
  nj_retries :: nat
  nj_host :: "string option"
  nj_error :: "string option"
  nj_seconds :: "int option"
  nj_rss :: "int option"
  nj_unassignable :: "int option"
  nj_unassignable_reason :: "string option"

record run_row =
  r_id :: string
  r_parcel :: "string option"
  r_workflow :: string
  r_status :: run_status
  r_priority :: int
  r_mode :: string
  r_current_step :: "string option"
  r_progress :: rat
  r_steps_done :: json
  r_context :: jdict
  r_input_spec :: "json option"
  r_out_dir :: "string option"
  r_error :: "string option"
  r_resume_count :: nat
  r_project :: string
  r_queued_at :: "int option"
  r_started_at :: "int option"
  r_finished_at :: "int option"
  r_created_at :: int
  r_updated_at :: int

record ingest_row =
  ij_id :: nat
  ij_task :: string
  ij_queue :: string
  ij_reason :: string
  ij_args :: jdict
  ij_project :: string
  ij_status :: job_status
  ij_priority :: int
  ij_created :: int
  ij_started :: "int option"
  ij_finished :: "int option"
  ij_claimed :: "string option"
  ij_lease :: "int option"
  ij_result :: "jdict option"
  ij_error :: "string option"
  ij_seconds :: "int option"

record heartbeat =
  hb_host :: string
  hb_queue :: string
  hb_project :: string
  hb_concurrency :: int
  hb_last_seen :: int
  hb_model :: "string option"
  hb_known :: "string list"
  hb_llm :: "string list"
  hb_vram :: "int option"
  hb_fits :: "string list"
  hb_flagged :: "int option"

record dispatch_event =
  ev_id :: nat
  ev_run :: string
  ev_node :: string
  ev_kind :: string
  ev_processed :: "int option"
  ev_error :: "string option"
  ev_attempts :: nat
  ev_created :: int

record node_event =
  ne_id :: nat
  ne_run :: string
  ne_node :: string
  ne_job :: "nat option"
  ne_attempt :: nat
  ne_type :: string
  ne_host :: "string option"
  ne_queue :: "string option"
  ne_model :: "string option"
  ne_elapsed :: "int option"
  ne_error :: "string option"
  ne_detail :: jdict
  ne_created :: int

datatype sub_status = Pending | Processing | Processed | Sub_failed

record submission =
  sb_id :: nat
  sb_run :: string
  sb_node :: string
  sb_value :: json
  sb_status :: sub_status
  sb_error :: "string option"
  sb_claimed_at :: "int option"
  sb_created :: int
  sb_processed :: "int option"

record control_row =
  wc_host :: string
  wc_queue :: string
  wc_desired :: string
  wc_policy :: string
  wc_requested_by :: "string option"
  wc_updated :: int
  wc_server_type :: string
  wc_parallelism :: int
  wc_idle_ttl :: int

section \<open>The database\<close>

record db =
  now :: int
  runs :: "run_row list"
  node_jobs :: "node_job list"
  ingest_jobs :: "ingest_row list"
  heartbeats :: "heartbeat list"
  dispatch_events :: "dispatch_event list"
  node_events :: "node_event list"
  submissions :: "submission list"
  controls :: "control_row list"
  next_uuid :: nat
  next_event :: nat
  next_node_event :: nat

definition empty_db :: db where
  "empty_db = \<lparr>now = 0, runs = [], node_jobs = [], ingest_jobs = [], heartbeats = [],
     dispatch_events = [], node_events = [], submissions = [], controls = [],
     next_uuid = 0, next_event = 0, next_node_event = 0\<rparr>"

record config =
  cfg_project :: string
  cfg_ingest_queues :: "string list"
  cfg_ingest_tasks :: "string list"
  cfg_video_models :: "string list"
  cfg_ingest_budget :: int
  cfg_vlm_pool_modules :: "string list"
  cfg_gpu_self_load_modules :: "string list"
  cfg_cancel_orphans :: bool

text \<open>\<^verbatim>\<open>node_queue._project\<close>\<close>

definition project_of :: "config \<Rightarrow> string option \<Rightarrow> string" where
  "project_of cfg project = (case project of Some p \<Rightarrow> p | None \<Rightarrow> cfg_project cfg)"

abbreviation job_of :: "db \<Rightarrow> nat \<Rightarrow> node_job option" where
  "job_of d k \<equiv> row_of nj_id k (node_jobs d)"

abbreviation run_of :: "db \<Rightarrow> string \<Rightarrow> run_row option" where
  "run_of d k \<equiv> row_of r_id k (runs d)"

abbreviation ingest_of :: "db \<Rightarrow> nat \<Rightarrow> ingest_row option" where
  "ingest_of d k \<equiv> row_of ij_id k (ingest_jobs d)"

abbreviation job_cell :: "node_job \<Rightarrow> string \<times> string" where
  "job_cell j \<equiv> (nj_run j, nj_node j)"

section \<open>Row invariants and the database invariant\<close>

text \<open>The states the terminal guards of the \<^verbatim>\<open>mark_*\<close> statements name.\<close>

definition guarded_terminal :: "job_status \<Rightarrow> bool" where
  "guarded_terminal s \<longleftrightarrow> s = Completed \<or> s = Failed \<or> s = Cancelled"

text \<open>
  A queued row carries no lease bookkeeping; a running row has a lease and a start time; a row
  in a final state has a finish time, a queued or running one has none; the two CHECK
  constraints on the queue hold.
\<close>

definition job_wf :: "node_job \<Rightarrow> bool" where
  "job_wf j \<longleftrightarrow>
     (nj_queue j = ''cpu'' \<or> nj_queue j = ''gpu'') \<and>
     (nj_queue j = ''cpu'' \<longrightarrow> nj_model j = None) \<and>
     (nj_status j = Queued \<longrightarrow> nj_claimed j = None \<and> nj_lease j = None \<and> nj_started j = None) \<and>
     (nj_status j = Running \<longrightarrow> nj_lease j \<noteq> None \<and> nj_started j \<noteq> None) \<and>
     (nj_status j = Queued \<or> nj_status j = Running \<longrightarrow> nj_finished j = None) \<and>
     (guarded_terminal (nj_status j) \<or> nj_status j = Skipped \<longrightarrow> nj_finished j \<noteq> None)"

definition ingest_wf :: "ingest_row \<Rightarrow> bool" where
  "ingest_wf j \<longleftrightarrow>
     (ij_status j = Queued \<longrightarrow> ij_claimed j = None \<and> ij_lease j = None \<and> ij_started j = None) \<and>
     (ij_status j = Running \<longrightarrow> ij_lease j \<noteq> None \<and> ij_started j \<noteq> None) \<and>
     (ij_status j = Queued \<or> ij_status j = Running \<longrightarrow> ij_finished j = None) \<and>
     (guarded_terminal (ij_status j) \<longrightarrow> ij_finished j \<noteq> None)"

definition jobs_inv :: "db \<Rightarrow> bool" where
  "jobs_inv d \<longleftrightarrow>
     distinct (map nj_id (node_jobs d)) \<and>
     distinct (map job_cell (node_jobs d)) \<and>
     (\<forall>j\<in>set (node_jobs d). job_wf j \<and> nj_id j < next_uuid d \<and> nj_run j \<in> r_id ` set (runs d))"

definition ingest_inv :: "db \<Rightarrow> bool" where
  "ingest_inv d \<longleftrightarrow>
     distinct (map ij_id (ingest_jobs d)) \<and>
     (\<forall>j\<in>set (ingest_jobs d). ingest_wf j \<and> ij_id j < next_uuid d)"

definition runs_inv :: "db \<Rightarrow> bool" where
  "runs_inv d \<longleftrightarrow> distinct (map r_id (runs d))"

definition events_inv :: "db \<Rightarrow> bool" where
  "events_inv d \<longleftrightarrow>
     distinct (map ev_id (dispatch_events d)) \<and>
     (\<forall>e\<in>set (dispatch_events d). ev_id e < next_event d \<and> ev_run e \<in> r_id ` set (runs d))"

definition db_inv :: "db \<Rightarrow> bool" where
  "db_inv d \<longleftrightarrow> runs_inv d \<and> jobs_inv d \<and> ingest_inv d \<and> events_inv d"

lemma db_inv_empty: "db_inv empty_db"
  by (simp add: db_inv_def empty_db_def runs_inv_def jobs_inv_def ingest_inv_def events_inv_def)

lemmas inv_defs = db_inv_def runs_inv_def jobs_inv_def ingest_inv_def events_inv_def

text \<open>The parts of the invariant read only their own tables.\<close>

lemma jobs_inv_cong:
  "node_jobs d' = node_jobs d \<Longrightarrow> next_uuid d' = next_uuid d \<Longrightarrow> map r_id (runs d') = map r_id (runs d) \<Longrightarrow>
   jobs_inv d' = jobs_inv d"
  by (metis (no_types, lifting) jobs_inv_def list.set_map)

text \<open>
  An update of the jobs table that keeps the id, the DAG cell and the row invariant keeps the
  table invariant: the one lemma behind every queue transition.
\<close>

lemma jobs_inv_update:
  assumes "jobs_inv d"
    and "\<And>j. P j \<Longrightarrow> nj_id (f j) = nj_id j \<and> nj_run (f j) = nj_run j \<and> nj_node (f j) = nj_node j"
    and "\<And>j. j \<in> set (node_jobs d) \<Longrightarrow> P j \<Longrightarrow> job_wf j \<Longrightarrow> job_wf (f j)"
  shows "jobs_inv (d\<lparr>node_jobs := sql_update P f (node_jobs d)\<rparr>)"
proof -
  have "map nj_id (sql_update P f (node_jobs d)) = map nj_id (node_jobs d)"
    and "map job_cell (sql_update P f (node_jobs d)) = map job_cell (node_jobs d)"
    using assms(2) by (simp_all add: map_sql_update)
  moreover have "job_wf j \<and> nj_id j < next_uuid d \<and> nj_run j \<in> r_id ` set (runs d)"
    if "j \<in> set (sql_update P f (node_jobs d))" for j
    using that assms by (auto simp: jobs_inv_def elim!: mem_sql_updateE)
  ultimately show ?thesis
    using assms(1) by (simp add: jobs_inv_def)
qed

lemma ingest_inv_update:
  assumes "ingest_inv d"
    and "\<And>j. P j \<Longrightarrow> ij_id (f j) = ij_id j"
    and "\<And>j. j \<in> set (ingest_jobs d) \<Longrightarrow> P j \<Longrightarrow> ingest_wf j \<Longrightarrow> ingest_wf (f j)"
  shows "ingest_inv (d\<lparr>ingest_jobs := sql_update P f (ingest_jobs d)\<rparr>)"
proof -
  have "map ij_id (sql_update P f (ingest_jobs d)) = map ij_id (ingest_jobs d)"
    using assms(2) by (simp add: map_sql_update)
  moreover have "ingest_wf j \<and> ij_id j < next_uuid d"
    if "j \<in> set (sql_update P f (ingest_jobs d))" for j
    using that assms by (auto simp: ingest_inv_def elim!: mem_sql_updateE)
  ultimately show ?thesis
    using assms(1) by (simp add: ingest_inv_def)
qed

lemma jobs_inv_unique:
  "jobs_inv d \<Longrightarrow> j \<in> set (node_jobs d) \<Longrightarrow> job_of d (nj_id j) = Some j"
  by (auto simp: jobs_inv_def intro: row_of_mem)

text \<open>Statements on the other tables leave a table's invariant alone.\<close>

lemma jobs_inv_frame [simp]:
  "jobs_inv (d\<lparr>now := t\<rparr>) = jobs_inv d"
  "jobs_inv (d\<lparr>ingest_jobs := ij\<rparr>) = jobs_inv d"
  "jobs_inv (d\<lparr>heartbeats := hb\<rparr>) = jobs_inv d"
  "jobs_inv (d\<lparr>dispatch_events := ev\<rparr>) = jobs_inv d"
  "jobs_inv (d\<lparr>node_events := ne\<rparr>) = jobs_inv d"
  "jobs_inv (d\<lparr>submissions := sb\<rparr>) = jobs_inv d"
  "jobs_inv (d\<lparr>controls := wc\<rparr>) = jobs_inv d"
  "jobs_inv (d\<lparr>next_event := n\<rparr>) = jobs_inv d"
  "jobs_inv (d\<lparr>next_node_event := n\<rparr>) = jobs_inv d"
  by (simp_all add: jobs_inv_def)

lemma ingest_inv_frame [simp]:
  "ingest_inv (d\<lparr>now := t\<rparr>) = ingest_inv d"
  "ingest_inv (d\<lparr>runs := rs\<rparr>) = ingest_inv d"
  "ingest_inv (d\<lparr>node_jobs := js\<rparr>) = ingest_inv d"
  "ingest_inv (d\<lparr>heartbeats := hb\<rparr>) = ingest_inv d"
  "ingest_inv (d\<lparr>dispatch_events := ev\<rparr>) = ingest_inv d"
  "ingest_inv (d\<lparr>node_events := ne\<rparr>) = ingest_inv d"
  "ingest_inv (d\<lparr>submissions := sb\<rparr>) = ingest_inv d"
  "ingest_inv (d\<lparr>controls := wc\<rparr>) = ingest_inv d"
  "ingest_inv (d\<lparr>next_event := n\<rparr>) = ingest_inv d"
  "ingest_inv (d\<lparr>next_node_event := n\<rparr>) = ingest_inv d"
  by (simp_all add: ingest_inv_def)

lemma runs_inv_frame [simp]:
  "runs_inv (d\<lparr>now := t\<rparr>) = runs_inv d"
  "runs_inv (d\<lparr>node_jobs := js\<rparr>) = runs_inv d"
  "runs_inv (d\<lparr>ingest_jobs := ij\<rparr>) = runs_inv d"
  "runs_inv (d\<lparr>heartbeats := hb\<rparr>) = runs_inv d"
  "runs_inv (d\<lparr>dispatch_events := ev\<rparr>) = runs_inv d"
  "runs_inv (d\<lparr>node_events := ne\<rparr>) = runs_inv d"
  "runs_inv (d\<lparr>submissions := sb\<rparr>) = runs_inv d"
  "runs_inv (d\<lparr>controls := wc\<rparr>) = runs_inv d"
  "runs_inv (d\<lparr>next_uuid := n\<rparr>) = runs_inv d"
  "runs_inv (d\<lparr>next_event := n\<rparr>) = runs_inv d"
  "runs_inv (d\<lparr>next_node_event := n\<rparr>) = runs_inv d"
  by (simp_all add: runs_inv_def)

lemma events_inv_frame [simp]:
  "events_inv (d\<lparr>now := t\<rparr>) = events_inv d"
  "events_inv (d\<lparr>node_jobs := js\<rparr>) = events_inv d"
  "events_inv (d\<lparr>ingest_jobs := ij\<rparr>) = events_inv d"
  "events_inv (d\<lparr>heartbeats := hb\<rparr>) = events_inv d"
  "events_inv (d\<lparr>node_events := ne\<rparr>) = events_inv d"
  "events_inv (d\<lparr>submissions := sb\<rparr>) = events_inv d"
  "events_inv (d\<lparr>controls := wc\<rparr>) = events_inv d"
  "events_inv (d\<lparr>next_uuid := n\<rparr>) = events_inv d"
  "events_inv (d\<lparr>next_node_event := n\<rparr>) = events_inv d"
  by (simp_all add: events_inv_def)

end
