(* ===== verification/Queue_Interface.thy ===== *)
theory Queue_Interface
  imports Schema
begin

text \<open>
  The contract of a leased work queue, stated once: what a claim, a terminal mark and a lease
  reclaim promise. The node-job queue, the ingest queue and the storage backends each prove it
  for their own definitions; the delivery bounds below then hold for all of them.
\<close>

section \<open>Histories of a queue\<close>

datatype ('p, 'f, 'i, 'r, 'e) queue_op =
    Claim 'p
  | Finish 'f 'i
  | Reclaim 'r
  | Other 'e

fun is_reclaim :: "('p, 'f, 'i, 'r, 'e) queue_op \<Rightarrow> bool" where
  "is_reclaim (Reclaim _) = True"
| "is_reclaim _ = False"

text \<open>
  Playing a history of operations: the ids its claims delivered, in order, and the last state.
\<close>

fun play :: "('p \<Rightarrow> 's \<Rightarrow> 'i option \<times> 's) \<Rightarrow> ('f \<Rightarrow> 'i \<Rightarrow> 's \<Rightarrow> bool \<times> 's) \<Rightarrow> ('r \<Rightarrow> 's \<Rightarrow> 's) \<Rightarrow>
    ('e \<Rightarrow> 's \<Rightarrow> 's) \<Rightarrow> ('p, 'f, 'i, 'r, 'e) queue_op list \<Rightarrow> 's \<Rightarrow> 'i list \<times> 's" where
  "play cl fi re ot [] s = ([], s)"
| "play cl fi re ot (Claim p # ops) s =
     (case cl p s of
        (None, s') \<Rightarrow> play cl fi re ot ops s'
      | (Some i, s') \<Rightarrow> (case play cl fi re ot ops s' of (ds, t) \<Rightarrow> (i # ds, t)))"
| "play cl fi re ot (Finish f i # ops) s = play cl fi re ot ops (snd (fi f i s))"
| "play cl fi re ot (Reclaim r # ops) s = play cl fi re ot ops (re r s)"
| "play cl fi re ot (Other e # ops) s = play cl fi re ot ops (ot e s)"

text \<open>Every terminal mark of the history meets the queue's precondition \<^verbatim>\<open>mf\<close> at that moment.\<close>

fun lawful :: "('s \<Rightarrow> 'i \<Rightarrow> bool) \<Rightarrow> ('p \<Rightarrow> 's \<Rightarrow> 'i option \<times> 's) \<Rightarrow>
    ('f \<Rightarrow> 'i \<Rightarrow> 's \<Rightarrow> bool \<times> 's) \<Rightarrow> ('r \<Rightarrow> 's \<Rightarrow> 's) \<Rightarrow> ('e \<Rightarrow> 's \<Rightarrow> 's) \<Rightarrow>
    ('p, 'f, 'i, 'r, 'e) queue_op list \<Rightarrow> 's \<Rightarrow> bool" where
  "lawful mf cl fi re ot [] s = True"
| "lawful mf cl fi re ot (Claim p # ops) s = lawful mf cl fi re ot ops (snd (cl p s))"
| "lawful mf cl fi re ot (Finish f i # ops) s =
     (mf s i \<and> lawful mf cl fi re ot ops (snd (fi f i s)))"
| "lawful mf cl fi re ot (Reclaim r # ops) s = lawful mf cl fi re ot ops (re r s)"
| "lawful mf cl fi re ot (Other e # ops) s = lawful mf cl fi re ot ops (ot e s)"

text \<open>A queue whose terminal marks have no precondition has only lawful histories.\<close>

lemma lawful_trivial [simp]: "lawful (\<lambda>_ _. True) cl fi re ot ops s"
proof (induction ops arbitrary: s)
  case (Cons x ops)
  then show ?case by (cases x) simp_all
qed simp

section \<open>The contract\<close>

text \<open>
  A claim moves one queued job to running under the claimer's name and touches nothing else; a
  terminal mark moves an open job to a final state and is a no-op on a final or absent one; a
  reclaim moves running jobs back to queued (or to cancelled) and nothing else; any other
  operation neither reopens nor queues an existing job.
\<close>

locale leased_queue =
  fixes inv :: "'s \<Rightarrow> bool"
    and status :: "'s \<Rightarrow> 'i \<Rightarrow> job_status option"
    and owner :: "'s \<Rightarrow> 'i \<Rightarrow> 'h option"
    and claim :: "'p \<Rightarrow> 's \<Rightarrow> 'i option \<times> 's"
    and who :: "'p \<Rightarrow> 'h option"
    and may_finish :: "'s \<Rightarrow> 'i \<Rightarrow> bool"
    and finish :: "'f \<Rightarrow> 'i \<Rightarrow> 's \<Rightarrow> bool \<times> 's"
    and reclaim :: "'r \<Rightarrow> 's \<Rightarrow> 's"
    and other :: "'e \<Rightarrow> 's \<Rightarrow> 's"
  assumes claim_Some: "inv s \<Longrightarrow> claim p s = (Some i, s') \<Longrightarrow>
      status s i = Some Queued \<and> status s' i = Some Running \<and> owner s' i = who p"
    and claim_frame: "inv s \<Longrightarrow> claim p s = (Some i, s') \<Longrightarrow> k \<noteq> i \<Longrightarrow>
      status s' k = status s k \<and> owner s' k = owner s k"
    and claim_None: "inv s \<Longrightarrow> claim p s = (None, s') \<Longrightarrow> s' = s"
    and claim_inv: "inv s \<Longrightarrow> inv (snd (claim p s))"
    and finish_open: "inv s \<Longrightarrow> may_finish s i \<Longrightarrow> status s i = Some t \<Longrightarrow> \<not> guarded_terminal t \<Longrightarrow>
      finish f i s = (b, s') \<Longrightarrow> b \<and> (\<exists>t'. status s' i = Some t' \<and> guarded_terminal t')"
    and finish_final: "inv s \<Longrightarrow> may_finish s i \<Longrightarrow> status s i = Some t \<Longrightarrow> guarded_terminal t \<Longrightarrow>
      finish f i s = (False, s)"
    and finish_absent: "inv s \<Longrightarrow> may_finish s i \<Longrightarrow> status s i = None \<Longrightarrow> finish f i s = (False, s)"
    and finish_frame: "inv s \<Longrightarrow> may_finish s i \<Longrightarrow> k \<noteq> i \<Longrightarrow> status (snd (finish f i s)) k = status s k"
    and finish_inv: "inv s \<Longrightarrow> may_finish s i \<Longrightarrow> inv (snd (finish f i s))"
    and reclaim_status: "inv s \<Longrightarrow> status (reclaim c s) k = status s k \<or>
      status s k = Some Running \<and> (status (reclaim c s) k = Some Queued \<or> status (reclaim c s) k = Some Cancelled)"
    and reclaim_inv: "inv s \<Longrightarrow> inv (reclaim c s)"
    and other_status: "inv s \<Longrightarrow> status s k = Some t \<Longrightarrow>
      status (other e s) k = Some t \<or>
      \<not> guarded_terminal t \<and> (\<exists>t'. status (other e s) k = Some t' \<and> t' \<noteq> Queued)"
    and other_inv: "inv s \<Longrightarrow> inv (other e s)"
begin

abbreviation history :: "('p, 'f, 'i, 'r, 'e) queue_op list \<Rightarrow> 's \<Rightarrow> 'i list \<times> 's" where
  "history \<equiv> play claim finish reclaim other"

abbreviation legal :: "('p, 'f, 'i, 'r, 'e) queue_op list \<Rightarrow> 's \<Rightarrow> bool" where
  "legal \<equiv> lawful may_finish claim finish reclaim other"

text \<open>Whether a job can still be delivered without a reclaim: it is queued, or not there yet.\<close>

abbreviation fresh :: "'s \<Rightarrow> 'i \<Rightarrow> bool" where
  "fresh s i \<equiv> status s i = Some Queued \<or> status s i = None"

lemma history_inv: "inv s \<Longrightarrow> legal ops s \<Longrightarrow> inv (snd (history ops s))"
proof (induction ops arbitrary: s)
  case (Cons x ops)
  then show ?case
  proof (cases x)
    case (Claim p)
    have "inv (snd (claim p s))" using Cons.prems claim_inv by blast
    with Cons.IH[of "snd (claim p s)"] Cons.prems Claim show ?thesis
      by (auto split: prod.splits option.splits)
  qed (auto simp: finish_inv reclaim_inv other_inv)
qed simp

text \<open>A terminal mark never makes a job deliverable.\<close>

lemma finish_not_fresh:
  assumes "inv s" and "may_finish s k" and "finish f k s = (b, s')" and "fresh s' i"
  shows "fresh s i"
proof (cases "i = k")
  case True
  show ?thesis
  proof (cases "status s k")
    case None
    with True show ?thesis by simp
  next
    case (Some t)
    with True assms finish_open[of s k t f b s'] finish_final[of s k t f] show ?thesis
      by (cases "guarded_terminal t") (auto simp: guarded_terminal_def)
  qed
next
  case False
  with finish_frame[of s k i f] assms show ?thesis by simp
qed

lemma other_not_fresh: "inv s \<Longrightarrow> fresh (other e s) i \<Longrightarrow> fresh s i"
  using other_status[of s i _ e] by (cases "status s i") auto

text \<open>Every delivery of one job beyond the first is paid for by a reclaim.\<close>

lemma deliveries_bounded:
  "inv s \<Longrightarrow> legal ops s \<Longrightarrow>
   count_list (fst (history ops s)) i
     \<le> (if fresh s i then 1 else 0) + length (filter is_reclaim ops)"
proof (induction ops arbitrary: s)
  case Nil
  then show ?case by simp
next
  case (Cons x ops)
  show ?case
  proof (cases x)
    case (Claim p)
    obtain r s' where cl: "claim p s = (r, s')" by fastforce
    have inv': "inv s'" using Cons.prems claim_inv[of s p] cl by simp
    with Cons.prems Claim cl Cons.IH[of s']
    have IH: "count_list (fst (history ops s')) i
        \<le> (if fresh s' i then 1 else 0) + length (filter is_reclaim ops)" by simp
    show ?thesis
    proof (cases r)
      case None
      with cl Cons.prems claim_None[of s p s'] IH Claim show ?thesis by simp
    next
      case (Some k)
      note k = claim_Some[OF Cons.prems(1) cl[unfolded Some]]
      have frame: "i \<noteq> k \<Longrightarrow> status s' i = status s i"
        using claim_frame[OF Cons.prems(1) cl[unfolded Some]] by simp
      have "count_list (fst (history (x # ops) s)) i =
          (if i = k then 1 else 0) + count_list (fst (history ops s')) i"
        using Claim cl Some by (simp split: prod.splits)
      with k frame IH Claim show ?thesis by (cases "i = k") simp_all
    qed
  next
    case (Finish f k)
    obtain b s' where fin: "finish f k s = (b, s')" by fastforce
    have inv': "inv s'" and mf: "may_finish s k"
      using Cons.prems finish_inv[of s k f] Finish fin by simp_all
    from inv' Cons.IH[of s'] Cons.prems Finish fin
    have "count_list (fst (history (x # ops) s)) i
        \<le> (if fresh s' i then 1 else 0) + length (filter is_reclaim ops)" by simp
    with finish_not_fresh[OF Cons.prems(1) mf fin, of i] Finish show ?thesis
      by (cases "fresh s' i") auto
  next
    case (Reclaim c)
    with Cons.prems reclaim_inv[of s c] Cons.IH[of "reclaim c s"]
    have "count_list (fst (history ops (reclaim c s))) i \<le> 1 + length (filter is_reclaim ops)"
      by (auto split: if_splits)
    with Reclaim show ?thesis by (auto split: if_splits)
  next
    case (Other e)
    from Other Cons.IH[of "other e s"] Cons.prems other_inv[of s e]
    have "count_list (fst (history (x # ops) s)) i
        \<le> (if fresh (other e s) i then 1 else 0) + length (filter is_reclaim ops)" by simp
    with other_not_fresh[OF Cons.prems(1), of e i] Other show ?thesis
      by (cases "fresh (other e s) i") auto
  qed
qed

lemma exactly_once:
  assumes "inv s" and "legal ops s" and none: "filter is_reclaim ops = []"
  shows "distinct (fst (history ops s)) \<and> (\<forall>i\<in>set (fst (history ops s)). fresh s i)"
proof -
  have le: "count_list (fst (history ops s)) i \<le> (if fresh s i then 1 else 0)" for i
    using deliveries_bounded[OF assms(1,2), of i] none by simp
  have "distinct (fst (history ops s))"
  proof (rule distinct_of_count)
    show "count_list (fst (history ops s)) i \<le> 1" for i using le[of i] by (simp split: if_splits)
  qed
  moreover have "fresh s i" if "i \<in> set (fst (history ops s))" for i
    using le[of i] that count_list_0_iff[of "fst (history ops s)" i] by (auto split: if_splits)
  ultimately show ?thesis by simp
qed

text \<open>A final state is kept for good, and a job in it is never delivered again.\<close>

lemma terminal_kept:
  "inv s \<Longrightarrow> legal ops s \<Longrightarrow> status s i = Some st \<Longrightarrow> guarded_terminal st \<Longrightarrow>
   status (snd (history ops s)) i = Some st \<and> i \<notin> set (fst (history ops s))"
proof (induction ops arbitrary: s)
  case (Cons x ops)
  show ?case
  proof (cases x)
    case (Claim p)
    obtain r s' where cl: "claim p s = (r, s')" by fastforce
    have inv': "inv s'" using Cons.prems claim_inv[of s p] cl by simp
    have "status s' i = Some st \<and> r \<noteq> Some i"
    proof (cases r)
      case None
      with cl claim_None[of s p s'] Cons.prems show ?thesis by simp
    next
      case (Some k)
      with claim_Some[of s p k s'] claim_frame[of s p k s' i] cl Cons.prems
      show ?thesis by (cases "i = k") (auto simp: guarded_terminal_def)
    qed
    with inv' Cons.IH[of s'] Cons.prems Claim cl show ?thesis
      by (auto split: prod.splits option.splits)
  next
    case (Finish f k)
    have "status (snd (finish f k s)) i = Some st"
      using finish_frame[of s k i f] finish_final[of s k st f] Cons.prems Finish
      by (cases "k = i") auto
    with Finish Cons finish_inv[of s k f] show ?thesis by simp
  next
    case (Reclaim c)
    with Cons reclaim_inv[of s c] reclaim_status[of s c i] show ?thesis
      by (auto simp: guarded_terminal_def)
  next
    case (Other e)
    with Cons other_inv[of s e] other_status[of s i st e] show ?thesis by auto
  qed
qed simp

end

end
