(* ===== verification/Node_Queue.thy ===== *)
theory Node_Queue
  imports Queue_Interface
begin

text \<open>
  The node-job half of \<^verbatim>\<open>node_queue.py\<close>: enqueue, the \<^verbatim>\<open>SKIP LOCKED\<close> claims, the terminal
  marks, the lease reclaim and the per-run maintenance statements. Each function is one SQL
  statement, hence one atomic step on the database; \<^verbatim>\<open>now()\<close> is the clock of the database.
\<close>

section \<open>Enqueue\<close>

definition fresh_job :: "nat \<Rightarrow> string \<Rightarrow> string option \<Rightarrow> string \<Rightarrow> string \<Rightarrow> string \<Rightarrow>
    string option \<Rightarrow> string \<Rightarrow> int \<Rightarrow> jdict \<Rightarrow> int \<Rightarrow> node_job" where
  "fresh_job row_id run_id pipeline node_id node_module queue model project priority inputs created =
     \<lparr>nj_id = row_id, nj_run = run_id, nj_pipeline = pipeline, nj_node = node_id,
      nj_module = node_module, nj_queue = queue, nj_model = model, nj_project = project,
      nj_status = Queued, nj_priority = priority, nj_is_priority = False, nj_inputs = inputs,
      nj_resolved = None, nj_input_spec = None, nj_delta = [], nj_created = created,
      nj_started = None, nj_finished = None, nj_lane = None, nj_claimed = None, nj_lease = None,
      nj_retries = 0, nj_host = None, nj_error = None, nj_seconds = None, nj_rss = None,
      nj_unassignable = None, nj_unassignable_reason = None\<rparr>"

text \<open>
  \<^verbatim>\<open>INSERT INTO workflow_node_jobs\<close> under the table's constraints: the foreign key to the run,
  UNIQUE (run_id, node_id), and the CHECK that a cpu row carries no model. The id is fresh.
\<close>

definition insert_job :: "node_job \<Rightarrow> (db, nat) act" where
  "insert_job j d =
     (if \<not> (nj_queue j = ''gpu'' \<or> nj_model j = None) then (Inl CheckViolation, d)
      else if nj_run j \<notin> r_id ` set (runs d) then (Inl ForeignKeyViolation, d)
      else if job_cell j \<in> job_cell ` set (node_jobs d) then (Inl UniqueViolation, d)
      else (Inr (nj_id j), d\<lparr>node_jobs := node_jobs d @ [j], next_uuid := Suc (next_uuid d)\<rparr>))"

record enqueue_args =
  ea_run :: string
  ea_node :: string
  ea_module :: string
  ea_queue :: string
  ea_model :: "string option"
  ea_inputs :: jdict
  ea_priority :: int
  ea_pipeline :: "string option"
  ea_project :: "string option"

definition enqueue_node_job :: "config \<Rightarrow> enqueue_args \<Rightarrow> (db, nat) act" where
  "enqueue_node_job cfg a d =
     (if \<not> (ea_queue a = ''cpu'' \<or> ea_queue a = ''gpu'')
      then (Inl (ValueError ''queue must be cpu or gpu''), d)
      else if ea_queue a = ''cpu'' \<and> ea_model a \<noteq> None \<and> ea_model a \<noteq> Some []
      then (Inl (ValueError ''cpu node-job must not set required_model''), d)
      else insert_job
        (fresh_job (next_uuid d) (ea_run a) (ea_pipeline a) (ea_node a) (ea_module a) (ea_queue a)
          (ea_model a) (project_of cfg (ea_project a)) (ea_priority a) (ea_inputs a) (now d)) d)"

definition insert_skipped_job ::
  "config \<Rightarrow> string \<Rightarrow> string \<Rightarrow> string option \<Rightarrow> string option \<Rightarrow> (db, nat) act" where
  "insert_skipped_job cfg run_id node_id pipeline project d =
     insert_job
       ((fresh_job (next_uuid d) run_id pipeline node_id [] ''cpu'' None (project_of cfg project)
          100 [] (now d))\<lparr>nj_status := Skipped, nj_finished := Some (now d)\<rparr>) d"

definition get_node_job :: "nat \<Rightarrow> db \<Rightarrow> node_job option" where
  "get_node_job job_id d = job_of d job_id"

definition list_jobs_for_run :: "string \<Rightarrow> db \<Rightarrow> node_job list" where
  "list_jobs_for_run run_id d = sort_key nj_created (sql_select (\<lambda>j. nj_run j = run_id) (node_jobs d))"

text \<open>One \<^verbatim>\<open>UPDATE workflow_node_jobs SET f WHERE P RETURNING *\<close>.\<close>

definition update_jobs :: "(node_job \<Rightarrow> bool) \<Rightarrow> (node_job \<Rightarrow> node_job) \<Rightarrow> db \<Rightarrow> node_job list \<times> db" where
  "update_jobs P f d =
     (sql_returning P f (node_jobs d), d\<lparr>node_jobs := sql_update P f (node_jobs d)\<rparr>)"

definition update_job :: "nat \<Rightarrow> (node_job \<Rightarrow> bool) \<Rightarrow> (node_job \<Rightarrow> node_job) \<Rightarrow> db \<Rightarrow>
    node_job option \<times> db" where
  "update_job job_id Q f d =
     (case update_jobs (\<lambda>j. nj_id j = job_id \<and> Q j) f d of (rows, d') \<Rightarrow> (fetchone rows, d'))"

definition prioritize_node_job :: "nat \<Rightarrow> db \<Rightarrow> node_job option \<times> db" where
  "prioritize_node_job job_id =
     update_job job_id (\<lambda>j. nj_status j = Queued) (\<lambda>j. j\<lparr>nj_is_priority := True\<rparr>)"

section \<open>Claim\<close>

definition default_lease_s :: int where
  "default_lease_s = 600"

definition stale_worker_after_s :: int where
  "stale_worker_after_s = 30"

definition host_dir :: "int \<Rightarrow> int" where
  "host_dir host_priority = (if host_priority < 0 then - 1 else 1)"

record claim_args =
  ca_lane :: int
  ca_host :: "string option"
  ca_lease_s :: int
  ca_host_priority :: int
  ca_project :: "string option"

record gpu_claim_args = claim_args +
  ca_current_model :: "string option"
  ca_known_models :: "string list"
  ca_require_model :: "bool option"
  ca_pool_modules :: "string list"

text \<open>The run-cancel guard: the parent run exists and is neither cancelled nor failed.\<close>

definition run_live :: "db \<Rightarrow> string \<Rightarrow> bool" where
  "run_live d run_id \<longleftrightarrow>
     list_ex (\<lambda>r. r_id r = run_id \<and> \<not> (r_status r = R_cancelled \<or> r_status r = R_failed)) (runs d)"

definition claimable :: "db \<Rightarrow> string \<Rightarrow> string \<Rightarrow> (node_job \<Rightarrow> bool) \<Rightarrow> node_job \<Rightarrow> bool" where
  "claimable d queue project capability c \<longleftrightarrow>
     nj_queue c = queue \<and> nj_status c = Queued \<and> nj_project c = project \<and>
     run_live d (nj_run c) \<and> capability c"

definition stamp_claim :: "db \<Rightarrow> claim_args \<Rightarrow> node_job \<Rightarrow> node_job" where
  "stamp_claim d a j =
     j\<lparr>nj_status := Running, nj_started := Some (now d), nj_lane := Some (ca_lane a),
       nj_claimed := ca_host a, nj_lease := Some (now d + secs (ca_lease_s a))\<rparr>"

text \<open>\<^verbatim>\<open>_CLAIM_SQL\<close>\<close>

definition claim_sql :: "db \<Rightarrow> string \<Rightarrow> string \<Rightarrow> (node_job \<Rightarrow> bool) \<Rightarrow> (node_job \<Rightarrow> 'k::linorder) \<Rightarrow>
    claim_args \<Rightarrow> node_job option \<times> db" where
  "claim_sql d queue project capability key a =
     (case first_by key (sql_select (claimable d queue project capability) (node_jobs d)) of
        None \<Rightarrow> (None, d)
      | Some c \<Rightarrow> update_job (nj_id c) (\<lambda>j. True) (stamp_claim d a) d)"

definition cpu_order :: "int \<Rightarrow> node_job \<Rightarrow> bool \<times> int \<times> int" where
  "cpu_order dir c = (\<not> nj_is_priority c, nj_priority c, nj_created c * dir)"

definition gpu_order :: "string option \<Rightarrow> int \<Rightarrow> node_job \<Rightarrow> bool \<times> bool \<times> int \<times> int" where
  "gpu_order current_model dir c =
     (\<not> nj_is_priority c, nj_model c \<noteq> current_model, nj_priority c, nj_created c * dir)"

definition claim_next_cpu_job :: "config \<Rightarrow> claim_args \<Rightarrow> db \<Rightarrow> node_job option \<times> db" where
  "claim_next_cpu_job cfg a d =
     claim_sql d ''cpu'' (project_of cfg (ca_project a)) (\<lambda>c. True)
       (cpu_order (host_dir (ca_host_priority a))) a"

text \<open>The capability terms of \<^verbatim>\<open>claim_next_gpu_job\<close>, after the falsy entries are dropped.\<close>

definition gpu_capability :: "string list \<Rightarrow> bool option \<Rightarrow> string list \<Rightarrow> node_job \<Rightarrow> bool" where
  "gpu_capability known require_model pool c \<longleftrightarrow>
     (known \<noteq> [] \<longrightarrow> (case nj_model c of None \<Rightarrow> True | Some m \<Rightarrow> m \<in> set known)) \<and>
     (case require_model of
        None \<Rightarrow> True
      | Some True \<Rightarrow>
          (if pool \<noteq> [] then nj_model c \<noteq> None \<or> nj_module c \<notin> set pool else nj_model c \<noteq> None)
      | Some False \<Rightarrow>
          (if pool \<noteq> [] then nj_model c = None \<and> nj_module c \<in> set pool else nj_model c = None))"

definition claim_next_gpu_job :: "config \<Rightarrow> gpu_claim_args \<Rightarrow> db \<Rightarrow> node_job option \<times> db" where
  "claim_next_gpu_job cfg a d =
     (let known = filter (\<lambda>m. m \<noteq> []) (ca_known_models a);
          pool = filter (\<lambda>m. m \<noteq> []) (ca_pool_modules a)
      in claim_sql d ''gpu'' (project_of cfg (ca_project a))
           (gpu_capability known (ca_require_model a) pool)
           (gpu_order (ca_current_model a) (host_dir (ca_host_priority a)))
           (claim_args.truncate a))"

section \<open>Lease renewal and reclaim\<close>

text \<open>\<^verbatim>\<open>LeaseRenewer._renew_once\<close> on the node-job table.\<close>

definition renew_lease :: "nat \<Rightarrow> string \<Rightarrow> int \<Rightarrow> db \<Rightarrow> bool \<times> db" where
  "renew_lease job_id claimed_by lease_s d =
     (case update_job job_id (\<lambda>j. nj_claimed j = Some claimed_by \<and> nj_status j = Running)
             (\<lambda>j. j\<lparr>nj_lease := Some (now d + secs lease_s)\<rparr>) d of
        (row, d') \<Rightarrow> (row \<noteq> None, d'))"

definition lease_lapsed :: "db \<Rightarrow> node_job \<Rightarrow> bool" where
  "lease_lapsed d j \<longleftrightarrow>
     nj_status j = Running \<and> (case nj_lease j of None \<Rightarrow> False | Some t \<Rightarrow> t < now d)"

text \<open>
  The one UPDATE of \<^verbatim>\<open>reclaim_expired_leases\<close>, which branches on the joined run's status: a row
  whose run is \<^verbatim>\<open>running\<close> goes back to the queue, any other goes to \<^verbatim>\<open>cancelled\<close>.
\<close>

definition reclaim_row :: "db \<Rightarrow> node_job \<Rightarrow> node_job" where
  "reclaim_row d j =
     (if (case run_of d (nj_run j) of None \<Rightarrow> False | Some r \<Rightarrow> r_status r = R_running)
      then j\<lparr>nj_status := Queued, nj_started := None, nj_claimed := None, nj_lease := None,
             nj_priority := min (nj_priority j) 10\<rparr>
      else j\<lparr>nj_status := Cancelled, nj_claimed := None, nj_lease := None,
             nj_finished := Some (now d)\<rparr>)"

definition reclaim_expired_leases :: "db \<Rightarrow> (nat \<times> string \<times> string) list \<times> db" where
  "reclaim_expired_leases d =
     (case update_jobs (\<lambda>j. run_of d (nj_run j) \<noteq> None \<and> lease_lapsed d j) (reclaim_row d) d of
        (rows, d') \<Rightarrow> (map (\<lambda>j. (nj_id j, nj_run j, nj_node j)) rows, d'))"

definition back_to_queue :: "node_job \<Rightarrow> node_job" where
  "back_to_queue j = j\<lparr>nj_status := Queued, nj_started := None, nj_claimed := None,
     nj_lease := None, nj_priority := min (nj_priority j) 10\<rparr>"

definition requeue_job_for_retry :: "nat \<Rightarrow> db \<Rightarrow> node_job option \<times> db" where
  "requeue_job_for_retry job_id =
     update_job job_id (\<lambda>j. nj_status j = Running)
       (\<lambda>j. (back_to_queue j)\<lparr>nj_retries := nj_retries j + 1\<rparr>)"

section \<open>Terminal marks\<close>

text \<open>\<^verbatim>\<open>error[:8000] if error else error\<close>\<close>

definition clip_error :: "string option \<Rightarrow> string option" where
  "clip_error e = map_option (take 8000) e"

abbreviation not_final :: "node_job \<Rightarrow> bool" where
  "not_final j \<equiv> \<not> guarded_terminal (nj_status j)"

definition coalesce :: "'a option \<Rightarrow> 'a option \<Rightarrow> 'a option" where
  "coalesce a b = (case a of Some x \<Rightarrow> Some x | None \<Rightarrow> b)"

definition mark_completed :: "nat \<Rightarrow> jdict \<Rightarrow> int \<Rightarrow> int option \<Rightarrow> db \<Rightarrow> node_job option \<times> db" where
  "mark_completed job_id context_delta seconds rss d =
     update_job job_id not_final
       (\<lambda>j. j\<lparr>nj_status := Completed, nj_finished := Some (now d), nj_delta := context_delta,
              nj_seconds := Some seconds, nj_rss := rss,
              nj_host := coalesce (nj_host j) (nj_claimed j)\<rparr>) d"

definition mark_failed :: "nat \<Rightarrow> string option \<Rightarrow> int option \<Rightarrow> db \<Rightarrow> node_job option \<times> db" where
  "mark_failed job_id error seconds d =
     update_job job_id not_final
       (\<lambda>j. j\<lparr>nj_status := Failed, nj_finished := Some (now d), nj_error := clip_error error,
              nj_seconds := seconds, nj_host := coalesce (nj_host j) (nj_claimed j)\<rparr>) d"

definition mark_awaiting_input :: "nat \<Rightarrow> db \<Rightarrow> node_job option \<times> db" where
  "mark_awaiting_input job_id =
     update_job job_id not_final (\<lambda>j. j\<lparr>nj_status := Awaiting_input\<rparr>)"

definition set_input_spec :: "string \<Rightarrow> string \<Rightarrow> json option \<Rightarrow> db \<Rightarrow> db" where
  "set_input_spec run_id node_id spec d =
     snd (update_jobs (\<lambda>j. nj_run j = run_id \<and> nj_node j = node_id \<and> nj_status j = Awaiting_input)
       (\<lambda>j. j\<lparr>nj_input_spec := spec\<rparr>) d)"

definition set_resolved_inputs :: "nat \<Rightarrow> jdict \<Rightarrow> db \<Rightarrow> db" where
  "set_resolved_inputs job_id inputs d =
     snd (update_job job_id (\<lambda>j. True) (\<lambda>j. j\<lparr>nj_resolved := Some inputs\<rparr>) d)"

section \<open>Per-run maintenance\<close>

definition cancel_row :: "db \<Rightarrow> node_job \<Rightarrow> node_job" where
  "cancel_row d j = j\<lparr>nj_status := Cancelled, nj_finished := Some (now d)\<rparr>"

definition cancel_queued_jobs_for_run :: "string \<Rightarrow> db \<Rightarrow> nat \<times> db" where
  "cancel_queued_jobs_for_run run_id d =
     (case update_jobs (\<lambda>j. nj_run j = run_id \<and> nj_status j = Queued) (cancel_row d) d of
        (rows, d') \<Rightarrow> (length rows, d'))"

definition cancel_siblings_after_failure :: "string \<Rightarrow> db \<Rightarrow> nat \<times> db" where
  "cancel_siblings_after_failure run_id = cancel_queued_jobs_for_run run_id"

definition delete_non_terminal_jobs_for_run :: "string \<Rightarrow> db \<Rightarrow> string list \<times> db" where
  "delete_non_terminal_jobs_for_run run_id d =
     (let P = (\<lambda>j. nj_run j = run_id \<and> \<not> (nj_status j = Completed \<or> nj_status j = Skipped))
      in (map nj_node (sql_select P (node_jobs d)), d\<lparr>node_jobs := sql_delete P (node_jobs d)\<rparr>))"

definition cancel_orphaned_queued_jobs :: "config \<Rightarrow> string option \<Rightarrow> db \<Rightarrow> nat \<times> db" where
  "cancel_orphaned_queued_jobs cfg project d =
     (case update_jobs
        (\<lambda>j. nj_project j = project_of cfg project \<and> nj_status j = Queued \<and>
             list_ex (\<lambda>r. nj_run j = r_id r \<and> (r_status r = R_cancelled \<or> r_status r = R_failed)) (runs d))
        (cancel_row d) d of
        (rows, d') \<Rightarrow> (length rows, d'))"

lemmas job_statement_defs [op_defs] =
  update_job_def update_jobs_def prioritize_node_job_def renew_lease_def
  requeue_job_for_retry_def mark_completed_def mark_failed_def mark_awaiting_input_def

section \<open>Every statement keeps the invariant\<close>

lemma snd_update_job [simp]:
  "snd (update_job k Q f d) = d\<lparr>node_jobs := sql_update (\<lambda>j. nj_id j = k \<and> Q j) f (node_jobs d)\<rparr>"
  by (simp add: update_job_def update_jobs_def)

lemma snd_update_jobs [simp]:
  "snd (update_jobs P f d) = d\<lparr>node_jobs := sql_update P f (node_jobs d)\<rparr>"
  by (simp add: update_jobs_def)

lemma snd_case_pair [simp]: "snd (case x of (a, b) \<Rightarrow> (g a b, b)) = snd x"
  by (cases x) simp

lemma job_wf_fresh [simp]:
  "job_wf (fresh_job i r p n m q mdl prj pr inp t) \<longleftrightarrow>
     (q = ''cpu'' \<or> q = ''gpu'') \<and> (q = ''cpu'' \<longrightarrow> mdl = None)"
  by (auto simp: job_wf_def fresh_job_def guarded_terminal_def)

lemma insert_job_inv:
  assumes "jobs_inv d" and "job_wf j" and "nj_id j = next_uuid d"
  shows "jobs_inv (snd (insert_job j d))"
  using assms by (force simp: insert_job_def jobs_inv_def)

lemma enqueue_node_job_inv: "jobs_inv d \<Longrightarrow> jobs_inv (snd (enqueue_node_job cfg a d))"
proof (cases "ea_queue a = ''gpu'' \<or> ea_model a = None")
  case True
  assume inv: "jobs_inv d"
  from True inv show ?thesis
    by (auto simp: enqueue_node_job_def intro!: insert_job_inv) (simp_all add: fresh_job_def)
next
  case False
  assume "jobs_inv d"
  with False show ?thesis
    by (auto simp: enqueue_node_job_def insert_job_def fresh_job_def)
qed

lemma insert_skipped_job_inv: "jobs_inv d \<Longrightarrow> jobs_inv (snd (insert_skipped_job cfg r n p prj d))"
  unfolding insert_skipped_job_def
  by (rule insert_job_inv) (auto simp: job_wf_def fresh_job_def guarded_terminal_def)

lemma claim_sql_inv: "jobs_inv d \<Longrightarrow> jobs_inv (snd (claim_sql d q prj cap key a))"
proof -
  assume inv: "jobs_inv d"
  show ?thesis
  proof (cases "first_by key (sql_select (claimable d q prj cap) (node_jobs d))")
    case None
    with inv show ?thesis by (simp add: claim_sql_def)
  next
    case (Some c)
    then have "c \<in> set (node_jobs d)" and "nj_status c = Queued"
      by (auto dest!: first_by_mem simp: sql_select_def claimable_def)
    with inv Some show ?thesis
      by (auto simp: claim_sql_def intro!: jobs_inv_update)
        (auto simp: stamp_claim_def job_wf_def guarded_terminal_def jobs_inv_def
          dest: distinct_map_filter_eq)
  qed
qed

lemmas row_update_defs = job_wf_def guarded_terminal_def reclaim_row_def back_to_queue_def
  cancel_row_def lease_lapsed_def coalesce_def

text \<open>The bulk statements: the row update keeps the row invariant where the WHERE clause holds.\<close>

lemma claim_inv:
  assumes "jobs_inv d"
  shows "jobs_inv (snd (claim_next_cpu_job cfg a d))" and "jobs_inv (snd (claim_next_gpu_job cfg g d))"
  using assms by (simp_all add: claim_next_cpu_job_def claim_next_gpu_job_def Let_def claim_sql_inv)

lemma reclaim_expired_leases_inv: "jobs_inv d \<Longrightarrow> jobs_inv (snd (reclaim_expired_leases d))"
  unfolding reclaim_expired_leases_def
  by (simp add: split_def) (rule jobs_inv_update, auto simp: row_update_defs split: if_splits)

lemma mark_inv:
  assumes "jobs_inv d"
  shows "jobs_inv (snd (mark_completed k delta s rss d))"
    and "jobs_inv (snd (mark_failed k e so d))"
    and "jobs_inv (snd (mark_awaiting_input k d))"
    and "jobs_inv (snd (requeue_job_for_retry k d))"
    and "jobs_inv (snd (prioritize_node_job k d))"
    and "jobs_inv (snd (renew_lease k w l d))"
  using assms
  by (simp_all add: mark_completed_def mark_failed_def mark_awaiting_input_def renew_lease_def
      requeue_job_for_retry_def prioritize_node_job_def split_def)
    (rule jobs_inv_update; auto simp: row_update_defs)+

lemma maintenance_inv:
  assumes "jobs_inv d"
  shows "jobs_inv (set_input_spec r n sp d)"
    and "jobs_inv (set_resolved_inputs k ri d)"
    and "jobs_inv (snd (cancel_queued_jobs_for_run r d))"
    and "jobs_inv (snd (cancel_orphaned_queued_jobs cfg prj d))"
  using assms
  by (simp_all add: set_input_spec_def set_resolved_inputs_def cancel_queued_jobs_for_run_def
      cancel_orphaned_queued_jobs_def split_def)
    (rule jobs_inv_update; auto simp: row_update_defs)+

lemma delete_non_terminal_inv: "jobs_inv d \<Longrightarrow> jobs_inv (snd (delete_non_terminal_jobs_for_run r d))"
  by (auto simp: delete_non_terminal_jobs_for_run_def jobs_inv_def sql_delete_def distinct_map_filter)

section \<open>What a statement on one row does to every lookup\<close>

lemma job_fetch_update:
  assumes "jobs_inv d" and "\<And>j. nj_id (f j) = nj_id j"
  shows "fst (update_job k Q f d) =
    (case job_of d k of None \<Rightarrow> None | Some j \<Rightarrow> if Q j then Some (f j) else None)"
  using assms fetchone_returning[of nj_id "node_jobs d" f k Q]
  by (simp add: update_job_def update_jobs_def jobs_inv_def)

lemma job_update_none:
  assumes "jobs_inv d" and "\<And>j. job_of d k = Some j \<Longrightarrow> \<not> Q j"
  shows "update_job k Q f d = (None, d)"
proof -
  have "\<not> (nj_id j = k \<and> Q j)" if "j \<in> set (node_jobs d)" for j
    using that assms by (auto simp: jobs_inv_def intro: row_of_mem)
  then show ?thesis
    by (simp add: update_job_def update_jobs_def sql_update_False sql_returning_def
        filter_False fetchone_def)
qed

lemma job_lookup_row:
  assumes "\<And>j. nj_id (f j) = nj_id j"
  shows "job_of (snd (update_job k Q f d)) k' =
    (if k' = k then map_option (\<lambda>j. if Q j then f j else j) (job_of d k) else job_of d k')"
  using assms
  by (auto simp: row_of_update dest: row_of_SomeD cong: option.map_cong)
    (cases "job_of d k'"; auto dest: row_of_SomeD)+

lemma job_lookup_update:
  assumes "\<And>j. P j \<Longrightarrow> nj_id (f j) = nj_id j"
  shows "job_of (snd (update_jobs P f d)) k = map_option (\<lambda>j. if P j then f j else j) (job_of d k)"
  using assms by (simp add: row_of_update)

lemma stamp_claim_simps [simp]:
  "nj_id (stamp_claim d a j) = nj_id j" "nj_status (stamp_claim d a j) = Running"
  "nj_claimed (stamp_claim d a j) = ca_host a" "nj_run (stamp_claim d a j) = nj_run j"
  "nj_node (stamp_claim d a j) = nj_node j" "nj_project (stamp_claim d a j) = nj_project j"
  "nj_queue (stamp_claim d a j) = nj_queue j" "nj_model (stamp_claim d a j) = nj_model j"
  "nj_lease (stamp_claim d a j) = Some (now d + secs (ca_lease_s a))"
  by (simp_all add: stamp_claim_def)

text \<open>
  What a successful claim did, in one statement: the row was claimable and first in the order,
  it carries the claimer's stamp, and no other row moved.
\<close>

lemma claim_sql_Some:
  assumes inv: "jobs_inv d" and cl: "claim_sql d q prj cap key a = (Some j, d')"
  obtains c where "c \<in> set (node_jobs d)" and "claimable d q prj cap c"
    and "\<And>c'. c' \<in> set (node_jobs d) \<Longrightarrow> claimable d q prj cap c' \<Longrightarrow> key c \<le> key c'"
    and "job_of d (nj_id c) = Some c" and "j = stamp_claim d a c"
    and "\<And>k. job_of d' k = (if k = nj_id c then Some j else job_of d k)"
    and "d' = d\<lparr>node_jobs := node_jobs d'\<rparr>"
proof -
  from cl obtain c where
    c: "first_by key (sql_select (claimable d q prj cap) (node_jobs d)) = Some c"
    and up: "update_job (nj_id c) (\<lambda>j. True) (stamp_claim d a) d = (Some j, d')"
    by (auto simp: claim_sql_def split: option.splits)
  from c have mem: "c \<in> set (node_jobs d)" "claimable d q prj cap c"
    by (auto dest!: first_by_mem simp: sql_select_def)
  then have look: "job_of d (nj_id c) = Some c" using inv by (simp add: jobs_inv_unique)
  have j: "j = stamp_claim d a c"
    using job_fetch_update[OF inv, of "stamp_claim d a" "nj_id c" "\<lambda>j. True"] up look by simp
  have "job_of d' k = (if k = nj_id c then Some j else job_of d k)" for k
    using job_lookup_row[of "stamp_claim d a" k "nj_id c" "\<lambda>j. True" d] up look j by simp
  moreover have "key c \<le> key c'"
    if "c' \<in> set (node_jobs d)" "claimable d q prj cap c'" for c'
    using c that by (auto intro: first_by_min simp: sql_select_def)
  moreover have "d' = d\<lparr>node_jobs := node_jobs d'\<rparr>"
    using up snd_update_job[of "nj_id c" "\<lambda>j. True" "stamp_claim d a" d] by auto
  ultimately show thesis using that mem look j by blast
qed

lemma claim_sql_None:
  assumes inv: "jobs_inv d" and "claim_sql d q prj cap key a = (None, d')"
  shows "d' = d \<and> (\<forall>c\<in>set (node_jobs d). \<not> claimable d q prj cap c)"
proof (cases "first_by key (sql_select (claimable d q prj cap) (node_jobs d))")
  case None
  with assms show ?thesis by (auto simp: claim_sql_def sql_select_def filter_empty_conv)
next
  case (Some c)
  then have "c \<in> set (node_jobs d)" by (auto dest!: first_by_mem simp: sql_select_def)
  with inv have "job_of d (nj_id c) = Some c" by (simp add: jobs_inv_unique)
  with assms Some show ?thesis
    using job_fetch_update[OF inv, of "stamp_claim d a" "nj_id c" "\<lambda>j. True"]
    by (simp add: claim_sql_def)
qed

text \<open>The whole behaviour of the claim statement, both answers.\<close>

lemma claim_sql_spec:
  assumes inv: "jobs_inv d"
  shows "case claim_sql d q prj cap key a of
      (None, d') \<Rightarrow> d' = d \<and> (\<forall>c\<in>set (node_jobs d). \<not> claimable d q prj cap c)
    | (Some j, d') \<Rightarrow> \<exists>c\<in>set (node_jobs d). claimable d q prj cap c \<and> j = stamp_claim d a c \<and>
        (\<forall>c'\<in>set (node_jobs d). claimable d q prj cap c' \<longrightarrow> key c \<le> key c') \<and>
        (\<forall>k. job_of d' k = (if k = nj_id c then Some j else job_of d k))"
proof (cases "claim_sql d q prj cap key a")
  case (Pair r d')
  show ?thesis
  proof (cases r)
    case None
    with Pair claim_sql_None[OF inv, of q prj cap key a d'] show ?thesis by simp
  next
    case (Some j)
    from inv Pair[unfolded Some] show ?thesis
      by (rule claim_sql_Some) (use Pair Some in auto)
  qed
qed

end
