(* ===== verification/Ingest_Queue.thy ===== *)
theory Ingest_Queue
  imports Node_Queue
begin

text \<open>
  The ingest half of \<^verbatim>\<open>node_queue.py\<close>: standalone jobs with no parent run, on the
  \<^verbatim>\<open>ingest_jobs\<close> table. The claim has no run-cancel guard, the reclaim has one branch, and the
  allow-lists for queues and tasks are the host's configuration.
\<close>

section \<open>Enqueue and claim\<close>

record ingest_args =
  ia_task :: string
  ia_queue :: string
  ia_reason :: string
  ia_priority :: int
  ia_args :: jdict
  ia_project :: "string option"

definition enqueue_ingest_job :: "config \<Rightarrow> ingest_args \<Rightarrow> (db, nat) act" where
  "enqueue_ingest_job cfg a d =
     (if ia_queue a \<notin> set (cfg_ingest_queues cfg) then (Inl (ValueError ''ingest queue''), d)
      else if ia_task a \<notin> set (cfg_ingest_tasks cfg) then (Inl (ValueError ''task_name''), d)
      else (Inr (next_uuid d),
            d\<lparr>ingest_jobs := ingest_jobs d @
                [\<lparr>ij_id = next_uuid d, ij_task = ia_task a, ij_queue = ia_queue a,
                  ij_reason = ia_reason a, ij_args = ia_args a,
                  ij_project = project_of cfg (ia_project a), ij_status = Queued,
                  ij_priority = ia_priority a, ij_created = now d, ij_started = None,
                  ij_finished = None, ij_claimed = None, ij_lease = None, ij_result = None,
                  ij_error = None, ij_seconds = None\<rparr>],
              next_uuid := Suc (next_uuid d)\<rparr>))"

definition get_ingest_job :: "nat \<Rightarrow> db \<Rightarrow> ingest_row option" where
  "get_ingest_job job_id d = ingest_of d job_id"

text \<open>One \<^verbatim>\<open>UPDATE ingest_jobs SET f WHERE P RETURNING *\<close>.\<close>

definition update_ingest :: "(ingest_row \<Rightarrow> bool) \<Rightarrow> (ingest_row \<Rightarrow> ingest_row) \<Rightarrow> db \<Rightarrow>
    ingest_row list \<times> db" where
  "update_ingest P f d =
     (sql_returning P f (ingest_jobs d), d\<lparr>ingest_jobs := sql_update P f (ingest_jobs d)\<rparr>)"

definition update_ingest_row :: "nat \<Rightarrow> (ingest_row \<Rightarrow> bool) \<Rightarrow> (ingest_row \<Rightarrow> ingest_row) \<Rightarrow> db \<Rightarrow>
    ingest_row option \<times> db" where
  "update_ingest_row job_id Q f d =
     (case update_ingest (\<lambda>j. ij_id j = job_id \<and> Q j) f d of (rows, d') \<Rightarrow> (fetchone rows, d'))"

definition ingest_claimable :: "string \<Rightarrow> string \<Rightarrow> ingest_row \<Rightarrow> bool" where
  "ingest_claimable queue project c \<longleftrightarrow>
     ij_queue c = queue \<and> ij_status c = Queued \<and> ij_project c = project"

definition ingest_order :: "ingest_row \<Rightarrow> int \<times> int" where
  "ingest_order c = (ij_priority c, ij_created c)"

definition claim_next_ingest_job :: "config \<Rightarrow> string \<Rightarrow> string option \<Rightarrow> int \<Rightarrow> string option \<Rightarrow> db \<Rightarrow>
    ingest_row option \<times> db" where
  "claim_next_ingest_job cfg queue host lease_s project d =
     (case first_by ingest_order
             (sql_select (ingest_claimable queue (project_of cfg project)) (ingest_jobs d)) of
        None \<Rightarrow> (None, d)
      | Some c \<Rightarrow> update_ingest_row (ij_id c) (\<lambda>j. True)
          (\<lambda>j. j\<lparr>ij_status := Running, ij_started := Some (now d), ij_claimed := host,
                 ij_lease := Some (now d + secs lease_s)\<rparr>) d)"

section \<open>Terminal marks, renewal and reclaim\<close>

abbreviation ingest_not_final :: "ingest_row \<Rightarrow> bool" where
  "ingest_not_final j \<equiv> \<not> guarded_terminal (ij_status j)"

definition mark_ingest_completed :: "nat \<Rightarrow> jdict \<Rightarrow> int option \<Rightarrow> db \<Rightarrow> ingest_row option \<times> db" where
  "mark_ingest_completed job_id res seconds d =
     update_ingest_row job_id ingest_not_final
       (\<lambda>j. j\<lparr>ij_status := Completed, ij_finished := Some (now d), ij_result := Some res,
              ij_seconds := seconds\<rparr>) d"

definition mark_ingest_failed :: "nat \<Rightarrow> string option \<Rightarrow> int option \<Rightarrow> db \<Rightarrow>
    ingest_row option \<times> db" where
  "mark_ingest_failed job_id error seconds d =
     update_ingest_row job_id ingest_not_final
       (\<lambda>j. j\<lparr>ij_status := Failed, ij_finished := Some (now d), ij_error := clip_error error,
              ij_seconds := seconds\<rparr>) d"

text \<open>\<^verbatim>\<open>LeaseRenewer._renew_once\<close> on the ingest table.\<close>

definition renew_ingest_lease :: "nat \<Rightarrow> string \<Rightarrow> int \<Rightarrow> db \<Rightarrow> bool \<times> db" where
  "renew_ingest_lease job_id claimed_by lease_s d =
     (case update_ingest_row job_id (\<lambda>j. ij_claimed j = Some claimed_by \<and> ij_status j = Running)
             (\<lambda>j. j\<lparr>ij_lease := Some (now d + secs lease_s)\<rparr>) d of
        (row, d') \<Rightarrow> (row \<noteq> None, d'))"

definition ingest_back_to_queue :: "ingest_row \<Rightarrow> ingest_row" where
  "ingest_back_to_queue j = j\<lparr>ij_status := Queued, ij_started := None, ij_claimed := None,
     ij_lease := None, ij_priority := min (ij_priority j) 10\<rparr>"

definition ingest_lease_lapsed :: "db \<Rightarrow> ingest_row \<Rightarrow> bool" where
  "ingest_lease_lapsed d j \<longleftrightarrow>
     ij_status j = Running \<and> (case ij_lease j of None \<Rightarrow> False | Some t \<Rightarrow> t < now d)"

definition reclaim_expired_ingest_leases :: "db \<Rightarrow> (nat \<times> string \<times> string) list \<times> db" where
  "reclaim_expired_ingest_leases d =
     (case update_ingest (ingest_lease_lapsed d) ingest_back_to_queue d of
        (rows, d') \<Rightarrow> (map (\<lambda>j. (ij_id j, ij_task j, ij_queue j)) rows, d'))"

text \<open>
  \<^verbatim>\<open>requeue_running_for_worker\<close>: the operator's hard stop of one worker. The table is the ingest
  table when the queue is one of the host's ingest queues, else the node-job table.
\<close>

definition requeue_running_for_worker :: "config \<Rightarrow> string \<Rightarrow> string \<Rightarrow> string option \<Rightarrow> db \<Rightarrow> nat \<times> db" where
  "requeue_running_for_worker cfg host_label queue project d =
     (if queue \<in> set (cfg_ingest_queues cfg)
      then case update_ingest
             (\<lambda>j. ij_status j = Running \<and> ij_claimed j = Some host_label \<and> ij_queue j = queue \<and>
                  ij_project j = project_of cfg project) ingest_back_to_queue d of
             (rows, d') \<Rightarrow> (length rows, d')
      else case update_jobs
             (\<lambda>j. nj_status j = Running \<and> nj_claimed j = Some host_label \<and> nj_queue j = queue \<and>
                  nj_project j = project_of cfg project) back_to_queue d of
             (rows, d') \<Rightarrow> (length rows, d'))"

section \<open>Executing an ingest job\<close>

text \<open>
  A registered host callable: how many positional parameters \<^verbatim>\<open>inspect.signature\<close> reports
  (\<open>None\<close> when it cannot be inspected), whether it takes \<^verbatim>\<open>*args\<close>, and the two ways it is called.
\<close>

record task_fn =
  tf_positional :: "nat option"
  tf_star :: bool
  tf_call1 :: "string \<Rightarrow> json result"
  tf_call2 :: "string \<Rightarrow> jdict \<Rightarrow> json result"

definition invoke_task :: "task_fn \<Rightarrow> string \<Rightarrow> jdict \<Rightarrow> json result" where
  "invoke_task fn reason args =
     (case tf_positional fn of
        None \<Rightarrow> tf_call1 fn reason
      | Some n \<Rightarrow> if n \<ge> 2 \<or> tf_star fn then tf_call2 fn reason args else tf_call1 fn reason)"

text \<open>The task map is the host's, so it is a parameter.\<close>

definition run_task :: "(string \<Rightarrow> task_fn option) \<Rightarrow> string \<Rightarrow> string \<Rightarrow> jdict \<Rightarrow> jdict result" where
  "run_task task_map task_name reason args =
     (case task_map task_name of
        None \<Rightarrow> Inl (ValueError ''unknown ingest task_name'')
      | Some fn \<Rightarrow>
          (case invoke_task fn reason args of
             Inl e \<Rightarrow> Inl e
           | Inr v \<Rightarrow> Inr (case v of JObj kvs \<Rightarrow> kvs | _ \<Rightarrow> [(''result'', v)])))"

datatype exec_outcome = X_completed | X_failed | X_skipped | X_requeued

text \<open>
  \<^verbatim>\<open>execute_ingest_job\<close> on the database as it is when the callable has ended; \<^verbatim>\<open>fmt\<close> is the
  traceback formatter and \<^verbatim>\<open>elapsed\<close> what \<^verbatim>\<open>time.time()\<close> measured.
\<close>

definition execute_ingest_job :: "(string \<Rightarrow> task_fn option) \<Rightarrow> (py_error \<Rightarrow> string) \<Rightarrow> int \<Rightarrow>
    ingest_row \<Rightarrow> db \<Rightarrow> exec_outcome \<times> db" where
  "execute_ingest_job task_map fmt elapsed job d =
     (let reason = (if ij_reason job = [] then ''tick'' else ij_reason job)
      in case run_task task_map (ij_task job) reason (ij_args job) of
           Inl e \<Rightarrow>
             (case mark_ingest_failed (ij_id job) (Some (fmt e)) (Some elapsed) d of
                (row, d') \<Rightarrow> (if row \<noteq> None then X_failed else X_skipped, d'))
         | Inr res \<Rightarrow>
             (case mark_ingest_completed (ij_id job) res (Some elapsed) d of
                (row, d') \<Rightarrow> (if row = None then X_skipped else X_completed, d')))"

section \<open>Every statement keeps the invariant\<close>

lemma snd_update_ingest [simp]:
  "snd (update_ingest P f d) = d\<lparr>ingest_jobs := sql_update P f (ingest_jobs d)\<rparr>"
  by (simp add: update_ingest_def)

lemma snd_update_ingest_row [simp]:
  "snd (update_ingest_row k Q f d) =
     d\<lparr>ingest_jobs := sql_update (\<lambda>j. ij_id j = k \<and> Q j) f (ingest_jobs d)\<rparr>"
  by (simp add: update_ingest_row_def update_ingest_def)

lemma enqueue_ingest_job_inv: "ingest_inv d \<Longrightarrow> ingest_inv (snd (enqueue_ingest_job cfg a d))"
  by (force simp: enqueue_ingest_job_def ingest_inv_def ingest_wf_def guarded_terminal_def)

lemma claim_next_ingest_job_inv:
  "ingest_inv d \<Longrightarrow> ingest_inv (snd (claim_next_ingest_job cfg q h l prj d))"
proof -
  assume inv: "ingest_inv d"
  show ?thesis
  proof (cases "first_by ingest_order
      (sql_select (ingest_claimable q (project_of cfg prj)) (ingest_jobs d))")
    case None
    with inv show ?thesis by (simp add: claim_next_ingest_job_def)
  next
    case (Some c)
    then have "c \<in> set (ingest_jobs d)" and "ij_status c = Queued"
      by (auto dest!: first_by_mem simp: sql_select_def ingest_claimable_def)
    with inv Some show ?thesis
      by (auto simp: claim_next_ingest_job_def intro!: ingest_inv_update)
        (auto simp: ingest_wf_def guarded_terminal_def ingest_inv_def dest: distinct_map_filter_eq)
  qed
qed

lemmas ingest_update_defs = ingest_wf_def guarded_terminal_def ingest_back_to_queue_def
  ingest_lease_lapsed_def

lemma ingest_marks_inv:
  assumes "ingest_inv d"
  shows "ingest_inv (snd (mark_ingest_completed k res so d))"
    and "ingest_inv (snd (mark_ingest_failed k e so d))"
    and "ingest_inv (snd (renew_ingest_lease k w l d))"
    and "ingest_inv (snd (reclaim_expired_ingest_leases d))"
  using assms
  by (simp_all add: mark_ingest_completed_def mark_ingest_failed_def renew_ingest_lease_def
      reclaim_expired_ingest_leases_def split_def)
    (rule ingest_inv_update; auto simp: ingest_update_defs)+

lemma requeue_running_for_worker_inv:
  "jobs_inv d \<Longrightarrow> jobs_inv (snd (requeue_running_for_worker cfg h q prj d))"
proof (cases "q \<in> set (cfg_ingest_queues cfg)")
  case True
  assume "jobs_inv d"
  with True show ?thesis by (simp add: requeue_running_for_worker_def split_def jobs_inv_def)
next
  case False
  assume "jobs_inv d"
  with False show ?thesis
    by (simp add: requeue_running_for_worker_def split_def)
      (rule jobs_inv_update; auto simp: row_update_defs)
qed

lemma requeue_running_for_worker_ingest_inv:
  "ingest_inv d \<Longrightarrow> ingest_inv (snd (requeue_running_for_worker cfg h q prj d))"
proof (cases "q \<in> set (cfg_ingest_queues cfg)")
  case True
  assume "ingest_inv d"
  with True show ?thesis
    by (simp add: requeue_running_for_worker_def split_def)
      (rule ingest_inv_update; auto simp: ingest_update_defs)
next
  case False
  assume "ingest_inv d"
  with False show ?thesis by (simp add: requeue_running_for_worker_def split_def ingest_inv_def)
qed

section \<open>The ingest queue meets the queue contract\<close>

record ingest_claim =
  ic_queue :: string
  ic_host :: "string option"
  ic_lease_s :: int
  ic_project :: "string option"

datatype ingest_finish =
    Ingest_done jdict "int option"
  | Ingest_error "string option" "int option"

datatype ingest_requeue =
    Ingest_sweep
  | Ingest_stop_worker string string "string option"

datatype ingest_other =
    Ingest_tick int
  | Ingest_renew nat string int
  | Ingest_enqueue ingest_args

definition ingest_status :: "db \<Rightarrow> nat \<Rightarrow> job_status option" where
  "ingest_status d k = map_option ij_status (ingest_of d k)"

definition ingest_owner :: "db \<Rightarrow> nat \<Rightarrow> string option" where
  "ingest_owner d k = Option.bind (ingest_of d k) ij_claimed"

definition ingest_do_claim :: "config \<Rightarrow> ingest_claim \<Rightarrow> db \<Rightarrow> nat option \<times> db" where
  "ingest_do_claim cfg c d =
     (case claim_next_ingest_job cfg (ic_queue c) (ic_host c) (ic_lease_s c) (ic_project c) d of
        (row, d') \<Rightarrow> (map_option ij_id row, d'))"

definition ingest_do_finish :: "ingest_finish \<Rightarrow> nat \<Rightarrow> db \<Rightarrow> bool \<times> db" where
  "ingest_do_finish f k d =
     (case (case f of
              Ingest_done res so \<Rightarrow> mark_ingest_completed k res so d
            | Ingest_error e so \<Rightarrow> mark_ingest_failed k e so d) of
        (row, d') \<Rightarrow> (row \<noteq> None, d'))"

definition ingest_do_requeue :: "config \<Rightarrow> ingest_requeue \<Rightarrow> db \<Rightarrow> db" where
  "ingest_do_requeue cfg r d =
     (case r of
        Ingest_sweep \<Rightarrow> snd (reclaim_expired_ingest_leases d)
      | Ingest_stop_worker h q prj \<Rightarrow> snd (requeue_running_for_worker cfg h q prj d))"

definition ingest_do_other :: "config \<Rightarrow> ingest_other \<Rightarrow> db \<Rightarrow> db" where
  "ingest_do_other cfg e d =
     (case e of
        Ingest_tick n \<Rightarrow> d\<lparr>now := now d + max 0 n\<rparr>
      | Ingest_renew k w l \<Rightarrow> snd (renew_ingest_lease k w l d)
      | Ingest_enqueue a \<Rightarrow> snd (enqueue_ingest_job cfg a d))"

lemma ingest_lookup_update:
  assumes "\<And>j. P j \<Longrightarrow> ij_id (f j) = ij_id j"
  shows "ingest_of (d\<lparr>ingest_jobs := sql_update P f (ingest_jobs d)\<rparr>) k =
    map_option (\<lambda>j. if P j then f j else j) (ingest_of d k)"
  using assms by (simp add: row_of_update)

lemma ingest_fetch_update:
  assumes "ingest_inv d" and "\<And>j. ij_id (f j) = ij_id j"
  shows "fst (update_ingest_row k Q f d) =
    (case ingest_of d k of None \<Rightarrow> None | Some j \<Rightarrow> if Q j then Some (f j) else None)"
  using assms fetchone_returning[of ij_id "ingest_jobs d" f k Q]
  by (simp add: update_ingest_row_def update_ingest_def ingest_inv_def)

lemma ingest_update_none:
  assumes "ingest_inv d" and "\<And>j. ingest_of d k = Some j \<Longrightarrow> \<not> Q j"
  shows "update_ingest_row k Q f d = (None, d)"
proof -
  have "\<not> (ij_id j = k \<and> Q j)" if "j \<in> set (ingest_jobs d)" for j
    using that assms by (auto simp: ingest_inv_def intro: row_of_mem)
  then show ?thesis
    by (simp add: update_ingest_row_def update_ingest_def sql_update_False sql_returning_def
        filter_False fetchone_def)
qed

lemma ingest_lookup_row:
  assumes "\<And>j. ij_id (f j) = ij_id j"
  shows "ingest_of (snd (update_ingest_row k Q f d)) k' =
    (if k' = k then map_option (\<lambda>j. if Q j then f j else j) (ingest_of d k) else ingest_of d k')"
  using assms
  by (auto simp: row_of_update dest: row_of_SomeD cong: option.map_cong)
    (cases "ingest_of d k'"; auto dest: row_of_SomeD)+

text \<open>What a successful ingest claim did, in one statement: the row, its stamp and its rank.\<close>

lemma claim_next_ingest_job_Some:
  assumes inv: "ingest_inv d" and cl: "claim_next_ingest_job cfg q h l prj d = (Some j, d')"
  obtains c where "c \<in> set (ingest_jobs d)" and "ingest_claimable q (project_of cfg prj) c"
    and "\<And>c'. c' \<in> set (ingest_jobs d) \<Longrightarrow> ingest_claimable q (project_of cfg prj) c' \<Longrightarrow>
      ingest_order c \<le> ingest_order c'"
    and "ingest_of d (ij_id c) = Some c"
    and "j = c\<lparr>ij_status := Running, ij_started := Some (now d), ij_claimed := h,
      ij_lease := Some (now d + secs l)\<rparr>"
    and "\<And>k. ingest_of d' k = (if k = ij_id c then Some j else ingest_of d k)"
proof -
  let ?f = "\<lambda>j. j\<lparr>ij_status := Running, ij_started := Some (now d), ij_claimed := h,
      ij_lease := Some (now d + secs l)\<rparr>"
  from cl obtain c where
    c: "first_by ingest_order (sql_select (ingest_claimable q (project_of cfg prj)) (ingest_jobs d)) = Some c"
    and up: "update_ingest_row (ij_id c) (\<lambda>j. True) ?f d = (Some j, d')"
    by (auto simp: claim_next_ingest_job_def split: option.splits)
  from c have mem: "c \<in> set (ingest_jobs d)" "ingest_claimable q (project_of cfg prj) c"
    by (auto dest!: first_by_mem simp: sql_select_def)
  then have look: "ingest_of d (ij_id c) = Some c"
    using inv by (auto simp: ingest_inv_def intro: row_of_mem)
  have j: "j = ?f c"
    using ingest_fetch_update[OF inv, of ?f "ij_id c" "\<lambda>j. True"] up look by simp
  have "ingest_of d' k = (if k = ij_id c then Some j else ingest_of d k)" for k
    using ingest_lookup_row[of ?f k "ij_id c" "\<lambda>j. True" d] up look j by simp
  moreover have "ingest_order c \<le> ingest_order c'"
    if "c' \<in> set (ingest_jobs d)" "ingest_claimable q (project_of cfg prj) c'" for c'
    using c that by (auto intro: first_by_min simp: sql_select_def)
  ultimately show thesis using that mem look j by blast
qed

lemma claim_next_ingest_job_None:
  assumes inv: "ingest_inv d" and "claim_next_ingest_job cfg q h l prj d = (None, d')"
  shows "d' = d \<and> (\<forall>c\<in>set (ingest_jobs d). \<not> ingest_claimable q (project_of cfg prj) c)"
proof (cases "first_by ingest_order
    (sql_select (ingest_claimable q (project_of cfg prj)) (ingest_jobs d))")
  case None
  with assms show ?thesis
    by (auto simp: claim_next_ingest_job_def sql_select_def filter_empty_conv)
next
  case (Some c)
  then have "c \<in> set (ingest_jobs d)" by (auto dest!: first_by_mem simp: sql_select_def)
  with inv have "ingest_of d (ij_id c) = Some c"
    by (auto simp: ingest_inv_def intro: row_of_mem)
  with assms Some show ?thesis
    using ingest_fetch_update[OF inv, of "\<lambda>j. j\<lparr>ij_status := Running, ij_started := Some (now d),
      ij_claimed := h, ij_lease := Some (now d + secs l)\<rparr>" "ij_id c" "\<lambda>j. True"]
    by (simp add: claim_next_ingest_job_def)
qed

text \<open>A terminal mark, in one statement.\<close>

lemma ingest_do_finish_cases:
  assumes inv: "ingest_inv d"
  obtains (absent) "ingest_of d k = None" and "ingest_do_finish f k d = (False, d)"
  | (final) j where "ingest_of d k = Some j" and "guarded_terminal (ij_status j)"
      and "ingest_do_finish f k d = (False, d)"
  | (marked) j j' d' where "ingest_of d k = Some j" and "\<not> guarded_terminal (ij_status j)"
      and "ingest_do_finish f k d = (True, d')" and "guarded_terminal (ij_status j')"
      and "\<And>k'. ingest_of d' k' = (if k' = k then Some j' else ingest_of d k')"
proof -
  obtain g where g: "\<And>j. ij_id (g j) = ij_id j" "\<And>j. guarded_terminal (ij_status (g j))"
    and fin: "ingest_do_finish f k d =
      (case update_ingest_row k ingest_not_final g d of (row, d') \<Rightarrow> (row \<noteq> None, d'))"
  proof (cases f)
    case (Ingest_done res so)
    then show ?thesis
      by (intro that[of "\<lambda>j. j\<lparr>ij_status := Completed, ij_finished := Some (now d),
          ij_result := Some res, ij_seconds := so\<rparr>"])
        (simp_all add: ingest_do_finish_def mark_ingest_completed_def guarded_terminal_def)
  next
    case (Ingest_error e so)
    then show ?thesis
      by (intro that[of "\<lambda>j. j\<lparr>ij_status := Failed, ij_finished := Some (now d),
          ij_error := clip_error e, ij_seconds := so\<rparr>"])
        (simp_all add: ingest_do_finish_def mark_ingest_failed_def guarded_terminal_def)
  qed
  note up = ingest_fetch_update[OF inv g(1), of k ingest_not_final]
    and none = ingest_update_none[OF inv, of k ingest_not_final g]
  show thesis
  proof (cases "ingest_of d k")
    case None
    with none fin absent show thesis by simp
  next
    case (Some j)
    show thesis
    proof (cases "guarded_terminal (ij_status j)")
      case True
      with Some none fin final show thesis by simp
    next
      case False
      have "ingest_do_finish f k d = (True, snd (update_ingest_row k ingest_not_final g d))"
        using up fin Some False by (simp add: split_def del: snd_update_ingest_row)
      then show thesis
      proof (rule marked[OF Some False _ g(2)])
        show "ingest_of (snd (update_ingest_row k ingest_not_final g d)) k' =
            (if k' = k then Some (g j) else ingest_of d k')" for k'
          using ingest_lookup_row[OF g(1), of k' k ingest_not_final d] Some False by simp
      qed
    qed
  qed
qed

lemma ingest_do_requeue_status:
  "ingest_status (ingest_do_requeue cfg r d) k = ingest_status d k \<or>
   ingest_status d k = Some Running \<and> ingest_status (ingest_do_requeue cfg r d) k = Some Queued"
proof (cases r)
  case Ingest_sweep
  then show ?thesis
    by (cases "ingest_of d k")
      (auto simp: ingest_do_requeue_def ingest_status_def reclaim_expired_ingest_leases_def split_def
        row_of_update ingest_back_to_queue_def ingest_lease_lapsed_def)
next
  case (Ingest_stop_worker h q prj)
  then show ?thesis
    by (cases "ingest_of d k")
      (auto simp: ingest_do_requeue_def ingest_status_def requeue_running_for_worker_def split_def
        row_of_update ingest_back_to_queue_def)
qed

lemma ingest_do_other_status:
  "ingest_status d k = Some t \<Longrightarrow> ingest_status (ingest_do_other cfg e d) k = Some t"
  by (cases e; cases "ingest_of d k")
    (auto simp: ingest_do_other_def ingest_status_def renew_ingest_lease_def split_def
      row_of_update enqueue_ingest_job_def row_of_append)

lemma ingest_do_other_inv: "ingest_inv d \<Longrightarrow> ingest_inv (ingest_do_other cfg e d)"
  by (cases e) (auto simp: ingest_do_other_def enqueue_ingest_job_inv ingest_marks_inv)

interpretation iq: leased_queue ingest_inv ingest_status ingest_owner "ingest_do_claim cfg" ic_host
  "\<lambda>_ _. True" ingest_do_finish "ingest_do_requeue cfg" "ingest_do_other cfg"
  for cfg
proof (unfold_locales, goal_cases)
  case (1 s p i s')
  then show ?case
    by (auto simp: ingest_do_claim_def ingest_status_def ingest_owner_def ingest_claimable_def
        split: prod.splits elim!: claim_next_ingest_job_Some)
next
  case (2 s p i s' k)
  then show ?case
    by (auto simp: ingest_do_claim_def ingest_status_def ingest_owner_def
        split: prod.splits elim!: claim_next_ingest_job_Some)
next
  case (3 s p s')
  then show ?case
    by (auto simp: ingest_do_claim_def split: prod.splits dest!: claim_next_ingest_job_None)
next
  case (4 s p)
  then show ?case by (simp add: ingest_do_claim_def split_def claim_next_ingest_job_inv)
next
  case (5 s i t f b s')
  then show ?case by (auto simp: ingest_status_def elim: ingest_do_finish_cases[of s i f])
next
  case (6 s i t f)
  then show ?case by (auto simp: ingest_status_def elim: ingest_do_finish_cases[of s i f])
next
  case (7 s i f)
  then show ?case by (auto simp: ingest_status_def elim: ingest_do_finish_cases[of s i f])
next
  case (8 s i k f)
  then show ?case by (auto simp: ingest_status_def elim: ingest_do_finish_cases[of s i f])
next
  case (9 s i f)
  then show ?case
    by (cases f) (simp_all add: ingest_do_finish_def split_def ingest_marks_inv)
next
  case (10 s c k)
  show ?case using ingest_do_requeue_status[of cfg c s k] by blast
next
  case (11 s c)
  then show ?case
    by (cases c) (simp_all add: ingest_do_requeue_def ingest_marks_inv
        requeue_running_for_worker_ingest_inv)
next
  case (12 s k t e)
  then show ?case by (simp add: ingest_do_other_status)
next
  case (13 s e)
  then show ?case by (rule ingest_do_other_inv)
qed

end
