(* ===== verification/Examples.thy ===== *)
theory Examples
  imports Ingest_Queue
begin

text \<open>
  Concrete states at which the properties are instantiated: a single-tenant configuration, a run
  in progress, and databases reached from the empty one by the model's own operations.
\<close>

definition demo_cfg :: config where
  "demo_cfg = \<lparr>cfg_project = [], cfg_ingest_queues = [''fetch'', ''load''],
     cfg_ingest_tasks = [''sync''], cfg_video_models = [], cfg_ingest_budget = 3600,
     cfg_vlm_pool_modules = [''vlm''], cfg_gpu_self_load_modules = [], cfg_cancel_orphans = True\<rparr>"

definition demo_run :: run_row where
  "demo_run = \<lparr>r_id = ''r1'', r_parcel = None, r_workflow = ''wf'', r_status = R_running,
     r_priority = 100, r_mode = ''node'', r_current_step = None, r_progress = 0,
     r_steps_done = JList [], r_context = [], r_input_spec = None, r_out_dir = None, r_error = None, r_resume_count = 0,
     r_project = [], r_queued_at = None, r_started_at = None, r_finished_at = None,
     r_created_at = 0, r_updated_at = 0\<rparr>"

definition demo_enqueue :: "string \<Rightarrow> string \<Rightarrow> string option \<Rightarrow> int \<Rightarrow> enqueue_args" where
  "demo_enqueue node queue model priority =
     \<lparr>ea_run = ''r1'', ea_node = node, ea_module = ''mod'', ea_queue = queue, ea_model = model,
      ea_inputs = [], ea_priority = priority, ea_pipeline = None, ea_project = None\<rparr>"

definition demo_claim :: "string \<Rightarrow> claim_args" where
  "demo_claim host = \<lparr>ca_lane = 0, ca_host = Some host, ca_lease_s = 600, ca_host_priority = 0,
     ca_project = None\<rparr>"

definition demo_gpu_claim :: "string \<Rightarrow> string option \<Rightarrow> string list \<Rightarrow> bool option \<Rightarrow> gpu_claim_args" where
  "demo_gpu_claim host current known lane =
     claim_args.extend (demo_claim host)
       \<lparr>ca_current_model = current, ca_known_models = known, ca_require_model = lane,
        ca_pool_modules = [''vlm'']\<rparr>"

text \<open>Two CPU jobs (ids 0 and 1) and one GPU job (id 2), all queued at time 0.\<close>

definition demo_db :: db where
  "demo_db =
     snd (enqueue_node_job demo_cfg (demo_enqueue ''c'' ''gpu'' (Some ''sdxl'') 50)
       (snd (enqueue_node_job demo_cfg (demo_enqueue ''b'' ''cpu'' None 5)
         (snd (enqueue_node_job demo_cfg (demo_enqueue ''a'' ''cpu'' None 100)
           (empty_db\<lparr>runs := [demo_run]\<rparr>))))))"

text \<open>The same after host h1 has claimed the urgent CPU job, id 1.\<close>

definition demo_claimed :: db where
  "demo_claimed = snd (claim_next_cpu_job demo_cfg (demo_claim ''h1'') demo_db)"

lemma demo_db_inv: "jobs_inv demo_db"
  by code_simp

lemma demo_claimed_inv: "jobs_inv demo_claimed"
  by code_simp

end
