(* ===== verification/Fleet.thy ===== *)
theory Fleet
  imports Examples
begin

text \<open>
  The fleet half of \<^verbatim>\<open>node_queue.py\<close> (heartbeats, the fill-before-spill gate, the dead-worker
  and capacity sweeps, the boot-time resume) and \<^verbatim>\<open>model_registry.py\<close>. The node-job queue is shown
  here to meet the queue contract, since this is where the last of its requeue statements is defined.
\<close>

section \<open>Heartbeats\<close>

abbreviation hb_key :: "heartbeat \<Rightarrow> string \<times> string \<times> string" where
  "hb_key h \<equiv> (hb_host h, hb_queue h, hb_project h)"

record beat_args =
  ba_host :: string
  ba_queue :: string
  ba_concurrency :: int
  ba_model :: "string option"
  ba_known :: "string list option"
  ba_llm :: "string list option"
  ba_vram :: "int option"
  ba_fits :: "string list option"
  ba_update_model :: bool
  ba_project :: "string option"

definition upsert_worker_heartbeat :: "config \<Rightarrow> beat_args \<Rightarrow> db \<Rightarrow> db" where
  "upsert_worker_heartbeat cfg b d =
     (let prj = project_of cfg (ba_project b);
          known = (case ba_known b of None \<Rightarrow> [] | Some ms \<Rightarrow> ms);
          llm = (case ba_llm b of None \<Rightarrow> [''ollama''] | Some ls \<Rightarrow> ls);
          fits = (case ba_fits b of None \<Rightarrow> [] | Some ms \<Rightarrow> ms)
      in d\<lparr>heartbeats := sql_upsert (\<lambda>h. hb_key h = (ba_host b, ba_queue b, prj))
             (\<lambda>h. h\<lparr>hb_concurrency := ba_concurrency b,
                    hb_model := (if ba_update_model b then ba_model b else hb_model h),
                    hb_known := known, hb_llm := llm, hb_vram := ba_vram b, hb_fits := fits,
                    hb_last_seen := now d, hb_flagged := None\<rparr>)
             \<lparr>hb_host = ba_host b, hb_queue = ba_queue b, hb_project = prj,
              hb_concurrency = ba_concurrency b, hb_last_seen = now d, hb_model = ba_model b,
              hb_known = known, hb_llm = llm, hb_vram = ba_vram b, hb_fits = fits,
              hb_flagged = None\<rparr>
             (heartbeats d)\<rparr>)"

definition clear_worker_current_model :: "config \<Rightarrow> string \<Rightarrow> string \<Rightarrow> bool \<Rightarrow> string option \<Rightarrow> db \<Rightarrow>
    heartbeat option \<times> db" where
  "clear_worker_current_model cfg host_label queue mark_stale project d =
     (let stale_secs = (if mark_stale then 100 else 0);
          P = (\<lambda>h. hb_key h = (host_label, queue, project_of cfg project));
          f = (\<lambda>h. h\<lparr>hb_model := None,
                 hb_last_seen := (if stale_secs > 0 then now d - secs stale_secs else hb_last_seen h)\<rparr>)
      in (fetchone (sql_returning P f (heartbeats d)),
          d\<lparr>heartbeats := sql_update P f (heartbeats d)\<rparr>))"

definition fresh_beat :: "db \<Rightarrow> int \<Rightarrow> heartbeat \<Rightarrow> bool" where
  "fresh_beat d window h \<longleftrightarrow> hb_last_seen h > now d - secs window"

section \<open>Fill before spill\<close>

definition running_no_model :: "db \<Rightarrow> string \<Rightarrow> string \<Rightarrow> int" where
  "running_no_model d project host =
     int (length (sql_select (\<lambda>j. nj_queue j = ''gpu'' \<and> nj_status j = Running \<and> nj_model j = None \<and>
        nj_project j = project \<and> nj_claimed j = Some host) (node_jobs d)))"

definition ranked_above :: "heartbeat \<Rightarrow> string \<Rightarrow> int \<Rightarrow> bool" where
  "ranked_above r host par \<longleftrightarrow>
     hb_concurrency r > par \<or> (hb_concurrency r = par \<and> hb_host r < host)"

definition vlm_pool_should_defer :: "config \<Rightarrow> string \<Rightarrow> int \<Rightarrow> int \<Rightarrow> string option \<Rightarrow> db \<Rightarrow> bool" where
  "vlm_pool_should_defer cfg host_label par stale_s project d =
     list_ex (\<lambda>r. hb_queue r = ''gpu'' \<and> hb_project r = project_of cfg project \<and>
        fresh_beat d (max 1 stale_s) r \<and> ranked_above r host_label par \<and>
        running_no_model d (project_of cfg project) (hb_host r) < hb_concurrency r) (heartbeats d)"

section \<open>The dead-worker detector\<close>

definition running_jobs_of :: "db \<Rightarrow> heartbeat \<Rightarrow> node_job list" where
  "running_jobs_of d wh =
     sql_select (\<lambda>j. nj_claimed j = Some (hb_host wh) \<and> nj_queue j = hb_queue wh \<and>
        nj_project j = hb_project wh \<and> nj_status j = Running) (node_jobs d)"

definition stale_holding :: "config \<Rightarrow> db \<Rightarrow> int \<Rightarrow> string option \<Rightarrow> heartbeat \<Rightarrow> bool" where
  "stale_holding cfg d thr project wh \<longleftrightarrow>
     hb_project wh = project_of cfg project \<and> hb_last_seen wh < now d - secs thr \<and>
     (case hb_flagged wh of None \<Rightarrow> True | Some t \<Rightarrow> t < now d - secs thr) \<and>
     running_jobs_of d wh \<noteq> []"

text \<open>
  \<^verbatim>\<open>env_stale\<close> is the threshold \<^verbatim>\<open>_stale_worker_after_s\<close> read from the environment (30 s unless
  it is overridden).
\<close>

definition flag_stale_workers_holding_running_jobs :: "config \<Rightarrow> int \<Rightarrow> int option \<Rightarrow> string option \<Rightarrow>
    db \<Rightarrow> (heartbeat \<times> nat) list \<times> db" where
  "flag_stale_workers_holding_running_jobs cfg env_stale stale_after_s project d =
     (let thr = (case stale_after_s of None \<Rightarrow> env_stale | Some s \<Rightarrow> max 1 s);
          P = stale_holding cfg d thr project;
          f = (\<lambda>wh. wh\<lparr>hb_flagged := Some (now d)\<rparr>)
      in (map (\<lambda>wh. (wh, length (running_jobs_of d wh))) (sql_select P (heartbeats d)),
          d\<lparr>heartbeats := sql_update P f (heartbeats d)\<rparr>))"

section \<open>Boot-time resume\<close>

definition worker_alive :: "db \<Rightarrow> node_job \<Rightarrow> bool" where
  "worker_alive d j \<longleftrightarrow>
     list_ex (\<lambda>h. Some (hb_host h) = nj_claimed j \<and> hb_queue h = nj_queue j \<and>
        hb_project h = nj_project j \<and> fresh_beat d stale_worker_after_s h) (heartbeats d)"

definition reclaim_all_running_for_resume :: "config \<Rightarrow> string option \<Rightarrow> db \<Rightarrow>
    (nat \<times> string \<times> string) list \<times> db" where
  "reclaim_all_running_for_resume cfg project d =
     (case update_jobs (\<lambda>j. nj_status j = Running \<and> nj_project j = project_of cfg project \<and>
             \<not> worker_alive d j) back_to_queue d of
        (rows, d') \<Rightarrow> (map (\<lambda>j. (nj_id j, nj_run j, nj_node j)) rows, d'))"

section \<open>The capacity sweep\<close>

definition live_gpu :: "config \<Rightarrow> int \<Rightarrow> string option \<Rightarrow> db \<Rightarrow> heartbeat list" where
  "live_gpu cfg window project d =
     sql_select (\<lambda>h. hb_queue h = ''gpu'' \<and> hb_project h = project_of cfg project \<and>
        fresh_beat d window h) (heartbeats d)"

definition some_fits :: "heartbeat list \<Rightarrow> node_job \<Rightarrow> bool" where
  "some_fits live j \<longleftrightarrow>
     (case nj_model j of None \<Rightarrow> False | Some m \<Rightarrow> list_ex (\<lambda>lg. m \<in> set (hb_fits lg)) live)"

definition em_dash :: string where
  "em_dash = [CHR 0xE2, CHR 0x80, CHR 0x94]"

definition unassignable_text :: "heartbeat list \<Rightarrow> string \<Rightarrow> string" where
  "unassignable_text live model =
     (let vrams = concat (map (\<lambda>h. case hb_vram h of None \<Rightarrow> [] | Some v \<Rightarrow> [v]) live)
      in ''no live GPU machine can hold model '' @ model @ '' '' @ em_dash @ '' none of '' @
         show_nat (length live) @ '' live GPU machine(s) has enough VRAM (max '' @
         (if vrams = [] then ''unknown'' else show_int (foldr max (tl vrams) (hd vrams))) @ ''MB)'')"

definition unassignable_now :: "config \<Rightarrow> string option \<Rightarrow> heartbeat list \<Rightarrow> node_job \<Rightarrow> bool" where
  "unassignable_now cfg project live j \<longleftrightarrow>
     nj_queue j = ''gpu'' \<and> nj_project j = project_of cfg project \<and> nj_status j = Queued \<and>
     nj_model j \<noteq> None \<and> nj_unassignable j = None \<and> live \<noteq> [] \<and> \<not> some_fits live j"

definition flag_unassignable_gpu_jobs :: "config \<Rightarrow> int \<Rightarrow> int option \<Rightarrow> string option \<Rightarrow> db \<Rightarrow>
    node_job list \<times> db" where
  "flag_unassignable_gpu_jobs cfg env_stale stale_s project d =
     (let window = (case stale_s of None \<Rightarrow> env_stale | Some s \<Rightarrow> s);
          live = live_gpu cfg window project d;
          cleared = snd (update_jobs
            (\<lambda>j. nj_unassignable j \<noteq> None \<and> nj_project j = project_of cfg project \<and>
                 (nj_status j \<noteq> Queued \<or> some_fits live j))
            (\<lambda>j. j\<lparr>nj_unassignable := None, nj_unassignable_reason := None\<rparr>) d)
      in update_jobs (unassignable_now cfg project live)
           (\<lambda>j. j\<lparr>nj_unassignable := Some (now d),
                  nj_unassignable_reason := map_option (unassignable_text live) (nj_model j)\<rparr>)
           cleared)"

section \<open>The model registry\<close>

record model_spec =
  ms_id :: string
  ms_est_vram_gb :: rat

type_synonym registry = "(string \<times> model_spec) list"

definition register_model :: "model_spec \<Rightarrow> registry \<Rightarrow> registry" where
  "register_model spec reg = jset (ms_id spec) spec reg"

definition get_model :: "registry \<Rightarrow> string \<Rightarrow> model_spec result" where
  "get_model reg model_id =
     (case jget reg model_id of None \<Rightarrow> Inl (KeyError model_id) | Some spec \<Rightarrow> Inr spec)"

definition known_ids :: "registry \<Rightarrow> string list" where
  "known_ids reg = sort (map fst reg)"

definition fits_within :: "registry \<Rightarrow> int option \<Rightarrow> rat \<Rightarrow> string list" where
  "fits_within reg vram_total_mb headroom =
     (case vram_total_mb of
        None \<Rightarrow> known_ids reg
      | Some cap \<Rightarrow>
          sort (map fst (filter (\<lambda>(mid, spec). ms_est_vram_gb spec \<le> 0 \<or>
            ms_est_vram_gb spec * 1024 * max 1 headroom \<le> of_int cap) reg)))"

section \<open>The node-job queue meets the queue contract\<close>

datatype node_claim =
    Cpu_claim claim_args
  | Gpu_claim gpu_claim_args

datatype node_finish =
    Node_done jdict int "int option"
  | Node_error "string option" "int option"

datatype node_requeue =
    Lease_sweep
  | Watchdog_retry nat
  | Boot_resume "string option"
  | Stop_worker string string "string option"

datatype node_other =
    Tick int
  | Renew nat string int
  | Enqueue enqueue_args
  | Enqueue_skipped string string "string option" "string option"
  | Await_input nat
  | Prioritize nat
  | Cancel_run string
  | Cancel_orphans "string option"
  | Input_spec string string "json option"
  | Resolved_inputs nat jdict
  | Flag_unassignable int "int option" "string option"

definition node_status :: "db \<Rightarrow> nat \<Rightarrow> job_status option" where
  "node_status d k = map_option nj_status (job_of d k)"

definition node_owner :: "db \<Rightarrow> nat \<Rightarrow> string option" where
  "node_owner d k = Option.bind (job_of d k) nj_claimed"

fun node_who :: "node_claim \<Rightarrow> string option" where
  "node_who (Cpu_claim a) = ca_host a"
| "node_who (Gpu_claim a) = ca_host a"

definition node_do_claim :: "config \<Rightarrow> node_claim \<Rightarrow> db \<Rightarrow> nat option \<times> db" where
  "node_do_claim cfg c d =
     (case (case c of Cpu_claim a \<Rightarrow> claim_next_cpu_job cfg a d
                    | Gpu_claim a \<Rightarrow> claim_next_gpu_job cfg a d) of
        (row, d') \<Rightarrow> (map_option nj_id row, d'))"

definition node_do_finish :: "node_finish \<Rightarrow> nat \<Rightarrow> db \<Rightarrow> bool \<times> db" where
  "node_do_finish f k d =
     (case (case f of Node_done delta s rss \<Rightarrow> mark_completed k delta s rss d
                    | Node_error e so \<Rightarrow> mark_failed k e so d) of
        (row, d') \<Rightarrow> (row \<noteq> None, d'))"

definition node_do_requeue :: "config \<Rightarrow> node_requeue \<Rightarrow> db \<Rightarrow> db" where
  "node_do_requeue cfg r d =
     (case r of
        Lease_sweep \<Rightarrow> snd (reclaim_expired_leases d)
      | Watchdog_retry k \<Rightarrow> snd (requeue_job_for_retry k d)
      | Boot_resume prj \<Rightarrow> snd (reclaim_all_running_for_resume cfg prj d)
      | Stop_worker h q prj \<Rightarrow> snd (requeue_running_for_worker cfg h q prj d))"

definition node_do_other :: "config \<Rightarrow> node_other \<Rightarrow> db \<Rightarrow> db" where
  "node_do_other cfg e d =
     (case e of
        Tick n \<Rightarrow> d\<lparr>now := now d + max 0 n\<rparr>
      | Renew k w l \<Rightarrow> snd (renew_lease k w l d)
      | Enqueue a \<Rightarrow> snd (enqueue_node_job cfg a d)
      | Enqueue_skipped r n p prj \<Rightarrow> snd (insert_skipped_job cfg r n p prj d)
      | Await_input k \<Rightarrow> snd (mark_awaiting_input k d)
      | Prioritize k \<Rightarrow> snd (prioritize_node_job k d)
      | Cancel_run r \<Rightarrow> snd (cancel_queued_jobs_for_run r d)
      | Cancel_orphans prj \<Rightarrow> snd (cancel_orphaned_queued_jobs cfg prj d)
      | Input_spec r n sp \<Rightarrow> set_input_spec r n sp d
      | Resolved_inputs k ri \<Rightarrow> set_resolved_inputs k ri d
      | Flag_unassignable env so prj \<Rightarrow> snd (flag_unassignable_gpu_jobs cfg env so prj d))"

lemma node_do_claim_cases:
  assumes inv: "jobs_inv d"
  obtains (none) "node_do_claim cfg p d = (None, d)"
  | (some) c j d' where "node_do_claim cfg p d = (Some (nj_id c), d')"
      and "job_of d (nj_id c) = Some c" and "nj_status c = Queued"
      and "nj_status j = Running" and "nj_claimed j = node_who p"
      and "\<And>k. job_of d' k = (if k = nj_id c then Some j else job_of d k)"
proof -
  have main: thesis
    if eq: "node_do_claim cfg p d =
        (case claim_sql d q prj cap key a of (row, d') \<Rightarrow> (map_option nj_id row, d'))"
      and who: "node_who p = ca_host a"
    for q prj cap and key :: "node_job \<Rightarrow> 'k::linorder" and a
  proof (cases "fst (claim_sql d q prj cap key a)")
    case None
    then have "claim_sql d q prj cap key a = (None, d)"
      using claim_sql_None[OF inv] by (metis prod.collapse)
    with eq none show thesis by simp
  next
    case (Some j)
    then have cl: "claim_sql d q prj cap key a = (Some j, snd (claim_sql d q prj cap key a))"
      by (metis prod.collapse)
    with eq have eq': "node_do_claim cfg p d = (Some (nj_id j), snd (claim_sql d q prj cap key a))"
      by (metis (no_types, lifting) case_prod_conv option.simps(9))
    from inv cl show thesis
    proof (rule claim_sql_Some)
      fix c
      assume c: "claimable d q prj cap c" "job_of d (nj_id c) = Some c" "j = stamp_claim d a c"
        and look: "\<And>k. job_of (snd (claim_sql d q prj cap key a)) k =
          (if k = nj_id c then Some j else job_of d k)"
      show thesis
        by (rule some[OF _ c(2) _ _ _ look]) (use eq' c who in \<open>simp_all add: claimable_def\<close>)
    qed
  qed
  show thesis
  proof (cases p)
    case (Cpu_claim a)
    then show thesis
      by (intro main[of "''cpu''"]) (auto simp: node_do_claim_def claim_next_cpu_job_def)
  next
    case (Gpu_claim a)
    then show thesis
      by (intro main[of "''gpu''"])
        (auto simp: node_do_claim_def claim_next_gpu_job_def Let_def claim_args.truncate_def)
  qed
qed

lemma node_do_finish_cases:
  assumes inv: "jobs_inv d"
  obtains (absent) "job_of d k = None" and "node_do_finish f k d = (False, d)"
  | (final) j where "job_of d k = Some j" and "guarded_terminal (nj_status j)"
      and "node_do_finish f k d = (False, d)"
  | (marked) j j' d' where "job_of d k = Some j" and "\<not> guarded_terminal (nj_status j)"
      and "node_do_finish f k d = (True, d')" and "guarded_terminal (nj_status j')"
      and "\<And>k'. job_of d' k' = (if k' = k then Some j' else job_of d k')"
proof -
  obtain g where g: "\<And>j. nj_id (g j) = nj_id j" "\<And>j. guarded_terminal (nj_status (g j))"
    and fin: "node_do_finish f k d =
      (case update_job k not_final g d of (row, d') \<Rightarrow> (row \<noteq> None, d'))"
  proof (cases f)
    case (Node_done delta s rss)
    then show ?thesis
      by (intro that[of "\<lambda>j. j\<lparr>nj_status := Completed, nj_finished := Some (now d),
          nj_delta := delta, nj_seconds := Some s, nj_rss := rss,
          nj_host := coalesce (nj_host j) (nj_claimed j)\<rparr>"])
        (simp_all add: node_do_finish_def mark_completed_def guarded_terminal_def)
  next
    case (Node_error e so)
    then show ?thesis
      by (intro that[of "\<lambda>j. j\<lparr>nj_status := Failed, nj_finished := Some (now d),
          nj_error := clip_error e, nj_seconds := so,
          nj_host := coalesce (nj_host j) (nj_claimed j)\<rparr>"])
        (simp_all add: node_do_finish_def mark_failed_def guarded_terminal_def)
  qed
  note up = job_fetch_update[OF inv g(1), of k not_final]
    and unmoved = job_update_none[OF inv, of k not_final g]
  show thesis
  proof (cases "job_of d k")
    case None
    have "update_job k not_final g d = (None, d)" by (rule unmoved) (simp add: None)
    with None fin absent show thesis by simp
  next
    case (Some j)
    show thesis
    proof (cases "guarded_terminal (nj_status j)")
      case True
      have "update_job k not_final g d = (None, d)" by (rule unmoved) (use Some True in simp)
      with Some True fin final show thesis by simp
    next
      case False
      have "node_do_finish f k d = (True, snd (update_job k not_final g d))"
        using up fin Some False by (simp add: split_def del: snd_update_job)
      then show thesis
      proof (rule marked[OF Some False _ g(2)])
        show "job_of (snd (update_job k not_final g d)) k' =
            (if k' = k then Some (g j) else job_of d k')" for k'
          using job_lookup_row[OF g(1), of k' k not_final d] Some False by simp
      qed
    qed
  qed
qed

lemmas requeue_defs = node_do_requeue_def reclaim_expired_leases_def requeue_job_for_retry_def
  reclaim_all_running_for_resume_def requeue_running_for_worker_def split_def

lemma node_do_requeue_status:
  "node_status (node_do_requeue cfg r d) k = node_status d k \<or>
   node_status d k = Some Running \<and>
     (node_status (node_do_requeue cfg r d) k = Some Queued \<or>
      node_status (node_do_requeue cfg r d) k = Some Cancelled)"
  by (cases r; cases "job_of d k")
    (auto simp: requeue_defs node_status_def row_of_update reclaim_row_def back_to_queue_def
      lease_lapsed_def)

lemma node_do_requeue_inv: "jobs_inv d \<Longrightarrow> jobs_inv (node_do_requeue cfg r d)"
proof (cases r)
  case (Boot_resume prj)
  assume "jobs_inv d"
  with Boot_resume show ?thesis
    by (simp add: node_do_requeue_def reclaim_all_running_for_resume_def split_def)
      (rule jobs_inv_update; auto simp: row_update_defs)
qed (simp_all add: node_do_requeue_def reclaim_expired_leases_inv mark_inv
    requeue_running_for_worker_inv)

lemmas other_defs = renew_lease_def mark_awaiting_input_def prioritize_node_job_def
  cancel_queued_jobs_for_run_def cancel_orphaned_queued_jobs_def set_input_spec_def
  set_resolved_inputs_def flag_unassignable_gpu_jobs_def Let_def split_def

lemma insert_job_keeps: "job_of d k = Some j \<Longrightarrow> job_of (snd (insert_job x d)) k = Some j"
  by (auto simp: insert_job_def row_of_append)

lemma flag_unassignable_inv: "jobs_inv d \<Longrightarrow> jobs_inv (snd (flag_unassignable_gpu_jobs cfg e so prj d))"
  unfolding flag_unassignable_gpu_jobs_def Let_def snd_update_jobs
  by (intro jobs_inv_update) (auto simp: row_update_defs)

lemma node_do_other_status:
  assumes "node_status d k = Some t"
  shows "node_status (node_do_other cfg e d) k = Some t \<or>
    \<not> guarded_terminal t \<and> (\<exists>t'. node_status (node_do_other cfg e d) k = Some t' \<and> t' \<noteq> Queued)"
proof -
  from assms obtain j where j: "job_of d k = Some j" "nj_status j = t"
    by (auto simp: node_status_def)
  show ?thesis
  proof (cases e)
    case (Enqueue a)
    with j show ?thesis
      by (auto simp: node_do_other_def enqueue_node_job_def node_status_def insert_job_keeps)
  next
    case (Enqueue_skipped r n p prj)
    with j show ?thesis
      by (simp add: node_do_other_def insert_skipped_job_def node_status_def insert_job_keeps)
  qed (use j in \<open>auto simp: node_do_other_def other_defs node_status_def row_of_update cancel_row_def
      guarded_terminal_def\<close>)
qed

lemma node_do_other_inv: "jobs_inv d \<Longrightarrow> jobs_inv (node_do_other cfg e d)"
  by (cases e) (simp_all add: node_do_other_def mark_inv maintenance_inv enqueue_node_job_inv
      insert_skipped_job_inv flag_unassignable_inv)

interpretation nq: leased_queue jobs_inv node_status node_owner "node_do_claim cfg" node_who
  "\<lambda>_ _. True" node_do_finish "node_do_requeue cfg" "node_do_other cfg"
  for cfg
proof (unfold_locales, goal_cases)
  case (1 s p i s')
  then show ?case
    by (auto simp: node_status_def node_owner_def elim: node_do_claim_cases[of s cfg p])
next
  case (2 s p i s' k)
  then show ?case
    by (auto simp: node_status_def node_owner_def elim: node_do_claim_cases[of s cfg p])
next
  case (3 s p s')
  then show ?case by (auto elim: node_do_claim_cases[of s cfg p])
next
  case (4 s p)
  then show ?case by (cases p) (simp_all add: node_do_claim_def split_def claim_inv)
next
  case (5 s i t f b s')
  then show ?case by (auto simp: node_status_def elim: node_do_finish_cases[of s i f])
next
  case (6 s i t f)
  then show ?case by (auto simp: node_status_def elim: node_do_finish_cases[of s i f])
next
  case (7 s i f)
  then show ?case by (auto simp: node_status_def elim: node_do_finish_cases[of s i f])
next
  case (8 s i k f)
  then show ?case by (auto simp: node_status_def elim: node_do_finish_cases[of s i f])
next
  case (9 s i f)
  then show ?case by (cases f) (simp_all add: node_do_finish_def split_def mark_inv)
next
  case (10 s c k)
  show ?case using node_do_requeue_status[of cfg c s k] by blast
next
  case (11 s c)
  then show ?case by (rule node_do_requeue_inv)
next
  case (12 s k t e)
  then show ?case by (simp only: node_do_other_status)
next
  case (13 s e)
  then show ?case by (rule node_do_other_inv)
qed

section \<open>Delivery guarantees of the two queues\<close>

text \<open>
  C1. Exactly-once delivery of node jobs: over any history of claims (by any number of CPU and GPU
  workers), terminal marks, renewals, enqueues, cancellations and clock ticks in which nothing is
  put back into the queue, no job is handed out twice, and only jobs that were queued at the start
  or enqueued later are handed out.
\<close>

theorem node_job_exactly_once:
  assumes "jobs_inv d" and "filter is_reclaim ops = []"
  shows "distinct (fst (play (node_do_claim cfg) node_do_finish (node_do_requeue cfg) (node_do_other cfg) ops d)) \<and>
    (\<forall>i\<in>set (fst (play (node_do_claim cfg) node_do_finish (node_do_requeue cfg) (node_do_other cfg) ops d)).
       node_status d i = Some Queued \<or> node_status d i = None)"
  using nq.exactly_once[OF assms(1) lawful_trivial assms(2), of cfg] by blast

theorem node_job_exactly_once_witness:
  "let ops = [Claim (Cpu_claim (demo_claim ''h1'')), Claim (Cpu_claim (demo_claim ''h2'')),
      Finish (Node_done [] 3 None) 1, Claim (Cpu_claim (demo_claim ''h1''))];
      ds = fst (play (node_do_claim demo_cfg) node_do_finish (node_do_requeue demo_cfg)
        (node_do_other demo_cfg) ops demo_db)
   in ds = [1, 0] \<and> distinct ds"
proof -
  let ?ops = "[Claim (Cpu_claim (demo_claim ''h1'')), Claim (Cpu_claim (demo_claim ''h2'')),
      Finish (Node_done [] 3 None) 1, Claim (Cpu_claim (demo_claim ''h1''))]"
  have "fst (play (node_do_claim demo_cfg) node_do_finish (node_do_requeue demo_cfg)
      (node_do_other demo_cfg) ?ops demo_db) = [1, 0]" by code_simp
  with node_job_exactly_once[OF demo_db_inv, of ?ops demo_cfg] show ?thesis by simp
qed





end
