(* ===== verification/Worker_Control.thy ===== *)
theory Worker_Control
  imports Fleet
begin

text \<open>
  The operator's switch, \<^verbatim>\<open>worker_control.py\<close>: the desired state and LLM settings per
  (host, queue), the watcher that hard-stops a worker that is switched off, and the pre-exit
  cleanup \<^verbatim>\<open>ClaimWorker.requeue_inflight_for_control\<close> it calls. The read models of
  \<^verbatim>\<open>node_queue.py\<close> that operators and dashboards use are here too.
\<close>

section \<open>Desired state\<close>

abbreviation wc_key :: "control_row \<Rightarrow> string \<times> string" where
  "wc_key c \<equiv> (wc_host c, wc_queue c)"

definition exit_control_hard_stop :: int where
  "exit_control_hard_stop = 79"

definition stop_policies :: "string list" where
  "stop_policies = [''hard'']"

definition default_control :: "string \<Rightarrow> string \<Rightarrow> int \<Rightarrow> control_row" where
  "default_control host queue t =
     \<lparr>wc_host = host, wc_queue = queue, wc_desired = ''on'', wc_policy = ''hard'',
      wc_requested_by = None, wc_updated = t, wc_server_type = ''ollama'', wc_parallelism = 1,
      wc_idle_ttl = 60\<rparr>"

definition set_worker_control :: "string \<Rightarrow> string \<Rightarrow> string \<Rightarrow> string \<Rightarrow> string option \<Rightarrow> (db, unit) act" where
  "set_worker_control host queue desired policy requested_by d =
     (if \<not> (desired = ''on'' \<or> desired = ''off'') then (Inl (ValueError ''desired_state''), d)
      else if policy \<notin> set stop_policies then (Inl (ValueError ''stop_policy''), d)
      else let f = (\<lambda>c. c\<lparr>wc_desired := desired, wc_policy := policy, wc_requested_by := requested_by,
                           wc_updated := now d\<rparr>)
           in (Inr (), d\<lparr>controls := sql_upsert (\<lambda>c. wc_key c = (host, queue)) f
                 (f (default_control host queue (now d))) (controls d)\<rparr>))"

definition get_worker_control :: "string \<Rightarrow> string \<Rightarrow> db \<Rightarrow> control_row option" where
  "get_worker_control host queue d = row_of wc_key (host, queue) (controls d)"

definition desired_state_for :: "string \<Rightarrow> string \<Rightarrow> db \<Rightarrow> string" where
  "desired_state_for host queue d =
     (case get_worker_control host queue d of
        None \<Rightarrow> ''on''
      | Some row \<Rightarrow> if wc_desired row = ''off'' then ''off'' else ''on'')"

definition disable_worker :: "string \<Rightarrow> string \<Rightarrow> string \<Rightarrow> string option \<Rightarrow> (db, unit) act" where
  "disable_worker host queue policy requested_by =
     set_worker_control host queue ''off'' policy requested_by"

definition enable_worker :: "string \<Rightarrow> string \<Rightarrow> string option \<Rightarrow> (db, unit) act" where
  "enable_worker host queue requested_by =
     set_worker_control host queue ''on'' ''hard'' requested_by"

section \<open>LLM settings\<close>

record llm_config =
  lc_server_type :: string
  lc_parallelism :: int
  lc_idle_ttl :: int

definition default_llm_config :: llm_config where
  "default_llm_config = \<lparr>lc_server_type = ''ollama'', lc_parallelism = 1, lc_idle_ttl = 60\<rparr>"

definition valid_server_types :: "string list" where
  "valid_server_types = [''ollama'', ''vllm'']"

definition given :: "'a option \<Rightarrow> 'a \<Rightarrow> 'a" where
  "given x old = (case x of Some v \<Rightarrow> v | None \<Rightarrow> old)"

definition set_llm_config :: "string \<Rightarrow> string \<Rightarrow> string option \<Rightarrow> int option \<Rightarrow> int option \<Rightarrow> (db, unit) act" where
  "set_llm_config host queue server_type parallelism idle_ttl d =
     (if (case server_type of None \<Rightarrow> False | Some t \<Rightarrow> t \<notin> set valid_server_types)
      then (Inl (ValueError ''server_type''), d)
      else if (case parallelism of None \<Rightarrow> False | Some p \<Rightarrow> p < 1)
      then (Inl (ValueError ''parallelism''), d)
      else if (case idle_ttl of None \<Rightarrow> False | Some t \<Rightarrow> t < 0)
      then (Inl (ValueError ''vllm_idle_ttl_s''), d)
      else let f = (\<lambda>c. c\<lparr>wc_server_type := given server_type (wc_server_type c),
                           wc_parallelism := given parallelism (wc_parallelism c),
                           wc_idle_ttl := given idle_ttl (wc_idle_ttl c), wc_updated := now d\<rparr>)
           in (Inr (), d\<lparr>controls := sql_upsert (\<lambda>c. wc_key c = (host, queue)) f
                 (f (default_control host queue (now d))) (controls d)\<rparr>))"

definition llm_config_for :: "string \<Rightarrow> string \<Rightarrow> db \<Rightarrow> llm_config" where
  "llm_config_for host queue d =
     (case row_of wc_key (host, queue) (controls d) of
        None \<Rightarrow> default_llm_config
      | Some c \<Rightarrow> \<lparr>lc_server_type = wc_server_type c, lc_parallelism = wc_parallelism c,
                    lc_idle_ttl = wc_idle_ttl c\<rparr>)"

lemma control_after_upsert:
  assumes "wc_host r = h" and "wc_queue r = q"
    and "\<And>c. wc_host (f c) = wc_host c" and "\<And>c. wc_queue (f c) = wc_queue c"
  shows "row_of wc_key k (sql_upsert (\<lambda>c. wc_host c = h \<and> wc_queue c = q) f r rows) =
    (if k = (h, q) then Some (case row_of wc_key (h, q) rows of None \<Rightarrow> r | Some c \<Rightarrow> f c)
     else row_of wc_key k rows)"
  using row_of_upsert[of wc_key r "(h, q)" f k rows] assms by simp

section \<open>The hard stop\<close>

text \<open>\<^verbatim>\<open>_clear_busy_ghost\<close>: a no-op without a host label and a queue.\<close>

definition clear_busy_ghost :: "config \<Rightarrow> string option \<Rightarrow> string option \<Rightarrow> db \<Rightarrow> db" where
  "clear_busy_ghost cfg host queue d =
     (case (host, queue) of
        (Some h, Some q) \<Rightarrow>
          if h = [] \<or> q = [] then d else snd (clear_worker_current_model cfg h q True None d)
      | _ \<Rightarrow> d)"

definition requeue_inflight_for_control :: "config \<Rightarrow> string \<Rightarrow> string \<Rightarrow> db \<Rightarrow> nat \<times> db" where
  "requeue_inflight_for_control cfg host queue d =
     (case requeue_running_for_worker cfg host queue None d of
        (n, d') \<Rightarrow> (n, clear_busy_ghost cfg (Some host) (Some queue) d'))"

text \<open>
  \<^verbatim>\<open>WorkerControlWatcher.check_once\<close>: the exit code when a stop was triggered. Every registered
  policy is the hard one, and an unregistered policy falls back to it.
\<close>

definition apply_hard_stop :: "config \<Rightarrow> string \<Rightarrow> string \<Rightarrow> db \<Rightarrow> int \<times> db" where
  "apply_hard_stop cfg host queue d =
     (exit_control_hard_stop, snd (requeue_inflight_for_control cfg host queue d))"

definition check_once :: "config \<Rightarrow> string \<Rightarrow> string \<Rightarrow> db \<Rightarrow> int option \<times> db" where
  "check_once cfg host queue d =
     (case get_worker_control host queue d of
        None \<Rightarrow> (None, d)
      | Some row \<Rightarrow>
          if wc_desired row \<noteq> ''off'' then (None, d)
          else case apply_hard_stop cfg host queue d of (code, d') \<Rightarrow> (Some code, d'))"

section \<open>Read models\<close>

definition in_project :: "string option \<Rightarrow> string \<Rightarrow> bool" where
  "in_project project p \<longleftrightarrow> (case project of None \<Rightarrow> True | Some q \<Rightarrow> p = q)"

definition list_projects :: "db \<Rightarrow> string list" where
  "list_projects d = sort (remdups (map r_project (runs d) @ map nj_project (node_jobs d) @
     map ij_project (ingest_jobs d) @ map hb_project (heartbeats d)))"

definition top_jobs :: "string option \<Rightarrow> string \<Rightarrow> job_status \<Rightarrow> nat \<Rightarrow> db \<Rightarrow> node_job list" where
  "top_jobs project queue status limit d =
     order_by nj_created limit (sql_select (\<lambda>j. nj_queue j = queue \<and> nj_status j = status \<and>
       in_project project (nj_project j)) (node_jobs d))"

definition group_count :: "('r \<Rightarrow> 'k) \<Rightarrow> 'r list \<Rightarrow> ('k \<times> nat) list" where
  "group_count k rows = map (\<lambda>x. (x, length (filter (\<lambda>r. k r = x) rows))) (remdups (map k rows))"

record queue_snapshot =
  qs_cpu_running :: "node_job list"
  qs_cpu_queued :: "node_job list"
  qs_gpu_running :: "node_job list"
  qs_gpu_queued :: "node_job list"
  qs_counts :: "((string \<times> job_status) \<times> nat) list"

definition snapshot :: "string option \<Rightarrow> db \<Rightarrow> queue_snapshot" where
  "snapshot project d =
     \<lparr>qs_cpu_running = top_jobs project ''cpu'' Running 50 d,
      qs_cpu_queued = top_jobs project ''cpu'' Queued 50 d,
      qs_gpu_running = top_jobs project ''gpu'' Running 50 d,
      qs_gpu_queued = top_jobs project ''gpu'' Queued 50 d,
      qs_counts = group_count (\<lambda>j. (nj_queue j, nj_status j))
        (sql_select (\<lambda>j. in_project project (nj_project j)) (node_jobs d))\<rparr>"

record ingest_depth =
  id_queued :: nat
  id_running :: nat
  id_completed :: nat
  id_failed :: nat
  id_workers :: nat

definition ingest_snapshot :: "string option \<Rightarrow> db \<Rightarrow> (string \<times> ingest_depth) list" where
  "ingest_snapshot project d =
     (let jobs = sql_select (\<lambda>j. in_project project (ij_project j)) (ingest_jobs d);
          beats = sql_select (\<lambda>h. fresh_beat d 30 h \<and> in_project project (hb_project h)) (heartbeats d);
          n = (\<lambda>q st. length (filter (\<lambda>j. ij_queue j = q \<and> ij_status j = st) jobs))
      in map (\<lambda>q. (q, \<lparr>id_queued = n q Queued, id_running = n q Running, id_completed = n q Completed,
                       id_failed = n q Failed, id_workers = length (filter (\<lambda>h. hb_queue h = q) beats)\<rparr>))
           (remdups (map ij_queue jobs @ map hb_queue beats)))"

definition fleet_snapshot :: "int \<Rightarrow> string option \<Rightarrow> db \<Rightarrow> (heartbeat \<times> bool \<times> bool) list" where
  "fleet_snapshot stale_after_s project d =
     map (\<lambda>h. (h, fresh_beat d stale_after_s h, hb_flagged h \<noteq> None))
       (sort_key (\<lambda>h. (hb_queue h, hb_host h))
         (sql_select (\<lambda>h. in_project project (hb_project h)) (heartbeats d)))"

datatype feed_row = Node_row node_job | Ingest_row_of ingest_row

definition feed_recency :: "feed_row \<Rightarrow> int" where
  "feed_recency r =
     (case r of
        Node_row j \<Rightarrow> (case nj_finished j of Some t \<Rightarrow> t | None \<Rightarrow>
                        (case nj_started j of Some t \<Rightarrow> t | None \<Rightarrow> nj_created j))
      | Ingest_row_of j \<Rightarrow> (case ij_finished j of Some t \<Rightarrow> t | None \<Rightarrow>
                             (case ij_started j of Some t \<Rightarrow> t | None \<Rightarrow> ij_created j)))"

definition recent_jobs :: "string option \<Rightarrow> job_status option \<Rightarrow> nat \<Rightarrow> nat \<Rightarrow> db \<Rightarrow> feed_row list" where
  "recent_jobs project status min_retries limit d =
     (let ok = (\<lambda>p st. in_project project p \<and> (case status of None \<Rightarrow> True | Some s \<Rightarrow> st = s));
          nodes = sql_select (\<lambda>j. ok (nj_project j) (nj_status j) \<and>
            (min_retries > 0 \<longrightarrow> nj_retries j \<ge> min_retries)) (node_jobs d);
          ingests = sql_select (\<lambda>j. ok (ij_project j) (ij_status j) \<and> \<not> min_retries > 0) (ingest_jobs d)
      in order_by (\<lambda>r. - feed_recency r) limit (map Node_row nodes @ map Ingest_row_of ingests))"

end
