(* ===== verification/Queue_Laws.thy ===== *)
theory Queue_Laws
  imports Worker_Control
begin

text \<open>
  What single operations of the queue layer guarantee: claim order and eligibility, the two GPU
  lanes, leases, the boot-time resume, the fill-before-spill gate, the capacity sweep, the
  dead-worker detector and the operator's switch.
\<close>

section \<open>Claims\<close>





text \<open>
  The two GPU lanes split the queue: for the same worker capability, every job a lane-free
  claim could take is eligible for exactly one of the inline lane and the pool lane.
\<close>

theorem gpu_lanes_partition:
  "claimable d ''gpu'' prj (gpu_capability known None pool) c \<longleftrightarrow>
     claimable d ''gpu'' prj (gpu_capability known (Some True) pool) c \<noteq>
     claimable d ''gpu'' prj (gpu_capability known (Some False) pool) c"
  by (auto simp: claimable_def gpu_capability_def split: if_splits)

section \<open>Leases\<close>

text \<open>
  A live worker keeps its job: after a successful renewal, no lease sweep within the lease
  length touches the job, whatever the other rows are.
\<close>

theorem renewed_lease_survives_sweep:
  assumes inv: "jobs_inv d" and ren: "renew_lease k w l d = (True, d')"
    and "0 \<le> t" and "t \<le> secs l"
  shows "job_of (snd (reclaim_expired_leases (d'\<lparr>now := now d + t\<rparr>))) k = job_of d' k \<and>
    (\<exists>j. job_of d' k = Some j \<and> nj_status j = Running \<and> nj_claimed j = Some w)"
proof -
  let ?Q = "\<lambda>j. nj_claimed j = Some w \<and> nj_status j = Running"
  let ?f = "\<lambda>j. j\<lparr>nj_lease := Some (now d + secs l)\<rparr>"
  from ren have hit: "fst (update_job k ?Q ?f d) \<noteq> None" and d': "d' = snd (update_job k ?Q ?f d)"
    by (auto simp: renew_lease_def split_def)
  from hit obtain j where j: "job_of d k = Some j" "?Q j"
    using job_fetch_update[OF inv, of ?f k ?Q] by (auto split: option.splits if_splits)
  then have new: "job_of d' k = Some (?f j)"
    using job_lookup_row[of ?f k k ?Q d] d' by simp
  then show ?thesis
    using j assms(3,4) by (simp add: reclaim_expired_leases_def split_def row_of_update
        reclaim_row_def lease_lapsed_def)
qed

theorem renewed_lease_survives_sweep_witness:
  "job_of (snd (reclaim_expired_leases
     ((snd (renew_lease 1 ''h1'' 600 (demo_claimed\<lparr>now := 590000000\<rparr>)))\<lparr>now := 590000000 + 600000000\<rparr>))) 1
   = job_of (snd (renew_lease 1 ''h1'' 600 (demo_claimed\<lparr>now := 590000000\<rparr>))) 1"
proof -
  let ?d = "demo_claimed\<lparr>now := 590000000\<rparr>"
  have "jobs_inv ?d" using demo_claimed_inv by simp
  moreover have "fst (renew_lease 1 ''h1'' 600 ?d)" by code_simp
  then have "renew_lease 1 ''h1'' 600 ?d = (True, snd (renew_lease 1 ''h1'' 600 ?d))"
    by (metis prod.collapse)
  ultimately show ?thesis
    using renewed_lease_survives_sweep[of ?d 1 "''h1''" 600 _ 600000000] by simp
qed



section \<open>Recovery at orchestrator start\<close>

text \<open>
  The boot-time resume puts back exactly the running jobs of its own project whose worker has no
  fresh heartbeat on the job's queue; a job of a live worker and every job of another project is
  untouched, and no retry is counted.
\<close>

theorem boot_resume_effect:
  assumes "job_of d k = Some j"
  shows "job_of (snd (reclaim_all_running_for_resume cfg prj d)) k =
    Some (if nj_status j = Running \<and> nj_project j = project_of cfg prj \<and> \<not> worker_alive d j
          then j\<lparr>nj_status := Queued, nj_started := None, nj_claimed := None, nj_lease := None,
                 nj_priority := min (nj_priority j) 10\<rparr>
          else j)"
  using assms by (simp add: reclaim_all_running_for_resume_def split_def row_of_update back_to_queue_def)

definition demo_beat :: "string \<Rightarrow> int \<Rightarrow> beat_args" where
  "demo_beat host conc = \<lparr>ba_host = host, ba_queue = ''cpu'', ba_concurrency = conc, ba_model = None,
     ba_known = None, ba_llm = None, ba_vram = None, ba_fits = None, ba_update_model = True,
     ba_project = None\<rparr>"

theorem boot_resume_effect_witness:
  "job_of (snd (reclaim_all_running_for_resume demo_cfg None
     (upsert_worker_heartbeat demo_cfg (demo_beat ''h1'' 1) demo_claimed))) 1 = job_of demo_claimed 1 \<and>
   map_option nj_status (job_of (snd (reclaim_all_running_for_resume demo_cfg None demo_claimed)) 1) = Some Queued"
proof -
  let ?live = "upsert_worker_heartbeat demo_cfg (demo_beat ''h1'' 1) demo_claimed"
  obtain j where j: "job_of ?live 1 = Some j" "worker_alive ?live j" "job_of demo_claimed 1 = Some j"
    "\<not> worker_alive demo_claimed j" "nj_status j = Running" "nj_project j = project_of demo_cfg None"
    by (rule that[of "the (job_of demo_claimed 1)"]) code_simp+
  from boot_resume_effect[OF j(1), of demo_cfg None] boot_resume_effect[OF j(3), of demo_cfg None] j
  show ?thesis by simp
qed

section \<open>The fleet\<close>

text \<open>
  C26. Fill before spill cannot starve the pool lane: whenever some fresh GPU worker of the project
  has a free slot, one of those workers, asking with its advertised parallelism, is not told to
  defer.
\<close>

theorem spill_gate_no_starvation:
  assumes free: "r \<in> set (heartbeats d)" "hb_queue r = ''gpu''" "hb_project r = project_of cfg prj"
      "fresh_beat d (max 1 stale) r" "running_no_model d (project_of cfg prj) (hb_host r) < hb_concurrency r"
  shows "\<exists>m\<in>set (heartbeats d). hb_queue m = ''gpu'' \<and> hb_project m = project_of cfg prj \<and>
    fresh_beat d (max 1 stale) m \<and>
    running_no_model d (project_of cfg prj) (hb_host m) < hb_concurrency m \<and>
    \<not> vlm_pool_should_defer cfg (hb_host m) (hb_concurrency m) stale prj d"
proof -
  let ?ok = "\<lambda>m. hb_queue m = ''gpu'' \<and> hb_project m = project_of cfg prj \<and> fresh_beat d (max 1 stale) m \<and>
    running_no_model d (project_of cfg prj) (hb_host m) < hb_concurrency m"
  let ?key = "\<lambda>m. (- hb_concurrency m, hb_host m)"
  have "filter ?ok (heartbeats d) \<noteq> []" using free by (auto simp: filter_empty_conv)
  then obtain m where m: "first_by ?key (filter ?ok (heartbeats d)) = Some m"
    by (cases "first_by ?key (filter ?ok (heartbeats d))") simp_all
  have ok: "m \<in> set (heartbeats d)" "?ok m" using first_by_mem[OF m] by simp_all
  have "\<not> ranked_above m' (hb_host m) (hb_concurrency m)" if "m' \<in> set (heartbeats d)" "?ok m'" for m'
  proof -
    have "?key m \<le> ?key m'" using first_by_min[OF m, of m'] that by simp
    then show ?thesis by (simp add: ranked_above_def less_eq_prod_simp not_less) linarith
  qed
  then have "\<not> vlm_pool_should_defer cfg (hb_host m) (hb_concurrency m) stale prj d"
    by (auto simp: vlm_pool_should_defer_def list_ex_iff)
  with ok show ?thesis by blast
qed

definition demo_gpu_fleet :: db where
  "demo_gpu_fleet =
     upsert_worker_heartbeat demo_cfg ((demo_beat ''h1'' 4)\<lparr>ba_queue := ''gpu'', ba_fits := Some [''wan'']\<rparr>)
       (upsert_worker_heartbeat demo_cfg ((demo_beat ''h2'' 1)\<lparr>ba_queue := ''gpu''\<rparr>) demo_db)"

theorem spill_gate_no_starvation_witness:
  "vlm_pool_should_defer demo_cfg ''h2'' 1 30 None demo_gpu_fleet \<and>
   (\<exists>m\<in>set (heartbeats demo_gpu_fleet).
      \<not> vlm_pool_should_defer demo_cfg (hb_host m) (hb_concurrency m) 30 None demo_gpu_fleet)"
proof -
  obtain r where "r \<in> set (heartbeats demo_gpu_fleet)" "hb_queue r = ''gpu''"
    "hb_project r = project_of demo_cfg None" "fresh_beat demo_gpu_fleet (max 1 30) r"
    "running_no_model demo_gpu_fleet (project_of demo_cfg None) (hb_host r) < hb_concurrency r"
    by (rule that[of "hd (heartbeats demo_gpu_fleet)"]) code_simp+
  from spill_gate_no_starvation[OF this] have
    "\<exists>m\<in>set (heartbeats demo_gpu_fleet).
      \<not> vlm_pool_should_defer demo_cfg (hb_host m) (hb_concurrency m) 30 None demo_gpu_fleet" by blast
  moreover have "vlm_pool_should_defer demo_cfg ''h2'' 1 30 None demo_gpu_fleet" by code_simp
  ultimately show ?thesis by simp
qed

text \<open>
  The capacity verdict is exact: with at least one fresh GPU worker, after a sweep a queued GPU
  job of the project that needs a model carries the flag exactly when no fresh worker advertises
  that model as fitting, a job of the project that left the queue carries no flag, and a second
  sweep reports nothing new. With no fresh GPU worker nothing is flagged.
\<close>

theorem capacity_sweep_exact:
  fixes cfg env prj d
  defines "live \<equiv> live_gpu cfg env prj d"
    and "swept \<equiv> snd (flag_unassignable_gpu_jobs cfg env None prj d)"
  shows "(\<forall>j\<in>set (node_jobs swept). nj_project j = project_of cfg prj \<longrightarrow>
       (nj_status j \<noteq> Queued \<longrightarrow> nj_unassignable j = None) \<and>
       (nj_status j = Queued \<and> nj_queue j = ''gpu'' \<and> nj_model j \<noteq> None \<and> live \<noteq> [] \<longrightarrow>
          (nj_unassignable j \<noteq> None \<longleftrightarrow> \<not> some_fits live j))) \<and>
    fst (flag_unassignable_gpu_jobs cfg env None prj swept) = [] \<and>
    (live = [] \<longrightarrow> fst (flag_unassignable_gpu_jobs cfg env None prj d) = [])"
proof -
  let ?clear = "\<lambda>j. nj_unassignable j \<noteq> None \<and> nj_project j = project_of cfg prj \<and>
    (nj_status j \<noteq> Queued \<or> some_fits live j)"
  let ?cl = "\<lambda>j. j\<lparr>nj_unassignable := None, nj_unassignable_reason := None\<rparr>"
  let ?fl = "\<lambda>j. j\<lparr>nj_unassignable := Some (now d),
    nj_unassignable_reason := map_option (unassignable_text live) (nj_model j)\<rparr>"
  have live': "live_gpu cfg env prj swept = live"
    by (simp add: live_def swept_def flag_unassignable_gpu_jobs_def Let_def live_gpu_def fresh_beat_def)
  have rows: "node_jobs swept =
      sql_update (unassignable_now cfg prj live) ?fl (sql_update ?clear ?cl (node_jobs d))"
    by (simp add: swept_def flag_unassignable_gpu_jobs_def Let_def live_def)
  have one: "(nj_status j \<noteq> Queued \<longrightarrow> nj_unassignable j = None) \<and>
       (nj_status j = Queued \<and> nj_queue j = ''gpu'' \<and> nj_model j \<noteq> None \<and> live \<noteq> [] \<longrightarrow>
          (nj_unassignable j \<noteq> None \<longleftrightarrow> \<not> some_fits live j))"
    if "j \<in> set (node_jobs swept)" "nj_project j = project_of cfg prj" for j
    using that unfolding rows
    by (auto elim!: mem_sql_updateE simp: unassignable_now_def some_fits_def split: if_splits)
  have kept: "\<not> (unassignable_now cfg prj live j)" if "j \<in> set (node_jobs swept)" for j
    using one[OF that] by (auto simp: unassignable_now_def)
  have "node_jobs (snd (update_jobs ?clear ?cl swept)) = node_jobs swept"
  proof -
    have "\<not> ?clear j" if "j \<in> set (node_jobs swept)" for j
      using that unfolding rows
      by (auto elim!: mem_sql_updateE simp: unassignable_now_def some_fits_def split: if_splits)
    then show ?thesis by (simp add: sql_update_False)
  qed
  then have "fst (flag_unassignable_gpu_jobs cfg env None prj swept) = []"
    using kept live' by (auto simp: flag_unassignable_gpu_jobs_def Let_def update_jobs_def
        sql_returning_Nil_iff)
  moreover have "live = [] \<longrightarrow> fst (flag_unassignable_gpu_jobs cfg env None prj d) = []"
    by (auto simp: flag_unassignable_gpu_jobs_def Let_def update_jobs_def sql_returning_Nil_iff
        unassignable_now_def live_def)
  ultimately show ?thesis using one by blast
qed

theorem capacity_sweep_exact_witness:
  "map nj_node (fst (flag_unassignable_gpu_jobs demo_cfg 30 None None demo_gpu_fleet)) = [''c''] \<and>
   fst (flag_unassignable_gpu_jobs demo_cfg 30 None None
     (snd (flag_unassignable_gpu_jobs demo_cfg 30 None None demo_gpu_fleet))) = []"
proof
  show "map nj_node (fst (flag_unassignable_gpu_jobs demo_cfg 30 None None demo_gpu_fleet)) = [''c'']"
    by code_simp
  show "fst (flag_unassignable_gpu_jobs demo_cfg 30 None None
     (snd (flag_unassignable_gpu_jobs demo_cfg 30 None None demo_gpu_fleet))) = []"
    using capacity_sweep_exact[of demo_cfg 30 None demo_gpu_fleet] by blast
qed

text \<open>
  The dead-worker detector reports exactly the workers of the project that are silent past the
  threshold, still own a running job and were not reported within the threshold; it changes no
  job, an immediate second pass reports nothing, and a heartbeat of the worker clears the report.
\<close>

theorem dead_worker_detector:
  assumes "1 \<le> env_stale"
  shows "case flag_stale_workers_holding_running_jobs cfg env_stale so prj d of
    (rows, d') \<Rightarrow>
      (let thr = (case so of None \<Rightarrow> env_stale | Some s \<Rightarrow> max 1 s)
       in map fst rows = filter (stale_holding cfg d thr prj) (heartbeats d)) \<and>
      node_jobs d' = node_jobs d \<and>
      fst (flag_stale_workers_holding_running_jobs cfg env_stale so prj d') = [] \<and>
      (\<forall>b h. h \<in> set (heartbeats (upsert_worker_heartbeat cfg b d')) \<and>
             hb_key h = (ba_host b, ba_queue b, project_of cfg (ba_project b)) \<longrightarrow> hb_flagged h = None)"
proof -
  define thr where "thr = (case so of None \<Rightarrow> env_stale | Some s \<Rightarrow> max 1 s)"
  have thr: "1 \<le> thr" using assms by (auto simp: thr_def split: option.splits)
  define d' where "d' = snd (flag_stale_workers_holding_running_jobs cfg env_stale so prj d)"
  have d'_eq: "d' = d\<lparr>heartbeats := sql_update (stale_holding cfg d thr prj)
      (\<lambda>wh. wh\<lparr>hb_flagged := Some (now d)\<rparr>) (heartbeats d)\<rparr>"
    by (simp add: d'_def flag_stale_workers_holding_running_jobs_def Let_def thr_def)
  have same: "running_jobs_of d' h = running_jobs_of d h" for h
    by (simp add: d'_eq running_jobs_of_def)
  have "\<not> stale_holding cfg d' thr prj h" if "h \<in> set (heartbeats d')" for h
    using that thr unfolding d'_eq
    by (auto elim!: mem_sql_updateE simp: stale_holding_def running_jobs_of_def
        split: if_splits option.splits)
  then have again: "fst (flag_stale_workers_holding_running_jobs cfg env_stale so prj d') = []"
    by (auto simp: flag_stale_workers_holding_running_jobs_def Let_def thr_def[symmetric]
        sql_select_def filter_empty_conv)
  have "hb_flagged h = None" if "h \<in> set (heartbeats (upsert_worker_heartbeat cfg b d'))"
    "hb_key h = (ba_host b, ba_queue b, project_of cfg (ba_project b))" for b h
    using that by (auto simp: upsert_worker_heartbeat_def Let_def sql_upsert_def list_ex_iff
        elim!: mem_sql_updateE split: if_splits)
  with again show ?thesis
    by (auto simp: d'_eq flag_stale_workers_holding_running_jobs_def Let_def thr_def sql_select_def
        comp_def)
qed

theorem dead_worker_detector_witness:
  "let d = (upsert_worker_heartbeat demo_cfg (demo_beat ''h1'' 1) demo_claimed)\<lparr>now := 31000000\<rparr>;
       (rows, d') = flag_stale_workers_holding_running_jobs demo_cfg 30 None None d
   in map (hb_host \<circ> fst) rows = [''h1''] \<and>
      fst (flag_stale_workers_holding_running_jobs demo_cfg 30 None None d') = []"
proof -
  let ?d = "(upsert_worker_heartbeat demo_cfg (demo_beat ''h1'' 1) demo_claimed)\<lparr>now := 31000000\<rparr>"
  have "map (hb_host \<circ> fst) (fst (flag_stale_workers_holding_running_jobs demo_cfg 30 None None ?d)) = [''h1'']"
    by code_simp
  with dead_worker_detector[of 30 None demo_cfg ?d None] show ?thesis
    by (simp add: Let_def split_def)
qed

section \<open>The operator's switch\<close>

text \<open>
  The switch and the LLM settings do not interfere: an accepted switch sets exactly the desired
  state of its own worker and keeps every LLM setting; an accepted LLM edit sets exactly the given
  fields of its own worker and keeps every desired state, so it never stops a worker.
\<close>

theorem switch_and_llm_independent:
  "(set_worker_control h q st pol by d = (Inr (), d') \<longrightarrow>
      desired_state_for h' q' d' = (if (h', q') = (h, q) then st else desired_state_for h' q' d) \<and>
      llm_config_for h' q' d' = llm_config_for h' q' d) \<and>
   (set_llm_config h q ty par ttl d = (Inr (), d') \<longrightarrow>
      desired_state_for h' q' d' = desired_state_for h' q' d \<and>
      llm_config_for h' q' d' =
        (if (h', q') = (h, q)
         then \<lparr>lc_server_type = given ty (lc_server_type (llm_config_for h q d)),
               lc_parallelism = given par (lc_parallelism (llm_config_for h q d)),
               lc_idle_ttl = given ttl (lc_idle_ttl (llm_config_for h q d))\<rparr>
         else llm_config_for h' q' d))"
proof (intro conjI impI)
  assume "set_worker_control h q st pol by d = (Inr (), d')"
  then have st: "st = ''on'' \<or> st = ''off''" and d': "d' = d\<lparr>controls := sql_upsert (\<lambda>c. wc_key c = (h, q))
      (\<lambda>c. c\<lparr>wc_desired := st, wc_policy := pol, wc_requested_by := by, wc_updated := now d\<rparr>)
      ((default_control h q (now d))\<lparr>wc_desired := st, wc_policy := pol, wc_requested_by := by,
        wc_updated := now d\<rparr>) (controls d)\<rparr>"
    by (simp_all add: set_worker_control_def Let_def split: if_splits)
  show "desired_state_for h' q' d' = (if (h', q') = (h, q) then st else desired_state_for h' q' d)"
    using st by (cases "(h', q') = (h, q)"; cases "row_of wc_key (h, q) (controls d)")
      (auto simp: d' desired_state_for_def get_worker_control_def control_after_upsert default_control_def)
  show "llm_config_for h' q' d' = llm_config_for h' q' d"
    by (cases "(h', q') = (h, q)"; cases "row_of wc_key (h, q) (controls d)")
      (simp_all add: d' llm_config_for_def control_after_upsert default_control_def default_llm_config_def)
next
  assume "set_llm_config h q ty par ttl d = (Inr (), d')"
  then have d': "d' = d\<lparr>controls := sql_upsert (\<lambda>c. wc_key c = (h, q))
      (\<lambda>c. c\<lparr>wc_server_type := given ty (wc_server_type c), wc_parallelism := given par (wc_parallelism c),
             wc_idle_ttl := given ttl (wc_idle_ttl c), wc_updated := now d\<rparr>)
      ((default_control h q (now d))\<lparr>wc_server_type := given ty ''ollama'', wc_parallelism := given par 1,
        wc_idle_ttl := given ttl 60, wc_updated := now d\<rparr>) (controls d)\<rparr>"
    by (simp add: set_llm_config_def Let_def default_control_def split: if_splits)
  show "desired_state_for h' q' d' = desired_state_for h' q' d"
    by (cases "(h', q') = (h, q)"; cases "row_of wc_key (h, q) (controls d)")
      (simp_all add: d' desired_state_for_def get_worker_control_def control_after_upsert default_control_def)
  show "llm_config_for h' q' d' =
        (if (h', q') = (h, q)
         then \<lparr>lc_server_type = given ty (lc_server_type (llm_config_for h q d)),
               lc_parallelism = given par (lc_parallelism (llm_config_for h q d)),
               lc_idle_ttl = given ttl (lc_idle_ttl (llm_config_for h q d))\<rparr>
         else llm_config_for h' q' d)"
    by (cases "(h', q') = (h, q)"; cases "row_of wc_key (h, q) (controls d)")
      (auto simp: d' llm_config_for_def control_after_upsert default_control_def default_llm_config_def)
qed

theorem switch_and_llm_independent_witness:
  "let d = snd (disable_worker ''h1'' ''gpu'' ''hard'' None empty_db);
       d' = snd (set_llm_config ''h1'' ''gpu'' (Some ''vllm'') None None d)
   in desired_state_for ''h1'' ''gpu'' d' = ''off'' \<and>
      llm_config_for ''h1'' ''gpu'' d' = \<lparr>lc_server_type = ''vllm'', lc_parallelism = 1, lc_idle_ttl = 60\<rparr>"
proof -
  let ?d = "snd (disable_worker ''h1'' ''gpu'' ''hard'' None empty_db)"
  let ?d' = "snd (set_llm_config ''h1'' ''gpu'' (Some ''vllm'') None None ?d)"
  have ok: "set_worker_control ''h1'' ''gpu'' ''off'' ''hard'' None empty_db = (Inr (), ?d)"
    "set_llm_config ''h1'' ''gpu'' (Some ''vllm'') None None ?d = (Inr (), ?d')"
    by (simp_all add: disable_worker_def set_worker_control_def set_llm_config_def stop_policies_def
        valid_server_types_def Let_def)
  have "desired_state_for ''h1'' ''gpu'' ?d = ''off'' \<and>
      llm_config_for ''h1'' ''gpu'' ?d = llm_config_for ''h1'' ''gpu'' empty_db"
    using switch_and_llm_independent[of "''h1''" "''gpu''" "''off''" "''hard''" None empty_db ?d "''h1''" "''gpu''"] ok(1)
    by simp
  moreover have "llm_config_for ''h1'' ''gpu'' empty_db = default_llm_config" by code_simp
  ultimately show ?thesis
    using switch_and_llm_independent[of "''h1''" "''gpu''" _ _ _ ?d ?d' "''h1''" "''gpu''" "Some ''vllm''" None None] ok(2)
    by (simp add: Let_def default_llm_config_def given_def)
qed

text \<open>
  A hard stop releases exactly this worker's work: when the control row says off, the watcher
  exits with code 79 after putting back every running node job this host holds on this (non-ingest)
  queue in its project, with no retry counted and every other job untouched; otherwise it does
  nothing.
\<close>

theorem hard_stop_releases:
  assumes "q \<notin> set (cfg_ingest_queues cfg)"
  shows "if desired_state_for h q d = ''off''
    then fst (check_once cfg h q d) = Some 79 \<and>
      (\<forall>k. job_of (snd (check_once cfg h q d)) k =
         map_option (\<lambda>j. if nj_status j = Running \<and> nj_claimed j = Some h \<and> nj_queue j = q \<and>
             nj_project j = project_of cfg None
           then j\<lparr>nj_status := Queued, nj_started := None, nj_claimed := None, nj_lease := None,
                  nj_priority := min (nj_priority j) 10\<rparr> else j) (job_of d k))
    else check_once cfg h q d = (None, d)"
proof (cases "desired_state_for h q d = ''off''")
  case True
  then obtain row where row: "get_worker_control h q d = Some row" "wc_desired row = ''off''"
    by (auto simp: desired_state_for_def split: option.splits if_splits)
  have ghost: "node_jobs (clear_busy_ghost cfg hh qq x) = node_jobs x" for hh qq x
    by (auto simp: clear_busy_ghost_def clear_worker_current_model_def Let_def split: option.splits)
  from True row assms show ?thesis
    by (simp add: check_once_def apply_hard_stop_def exit_control_hard_stop_def
        requeue_inflight_for_control_def requeue_running_for_worker_def split_def ghost
        row_of_update back_to_queue_def cong: if_cong)
next
  case False
  then show ?thesis
    by (auto simp: check_once_def desired_state_for_def split: option.splits if_splits)
qed

theorem hard_stop_releases_witness:
  "fst (check_once demo_cfg ''h1'' ''cpu'' (snd (disable_worker ''h1'' ''cpu'' ''hard'' None demo_claimed))) = Some 79"
proof -
  have "desired_state_for ''h1'' ''cpu'' (snd (disable_worker ''h1'' ''cpu'' ''hard'' None demo_claimed)) = ''off''"
    and "''cpu'' \<notin> set (cfg_ingest_queues demo_cfg)" by code_simp+
  then show ?thesis
    using hard_stop_releases[of "''cpu''" demo_cfg "''h1''" "snd (disable_worker ''h1'' ''cpu'' ''hard'' None demo_claimed)"]
    by simp
qed

end
