(* ===== verification/Run_Store.thy ===== *)
theory Run_Store
  imports Queue_Laws
begin

text \<open>
  \<^verbatim>\<open>run_store.py\<close> (the \<^verbatim>\<open>workflow_runs\<close> row: read, whitelisted update, insert, delete with its
  cascades, work lists, resume) and the two append-only logs of \<^verbatim>\<open>node_queue.py\<close>: the dispatch
  outbox and the node-event history. Functions named \<^verbatim>\<open>_in_txn\<close> in the source run on the caller's
  cursor; a raise there aborts the caller's transaction, which the caller writes with \<open>in_txn\<close>.
\<close>

section \<open>Runs\<close>

definition get_run :: "string \<Rightarrow> db \<Rightarrow> run_row option" where
  "get_run run_id d = run_of d run_id"

text \<open>\<^verbatim>\<open>queued_at ASC NULLS LAST\<close>\<close>

definition nulls_last :: "int option \<Rightarrow> bool \<times> int" where
  "nulls_last t = (case t of None \<Rightarrow> (True, 0) | Some x \<Rightarrow> (False, x))"

definition list_queued_node_run_ids :: "config \<Rightarrow> string option \<Rightarrow> nat \<Rightarrow> db \<Rightarrow> string list" where
  "list_queued_node_run_ids cfg project limit d =
     map r_id (order_by (\<lambda>r. (r_priority r, nulls_last (r_queued_at r))) limit
       (sql_select (\<lambda>r. r_mode r = ''node'' \<and> r_status r = R_queued \<and>
          r_project r = project_of cfg project) (runs d)))"

definition has_live_job :: "db \<Rightarrow> string \<Rightarrow> bool" where
  "has_live_job d run_id \<longleftrightarrow>
     list_ex (\<lambda>j. nj_run j = run_id \<and>
       (nj_status j = Queued \<or> nj_status j = Running \<or> nj_status j = Awaiting_input)) (node_jobs d)"

definition list_stuck_node_run_ids :: "config \<Rightarrow> string option \<Rightarrow> db \<Rightarrow> string list" where
  "list_stuck_node_run_ids cfg project d =
     map r_id (sql_select (\<lambda>r. r_mode r = ''node'' \<and> (r_status r = R_queued \<or> r_status r = R_running) \<and>
       r_project r = project_of cfg project \<and> \<not> has_live_job d (r_id r)) (runs d))"

text \<open>
  The keyword arguments of \<^verbatim>\<open>update_run\<close>: one constructor per whitelisted column, and
  \<open>F_bad\<close> for a name outside the whitelist.
\<close>

datatype run_field =
    F_status run_status
  | F_priority int
  | F_current_step_id "string option"
  | F_progress_pct rat
  | F_steps_done json
  | F_context jdict
  | F_input_spec json
  | F_error "string option"
  | F_out_dir "string option"
  | F_resume_count nat
  | F_parcel_id "string option"
  | F_mode string
  | F_queued_at "int option"
  | F_started_at "int option"
  | F_finished_at "int option"
  | F_bad string

fun is_bad :: "run_field \<Rightarrow> bool" where
  "is_bad (F_bad _) = True"
| "is_bad _ = False"

fun set_field :: "run_field \<Rightarrow> run_row \<Rightarrow> run_row" where
  "set_field (F_status v) r = r\<lparr>r_status := v\<rparr>"
| "set_field (F_priority v) r = r\<lparr>r_priority := v\<rparr>"
| "set_field (F_current_step_id v) r = r\<lparr>r_current_step := v\<rparr>"
| "set_field (F_progress_pct v) r = r\<lparr>r_progress := v\<rparr>"
| "set_field (F_steps_done v) r = r\<lparr>r_steps_done := v\<rparr>"
| "set_field (F_context v) r = r\<lparr>r_context := v\<rparr>"
| "set_field (F_input_spec v) r = r\<lparr>r_input_spec := Some v\<rparr>"
| "set_field (F_error v) r = r\<lparr>r_error := v\<rparr>"
| "set_field (F_out_dir v) r = r\<lparr>r_out_dir := v\<rparr>"
| "set_field (F_resume_count v) r = r\<lparr>r_resume_count := v\<rparr>"
| "set_field (F_parcel_id v) r = r\<lparr>r_parcel := v\<rparr>"
| "set_field (F_mode v) r = r\<lparr>r_mode := v\<rparr>"
| "set_field (F_queued_at v) r = r\<lparr>r_queued_at := v\<rparr>"
| "set_field (F_started_at v) r = r\<lparr>r_started_at := v\<rparr>"
| "set_field (F_finished_at v) r = r\<lparr>r_finished_at := v\<rparr>"
| "set_field (F_bad _) r = r"

definition update_run :: "string \<Rightarrow> run_field list \<Rightarrow> (db, run_row option) act" where
  "update_run run_id changes d =
     (if changes = [] then (Inr (get_run run_id d), d)
      else if list_ex is_bad changes then (Inl (ValueError ''unknown columns''), d)
      else let P = (\<lambda>r. r_id r = run_id);
               f = (\<lambda>r. (fold set_field changes r)\<lparr>r_updated_at := now d\<rparr>)
           in if list_ex (\<lambda>r. P r \<and> \<not> (r_mode (f r) = ''step'' \<or> r_mode (f r) = ''node'')) (runs d)
              then (Inl CheckViolation, d)
              else (Inr (fetchone (sql_returning P f (runs d))),
                    d\<lparr>runs := sql_update P f (runs d)\<rparr>))"

record run_args =
  ra_id :: string
  ra_workflow :: string
  ra_parcel :: "string option"
  ra_out_dir :: "string option"
  ra_status :: run_status
  ra_priority :: int
  ra_mode :: string
  ra_context :: jdict
  ra_project :: "string option"

definition insert_run :: "config \<Rightarrow> run_args \<Rightarrow> (db, run_row) act" where
  "insert_run cfg a d =
     (if \<not> (ra_mode a = ''step'' \<or> ra_mode a = ''node'') then (Inl CheckViolation, d)
      else if ra_id a \<in> r_id ` set (runs d) then (Inl UniqueViolation, d)
      else let r = \<lparr>r_id = ra_id a, r_parcel = ra_parcel a, r_workflow = ra_workflow a,
                    r_status = ra_status a, r_priority = ra_priority a, r_mode = ra_mode a,
                    r_current_step = None, r_progress = 0, r_steps_done = JList [],
                    r_context = ra_context a, r_input_spec = None, r_out_dir = ra_out_dir a,
                    r_error = None, r_resume_count = 0, r_project = project_of cfg (ra_project a),
                    r_queued_at = (if ra_status a = R_queued then Some (now d) else None),
                    r_started_at = None, r_finished_at = None, r_created_at = now d,
                    r_updated_at = now d\<rparr>
           in (Inr r, d\<lparr>runs := runs d @ [r]\<rparr>))"

text \<open>The four tables whose foreign key to the run says \<^verbatim>\<open>ON DELETE CASCADE\<close> lose its rows.\<close>

definition delete_run :: "string \<Rightarrow> db \<Rightarrow> db" where
  "delete_run run_id d =
     d\<lparr>runs := sql_delete (\<lambda>r. r_id r = run_id) (runs d),
       node_jobs := sql_delete (\<lambda>j. nj_run j = run_id) (node_jobs d),
       dispatch_events := sql_delete (\<lambda>e. ev_run e = run_id) (dispatch_events d),
       node_events := sql_delete (\<lambda>e. ne_run e = run_id) (node_events d),
       submissions := sql_delete (\<lambda>b. sb_run b = run_id) (submissions d)\<rparr>"

definition reenqueue_running_for_resume :: "config \<Rightarrow> string option \<Rightarrow> db \<Rightarrow> nat \<times> db" where
  "reenqueue_running_for_resume cfg project d =
     (let P = (\<lambda>r. r_status r = R_running \<and> r_project r = project_of cfg project);
          f = (\<lambda>r. r\<lparr>r_status := R_queued, r_priority := 10, r_resume_count := r_resume_count r + 1,
                     r_queued_at := Some (now d), r_updated_at := now d\<rparr>)
      in (length (sql_returning P f (runs d)), d\<lparr>runs := sql_update P f (runs d)\<rparr>))"

definition claim_next_queued :: "db \<Rightarrow> run_row option \<times> db" where
  "claim_next_queued d =
     (case first_by (\<lambda>r. (r_priority r, nulls_last (r_queued_at r)))
             (sql_select (\<lambda>r. r_status r = R_queued \<and> r_mode r = ''step'') (runs d)) of
        None \<Rightarrow> (None, d)
      | Some c \<Rightarrow>
          let P = (\<lambda>r. r_id r = r_id c);
              f = (\<lambda>r. r\<lparr>r_status := R_running, r_updated_at := now d,
                         r_started_at := coalesce (r_started_at r) (Some (now d))\<rparr>)
          in (fetchone (sql_returning P f (runs d)), d\<lparr>runs := sql_update P f (runs d)\<rparr>))"

section \<open>The dispatch outbox\<close>

definition enqueue_dispatch_event_in_txn :: "string \<Rightarrow> string \<Rightarrow> string \<Rightarrow> (db, nat) act" where
  "enqueue_dispatch_event_in_txn run_id node_id kind d =
     (if kind \<notin> {''completed'', ''failed'', ''awaiting_input''} then (Inl CheckViolation, d)
      else if run_id \<notin> r_id ` set (runs d) then (Inl ForeignKeyViolation, d)
      else (Inr (next_event d),
            d\<lparr>dispatch_events := dispatch_events d @
                [\<lparr>ev_id = next_event d, ev_run = run_id, ev_node = node_id, ev_kind = kind,
                  ev_processed = None, ev_error = None, ev_attempts = 0, ev_created = now d\<rparr>],
              next_event := Suc (next_event d)\<rparr>))"

definition list_unprocessed_dispatch_events :: "nat \<Rightarrow> db \<Rightarrow> dispatch_event list" where
  "list_unprocessed_dispatch_events limit d =
     order_by ev_created limit (sql_select (\<lambda>e. ev_processed e = None) (dispatch_events d))"

definition mark_dispatch_event_processed :: "nat \<Rightarrow> db \<Rightarrow> db" where
  "mark_dispatch_event_processed event_id d =
     d\<lparr>dispatch_events := sql_update (\<lambda>e. ev_id e = event_id) (\<lambda>e. e\<lparr>ev_processed := Some (now d)\<rparr>)
         (dispatch_events d)\<rparr>"

definition record_dispatch_event_failure :: "nat \<Rightarrow> string option \<Rightarrow> db \<Rightarrow> db" where
  "record_dispatch_event_failure event_id error d =
     d\<lparr>dispatch_events := sql_update (\<lambda>e. ev_id e = event_id)
         (\<lambda>e. e\<lparr>ev_attempts := ev_attempts e + 1, ev_error := clip_error error\<rparr>) (dispatch_events d)\<rparr>"

definition count_unprocessed_dispatch_events :: "db \<Rightarrow> nat" where
  "count_unprocessed_dispatch_events d =
     length (sql_select (\<lambda>e. ev_processed e = None) (dispatch_events d))"

section \<open>The node-event history\<close>

definition node_event_types :: "string list" where
  "node_event_types = [''claimed'', ''model_load_start'', ''model_load_done'', ''progress_beat'',
     ''stall_suspected'', ''stall_trip'', ''gpu_health_trip'', ''budget_trip'', ''unassignable'',
     ''requeued'', ''reassigned'', ''lease_renew'', ''completed'', ''failed'', ''cancelled'', ''error'']"

text \<open>The keyword arguments of \<^verbatim>\<open>record_node_event\<close>.\<close>

record event_args =
  va_run :: string
  va_node :: string
  va_type :: string
  va_job :: "nat option"
  va_attempt :: nat
  va_host :: "string option"
  va_queue :: "string option"
  va_model :: "string option"
  va_elapsed :: "int option"
  va_error :: "string option"
  va_detail :: jdict

definition record_node_event_in_txn :: "event_args \<Rightarrow> (db, nat) act" where
  "record_node_event_in_txn a d =
     (if va_type a \<notin> set node_event_types then (Inl (ValueError ''unknown node event_type''), d)
      else if va_run a \<notin> r_id ` set (runs d) then (Inl ForeignKeyViolation, d)
      else (Inr (next_node_event d),
            d\<lparr>node_events := node_events d @
                [\<lparr>ne_id = next_node_event d, ne_run = va_run a, ne_node = va_node a, ne_job = va_job a,
                  ne_attempt = va_attempt a, ne_type = va_type a, ne_host = va_host a,
                  ne_queue = va_queue a, ne_model = va_model a, ne_elapsed = va_elapsed a,
                  ne_error = clip_error (va_error a), ne_detail = va_detail a, ne_created = now d\<rparr>],
              next_node_event := Suc (next_node_event d)\<rparr>))"

definition record_node_event :: "event_args \<Rightarrow> db \<Rightarrow> nat option \<times> db" where
  "record_node_event a = best_effort (in_txn (record_node_event_in_txn a))"

definition prune_node_events :: "int \<Rightarrow> db \<Rightarrow> nat \<times> db" where
  "prune_node_events older_than_days d =
     (let P = (\<lambda>e. ne_created e < now d - secs (max older_than_days 1 * 86400))
      in (length (sql_select P (node_events d)), d\<lparr>node_events := sql_delete P (node_events d)\<rparr>))"

definition list_node_events :: "nat \<Rightarrow> nat \<Rightarrow> db \<Rightarrow> node_event list" where
  "list_node_events job_id limit d =
     order_by (\<lambda>e. (ne_created e, ne_id e)) limit (sql_select (\<lambda>e. ne_job e = Some job_id) (node_events d))"

section \<open>Every statement keeps the database invariant\<close>

text \<open>A statement that rewrites runs but keeps their ids keeps every invariant.\<close>

lemma db_inv_runs_update:
  assumes "db_inv d" and "map r_id rs = map r_id (runs d)"
  shows "db_inv (d\<lparr>runs := rs\<rparr>)"
proof -
  have "r_id ` set rs = r_id ` set (runs d)" using assms(2) by (metis list.set_map)
  with assms show ?thesis by (simp add: inv_defs)
qed

lemma set_fields_id [simp]: "r_id (fold set_field fs r) = r_id r"
proof (induction fs arbitrary: r)
  case (Cons f fs)
  then show ?case by (cases f) simp_all
qed simp

lemma update_run_inv: "db_inv d \<Longrightarrow> db_inv (snd (update_run run_id changes d))"
  by (auto simp: update_run_def Let_def map_sql_update intro!: db_inv_runs_update)

lemma resume_runs_inv:
  assumes "db_inv d"
  shows "db_inv (snd (reenqueue_running_for_resume cfg prj d))"
    and "db_inv (snd (claim_next_queued d))"
  using assms
  by (auto simp: reenqueue_running_for_resume_def claim_next_queued_def Let_def map_sql_update
      split: option.splits intro!: db_inv_runs_update)

lemma insert_run_inv: "db_inv d \<Longrightarrow> db_inv (snd (insert_run cfg a d))"
  by (auto simp: insert_run_def Let_def inv_defs)

lemma delete_run_inv: "db_inv d \<Longrightarrow> db_inv (delete_run run_id d)"
  by (auto simp: delete_run_def inv_defs sql_delete_def distinct_map_filter)

lemma enqueue_dispatch_event_inv: "db_inv d \<Longrightarrow> db_inv (snd (enqueue_dispatch_event_in_txn r n k d))"
proof -
  assume inv: "db_inv d"
  then have "events_inv (snd (enqueue_dispatch_event_in_txn r n k d))"
    by (force simp: enqueue_dispatch_event_in_txn_def events_inv_def db_inv_def)
  with inv show ?thesis by (simp add: db_inv_def enqueue_dispatch_event_in_txn_def)
qed

lemma event_marks_inv:
  assumes "db_inv d"
  shows "db_inv (mark_dispatch_event_processed k d)"
    and "db_inv (record_dispatch_event_failure k e d)"
  using assms
  by (auto simp: mark_dispatch_event_processed_def record_dispatch_event_failure_def db_inv_def
      events_inv_def map_sql_update elim!: mem_sql_updateE)

lemma record_node_event_in_txn_inv: "db_inv d \<Longrightarrow> db_inv (snd (record_node_event_in_txn a d))"
  by (simp add: record_node_event_in_txn_def db_inv_def)

lemma in_txn_inv: "db_inv (snd (m d)) \<Longrightarrow> db_inv d \<Longrightarrow> db_inv (snd (in_txn m d))"
  by (auto simp: in_txn_def split: prod.splits sum.splits)

lemma record_node_event_inv: "db_inv d \<Longrightarrow> db_inv (snd (record_node_event a d))"
  using in_txn_inv[of "record_node_event_in_txn a" d] record_node_event_in_txn_inv[of d a]
  by (auto simp: record_node_event_def best_effort_def split: prod.splits sum.splits)

lemma record_node_event_frame [simp]:
  "node_jobs (snd (record_node_event a d)) = node_jobs d"
  "dispatch_events (snd (record_node_event a d)) = dispatch_events d"
  "runs (snd (record_node_event a d)) = runs d"
  "next_event (snd (record_node_event a d)) = next_event d"
  "ingest_jobs (snd (record_node_event a d)) = ingest_jobs d"
  "heartbeats (snd (record_node_event a d)) = heartbeats d"
  "now (snd (record_node_event a d)) = now d"
  by (auto simp: record_node_event_def best_effort_def in_txn_def record_node_event_in_txn_def
      split: prod.splits sum.splits)

section \<open>Round trip of runs\<close>

text \<open>
  Insert, read, delete: an accepted insert is read back under its id and no other run changes;
  a delete removes the run together with all its node jobs, dispatch events, node events and
  submissions, and keeps every row of the other runs.
\<close>

theorem run_insert_delete_roundtrip:
  assumes "insert_run cfg a d = (Inr r, d')"
  shows "get_run (ra_id a) d' = Some r \<and> r_status r = ra_status a \<and>
    (\<forall>k. k \<noteq> ra_id a \<longrightarrow> get_run k d' = get_run k d) \<and>
    get_run (ra_id a) (delete_run (ra_id a) d') = None \<and>
    node_jobs (delete_run (ra_id a) d') = filter (\<lambda>j. nj_run j \<noteq> ra_id a) (node_jobs d') \<and>
    dispatch_events (delete_run (ra_id a) d') = filter (\<lambda>e. ev_run e \<noteq> ra_id a) (dispatch_events d') \<and>
    node_events (delete_run (ra_id a) d') = filter (\<lambda>e. ne_run e \<noteq> ra_id a) (node_events d') \<and>
    (\<forall>k. k \<noteq> ra_id a \<longrightarrow> get_run k (delete_run (ra_id a) d') = get_run k d)"
proof -
  have new: "ra_id a \<notin> r_id ` set (runs d)" and r: "r_id r = ra_id a" "r_status r = ra_status a"
    and d': "d' = d\<lparr>runs := runs d @ [r]\<rparr>"
    using assms by (auto simp: insert_run_def Let_def split: if_splits)
  have kept: "filter (\<lambda>x. r_id x \<noteq> ra_id a) (runs d) = runs d"
    using new by (auto simp: filter_id_conv image_iff)
  have none: "run_of d (ra_id a) = None" using new by (simp add: row_of_None)
  have look: "run_of d' k = (if k = ra_id a then Some r else run_of d k)" for k
    using none r by (auto simp: d' row_of_append split: option.splits)
  have "runs (delete_run (ra_id a) d') = runs d"
    using r kept by (simp add: d' delete_run_def sql_delete_def)
  with none look r show ?thesis
    by (simp add: get_run_def) (simp add: delete_run_def sql_delete_def)
qed

definition demo_run_args :: run_args where
  "demo_run_args = \<lparr>ra_id = ''r2'', ra_workflow = ''wf'', ra_parcel = None, ra_out_dir = None,
     ra_status = R_queued, ra_priority = 100, ra_mode = ''node'', ra_context = [], ra_project = None\<rparr>"

theorem run_insert_delete_roundtrip_witness:
  "get_run ''r2'' (delete_run ''r2'' (snd (insert_run demo_cfg demo_run_args demo_db))) = None \<and>
   get_run ''r1'' (delete_run ''r2'' (snd (insert_run demo_cfg demo_run_args demo_db))) = get_run ''r1'' demo_db"
proof -
  have id: "ra_id demo_run_args = ''r2''" by (simp add: demo_run_args_def)
  have ne: "''r1'' \<noteq> ''r2''" by simp
  let ?x = "insert_run demo_cfg demo_run_args demo_db"
  have "\<not> isl (fst ?x)" by code_simp
  then obtain r where "fst ?x = Inr r" by (cases "fst ?x") simp_all
  then have "?x = (Inr r, snd ?x)" by (cases ?x) (simp only: fst_conv snd_conv)
  note all = run_insert_delete_roundtrip[OF this, unfolded id]
  show ?thesis
  proof
    show "get_run ''r2'' (delete_run ''r2'' (snd ?x)) = None" using all by (elim conjE)
    show "get_run ''r1'' (delete_run ''r2'' (snd ?x)) = get_run ''r1'' demo_db"
      by (rule all[THEN conjunct2, THEN conjunct2, THEN conjunct2, THEN conjunct2, THEN conjunct2,
            THEN conjunct2, THEN conjunct2, rule_format, OF ne])
  qed
qed

end
