(* ===== verification/Dag.thy ===== *)
theory Dag
  imports Run_Store
begin

text \<open>
  The pure half of \<^verbatim>\<open>dispatcher.py\<close>: expanding a workflow and its pipeline schemas into a DAG of
  nodes, the input references of a schema node, the guard on GPU nodes without a model, the
  ready-node search and the skip decision. The definition sources are host code and are
  parameters (\<open>host\<close>), as are \<^verbatim>\<open>ast.literal_eval\<close>, \<^verbatim>\<open>repr\<close> and the file system.
\<close>

section \<open>Workflow definitions and host services\<close>

text \<open>
  A step of a workflow; \<open>st_raw\<close> is the step mapping itself, from which the builder of the input
  widgets reads the keys that are its own.
\<close>

record wf_step =
  st_id :: string
  st_kind :: "string option"
  st_pipeline :: string
  st_inputs :: jdict
  st_depends :: "string list"
  st_skip_if :: "json option"
  st_widget :: "string option"
  st_target :: "string option"
  st_raw :: jdict

record schema_node =
  sn_id :: string
  sn_node :: "string option"
  sn_depends :: "string list"
  sn_gpu :: bool
  sn_model :: "string option"
  sn_inputs :: "(string option \<times> string) list"
  sn_skip_if :: "json option"

record file_entry =
  fe_rel :: string
  fe_suffix :: string
  fe_abs :: string
  fe_size :: int

record host =
  h_cfg :: config
  h_workflow :: "(string \<Rightarrow> wf_step list result) option"
  h_schema :: "(string \<Rightarrow> schema_node list result) option"
  h_rt :: py_rt
  h_literal :: "string \<Rightarrow> json option"
  h_repr :: "string \<Rightarrow> string"
  h_scan :: "string \<Rightarrow> (string \<times> file_entry list) list option"
  h_is_file :: "string \<Rightarrow> bool"
  h_isoformat :: "int \<Rightarrow> string"

definition load_workflow :: "host \<Rightarrow> string \<Rightarrow> wf_step list result" where
  "load_workflow host name =
     (case h_workflow host of None \<Rightarrow> Inl (RuntimeError ''no workflow loader configured'')
      | Some loader \<Rightarrow> loader name)"

definition pipeline_schema :: "host \<Rightarrow> string \<Rightarrow> schema_node list result" where
  "pipeline_schema host name =
     (case h_schema host of None \<Rightarrow> Inl (RuntimeError ''no pipeline-schema loader configured'')
      | Some loader \<Rightarrow> loader name)"

text \<open>One node of the expanded DAG; \<open>dn_input\<close> tells an input step from a pipeline node.\<close>

record dag_node =
  dn_id :: string
  dn_input :: bool
  dn_widget :: "string option"
  dn_target :: "string option"
  dn_node :: string
  dn_depends :: "string list"
  dn_gpu :: bool
  dn_model :: "string option"
  dn_inputs :: jdict
  dn_pipeline :: "string option"
  dn_skip_if :: "json option"

section \<open>Input references of a schema node\<close>

text \<open>The group of \<^verbatim>\<open>^prefix(.+)\)$\<close>: \<^verbatim>\<open>.\<close> is no newline, \<^verbatim>\<open>$\<close> allows one trailing newline.\<close>

definition paren_arg :: "string \<Rightarrow> string \<Rightarrow> string option" where
  "paren_arg pre src =
     (let s = (if src \<noteq> [] \<and> last src = CHR 0x0A then butlast src else src);
          body = butlast (drop (length pre) s)
      in if starts_with s pre \<and> length pre < length s \<and> last s = CHR '')'' \<and> body \<noteq> [] \<and>
            CHR 0x0A \<notin> set body
         then Some body else None)"

definition nonempty :: "string option \<Rightarrow> bool" where
  "nonempty s \<longleftrightarrow> (case s of None \<Rightarrow> False | Some x \<Rightarrow> x \<noteq> [])"

definition py_str :: "py_rt \<Rightarrow> json \<Rightarrow> string" where
  "py_str rt v = (case v of JStr s \<Rightarrow> s | _ \<Rightarrow> rt_str rt v)"

definition resolve_input_ref :: "host \<Rightarrow> string \<Rightarrow> string \<Rightarrow> jdict \<Rightarrow> string option \<Rightarrow> json" where
  "resolve_input_ref host src step_id step_inputs out_dir =
     (case paren_arg ''pipeline._implicit('' src of
        Some raw \<Rightarrow>
          (case h_literal host (py_strip raw) of Some v \<Rightarrow> v | None \<Rightarrow> JStr (py_strip raw))
      | None \<Rightarrow>
          (case paren_arg ''pipeline._siblings('' src of
             Some raw \<Rightarrow>
               (case h_literal host (py_strip raw) of
                  Some (JList ids) \<Rightarrow>
                    if nonempty out_dir
                    then JList (map (\<lambda>sid. JStr (the out_dir @ ''/'' @ step_id @ ''/'' @
                           py_str (h_rt host) sid)) ids)
                    else JList ids
                | _ \<Rightarrow> JList [])
           | None \<Rightarrow>
               if starts_with src ''pipeline.''
               then (case jget step_inputs (drop 9 src) of None \<Rightarrow> JNull | Some v \<Rightarrow> v)
               else if nonempty out_dir
               then let sib = takeWhile (\<lambda>c. c \<noteq> CHR ''.'') src;
                        rest = drop (length sib + 1) src;
                        base = the out_dir @ ''/'' @ step_id @ ''/'' @ sib
                    in JStr (if rest \<noteq> [] then base @ ''/'' @ rest else base)
               else JStr src))"

section \<open>Expansion\<close>

text \<open>The step-to-leaf-nodes map; a schema with no nodes is an \<^verbatim>\<open>IndexError\<close> on \<^verbatim>\<open>nodes[-1]\<close>.\<close>

fun step_leaves :: "host \<Rightarrow> wf_step list \<Rightarrow> (string \<times> string list) list \<Rightarrow>
    (string \<times> string list) list result" where
  "step_leaves host [] acc = Inr acc"
| "step_leaves host (s # ss) acc =
     (if st_kind s = Some ''input'' then step_leaves host ss (jset (st_id s) [st_id s] acc)
      else if st_kind s \<noteq> Some ''pipeline'' then step_leaves host ss acc
      else case pipeline_schema host (st_pipeline s) of
             Inl e \<Rightarrow> Inl e
           | Inr nodes \<Rightarrow>
               let referenced = concat (map sn_depends nodes);
                   leaves = map (\<lambda>sn. st_id s @ ''/'' @ sn_id sn)
                     (filter (\<lambda>sn. sn_id sn \<notin> set referenced) nodes)
               in if leaves \<noteq> [] then step_leaves host ss (jset (st_id s) leaves acc)
                  else if nodes = [] then Inl IndexError
                  else step_leaves host ss
                         (jset (st_id s) [st_id s @ ''/'' @ sn_id (last nodes)] acc))"

definition expand_step_deps :: "(string \<times> string list) list \<Rightarrow> string list \<Rightarrow> string list" where
  "expand_step_deps leaves deps =
     concat (map (\<lambda>d. case jget leaves d of Some ls \<Rightarrow> ls | None \<Rightarrow> [d]) deps)"

definition either_truthy :: "json option \<Rightarrow> json option \<Rightarrow> json option" where
  "either_truthy a b = (case a of Some v \<Rightarrow> if truthy v then a else b | None \<Rightarrow> b)"

definition expand_node :: "host \<Rightarrow> wf_step \<Rightarrow> string list \<Rightarrow> string option \<Rightarrow> schema_node \<Rightarrow> dag_node" where
  "expand_node host s step_deps out_dir sn =
     \<lparr>dn_id = st_id s @ ''/'' @ sn_id sn, dn_input = False, dn_widget = None, dn_target = None,
      dn_node = (if nonempty (sn_node sn) then the (sn_node sn) else sn_id sn),
      dn_depends = map (\<lambda>d. st_id s @ ''/'' @ d) (sn_depends sn) @
        (if sn_depends sn = [] then step_deps else []),
      dn_gpu = sn_gpu sn, dn_model = sn_model sn,
      dn_inputs = fold (\<lambda>(name, src) acc. if nonempty name
          then jset (the name) (resolve_input_ref host src (st_id s) (st_inputs s) out_dir) acc
          else acc) (sn_inputs sn) [],
      dn_pipeline = Some (st_pipeline s),
      dn_skip_if = either_truthy (sn_skip_if sn) (st_skip_if s)\<rparr>"

definition input_node :: "wf_step \<Rightarrow> string list \<Rightarrow> dag_node" where
  "input_node s deps =
     \<lparr>dn_id = st_id s, dn_input = True, dn_widget = st_widget s, dn_target = st_target s,
      dn_node = [], dn_depends = deps, dn_gpu = False, dn_model = None, dn_inputs = [],
      dn_pipeline = None, dn_skip_if = st_skip_if s\<rparr>"

fun expand_steps :: "host \<Rightarrow> (string \<times> string list) list \<Rightarrow> string option \<Rightarrow> wf_step list \<Rightarrow>
    dag_node list result" where
  "expand_steps host leaves out_dir [] = Inr []"
| "expand_steps host leaves out_dir (s # ss) =
     (let deps = expand_step_deps leaves (st_depends s);
          here = (if st_kind s = Some ''input'' then Inr [input_node s deps]
                  else if st_kind s \<noteq> Some ''pipeline'' then Inr []
                  else case pipeline_schema host (st_pipeline s) of
                         Inl e \<Rightarrow> Inl e
                       | Inr nodes \<Rightarrow> Inr (map (expand_node host s deps out_dir) nodes))
      in case here of
           Inl e \<Rightarrow> Inl e
         | Inr ns \<Rightarrow> (case expand_steps host leaves out_dir ss of
                         Inl e \<Rightarrow> Inl e | Inr rest \<Rightarrow> Inr (ns @ rest)))"

definition nodes_of :: "host \<Rightarrow> wf_step list \<Rightarrow> run_row \<Rightarrow> dag_node list result" where
  "nodes_of host steps run =
     (case step_leaves host steps [] of
        Inl e \<Rightarrow> Inl e
      | Inr leaves \<Rightarrow> expand_steps host leaves (r_out_dir run) steps)"

definition queue_of :: "dag_node \<Rightarrow> string" where
  "queue_of n = (if dn_gpu n then ''gpu'' else ''cpu'')"

definition required_model :: "dag_node \<Rightarrow> string option" where
  "required_model n = (if dn_gpu n \<and> nonempty (dn_model n) then dn_model n else None)"

text \<open>The message of the \<^verbatim>\<open>ValueError\<close>, or \<open>None\<close> when every GPU node declares a model.\<close>

definition gpu_offenders :: "host \<Rightarrow> dag_node list \<Rightarrow> dag_node list" where
  "gpu_offenders host nodes =
     filter (\<lambda>n. dn_gpu n \<and> \<not> nonempty (dn_model n) \<and>
       (if dn_node n \<noteq> [] then dn_node n else dn_id n)
         \<notin> set (cfg_vlm_pool_modules (h_cfg host)) \<union> set (cfg_gpu_self_load_modules (h_cfg host))) nodes"

definition assert_gpu_nodes_declare_model :: "host \<Rightarrow> dag_node list \<Rightarrow> unit result" where
  "assert_gpu_nodes_declare_model host nodes =
     (case gpu_offenders host nodes of
        [] \<Rightarrow> Inr ()
      | offenders \<Rightarrow> Inl (ValueError (''gpu:true node(s) without a declared '' @ [CHR 0x27] @ ''model'' @
          [CHR 0x27] @ '' would enqueue with required_model=NULL '' @ em_dash @
          '' declare a registered model in the schema, or add the module to vlm_pool_node_modules'' @
          '' / gpu_self_load_node_modules if it intentionally self-manages its model: '' @
          join_with '', '' (map (\<lambda>n. dn_id n @ '' (module='' @
            h_repr host (if dn_node n \<noteq> [] then dn_node n else dn_id n) @ '')'') offenders))))"

section \<open>Ready nodes and skipping\<close>

definition jobs_by_node_id :: "string \<Rightarrow> db \<Rightarrow> (string \<times> node_job) list" where
  "jobs_by_node_id run_id d = fold (\<lambda>j acc. jset (nj_node j) j acc) (list_jobs_for_run run_id d) []"

definition satisfied :: "(string \<times> node_job) list \<Rightarrow> string \<Rightarrow> bool" where
  "satisfied existing dep \<longleftrightarrow>
     (case jget existing dep of
        None \<Rightarrow> False | Some j \<Rightarrow> nj_status j = Completed \<or> nj_status j = Skipped)"

definition find_ready_nodes :: "dag_node list \<Rightarrow> (string \<times> node_job) list \<Rightarrow> dag_node list" where
  "find_ready_nodes nodes existing =
     filter (\<lambda>n. jget existing (dn_id n) = None \<and> list_all (satisfied existing) (dn_depends n)) nodes"

definition eval_skip_context :: "run_row \<Rightarrow> (string \<times> node_job) list \<Rightarrow> jdict" where
  "eval_skip_context run existing =
     fold (\<lambda>(nid, j) ctx. if nj_status j = Completed \<and> nj_delta j \<noteq> []
         then jset nid (JObj (nj_delta j)) ctx else ctx) existing (r_context run)"

definition should_skip_node :: "host \<Rightarrow> dag_node \<Rightarrow> run_row \<Rightarrow> (string \<times> node_job) list \<Rightarrow> bool result" where
  "should_skip_node host n run existing =
     (case dn_skip_if n of
        None \<Rightarrow> Inr False
      | Some cond \<Rightarrow>
          if \<not> truthy cond then Inr False
          else case resolve_ref (h_rt host) cond (JObj (eval_skip_context run existing)) of
                 Inr v \<Rightarrow> Inr (truthy v)
               | Inl (KeyError _) \<Rightarrow> Inr False
               | Inl (TypeError _) \<Rightarrow> Inr False
               | Inl e \<Rightarrow> Inl e)"

section \<open>What the ready search sees\<close>

lemma jget_jobs_fold:
  assumes "distinct (map nj_node js)"
  shows "jget (fold (\<lambda>j acc. jset (nj_node j) j acc) js acc) n =
    (case row_of nj_node n js of Some j \<Rightarrow> Some j | None \<Rightarrow> jget acc n)"
  using assms
proof (induction js arbitrary: acc)
  case (Cons j js)
  have "nj_node j \<notin> nj_node ` set js" using Cons.prems by simp
  then have "row_of nj_node (nj_node j) js = None" by (simp add: row_of_None)
  with Cons show ?case by (auto split: option.splits)
qed simp

lemma run_jobs_distinct:
  assumes "jobs_inv d"
  shows "distinct (map nj_node (list_jobs_for_run run_id d))"
proof -
  have "distinct (map job_cell (node_jobs d))" using assms by (simp add: jobs_inv_def)
  then have "inj_on nj_node {j \<in> set (node_jobs d). nj_run j = run_id}" and "distinct (node_jobs d)"
    by (auto simp: distinct_map inj_on_def)
  then have "inj_on nj_node (set (list_jobs_for_run run_id d))" and "distinct (list_jobs_for_run run_id d)"
    by (simp_all add: list_jobs_for_run_def sql_select_def)
  then show ?thesis by (simp add: distinct_map)
qed

lemma jobs_by_node_id_iff:
  assumes inv: "jobs_inv d"
  shows "jget (jobs_by_node_id run_id d) n = Some j \<longleftrightarrow>
    j \<in> set (node_jobs d) \<and> nj_run j = run_id \<and> nj_node j = n"
proof -
  let ?js = "list_jobs_for_run run_id d"
  have set: "set ?js = {j \<in> set (node_jobs d). nj_run j = run_id}"
    by (auto simp: list_jobs_for_run_def sql_select_def)
  have "jget (jobs_by_node_id run_id d) n = row_of nj_node n ?js"
    using jget_jobs_fold[OF run_jobs_distinct[OF inv]]
    by (auto simp: jobs_by_node_id_def jget_def split: option.splits)
  moreover have "row_of nj_node n ?js = Some j \<longleftrightarrow> j \<in> set ?js \<and> nj_node j = n"
    using row_of_mem[OF run_jobs_distinct[OF inv], of j] row_of_SomeD[of nj_node n ?js j] by auto
  ultimately show ?thesis using set by auto
qed

lemma jobs_by_node_id_None:
  assumes inv: "jobs_inv d"
  shows "jget (jobs_by_node_id run_id d) n = None \<longleftrightarrow> (run_id, n) \<notin> job_cell ` set (node_jobs d)"
proof (cases "jget (jobs_by_node_id run_id d) n")
  case None
  with jobs_by_node_id_iff[OF inv, of run_id n] show ?thesis by (auto simp: image_iff)
next
  case (Some j)
  then have "j \<in> set (node_jobs d) \<and> nj_run j = run_id \<and> nj_node j = n"
    using jobs_by_node_id_iff[OF inv] by blast
  with Some show ?thesis by (auto simp: image_iff)
qed

lemma satisfied_iff:
  assumes inv: "jobs_inv d"
  shows "satisfied (jobs_by_node_id run_id d) dep \<longleftrightarrow>
    (\<exists>j\<in>set (node_jobs d). nj_run j = run_id \<and> nj_node j = dep \<and>
       (nj_status j = Completed \<or> nj_status j = Skipped))"
proof (cases "jget (jobs_by_node_id run_id d) dep")
  case None
  with jobs_by_node_id_None[OF inv, of run_id dep] show ?thesis
    by (auto simp: satisfied_def image_iff)
next
  case (Some j)
  then have "x \<in> set (node_jobs d) \<and> nj_run x = run_id \<and> nj_node x = dep \<longleftrightarrow> x = j" for x
    using jobs_by_node_id_iff[OF inv, of run_id dep x] by auto
  moreover have "satisfied (jobs_by_node_id run_id d) dep \<longleftrightarrow>
      nj_status j = Completed \<or> nj_status j = Skipped"
    using Some by (simp add: satisfied_def)
  ultimately show ?thesis by metis
qed

end
