(* ===== verification/Dispatcher.thy ===== *)
theory Dispatcher
  imports Dag
begin

text \<open>
  The stateful half of \<^verbatim>\<open>dispatcher.py\<close>: enqueueing ready nodes, the cascade loop, the worker
  callbacks, patch jobs, reconciliation of phantom runs and late input resolution. Each SQL
  statement is one step; a handler is their sequence, and an exception leaves behind what was
  already committed, as in the source.
\<close>

section \<open>The reference context\<close>

text \<open>\<^verbatim>\<open>{**(ctx.get(k) or {}), ...}\<close>: a truthy value that is no mapping is a \<^verbatim>\<open>TypeError\<close>.\<close>

definition as_mapping :: "json option \<Rightarrow> jdict option" where
  "as_mapping v =
     (case v of
        None \<Rightarrow> Some []
      | Some (JObj kvs) \<Rightarrow> Some kvs
      | Some x \<Rightarrow> if truthy x then None else Some [])"

text \<open>The merge of completed siblings; the \<^verbatim>\<open>try\<close> around the loop keeps what was merged.\<close>

fun merge_siblings :: "node_job list \<Rightarrow> jdict \<Rightarrow> jdict" where
  "merge_siblings [] ctx = ctx"
| "merge_siblings (j # js) ctx =
     (if nj_status j = Completed \<and> nj_delta j \<noteq> [] \<and> nj_node j \<noteq> []
      then (case as_mapping (jget ctx (nj_node j)) of
              None \<Rightarrow> ctx
            | Some m \<Rightarrow> merge_siblings js (jset (nj_node j) (JObj (jmerge m (nj_delta j))) ctx))
      else merge_siblings js ctx)"

definition ext_kind :: "string \<Rightarrow> string" where
  "ext_kind ext =
     (if ext \<in> {''.png'', ''.jpg'', ''.jpeg'', ''.webp'', ''.gif''} then ''image''
      else if ext \<in> {''.json'', ''.geojson''} then ''json''
      else if ext = ''.csv'' then ''csv''
      else if ext \<in> {''.txt'', ''.md''} then ''text''
      else if ext = ''.ply'' then ''pointcloud''
      else if ext \<in> {''.obj'', ''.glb''} then ''mesh''
      else ''file'')"

definition file_info :: "file_entry \<Rightarrow> json" where
  "file_info f = JObj [(''rel_path'', JStr (fe_rel f)), (''kind'', JStr (ext_kind (fe_suffix f))),
     (''abs_path'', JStr (fe_abs f)), (''size_bytes'', JInt (fe_size f))]"

fun add_files :: "(string \<times> file_entry list) list \<Rightarrow> jdict \<Rightarrow> jdict result" where
  "add_files [] ctx = Inr ctx"
| "add_files ((step, fs) # dirs) ctx =
     (case as_mapping (jget ctx step) of
        None \<Rightarrow> Inl (TypeError ''not a mapping'')
      | Some m \<Rightarrow> add_files dirs (jset step (JObj (jset ''files'' (JList (map file_info fs)) m)) ctx))"

definition ref_context :: "host \<Rightarrow> run_row \<Rightarrow> db \<Rightarrow> jdict result" where
  "ref_context host run d =
     (let ctx = merge_siblings (list_jobs_for_run (r_id run) d) (r_context run)
      in if \<not> nonempty (r_out_dir run) then Inr ctx
         else case h_scan host (the (r_out_dir run)) of
                None \<Rightarrow> Inr ctx
              | Some dirs \<Rightarrow> add_files dirs ctx)"

section \<open>Enqueue and the cascade\<close>

definition opt_json :: "string option \<Rightarrow> json" where
  "opt_json s = (case s of None \<Rightarrow> JNull | Some x \<Rightarrow> JStr x)"

definition enqueue :: "host \<Rightarrow> string \<Rightarrow> dag_node \<Rightarrow> run_row \<Rightarrow> (db, nat) act" where
  "enqueue host run_id n run d =
     (if dn_input n
      then enqueue_node_job (h_cfg host)
        \<lparr>ea_run = run_id, ea_node = dn_id n,
         ea_module = ''__input__'' @ (case dn_widget n of None \<Rightarrow> ''None'' | Some w \<Rightarrow> w),
         ea_queue = ''cpu'', ea_model = None,
         ea_inputs = [(''widget'', opt_json (dn_widget n)), (''target'', opt_json (dn_target n))],
         ea_priority = r_priority run, ea_pipeline = None, ea_project = Some (r_project run)\<rparr> d
      else case ref_context host run d of
             Inl e \<Rightarrow> (Inl e, d)
           | Inr ctx \<Rightarrow>
               (case resolve_items (h_rt host) (dn_inputs n) (JObj ctx) of
                  Inl e \<Rightarrow> (Inl e, d)
                | Inr resolved \<Rightarrow> enqueue_node_job (h_cfg host)
                    \<lparr>ea_run = run_id, ea_node = dn_id n,
                     ea_module = (if dn_node n \<noteq> [] then dn_node n else dn_id n),
                     ea_queue = queue_of n, ea_model = required_model n, ea_inputs = resolved,
                     ea_priority = r_priority run, ea_pipeline = dn_pipeline n,
                     ea_project = Some (r_project run)\<rparr> d))"

text \<open>The body of the \<^verbatim>\<open>for\<close> loop of \<^verbatim>\<open>_process_ready\<close>: a skip marker or a queued job.\<close>

definition dispatch_node :: "host \<Rightarrow> string \<Rightarrow> run_row \<Rightarrow> (string \<times> node_job) list \<Rightarrow> dag_node \<Rightarrow>
    (db, unit) act" where
  "dispatch_node host run_id run existing n d =
     (case should_skip_node host n run existing of
        Inl e \<Rightarrow> (Inl e, d)
      | Inr True \<Rightarrow>
          (case insert_skipped_job (h_cfg host) run_id (dn_id n) (dn_pipeline n) (Some (r_project run)) d of
             (Inl e, d') \<Rightarrow> (Inl e, d') | (Inr _, d') \<Rightarrow> (Inr (), d'))
      | Inr False \<Rightarrow>
          (case enqueue host run_id n run d of
             (Inl e, d') \<Rightarrow> (Inl e, d') | (Inr _, d') \<Rightarrow> (Inr (), d')))"

text \<open>
  The sort key of a fan-out tick: the model, with the nodes that declare none last; the sort is
  stable, which is what the index in the source's key amounts to.
\<close>

definition ready_key :: "dag_node \<Rightarrow> bool \<times> string" where
  "ready_key n = (if nonempty (dn_model n) then (False, the (dn_model n)) else (True, []))"

text \<open>
  The \<^verbatim>\<open>while True\<close> loop of \<^verbatim>\<open>_process_ready\<close> with fuel; \<open>None\<close> is running out of it, which
  cannot happen with more fuel than nodes.
\<close>

fun process_ready :: "host \<Rightarrow> nat \<Rightarrow> string \<Rightarrow> dag_node list \<Rightarrow> run_row \<Rightarrow> nat \<Rightarrow> db \<Rightarrow>
    (nat result \<times> db) option" where
  "process_ready host 0 run_id nodes run new_rows d = None"
| "process_ready host (Suc fuel) run_id nodes run new_rows d =
     (let existing = jobs_by_node_id run_id d;
          ready = find_ready_nodes nodes existing
      in if ready = [] then Some (Inr new_rows, d)
         else case for_each (dispatch_node host run_id run existing) (sort_key ready_key ready) d of
                (Inl e, d') \<Rightarrow> Some (Inl e, d')
              | (Inr _, d') \<Rightarrow> process_ready host fuel run_id nodes run (new_rows + length ready) d')"

definition process_ready_all :: "host \<Rightarrow> string \<Rightarrow> dag_node list \<Rightarrow> run_row \<Rightarrow> (db, nat) act" where
  "process_ready_all host run_id nodes run d =
     (case process_ready host (Suc (length nodes)) run_id nodes run 0 d of
        Some r \<Rightarrow> r | None \<Rightarrow> (Inl (RuntimeError ''unreachable''), d))"

definition fail_run :: "string \<Rightarrow> string \<Rightarrow> (db, unit) act" where
  "fail_run run_id err d =
     (case update_run run_id [F_status R_failed, F_finished_at (Some (now d)), F_error (Some err)] d of
        (Inl e, d') \<Rightarrow> (Inl e, d') | (Inr _, d') \<Rightarrow> (Inr (), d'))"

definition start_run :: "host \<Rightarrow> string \<Rightarrow> (db, nat) act" where
  "start_run host run_id d =
     (case get_run run_id d of
        None \<Rightarrow> (Inl (KeyError run_id), d)
      | Some run \<Rightarrow>
          (case load_workflow host (r_workflow run) of
             Inl e \<Rightarrow> (Inl e, d)
           | Inr steps \<Rightarrow>
               let checked = (case nodes_of host steps run of
                                Inl e \<Rightarrow> Inl e
                              | Inr nodes \<Rightarrow>
                                  (case assert_gpu_nodes_declare_model host nodes of
                                     Inl e \<Rightarrow> Inl e | Inr _ \<Rightarrow> Inr nodes))
               in case checked of
                    Inl (ValueError msg) \<Rightarrow>
                      (case fail_run run_id msg d of
                         (Inl e, d') \<Rightarrow> (Inl e, d') | (Inr _, d') \<Rightarrow> (Inr 0, d'))
                  | Inl e \<Rightarrow> (Inl e, d)
                  | Inr nodes \<Rightarrow> process_ready_all host run_id nodes run d))"

section \<open>Patch jobs\<close>

definition patch_meta :: "node_job option \<Rightarrow> jdict option" where
  "patch_meta job =
     (case job of
        None \<Rightarrow> None
      | Some j \<Rightarrow> (case jget (nj_inputs j) ''__patch__'' of Some (JObj m) \<Rightarrow> Some m | _ \<Rightarrow> None))"

definition set_or_pop :: "string \<times> json option \<Rightarrow> jdict \<Rightarrow> jdict" where
  "set_or_pop kv spec = (case snd kv of None \<Rightarrow> jpop (fst kv) spec | Some v \<Rightarrow> jset (fst kv) v spec)"

definition bump_input_spec :: "string \<Rightarrow> string \<Rightarrow> (string \<times> json option) list \<Rightarrow> db \<Rightarrow> db" where
  "bump_input_spec run_id target_input changes d =
     (if target_input = [] then d
      else case jget (jobs_by_node_id run_id d) target_input of
             None \<Rightarrow> d
           | Some j \<Rightarrow>
               (case nj_input_spec j of
                  Some (JObj spec) \<Rightarrow>
                    set_input_spec run_id target_input (Some (JObj (fold set_or_pop changes spec))) d
                | _ \<Rightarrow> d))"

text \<open>\<^verbatim>\<open>str(meta.get(k) or "")\<close>\<close>

definition meta_str :: "host \<Rightarrow> jdict \<Rightarrow> string \<Rightarrow> string" where
  "meta_str host meta k =
     (case jget meta k of None \<Rightarrow> [] | Some v \<Rightarrow> if truthy v then py_str (h_rt host) v else [])"

text \<open>The files a finished patch copies, as (from, to) pairs.\<close>

definition patch_copies :: "host \<Rightarrow> string \<Rightarrow> jdict \<Rightarrow> jdict \<Rightarrow> (string \<times> string) list" where
  "patch_copies host out_dir delta_new delta_old =
     concat (map (\<lambda>(key, new_val).
       case (new_val, jget delta_old key) of
         (JStr nv, Some (JStr ov)) \<Rightarrow>
           if nv \<noteq> ov \<and> out_dir \<noteq> [] \<and> starts_with nv out_dir \<and> starts_with ov out_dir \<and> h_is_file host nv
           then [(nv, ov)] else []
       | _ \<Rightarrow> []) delta_new)"

definition finish_patch_job :: "host \<Rightarrow> run_row \<Rightarrow> node_job \<Rightarrow> jdict \<Rightarrow> db \<Rightarrow>
    (string \<times> string) list \<times> db" where
  "finish_patch_job host run job meta d =
     (let src_job = jget (jobs_by_node_id (r_id run) d) (meta_str host meta ''source_node'');
          delta_old = (case src_job of None \<Rightarrow> [] | Some j \<Rightarrow> nj_delta j);
          out_dir = (case r_out_dir run of None \<Rightarrow> [] | Some s \<Rightarrow> s)
      in (patch_copies host out_dir (nj_delta job) delta_old,
          bump_input_spec (r_id run) (meta_str host meta ''target_input'')
            [(''patched_at'', Some (JStr (h_isoformat host (now d)))), (''patch_error'', None),
             (''patch_pending'', None), (''patch_node_id'', None)] d))"

definition flag_patch_error :: "host \<Rightarrow> run_row \<Rightarrow> node_job \<Rightarrow> jdict \<Rightarrow> db \<Rightarrow> db" where
  "flag_patch_error host run job meta d =
     (let err = take 500 (if nonempty (nj_error job) then the (nj_error job) else ''patch failed'')
      in bump_input_spec (r_id run) (meta_str host meta ''target_input'')
           [(''patch_error'', Some (JStr err)), (''patch_pending'', None), (''patch_node_id'', None)] d)"

section \<open>Worker callbacks\<close>

definition run_over :: "run_status \<Rightarrow> bool" where
  "run_over st \<longleftrightarrow> st = R_cancelled \<or> st = R_failed"

definition all_terminal :: "dag_node list \<Rightarrow> (string \<times> node_job) list \<Rightarrow> bool" where
  "all_terminal nodes existing \<longleftrightarrow> nodes \<noteq> [] \<and> list_all (\<lambda>n. satisfied existing (dn_id n)) nodes"

definition complete_run :: "string \<Rightarrow> (db, unit) act" where
  "complete_run run_id d =
     (case update_run run_id [F_status R_completed, F_finished_at (Some (now d))] d of
        (Inl e, d') \<Rightarrow> (Inl e, d') | (Inr _, d') \<Rightarrow> (Inr (), d'))"

text \<open>
  \<^verbatim>\<open>on_node_completed\<close> on an ordinary node: cascade, then the terminal check.
\<close>

definition cascade_completed :: "host \<Rightarrow> string \<Rightarrow> run_row \<Rightarrow> (db, nat) act" where
  "cascade_completed host run_id run d =
     (case load_workflow host (r_workflow run) of
        Inl e \<Rightarrow> (Inl e, d)
      | Inr steps \<Rightarrow>
          (case nodes_of host steps run of
             Inl e \<Rightarrow> (Inl e, d)
           | Inr nodes \<Rightarrow>
               (case process_ready_all host run_id nodes run d of
                  (Inl e, d') \<Rightarrow> (Inl e, d')
                | (Inr n, d') \<Rightarrow>
                    if all_terminal nodes (jobs_by_node_id run_id d')
                    then (case complete_run run_id d' of
                            (Inl e, d'') \<Rightarrow> (Inl e, d'') | (Inr _, d'') \<Rightarrow> (Inr n, d''))
                    else (Inr n, d'))))"

definition on_node_completed :: "host \<Rightarrow> string \<Rightarrow> string \<Rightarrow> (db, nat) act" where
  "on_node_completed host run_id node_id d =
     (case get_run run_id d of
        None \<Rightarrow> (Inr 0, d)
      | Some run \<Rightarrow>
          if run_over (r_status run) then (Inr 0, d)
          else let job = jget (jobs_by_node_id run_id d) node_id
               in case (job, patch_meta job) of
                    (Some j, Some meta) \<Rightarrow>
                      if meta \<noteq> [] then (Inr 0, snd (finish_patch_job host run j meta d))
                      else cascade_completed host run_id run d
                  | _ \<Rightarrow> cascade_completed host run_id run d)"

definition on_node_failed :: "host \<Rightarrow> string \<Rightarrow> string \<Rightarrow> (db, unit) act" where
  "on_node_failed host run_id node_id d =
     (let run = get_run run_id d;
          job = jget (jobs_by_node_id run_id d) node_id;
          fail = (\<lambda>d. fail_run run_id
            (''node '' @ h_repr host node_id @ '' failed (see workflow_node_jobs.error)'')
            (snd (cancel_siblings_after_failure run_id d)))
      in case run of
           None \<Rightarrow> fail d
         | Some r \<Rightarrow>
             if run_over (r_status r) then (Inr (), d)
             else case (job, patch_meta job) of
                    (Some j, Some meta) \<Rightarrow>
                      if meta \<noteq> [] then (Inr (), flag_patch_error host r j meta d) else fail d
                  | _ \<Rightarrow> fail d)"

section \<open>Reconciliation\<close>

datatype reconcile_tag = RC_noop | RC_completed | RC_enqueued | RC_requeued | RC_failed

definition reconcile_error :: string where
  "reconcile_error = ''reconciler: no runnable node-jobs and run not complete '' @
     ''(dead-ended DAG '' @ em_dash @ '' a cancelled node with no forward path); '' @ ''retry to re-run''"

definition set_running :: "string \<Rightarrow> (db, unit) act" where
  "set_running run_id d =
     (case update_run run_id [F_status R_running] d of
        (Inl e, d') \<Rightarrow> (Inl e, d') | (Inr _, d') \<Rightarrow> (Inr (), d'))"

definition then_tag :: "(db, unit) act \<Rightarrow> reconcile_tag \<Rightarrow> (db, reconcile_tag) act" where
  "then_tag m tag = and_then m (\<lambda>_. ret tag)"

text \<open>Drop the dead rows and expand again, or give up.\<close>

definition reconcile_wedged :: "host \<Rightarrow> string \<Rightarrow> dag_node list \<Rightarrow> run_row \<Rightarrow> (db, reconcile_tag) act" where
  "reconcile_wedged host run_id nodes run d =
     (case delete_non_terminal_jobs_for_run run_id d of
        (dropped, d') \<Rightarrow>
          if dropped = [] then then_tag (fail_run run_id reconcile_error) RC_failed d'
          else case process_ready_all host run_id nodes run d' of
                 (Inl e, d'') \<Rightarrow> (Inl e, d'')
               | (Inr n, d'') \<Rightarrow>
                   if n > 0 then then_tag (set_running run_id) RC_requeued d''
                   else then_tag (fail_run run_id reconcile_error) RC_failed d'')"

definition reconcile_run :: "host \<Rightarrow> string \<Rightarrow> (db, reconcile_tag) act" where
  "reconcile_run host run_id d =
     (case get_run run_id d of
        None \<Rightarrow> (Inr RC_noop, d)
      | Some run \<Rightarrow>
          let existing = jobs_by_node_id run_id d
          in if r_status run = R_completed \<or> run_over (r_status run) then (Inr RC_noop, d)
             else if list_ex (\<lambda>(_, j). nj_status j = Queued \<or> nj_status j = Running \<or>
                    nj_status j = Awaiting_input) existing then (Inr RC_noop, d)
             else case load_workflow host (r_workflow run) of
                    Inl e \<Rightarrow> (Inl e, d)
                  | Inr steps \<Rightarrow>
                      (case nodes_of host steps run of
                         Inl e \<Rightarrow> (Inl e, d)
                       | Inr nodes \<Rightarrow>
                           if all_terminal nodes existing
                           then then_tag (complete_run run_id) RC_completed d
                           else case process_ready_all host run_id nodes run d of
                                  (Inl e, d') \<Rightarrow> (Inl e, d')
                                | (Inr n, d') \<Rightarrow>
                                    if n > 0 then then_tag (set_running run_id) RC_enqueued d'
                                    else reconcile_wedged host run_id nodes run d'))"

section \<open>Input\<close>

text \<open>\<^verbatim>\<open>inputs["target"]\<close> is a string or null, as \<open>enqueue\<close> wrote it.\<close>

definition resume_after_input :: "host \<Rightarrow> string \<Rightarrow> string \<Rightarrow> json \<Rightarrow> (db, nat) act" where
  "resume_after_input host run_id node_id val d =
     (case jget (jobs_by_node_id run_id d) node_id of
        None \<Rightarrow> (Inl (KeyError (''no job for '' @ run_id @ '':'' @ node_id)), d)
      | Some job \<Rightarrow>
          if \<not> (nj_status job = Awaiting_input \<or> nj_status job = Queued) then (Inr 0, d)
          else let delta = (case jget (nj_inputs job) ''target'' of
                              Some (JStr t) \<Rightarrow> if t \<noteq> [] \<and> val \<noteq> JNull then [(t, val)] else []
                            | _ \<Rightarrow> [])
               in on_node_completed host run_id node_id (snd (mark_completed (nj_id job) delta 0 None d)))"

text \<open>\<^verbatim>\<open>resolve_inputs_for_job\<close>: a missing key falls back to the enqueue-time snapshot.\<close>

fun resolve_or_keep :: "py_rt \<Rightarrow> jdict \<Rightarrow> json \<Rightarrow> jdict result" where
  "resolve_or_keep rt [] ctx = Inr []"
| "resolve_or_keep rt ((k, v) # kvs) ctx =
     (let w = (case resolve_ref rt v ctx of Inr x \<Rightarrow> Inr x | Inl (KeyError _) \<Rightarrow> Inr v | Inl e \<Rightarrow> Inl e)
      in case w of
           Inl e \<Rightarrow> Inl e
         | Inr x \<Rightarrow> (case resolve_or_keep rt kvs ctx of Inl e \<Rightarrow> Inl e | Inr r \<Rightarrow> Inr ((k, x) # r)))"

definition resolve_inputs_for_job :: "host \<Rightarrow> node_job \<Rightarrow> db \<Rightarrow> jdict result" where
  "resolve_inputs_for_job host job d =
     (if starts_with (nj_module job) ''__input__'' then Inr (nj_inputs job)
      else let ctx = (case get_run (nj_run job) d of None \<Rightarrow> Inr [] | Some run \<Rightarrow> ref_context host run d)
           in case ctx of
                Inl e \<Rightarrow> Inl e
              | Inr c \<Rightarrow> resolve_or_keep (h_rt host) (nj_inputs job) (JObj c))"

end
