(* ===== verification/Dispatcher_Laws.thy ===== *)
theory Dispatcher_Laws
  imports Dispatcher
begin

text \<open>
  What the dispatcher guarantees: the cascade loop ends, never fires a node before its
  dependencies, leaves no ready node behind, touches only its own run and only appends rows; a run
  is completed exactly when its DAG is; failures cancel what is queued; reconciliation keeps
  finished work.
\<close>

section \<open>The cascade appends rows of its own run\<close>

definition appended :: "db \<Rightarrow> node_job list \<Rightarrow> db \<Rightarrow> bool" where
  "appended d js d' \<longleftrightarrow> d' = d\<lparr>node_jobs := node_jobs d @ js, next_uuid := next_uuid d + length js\<rparr>"

lemma appended_refl [simp]: "appended d [] d"
  by (simp add: appended_def)

lemma appended_trans: "appended d js d' \<Longrightarrow> appended d' ks d'' \<Longrightarrow> appended d (js @ ks) d''"
  by (simp add: appended_def add.assoc)

lemma appended_db_inv: "appended d js d' \<Longrightarrow> db_inv d \<Longrightarrow> jobs_inv d' \<Longrightarrow> db_inv d'"
  by (auto simp: appended_def inv_defs)

lemma insert_job_effect:
  assumes "insert_job j d = (r, d')"
  shows "(\<exists>e. r = Inl e) \<and> d' = d \<or> r = Inr (nj_id j) \<and> appended d [j] d'"
  using assms by (auto simp: insert_job_def appended_def split: if_splits)

definition new_row :: "string \<Rightarrow> node_job \<Rightarrow> bool" where
  "new_row run_id j \<longleftrightarrow> nj_run j = run_id \<and> (nj_status j = Queued \<or> nj_status j = Skipped)"

lemma enqueue_node_job_effect:
  assumes "enqueue_node_job cfg a d = (r, d')"
  shows "(\<exists>e. r = Inl e) \<and> d' = d \<or>
    (\<exists>j. r = Inr (nj_id j) \<and> appended d [j] d' \<and> new_row (ea_run a) j \<and> nj_node j = ea_node a)"
  using assms
  by (auto simp: enqueue_node_job_def new_row_def fresh_job_def split: if_splits dest!: insert_job_effect)

lemma insert_skipped_job_effect:
  assumes "insert_skipped_job cfg run_id n p prj d = (r, d')"
  shows "(\<exists>e. r = Inl e) \<and> d' = d \<or>
    (\<exists>j. r = Inr (nj_id j) \<and> appended d [j] d' \<and> new_row run_id j \<and> nj_node j = n)"
  using assms by (auto simp: insert_skipped_job_def new_row_def fresh_job_def dest!: insert_job_effect)

lemma enqueue_effect:
  assumes "enqueue host run_id n run d = (r, d')"
  shows "(\<exists>e. r = Inl e) \<and> d' = d \<or>
    (\<exists>j. r = Inr (nj_id j) \<and> appended d [j] d' \<and> new_row run_id j \<and> nj_node j = dn_id n)"
  using assms
  by (auto simp: enqueue_def split: if_splits sum.splits dest!: enqueue_node_job_effect)

lemma dispatch_node_effect:
  assumes "dispatch_node host run_id run ex n d = (r, d')"
  shows "(\<exists>e. r = Inl e) \<and> d' = d \<or>
    r = Inr () \<and> (\<exists>j. appended d [j] d' \<and> new_row run_id j \<and> nj_node j = dn_id n)"
  using assms
  by (auto simp: dispatch_node_def split: sum.splits bool.splits prod.splits
      dest!: enqueue_effect insert_skipped_job_effect)

lemma dispatch_node_inv: "jobs_inv d \<Longrightarrow> jobs_inv (snd (dispatch_node host run_id run ex n d))"
proof -
  assume inv: "jobs_inv d"
  have "jobs_inv (snd (enqueue host run_id n run d))"
    using inv by (auto simp: enqueue_def enqueue_node_job_inv split: sum.splits)
  with inv insert_skipped_job_inv[OF inv] show ?thesis
    by (auto simp: dispatch_node_def split: sum.splits bool.splits prod.splits)
      (metis snd_conv)+
qed

lemma dispatch_all_effect:
  assumes "for_each (dispatch_node host run_id run ex) ns d = (r, d')"
  shows "\<exists>js. appended d js d' \<and> (\<forall>j\<in>set js. new_row run_id j \<and> nj_node j \<in> dn_id ` set ns) \<and>
    (r = Inr () \<longrightarrow> map nj_node js = map dn_id ns)"
  using assms
proof (induction ns arbitrary: d)
  case Nil
  then show ?case by (intro exI[of _ "[]"]) simp
next
  case (Cons n ns)
  obtain r1 d1 where step: "dispatch_node host run_id run ex n d = (r1, d1)" by fastforce
  show ?case
  proof (cases r1)
    case (Inl e)
    with step dispatch_node_effect[OF step] Cons.prems show ?thesis
      by (intro exI[of _ "[]"]) auto
  next
    case (Inr u)
    with dispatch_node_effect[OF step] obtain j
      where j: "appended d [j] d1" "new_row run_id j" "nj_node j = dn_id n" by auto
    from Inr step Cons.prems have "for_each (dispatch_node host run_id run ex) ns d1 = (r, d')" by simp
    from Cons.IH[OF this] obtain js where js: "appended d1 js d'"
      "\<forall>j\<in>set js. new_row run_id j \<and> nj_node j \<in> dn_id ` set ns"
      "r = Inr () \<longrightarrow> map nj_node js = map dn_id ns" by blast
    from j js appended_trans[OF j(1) js(1)] show ?thesis
      by (intro exI[of _ "j # js"]) auto
  qed
qed

lemma dispatch_all_inv:
  "jobs_inv d \<Longrightarrow> jobs_inv (snd (for_each (dispatch_node host run_id run ex) ns d))"
  by (rule for_each_inv) (rule dispatch_node_inv)

lemma satisfied_mono:
  assumes "jobs_inv d" and "jobs_inv d'" and "appended d js d'"
    and "satisfied (jobs_by_node_id run_id d) dep"
  shows "satisfied (jobs_by_node_id run_id d') dep"
  using assms by (auto simp: satisfied_iff appended_def)

section \<open>The cascade loop\<close>

definition fired_after_deps :: "string \<Rightarrow> dag_node list \<Rightarrow> db \<Rightarrow> node_job \<Rightarrow> bool" where
  "fired_after_deps run_id nodes d j \<longleftrightarrow> new_row run_id j \<and>
     (\<exists>n\<in>set nodes. dn_id n = nj_node j \<and>
        (\<forall>dep\<in>set (dn_depends n). satisfied (jobs_by_node_id run_id d) dep))"

lemma fired_mono:
  assumes "jobs_inv d" and "jobs_inv d'" and "appended d js d'" and "fired_after_deps run_id nodes d j"
  shows "fired_after_deps run_id nodes d' j"
  using assms satisfied_mono[OF assms(1-3)] unfolding fired_after_deps_def by blast

lemma process_ready_effect:
  "jobs_inv d \<Longrightarrow> process_ready host fuel run_id nodes run k d = Some (r, d') \<Longrightarrow>
   \<exists>js. appended d js d' \<and> jobs_inv d' \<and> (\<forall>j\<in>set js. fired_after_deps run_id nodes d' j) \<and>
     (\<forall>n. r = Inr n \<longrightarrow> n = k + length js \<and> find_ready_nodes nodes (jobs_by_node_id run_id d') = [])"
proof (induction fuel arbitrary: k d)
  case 0
  then show ?case by simp
next
  case (Suc fuel)
  let ?ex = "jobs_by_node_id run_id d"
  let ?ready = "find_ready_nodes nodes ?ex"
  show ?case
  proof (cases "?ready = []")
    case True
    with Suc.prems show ?thesis by (intro exI[of _ "[]"]) (auto simp: Let_def)
  next
    case False
    obtain r1 d1 where loop: "for_each (dispatch_node host run_id run ?ex) (sort_key ready_key ?ready) d = (r1, d1)"
      by fastforce
    have inv1: "jobs_inv d1"
      using dispatch_all_inv[OF Suc.prems(1), of host run_id run ?ex "sort_key ready_key ?ready"] loop by simp
    from dispatch_all_effect[OF loop] obtain js where js: "appended d js d1"
      "\<forall>j\<in>set js. new_row run_id j \<and> nj_node j \<in> dn_id ` set ?ready"
      "r1 = Inr () \<longrightarrow> map nj_node js = map dn_id (sort_key ready_key ?ready)" by auto
    have fired: "\<forall>j\<in>set js. fired_after_deps run_id nodes d1 j"
      using js(2) satisfied_mono[OF Suc.prems(1) inv1 js(1), of run_id]
      by (fastforce simp: fired_after_deps_def find_ready_nodes_def list_all_iff)
    show ?thesis
    proof (cases r1)
      case (Inl e)
      with Suc.prems(2) False loop have "d' = d1" "r = Inl e" by (auto simp: Let_def)
      with js fired inv1 show ?thesis by auto
    next
      case (Inr u)
      with Suc.prems(2) False loop
      have rest: "process_ready host fuel run_id nodes run (k + length ?ready) d1 = Some (r, d')"
        by (simp add: Let_def)
      have len: "length js = length ?ready" using js(3) Inr by (metis length_map length_sort old.unit.exhaust)
      from Suc.IH[OF inv1 rest] obtain ks where ks: "appended d1 ks d'" "jobs_inv d'"
        "\<forall>j\<in>set ks. fired_after_deps run_id nodes d' j"
        "\<forall>n. r = Inr n \<longrightarrow> n = k + length ?ready + length ks \<and>
          find_ready_nodes nodes (jobs_by_node_id run_id d') = []" by blast
      with js fired len appended_trans[OF js(1) ks(1)] fired_mono[OF inv1 ks(2,1)] show ?thesis
        by (intro exI[of _ "js @ ks"]) auto
    qed
  qed
qed

text \<open>The DAG nodes of the run that have no row yet: what the loop consumes.\<close>

definition pending :: "string \<Rightarrow> dag_node list \<Rightarrow> db \<Rightarrow> string set" where
  "pending run_id nodes d = {x \<in> dn_id ` set nodes. (run_id, x) \<notin> job_cell ` set (node_jobs d)}"

lemma process_ready_enough_fuel:
  "jobs_inv d \<Longrightarrow> card (pending run_id nodes d) < fuel \<Longrightarrow>
   process_ready host fuel run_id nodes run k d \<noteq> None"
proof (induction fuel arbitrary: k d)
  case 0
  then show ?case by simp
next
  case (Suc fuel)
  let ?ex = "jobs_by_node_id run_id d"
  let ?ready = "find_ready_nodes nodes ?ex"
  obtain r1 d1 where loop: "for_each (dispatch_node host run_id run ?ex) (sort_key ready_key ?ready) d = (r1, d1)"
    by fastforce
  show ?case
  proof (cases "?ready = [] \<or> isl r1")
    case True
    with loop show ?thesis by (cases r1) (auto simp: Let_def)
  next
    case False
    then have r1: "r1 = Inr ()" by (cases r1) simp_all
    have inv1: "jobs_inv d1"
      using dispatch_all_inv[OF Suc.prems(1), of host run_id run ?ex "sort_key ready_key ?ready"] loop by simp
    from dispatch_all_effect[OF loop] r1 obtain js where js: "appended d js d1"
      "\<forall>j\<in>set js. new_row run_id j" "map nj_node js = map dn_id (sort_key ready_key ?ready)" by blast
    obtain n where n: "n \<in> set ?ready" using False by (cases ?ready) auto
    then have "dn_id n \<in> pending run_id nodes d"
      using jobs_by_node_id_None[OF Suc.prems(1)] by (auto simp: pending_def find_ready_nodes_def)
    moreover have "dn_id n \<notin> pending run_id nodes d1"
    proof -
      have "dn_id n \<in> nj_node ` set js"
        using n arg_cong[OF js(3), of set] by (metis (no_types, lifting) image_eqI list.set_map set_sort)
      then show ?thesis using js(1,2) by (force simp: pending_def appended_def new_row_def)
    qed
    moreover have "pending run_id nodes d1 \<subseteq> pending run_id nodes d"
      using js(1) by (auto simp: pending_def appended_def)
    ultimately have "pending run_id nodes d1 \<subset> pending run_id nodes d" by blast
    then have "card (pending run_id nodes d1) < card (pending run_id nodes d)"
      by (rule psubset_card_mono[rotated]) (simp add: pending_def)
    with Suc.IH[OF inv1] Suc.prems(2) loop r1 False show ?thesis by (auto simp: Let_def)
  qed
qed

lemma card_pending: "card (pending run_id nodes d) \<le> length nodes"
proof -
  have "card (pending run_id nodes d) \<le> card (dn_id ` set nodes)"
    by (rule card_mono) (auto simp: pending_def)
  also have "\<dots> \<le> length nodes" by (metis card_image_le card_length finite_set le_trans)
  finally show ?thesis .
qed

lemma process_ready_all_effect:
  assumes inv: "jobs_inv d" and res: "process_ready_all host run_id nodes run d = (r, d')"
  shows "\<exists>js. appended d js d' \<and> jobs_inv d' \<and> (\<forall>j\<in>set js. fired_after_deps run_id nodes d' j) \<and>
    (\<forall>n. r = Inr n \<longrightarrow> n = length js \<and> find_ready_nodes nodes (jobs_by_node_id run_id d') = [])"
proof -
  have "process_ready host (Suc (length nodes)) run_id nodes run 0 d \<noteq> None"
    using card_pending[of run_id nodes d]
    by (intro process_ready_enough_fuel[OF inv]) (simp only: less_Suc_eq_le)
  then have "process_ready host (Suc (length nodes)) run_id nodes run 0 d = Some (r, d')"
    using res by (auto simp: process_ready_all_def)
  from process_ready_effect[OF inv this] show ?thesis by simp
qed

section \<open>Isolation\<close>

text \<open>Everything outside one run is the same in both databases.\<close>

definition same_elsewhere :: "string \<Rightarrow> db \<Rightarrow> db \<Rightarrow> bool" where
  "same_elsewhere run_id d d' \<longleftrightarrow>
     filter (\<lambda>j. nj_run j \<noteq> run_id) (node_jobs d') = filter (\<lambda>j. nj_run j \<noteq> run_id) (node_jobs d) \<and>
     filter (\<lambda>r. r_id r \<noteq> run_id) (runs d') = filter (\<lambda>r. r_id r \<noteq> run_id) (runs d) \<and>
     map r_id (runs d') = map r_id (runs d) \<and>
     now d' = now d \<and> ingest_jobs d' = ingest_jobs d \<and> heartbeats d' = heartbeats d \<and>
     dispatch_events d' = dispatch_events d \<and> node_events d' = node_events d \<and>
     submissions d' = submissions d \<and> controls d' = controls d"

lemma same_refl [simp]: "same_elsewhere run_id d d"
  by (simp add: same_elsewhere_def)

lemma same_trans: "same_elsewhere r d d' \<Longrightarrow> same_elsewhere r d' d'' \<Longrightarrow> same_elsewhere r d d''"
  by (simp add: same_elsewhere_def)

lemma filter_sql_update:
  assumes "\<And>r. r \<in> set rows \<Longrightarrow> P r \<Longrightarrow> \<not> Q r \<and> \<not> Q (f r)"
  shows "filter Q (sql_update P f rows) = filter Q rows"
  using assms by (induction rows) auto

lemma update_run_same: "same_elsewhere run_id d (snd (update_run run_id changes d))"
  by (auto simp: update_run_def Let_def same_elsewhere_def map_sql_update intro!: filter_sql_update)

lemma update_run_keeps_jobs [simp]: "node_jobs (snd (update_run run_id changes d)) = node_jobs d"
  by (simp add: update_run_def Let_def)

lemma run_marks_same:
  "same_elsewhere run_id d (snd (fail_run run_id err d))"
  "same_elsewhere run_id d (snd (complete_run run_id d))"
  "same_elsewhere run_id d (snd (set_running run_id d))"
  using update_run_same[of run_id d]
  by (auto simp: fail_run_def complete_run_def set_running_def split: prod.splits sum.splits)
    (metis snd_conv)+

lemma then_tag_same:
  "same_elsewhere run_id d (snd (m d)) \<Longrightarrow> same_elsewhere run_id d (snd (then_tag m tag d))"
  by (auto simp: then_tag_def and_then_def split: prod.splits sum.splits)

lemma process_ready_all_same:
  assumes "jobs_inv d" and "process_ready_all host run_id nodes run d = (r, d')"
  shows "same_elsewhere run_id d d'"
  using process_ready_all_effect[OF assms]
  by (auto simp: same_elsewhere_def appended_def fired_after_deps_def new_row_def)

lemma set_input_spec_same: "same_elsewhere run_id d (set_input_spec run_id n sp d)"
  by (auto simp: set_input_spec_def same_elsewhere_def intro!: filter_sql_update)

lemma bump_input_spec_same: "same_elsewhere run_id d (bump_input_spec run_id t ch d)"
  by (auto simp: bump_input_spec_def set_input_spec_same split: option.splits json.splits)

lemma patch_same:
  "same_elsewhere (r_id run) d (snd (finish_patch_job host run j meta d))"
  "same_elsewhere (r_id run) d (flag_patch_error host run j meta d)"
  by (simp_all add: finish_patch_job_def flag_patch_error_def Let_def bump_input_spec_same)

lemma cancel_same: "same_elsewhere run_id d (snd (cancel_siblings_after_failure run_id d))"
  by (auto simp: cancel_siblings_after_failure_def cancel_queued_jobs_for_run_def split_def
      same_elsewhere_def cancel_row_def intro!: filter_sql_update)

lemma delete_non_terminal_same:
  "delete_non_terminal_jobs_for_run run_id d = (x, d') \<Longrightarrow> same_elsewhere run_id d d'"
  by (auto simp: delete_non_terminal_jobs_for_run_def Let_def same_elsewhere_def sql_delete_def
      intro: filter_cong)

lemma get_run_id: "get_run run_id d = Some r \<Longrightarrow> r_id r = run_id"
  by (auto simp: get_run_def dest: row_of_SomeD)

lemma start_run_same:
  assumes inv: "jobs_inv d"
  shows "same_elsewhere run_id d (snd (start_run host run_id d))"
proof -
  have "same_elsewhere run_id d (snd (process_ready_all host run_id nodes run d))" for nodes run
    using process_ready_all_same[OF inv] by (metis prod.collapse)
  moreover have "same_elsewhere run_id d d'" if "fail_run run_id msg d = (r, d')" for msg r d'
    using run_marks_same(1)[of run_id d msg] that by simp
  ultimately show ?thesis
    by (auto simp: start_run_def Let_def split: option.splits sum.splits py_error.splits prod.splits)
qed

lemma cascade_same:
  assumes inv: "jobs_inv d"
  shows "same_elsewhere run_id d (snd (cascade_completed host run_id run d))"
proof -
  have "same_elsewhere run_id d d''"
    if "process_ready_all host run_id nodes run d = (r, d')" "complete_run run_id d' = (x, d'')"
    for nodes r d' x d''
    using process_ready_all_same[OF inv that(1)] run_marks_same(2)[of run_id d'] that(2)
    by (auto intro: same_trans)
  with process_ready_all_same[OF inv] show ?thesis
    by (auto simp: cascade_completed_def split: option.splits sum.splits prod.splits)
qed

lemma on_node_completed_same:
  assumes inv: "jobs_inv d"
  shows "same_elsewhere run_id d (snd (on_node_completed host run_id n d))"
  using cascade_same[OF inv] patch_same(1)
  by (auto simp: on_node_completed_def Let_def split: option.splits dest: get_run_id)

lemma on_node_failed_same: "same_elsewhere run_id d (snd (on_node_failed host run_id n d))"
proof -
  have "same_elsewhere run_id d (snd (fail_run run_id msg (snd (cancel_siblings_after_failure run_id d))))" for msg
    using cancel_same run_marks_same(1) by (rule same_trans)
  then show ?thesis using patch_same(2)
    by (auto simp: on_node_failed_def Let_def split: option.splits dest: get_run_id)
qed

lemma reconcile_wedged_same:
  assumes inv: "jobs_inv d"
  shows "same_elsewhere run_id d (snd (reconcile_wedged host run_id nodes run d))"
proof -
  obtain dropped d1 where del: "delete_non_terminal_jobs_for_run run_id d = (dropped, d1)" by fastforce
  have inv1: "jobs_inv d1" using delete_non_terminal_inv[OF inv, of run_id] del by simp
  have same1: "same_elsewhere run_id d d1" using delete_non_terminal_same[OF del] .
  obtain r d2 where pr: "process_ready_all host run_id nodes run d1 = (r, d2)" by fastforce
  have same2: "same_elsewhere run_id d d2"
    using same1 process_ready_all_same[OF inv1 pr] by (rule same_trans)
  have "same_elsewhere run_id d (snd (then_tag (fail_run run_id reconcile_error) RC_failed d1))"
    using same1 then_tag_same[OF run_marks_same(1)] by (rule same_trans)
  moreover have "same_elsewhere run_id d (snd (then_tag (fail_run run_id reconcile_error) RC_failed d2))"
    using same2 then_tag_same[OF run_marks_same(1)] by (rule same_trans)
  moreover have "same_elsewhere run_id d (snd (then_tag (set_running run_id) RC_requeued d2))"
    using same2 then_tag_same[OF run_marks_same(3)] by (rule same_trans)
  ultimately show ?thesis using same2
    by (simp add: reconcile_wedged_def del pr split: sum.splits)
qed

lemma reconcile_run_same:
  assumes inv: "jobs_inv d"
  shows "same_elsewhere run_id d (snd (reconcile_run host run_id d))"
proof -
  have "same_elsewhere run_id d (snd (then_tag (set_running run_id) RC_enqueued d'))"
    and "same_elsewhere run_id d (snd (reconcile_wedged host run_id nodes run d'))"
    and "same_elsewhere run_id d d'"
    if "process_ready_all host run_id nodes run d = (r, d')" for nodes run r d'
  proof -
    note same = process_ready_all_same[OF inv that]
    have inv': "jobs_inv d'" using process_ready_all_effect[OF inv that] by blast
    show "same_elsewhere run_id d d'" by (rule same)
    show "same_elsewhere run_id d (snd (then_tag (set_running run_id) RC_enqueued d'))"
      using same then_tag_same[OF run_marks_same(3)] by (rule same_trans)
    show "same_elsewhere run_id d (snd (reconcile_wedged host run_id nodes run d'))"
      using same reconcile_wedged_same[OF inv'] by (rule same_trans)
  qed
  moreover have "same_elsewhere run_id d (snd (then_tag (complete_run run_id) RC_completed d))"
    by (rule then_tag_same) (rule run_marks_same)
  ultimately show ?thesis
    by (auto simp: reconcile_run_def Let_def split: option.splits sum.splits prod.splits)
qed

lemma mark_completed_same:
  assumes inv: "jobs_inv d" and j: "j \<in> set (node_jobs d)" "nj_run j = run_id"
  shows "same_elsewhere run_id d (snd (mark_completed (nj_id j) delta s rss d))"
proof -
  have "nj_run j' = run_id" if "j' \<in> set (node_jobs d)" "nj_id j' = nj_id j" for j'
    using inv that j by (metis distinct_map_filter_eq jobs_inv_def)
  then show ?thesis
    by (auto simp: mark_completed_def same_elsewhere_def intro!: filter_sql_update)
qed

lemma resume_after_input_same:
  assumes inv: "jobs_inv d"
  shows "same_elsewhere run_id d (snd (resume_after_input host run_id n v d))"
proof (cases "jget (jobs_by_node_id run_id d) n")
  case None
  then show ?thesis by (simp add: resume_after_input_def)
next
  case (Some j)
  then have j: "j \<in> set (node_jobs d)" "nj_run j = run_id" using jobs_by_node_id_iff[OF inv] by blast+
  have "same_elsewhere run_id d (snd (on_node_completed host run_id n
      (snd (mark_completed (nj_id j) delta 0 None d))))" for delta
    using mark_completed_same[OF inv j] on_node_completed_same[OF mark_inv(1)[OF inv]] by (rule same_trans)
  with Some show ?thesis by (simp add: resume_after_input_def Let_def)
qed

section \<open>The handlers keep the database invariant\<close>

lemma db_inv_jobs: "db_inv d \<Longrightarrow> jobs_inv (d\<lparr>node_jobs := js\<rparr>) \<Longrightarrow> db_inv (d\<lparr>node_jobs := js\<rparr>)"
  by (simp add: db_inv_def)

lemma job_statements_db_inv:
  assumes "db_inv d"
  shows "db_inv (set_input_spec r n sp d)" and "db_inv (snd (cancel_siblings_after_failure r d))"
    and "db_inv (snd (mark_completed k delta s rss d))"
    and "db_inv (snd (delete_non_terminal_jobs_for_run r d))"
proof -
  have inv: "jobs_inv d" using assms by (simp add: db_inv_def)
  show "db_inv (set_input_spec r n sp d)"
    using maintenance_inv(1)[OF inv, of r n sp] assms by (auto simp: set_input_spec_def intro: db_inv_jobs)
  show "db_inv (snd (cancel_siblings_after_failure r d))"
    using maintenance_inv(3)[OF inv, of r] assms
    by (auto simp: cancel_siblings_after_failure_def cancel_queued_jobs_for_run_def split_def intro: db_inv_jobs)
  show "db_inv (snd (mark_completed k delta s rss d))"
    using mark_inv(1)[OF inv, of k delta s rss] assms by (auto simp: mark_completed_def intro: db_inv_jobs)
  show "db_inv (snd (delete_non_terminal_jobs_for_run r d))"
    using delete_non_terminal_inv[OF inv, of r] assms
    by (auto simp: delete_non_terminal_jobs_for_run_def Let_def intro: db_inv_jobs)
qed

lemma run_marks_inv:
  assumes "db_inv d"
  shows "db_inv (snd (fail_run r err d))" and "db_inv (snd (complete_run r d))"
    and "db_inv (snd (set_running r d))"
  using update_run_inv[OF assms]
  by (auto simp: fail_run_def complete_run_def set_running_def split: prod.splits sum.splits)
    (metis snd_conv)+

lemma then_tag_inv: "db_inv (snd (m d)) \<Longrightarrow> db_inv (snd (then_tag m tag d))"
  by (auto simp: then_tag_def and_then_def split: prod.splits sum.splits)

lemma process_ready_all_inv:
  assumes inv: "db_inv d" and res: "process_ready_all host run_id nodes run d = (r, d')"
  shows "db_inv d'"
proof -
  have "jobs_inv d" using inv by (simp add: db_inv_def)
  from process_ready_all_effect[OF this res] obtain js where "appended d js d'" "jobs_inv d'" by blast
  with inv show ?thesis by (auto intro: appended_db_inv)
qed

lemma start_run_inv: "db_inv d \<Longrightarrow> db_inv (snd (start_run host run_id d))"
  using process_ready_all_inv[of d host run_id] run_marks_inv(1)[of d run_id]
  by (auto simp: start_run_def Let_def split: option.splits sum.splits py_error.splits prod.splits)
    (metis prod.collapse snd_conv)+

lemma cascade_inv: "db_inv d \<Longrightarrow> db_inv (snd (cascade_completed host run_id run d))"
proof -
  assume inv: "db_inv d"
  have "db_inv d''" if "process_ready_all host run_id nodes run d = (r, d')" "complete_run run_id d' = (x, d'')"
    for nodes r d' x d''
    using process_ready_all_inv[OF inv that(1)] run_marks_inv(2)[of d' run_id] that(2) by simp
  with inv process_ready_all_inv[OF inv] show ?thesis
    by (auto simp: cascade_completed_def split: option.splits sum.splits prod.splits)
qed

lemma patch_inv:
  assumes "db_inv d"
  shows "db_inv (snd (finish_patch_job host run j meta d))" and "db_inv (flag_patch_error host run j meta d)"
  using assms job_statements_db_inv(1)[OF assms]
  by (auto simp: finish_patch_job_def flag_patch_error_def Let_def bump_input_spec_def
      split: option.splits json.splits)

lemma on_node_completed_inv: "db_inv d \<Longrightarrow> db_inv (snd (on_node_completed host run_id n d))"
  by (auto simp: on_node_completed_def Let_def cascade_inv patch_inv split: option.splits)

lemma on_node_failed_inv: "db_inv d \<Longrightarrow> db_inv (snd (on_node_failed host run_id n d))"
  by (auto simp: on_node_failed_def Let_def patch_inv run_marks_inv job_statements_db_inv
      split: option.splits)

lemma reconcile_wedged_inv: "db_inv d \<Longrightarrow> db_inv (snd (reconcile_wedged host run_id nodes run d))"
proof -
  assume inv: "db_inv d"
  obtain dropped d1 where del: "delete_non_terminal_jobs_for_run run_id d = (dropped, d1)" by fastforce
  have inv1: "db_inv d1" using job_statements_db_inv(4)[OF inv, of run_id] del by simp
  obtain r d2 where pr: "process_ready_all host run_id nodes run d1 = (r, d2)" by fastforce
  have inv2: "db_inv d2" using process_ready_all_inv[OF inv1 pr] .
  show ?thesis using inv1 inv2
    by (auto simp: reconcile_wedged_def del pr run_marks_inv then_tag_inv split: sum.splits)
qed

lemma reconcile_run_inv: "db_inv d \<Longrightarrow> db_inv (snd (reconcile_run host run_id d))"
proof -
  assume inv: "db_inv d"
  have "db_inv d'" if "process_ready_all host run_id nodes run d = (r, d')" for nodes run r d'
    using process_ready_all_inv[OF inv that] .
  with inv show ?thesis
    by (auto simp: reconcile_run_def Let_def run_marks_inv then_tag_inv reconcile_wedged_inv
        split: option.splits sum.splits prod.splits)
qed

lemma resume_after_input_inv: "db_inv d \<Longrightarrow> db_inv (snd (resume_after_input host run_id n v d))"
  by (auto simp: resume_after_input_def Let_def on_node_completed_inv job_statements_db_inv
      split: option.splits)

section \<open>A concrete workflow\<close>

text \<open>One pipeline step \<^verbatim>\<open>p\<close> with the nodes \<^verbatim>\<open>x\<close> and, depending on it, \<^verbatim>\<open>y\<close>.\<close>

definition demo_schema_node :: "string \<Rightarrow> string list \<Rightarrow> schema_node" where
  "demo_schema_node i deps = \<lparr>sn_id = i, sn_node = None, sn_depends = deps, sn_gpu = False,
     sn_model = None, sn_inputs = [], sn_skip_if = None\<rparr>"

definition demo_host :: host where
  "demo_host = \<lparr>h_cfg = demo_cfg,
     h_workflow = Some (\<lambda>_. Inr [\<lparr>st_id = ''p'', st_kind = Some ''pipeline'', st_pipeline = ''pl'',
       st_inputs = [], st_depends = [], st_skip_if = None, st_widget = None, st_target = None,
       st_raw = []\<rparr>]),
     h_schema = Some (\<lambda>_. Inr [demo_schema_node ''x'' [], demo_schema_node ''y'' [''x'']]),
     h_rt = \<lparr>rt_getattr = (\<lambda>_ _. None), rt_re_search = (\<lambda>_ _. Inr False), rt_str = (\<lambda>_. [])\<rparr>,
     h_literal = (\<lambda>_. None), h_repr = (\<lambda>s. s), h_scan = (\<lambda>_. None), h_is_file = (\<lambda>_. False),
     h_isoformat = (\<lambda>_. [])\<rparr>"

definition demo_steps :: "wf_step list" where
  "demo_steps = projr (load_workflow demo_host ''wf'')"

definition demo_nodes :: "dag_node list" where
  "demo_nodes = projr (nodes_of demo_host demo_steps demo_run)"

definition demo_fresh :: db where
  "demo_fresh = empty_db\<lparr>runs := [demo_run]\<rparr>"

definition demo_started :: db where
  "demo_started = snd (start_run demo_host ''r1'' demo_fresh)"

text \<open>After \<^verbatim>\<open>p/x\<close> (id 0) and \<^verbatim>\<open>p/y\<close> (id 1) have completed.\<close>

definition demo_done :: db where
  "demo_done = snd (mark_completed 1 [] 1 None
     (snd (on_node_completed demo_host ''r1'' ''p/x'' (snd (mark_completed 0 [] 1 None demo_started)))))"

lemma demo_fresh_inv: "jobs_inv demo_fresh" "db_inv demo_started" "jobs_inv demo_done"
  by (simp_all add: demo_fresh_def demo_started_def demo_done_def db_inv_empty) (code_simp+)

section \<open>Properties\<close>

text \<open>
  C27. The cascade loop ends: whatever the workflow, the skip conditions and the errors of the
  references, one more round than the DAG has nodes is enough for the loop of
  \<^verbatim>\<open>_process_ready\<close> to return or raise.
\<close>

theorem cascade_terminates:
  assumes "jobs_inv d"
  shows "\<exists>r d'. process_ready host (Suc (length nodes)) run_id nodes run 0 d = Some (r, d')"
proof -
  have "process_ready host (Suc (length nodes)) run_id nodes run 0 d \<noteq> None"
    using card_pending[of run_id nodes d]
    by (intro process_ready_enough_fuel[OF assms]) (simp only: less_Suc_eq_le)
  then show ?thesis by auto
qed

theorem cascade_terminates_witness:
  "\<exists>r d'. process_ready demo_host (Suc (length demo_nodes)) ''r1'' demo_nodes demo_run 0 demo_fresh = Some (r, d')"
  by (rule cascade_terminates[OF demo_fresh_inv(1)])



text \<open>
  Isolation: starting a run, a node's completion or failure, reconciliation and the answer to
  an input node change nothing outside their own run: every row of every other run, the event
  logs, the ingest queue, the heartbeats and the controls are the same afterwards, also when the
  handler raises.
\<close>

theorem dispatcher_isolation:
  assumes "jobs_inv d"
  shows "same_elsewhere run_id d (snd (start_run host run_id d)) \<and>
    same_elsewhere run_id d (snd (on_node_completed host run_id n d)) \<and>
    same_elsewhere run_id d (snd (on_node_failed host run_id n d)) \<and>
    same_elsewhere run_id d (snd (reconcile_run host run_id d)) \<and>
    same_elsewhere run_id d (snd (resume_after_input host run_id n v d))"
  using start_run_same[OF assms] on_node_completed_same[OF assms] on_node_failed_same
    reconcile_run_same[OF assms] resume_after_input_same[OF assms] by blast

theorem dispatcher_isolation_witness:
  "same_elsewhere ''r1'' demo_fresh (snd (start_run demo_host ''r1'' demo_fresh))"
  using dispatcher_isolation[OF demo_fresh_inv(1)] by blast

lemma update_run_Inr:
  assumes "update_run run_id ch d = (Inr x, d')" and "ch \<noteq> []"
  shows "get_run run_id d' = map_option (\<lambda>r. (fold set_field ch r)\<lparr>r_updated_at := now d\<rparr>) (get_run run_id d) \<and>
    node_jobs d' = node_jobs d"
proof -
  have d': "d' = d\<lparr>runs := sql_update (\<lambda>r. r_id r = run_id)
      (\<lambda>r. (fold set_field ch r)\<lparr>r_updated_at := now d\<rparr>) (runs d)\<rparr>"
    using assms by (auto simp: update_run_def Let_def split: if_splits)
  show ?thesis
    by (cases "run_of d run_id") (auto simp: d' get_run_def row_of_update dest: row_of_SomeD)
qed

lemma run_mark_Inr:
  "fail_run run_id err d = (Inr u, d') \<Longrightarrow> node_jobs d' = node_jobs d \<and>
     get_run run_id d' = map_option (\<lambda>r. r\<lparr>r_status := R_failed, r_finished_at := Some (now d),
       r_error := Some err, r_updated_at := now d\<rparr>) (get_run run_id d)"
  "complete_run run_id d = (Inr u, d') \<Longrightarrow> node_jobs d' = node_jobs d \<and>
     get_run run_id d' = map_option (\<lambda>r. r\<lparr>r_status := R_completed, r_finished_at := Some (now d),
       r_updated_at := now d\<rparr>) (get_run run_id d)"
  "set_running run_id d = (Inr u, d') \<Longrightarrow> node_jobs d' = node_jobs d \<and>
     get_run run_id d' = map_option (\<lambda>r. r\<lparr>r_status := R_running, r_updated_at := now d\<rparr>) (get_run run_id d)"
  by (auto simp: fail_run_def complete_run_def set_running_def split: prod.splits sum.splits
      dest!: update_run_Inr)

lemma jobs_by_node_id_cong: "node_jobs d' = node_jobs d \<Longrightarrow> jobs_by_node_id r d' = jobs_by_node_id r d"
  by (simp add: jobs_by_node_id_def list_jobs_for_run_def)

lemma process_ready_all_get_run:
  assumes "jobs_inv d" and "process_ready_all host run_id nodes run d = (r, d')"
  shows "get_run k d' = get_run k d" and "now d' = now d"
  using process_ready_all_effect[OF assms] by (auto simp: appended_def get_run_def)

text \<open>
  C28. A run is completed exactly when its DAG is: after a successful completion callback of an
  ordinary node of a live run, the run row is marked completed now if every DAG node has a
  completed or skipped row, and is untouched otherwise.
\<close>

theorem run_completed_iff_dag_terminal:
  assumes inv: "jobs_inv d" and run: "get_run run_id d = Some run" and live: "\<not> run_over (r_status run)"
    and ordinary: "patch_meta (jget (jobs_by_node_id run_id d) n) = None"
    and steps: "load_workflow host (r_workflow run) = Inr steps" and nodes: "nodes_of host steps run = Inr nodes"
    and res: "on_node_completed host run_id n d = (Inr k, d')"
  shows "get_run run_id d' =
    Some (if nodes \<noteq> [] \<and> (\<forall>x\<in>set nodes. \<exists>j\<in>set (node_jobs d'). nj_run j = run_id \<and> nj_node j = dn_id x \<and>
            (nj_status j = Completed \<or> nj_status j = Skipped))
          then run\<lparr>r_status := R_completed, r_finished_at := Some (now d), r_updated_at := now d\<rparr>
          else run)"
proof -
  have casc: "cascade_completed host run_id run d = (Inr k, d')"
    using res run live ordinary
    by (auto simp: on_node_completed_def Let_def split: option.splits)
  then obtain m d1 where pr: "process_ready_all host run_id nodes run d = (Inr m, d1)"
    and fin: "if all_terminal nodes (jobs_by_node_id run_id d1)
      then \<exists>u. complete_run run_id d1 = (Inr u, d') else d' = d1"
    by (auto simp: cascade_completed_def steps nodes split: prod.splits sum.splits if_splits)
  note same = process_ready_all_get_run[OF inv pr]
  have inv1: "jobs_inv d1" using process_ready_all_effect[OF inv pr] by blast
  have dag: "all_terminal nodes (jobs_by_node_id run_id d1) \<longleftrightarrow>
      nodes \<noteq> [] \<and> (\<forall>x\<in>set nodes. \<exists>j\<in>set (node_jobs d1). nj_run j = run_id \<and> nj_node j = dn_id x \<and>
        (nj_status j = Completed \<or> nj_status j = Skipped))"
    using satisfied_iff[OF inv1] by (simp add: all_terminal_def list_all_iff)
  show ?thesis
  proof (cases "all_terminal nodes (jobs_by_node_id run_id d1)")
    case True
    with fin obtain u where "complete_run run_id d1 = (Inr u, d')" by auto
    from run_mark_Inr(2)[OF this] have "node_jobs d' = node_jobs d1" and "get_run run_id d' =
        Some (run\<lparr>r_status := R_completed, r_finished_at := Some (now d), r_updated_at := now d\<rparr>)"
      using same run by simp_all
    then show ?thesis using True dag by simp
  next
    case False
    with fin dag same run show ?thesis by auto
  qed
qed

theorem run_completed_iff_dag_terminal_witness:
  "map_option r_status (get_run ''r1'' (snd (on_node_completed demo_host ''r1'' ''p/y'' demo_done))) = Some R_completed"
proof -
  let ?x = "on_node_completed demo_host ''r1'' ''p/y'' demo_done"
  have k: "fst ?x = Inr 0" by code_simp
  then have res: "?x = (Inr 0, snd ?x)" by (cases ?x) (simp only: fst_conv snd_conv)
  have pre: "get_run ''r1'' demo_done = Some demo_run" "\<not> run_over (r_status demo_run)"
    "patch_meta (jget (jobs_by_node_id ''r1'' demo_done) ''p/y'') = None"
    by code_simp+
  have steps: "load_workflow demo_host (r_workflow demo_run) = Inr demo_steps"
    by (simp add: demo_steps_def load_workflow_def demo_host_def)
  have nodes: "nodes_of demo_host demo_steps demo_run = Inr demo_nodes"
    unfolding demo_nodes_def by code_simp
  have dag: "demo_nodes \<noteq> []" "\<forall>x\<in>set demo_nodes. \<exists>j\<in>set (node_jobs (snd ?x)). nj_run j = ''r1'' \<and>
      nj_node j = dn_id x \<and> (nj_status j = Completed \<or> nj_status j = Skipped)" by code_simp+
  from run_completed_iff_dag_terminal[OF demo_fresh_inv(3) pre(1,2,3) steps nodes res] dag
  show ?thesis by simp
qed

text \<open>
  A node's failure fails its run: on a live run and an ordinary node, every queued job of the run
  is cancelled now, every other job is untouched, and the run is failed with a message that names
  the node; on a run that is already cancelled or failed the callback changes nothing.
\<close>

theorem node_failure_fails_run:
  assumes inv: "db_inv d" and run: "get_run run_id d = Some run" and mode: "r_mode run = ''node''"
    and ordinary: "patch_meta (jget (jobs_by_node_id run_id d) n) = None"
  shows "if run_over (r_status run) then on_node_failed host run_id n d = (Inr (), d)
    else \<exists>d'. on_node_failed host run_id n d = (Inr (), d') \<and>
      (\<forall>k. job_of d' k = map_option (\<lambda>j. if nj_run j = run_id \<and> nj_status j = Queued
          then j\<lparr>nj_status := Cancelled, nj_finished := Some (now d)\<rparr> else j) (job_of d k)) \<and>
      get_run run_id d' = Some (run\<lparr>r_status := R_failed, r_finished_at := Some (now d),
        r_error := Some (''node '' @ h_repr host n @ '' failed (see workflow_node_jobs.error)''),
        r_updated_at := now d\<rparr>)"
proof (cases "run_over (r_status run)")
  case True
  with run show ?thesis by (simp add: on_node_failed_def Let_def)
next
  case False
  define d1 where "d1 = snd (cancel_siblings_after_failure run_id d)"
  define msg where "msg = ''node '' @ h_repr host n @ '' failed (see workflow_node_jobs.error)''"
  have d1: "get_run run_id d1 = Some run" "now d1 = now d" "runs d1 = runs d"
    using run by (simp_all add: d1_def cancel_siblings_after_failure_def cancel_queued_jobs_for_run_def
        split_def get_run_def)
  have uniq: "r = run" if "r \<in> set (runs d)" "r_id r = run_id" for r
    using inv that run row_of_mem[of r_id "runs d" r] by (auto simp: inv_defs get_run_def)
  have "\<exists>u d'. fail_run run_id msg d1 = (Inr u, d')"
    using uniq mode by (auto simp: fail_run_def update_run_def Let_def d1(3) list_ex_iff)
  then obtain u d' where fail: "fail_run run_id msg d1 = (Inr u, d')" by blast
  note run' = run_mark_Inr(1)[OF fail]
  have "on_node_failed host run_id n d = (Inr (), d')"
    using run False ordinary fail by (auto simp: on_node_failed_def Let_def d1_def msg_def split: option.splits)
  moreover have "job_of d' k = map_option (\<lambda>j. if nj_run j = run_id \<and> nj_status j = Queued
      then j\<lparr>nj_status := Cancelled, nj_finished := Some (now d)\<rparr> else j) (job_of d k)" for k
    using run' by (simp add: d1_def cancel_siblings_after_failure_def cancel_queued_jobs_for_run_def
        split_def row_of_update cancel_row_def cong: if_cong)
  ultimately show ?thesis using False run' d1 by (auto simp: msg_def)
qed

theorem node_failure_fails_run_witness:
  "\<exists>d'. on_node_failed demo_host ''r1'' ''p/x'' demo_started = (Inr (), d') \<and>
     map_option r_status (get_run ''r1'' d') = Some R_failed"
proof -
  have pre: "get_run ''r1'' demo_started = Some demo_run" "r_mode demo_run = ''node''"
    "patch_meta (jget (jobs_by_node_id ''r1'' demo_started) ''p/x'') = None" "\<not> run_over (r_status demo_run)"
    by code_simp+
  from node_failure_fails_run[OF demo_fresh_inv(2) pre(1,2,3), of demo_host] pre(4) show ?thesis by auto
qed

definition finished_rows_kept :: "string \<Rightarrow> db \<Rightarrow> db \<Rightarrow> bool" where
  "finished_rows_kept run_id d d' \<longleftrightarrow>
     (\<forall>j\<in>set (node_jobs d). nj_run j = run_id \<and> (nj_status j = Completed \<or> nj_status j = Skipped) \<longrightarrow>
        j \<in> set (node_jobs d'))"

definition run_status_of :: "string \<Rightarrow> db \<Rightarrow> run_status option" where
  "run_status_of run_id d = map_option r_status (get_run run_id d)"

lemma then_tag_Inr: "then_tag m tag d = (Inr t, d') \<Longrightarrow> t = tag \<and> (\<exists>u. m d = (Inr u, d'))"
  by (auto simp: then_tag_def elim: and_then_InrE)

lemma reconcile_wedged_spec:
  assumes inv: "jobs_inv d" and run: "get_run run_id d \<noteq> None"
    and res: "reconcile_wedged host run_id nodes run d = (Inr tag, d')"
  shows "finished_rows_kept run_id d d' \<and>
    (tag = RC_requeued \<and> run_status_of run_id d' = Some R_running \<or>
     tag = RC_failed \<and> run_status_of run_id d' = Some R_failed)"
proof -
  obtain dropped d1 where del: "delete_non_terminal_jobs_for_run run_id d = (dropped, d1)" by fastforce
  have inv1: "jobs_inv d1" using delete_non_terminal_inv[OF inv, of run_id] del by simp
  have kept1: "finished_rows_kept run_id d d1" and run1: "get_run run_id d1 = get_run run_id d"
    using del by (auto simp: delete_non_terminal_jobs_for_run_def Let_def finished_rows_kept_def
        sql_delete_def get_run_def)
  show ?thesis
  proof (cases "dropped = []")
    case True
    with res del have "then_tag (fail_run run_id reconcile_error) RC_failed d1 = (Inr tag, d')"
      by (simp add: reconcile_wedged_def)
    from then_tag_Inr[OF this] obtain u where "tag = RC_failed" "fail_run run_id reconcile_error d1 = (Inr u, d')"
      by blast
    with run_mark_Inr(1)[of run_id reconcile_error d1 u d'] kept1 run1 run show ?thesis
      by (auto simp: finished_rows_kept_def run_status_of_def)
  next
    case False
    obtain r d2 where pr: "process_ready_all host run_id nodes run d1 = (r, d2)" by fastforce
    from process_ready_all_effect[OF inv1 pr] have "\<exists>js. appended d1 js d2" by blast
    with kept1 have kept2: "finished_rows_kept run_id d d2"
      by (auto simp: finished_rows_kept_def appended_def)
    have run2: "get_run run_id d2 = get_run run_id d"
      using process_ready_all_get_run[OF inv1 pr] run1 by simp
    from res del False pr obtain n where "r = Inr n"
      and "then_tag (if n > 0 then set_running run_id else fail_run run_id reconcile_error)
        (if n > 0 then RC_requeued else RC_failed) d2 = (Inr tag, d')"
      by (auto simp: reconcile_wedged_def split: sum.splits if_splits)
    from then_tag_Inr[OF this(2)] obtain u where "tag = (if n > 0 then RC_requeued else RC_failed)"
      "(if n > 0 then set_running run_id else fail_run run_id reconcile_error) d2 = (Inr u, d')" by blast
    with run_mark_Inr(1)[of run_id reconcile_error d2 u d'] run_mark_Inr(3)[of run_id d2 u d'] kept2 run2 run
    show ?thesis by (auto simp: finished_rows_kept_def run_status_of_def split: if_splits)
  qed
qed



end
