(* ===== verification/Input_Spec.thy ===== *)
theory Input_Spec
  imports Dispatcher_Laws
begin

text \<open>
  The payload the frontend renders an awaiting input node from: \<^verbatim>\<open>_build_input_spec\<close> with its
  widgets, \<^verbatim>\<open>_resolve_pano_meta\<close>, \<^verbatim>\<open>_file_info_for_abs_path\<close> and the callback
  \<^verbatim>\<open>on_node_awaiting_input\<close> of \<^verbatim>\<open>dispatcher.py\<close>. The pure part of \<^verbatim>\<open>pathlib\<close> is written out;
  what touches the disk is the record \<open>fs\<close>.
\<close>

section \<open>Paths\<close>

text \<open>
  A \<^verbatim>\<open>PurePosixPath\<close> is an anchor (empty, \<^verbatim>\<open>/\<close> or \<^verbatim>\<open>//\<close>) and its parts; empty and
  \<^verbatim>\<open>.\<close> segments are dropped when it is parsed.
\<close>

type_synonym path = "string \<times> string list"

definition parse_path :: "string \<Rightarrow> path" where
  "parse_path s =
     (if starts_with s ''//'' \<and> \<not> starts_with s ''///'' then ''//''
      else if starts_with s ''/'' then ''/'' else [],
      filter (\<lambda>p. p \<noteq> [] \<and> p \<noteq> ''.'') (split_on CHR ''/'' s))"

definition join_path :: "path \<Rightarrow> string \<Rightarrow> path" where
  "join_path p s =
     (let q = parse_path s in if fst q \<noteq> [] then q else (fst p, snd p @ snd q))"

definition as_posix :: "path \<Rightarrow> string" where
  "as_posix p = (if p = ([], []) then ''.'' else fst p @ join_with ''/'' (snd p))"

definition path_name :: "path \<Rightarrow> string" where
  "path_name p = (if snd p = [] then [] else last (snd p))"

definition parent_path :: "path \<Rightarrow> path" where
  "parent_path p = (fst p, butlast (snd p))"

text \<open>\<^verbatim>\<open>[p, *p.parents]\<close>\<close>

definition ancestors :: "path \<Rightarrow> path list" where
  "ancestors p = map (\<lambda>n. (fst p, take n (snd p))) (rev [0..<Suc (length (snd p))])"

definition relative_to :: "path \<Rightarrow> path \<Rightarrow> path option" where
  "relative_to p q =
     (if fst p = fst q \<and> take (length (snd q)) (snd p) = snd q
      then Some ([], drop (length (snd q)) (snd p)) else None)"

text \<open>\<^verbatim>\<open>p.suffix\<close>: from the last dot on, unless it starts or ends the name.\<close>

definition path_suffix :: "path \<Rightarrow> string" where
  "path_suffix p =
     (let name = path_name p;
          ext = rev (takeWhile (\<lambda>c. c \<noteq> CHR ''.'') (rev name))
      in if ext = [] \<or> length ext + 1 \<ge> length name then [] else CHR ''.'' # ext)"

section \<open>Disk services\<close>

record fs =
  fs_size :: "path \<Rightarrow> int option"
  fs_exists :: "path \<Rightarrow> bool"
  fs_is_dir :: "path \<Rightarrow> bool"
  fs_iterdir :: "path \<Rightarrow> string list option"
  fs_read_json :: "path \<Rightarrow> json option"
  fs_resolve :: "path \<Rightarrow> path"
  fs_float_of_str :: "string \<Rightarrow> rat option"

definition attribute_error :: py_error where
  "attribute_error = OtherError ''AttributeError''"

text \<open>\<^verbatim>\<open>v.get(k)\<close>\<close>

fun py_get :: "json \<Rightarrow> string \<Rightarrow> json result" where
  "py_get (JObj kvs) k = Inr (case jget kvs k of None \<Rightarrow> JNull | Some v \<Rightarrow> v)"
| "py_get _ k = Inl attribute_error"

definition get_or :: "jdict \<Rightarrow> string \<Rightarrow> json \<Rightarrow> json" where
  "get_or kvs k dflt = (case jget kvs k of None \<Rightarrow> dflt | Some v \<Rightarrow> v)"

definition file_info_for_abs_path :: "fs \<Rightarrow> string \<Rightarrow> string option \<Rightarrow> json" where
  "file_info_for_abs_path fs abs_path out_dir =
     (let p = parse_path abs_path;
          rel = (if nonempty out_dir
                 then (case relative_to p (parse_path (the out_dir)) of
                         Some q \<Rightarrow> as_posix q | None \<Rightarrow> abs_path)
                 else abs_path)
      in JObj [(''abs_path'', JStr abs_path), (''rel_path'', JStr rel),
           (''kind'', JStr (ext_kind (map to_lower (path_suffix p)))),
           (''size_bytes'', JInt (case fs_size fs p of Some n \<Rightarrow> n | None \<Rightarrow> 0))])"

section \<open>References of a step\<close>

text \<open>\<^verbatim>\<open>_resolve_ref(source, context) if source else []\<close> under the \<^verbatim>\<open>try\<close> that yields \<^verbatim>\<open>[]\<close>.\<close>

definition resolve_source :: "host \<Rightarrow> json \<Rightarrow> jdict \<Rightarrow> json" where
  "resolve_source host source context =
     (if \<not> truthy source then JList []
      else case resolve_ref (h_rt host) source (JObj context) of Inl _ \<Rightarrow> JList [] | Inr v \<Rightarrow> v)"

text \<open>The same without the truth test, for the optional references.\<close>

definition resolve_optional :: "host \<Rightarrow> json \<Rightarrow> jdict \<Rightarrow> json" where
  "resolve_optional host source context =
     (case resolve_ref (h_rt host) source (JObj context) of Inl _ \<Rightarrow> JList [] | Inr v \<Rightarrow> v)"

text \<open>
  The normalisation to a list of file-info mappings: a mapping is wrapped, a scalar path is
  wrapped where the widget allows it (\<open>wrap\<close>), anything but a list is dropped.
\<close>

definition as_options :: "(string \<Rightarrow> json) option \<Rightarrow> json \<Rightarrow> json list" where
  "as_options wrap v =
     (case v of
        JObj kvs \<Rightarrow> [JObj kvs]
      | JStr s \<Rightarrow> (case wrap of Some f \<Rightarrow> [f s] | None \<Rightarrow> [])
      | JList xs \<Rightarrow> xs
      | _ \<Rightarrow> [])"

text \<open>\<^verbatim>\<open>if options: spec[rel] = options[0].get("rel_path"); spec[abs] = ...\<close>\<close>

definition set_first_paths :: "string \<Rightarrow> string \<Rightarrow> json list \<Rightarrow> jdict \<Rightarrow> jdict result" where
  "set_first_paths rel_key abs_key opts spec =
     (case opts of
        [] \<Rightarrow> Inr spec
      | first # _ \<Rightarrow>
          (case (py_get first ''rel_path'', py_get first ''abs_path'') of
             (Inr r, Inr a) \<Rightarrow> Inr (jset abs_key a (jset rel_key r spec))
           | (Inl e, _) \<Rightarrow> Inl e
           | (_, Inl e) \<Rightarrow> Inl e))"

section \<open>Panorama metadata\<close>

text \<open>The leftmost match of \<^verbatim>\<open>pano_(\d+)/\<close> and its group.\<close>

fun pano_index :: "string \<Rightarrow> nat option" where
  "pano_index [] = None"
| "pano_index (c # cs) =
     (let rest = drop 5 (c # cs);
          ds = takeWhile is_digit rest
      in if starts_with (c # cs) ''pano_'' \<and> ds \<noteq> [] \<and> starts_with (drop (length ds) rest) ''/''
         then Some (digits_val ds) else pano_index cs)"

fun views_in :: "fs \<Rightarrow> path \<Rightarrow> path list \<Rightarrow> json option" where
  "views_in fs base [] = None"
| "views_in fs base (a # as) =
     (case relative_to a base of
        None \<Rightarrow> None
      | Some _ \<Rightarrow>
          if fs_exists fs (join_path a ''views.json'')
          then Some (case fs_read_json fs (join_path a ''views.json'') of Some v \<Rightarrow> v | None \<Rightarrow> JList [])
          else views_in fs base as)"

definition views_for :: "fs \<Rightarrow> path \<Rightarrow> string \<Rightarrow> json" where
  "views_for fs base rel =
     (let v = (case views_in fs base (ancestors (parent_path (fs_resolve fs (join_path base rel)))) of
                 Some v \<Rightarrow> v | None \<Rightarrow> JNull)
      in if truthy v then v else JList [])"

definition pano_keep :: "string list" where
  "pano_keep = [''pano_id'', ''parcel_heading_deg'', ''date'', ''camera_height_m'', ''distance_m'']"

text \<open>\<^verbatim>\<open>{k: entry.get(k) for k in keep if k in entry}\<close> for any JSON entry.\<close>

fun lift_entry :: "json \<Rightarrow> jdict result" where
  "lift_entry (JObj kvs) =
     Inr (concat (map (\<lambda>k. case jget kvs k of Some v \<Rightarrow> [(k, v)] | None \<Rightarrow> []) pano_keep))"
| "lift_entry (JStr s) =
     (if list_ex (contains_sub s) pano_keep then Inl attribute_error else Inr [])"
| "lift_entry (JList xs) =
     (if list_ex (\<lambda>k. list_ex (py_eq (JStr k)) xs) pano_keep then Inl attribute_error else Inr [])"
| "lift_entry _ = Inl (TypeError ''not iterable'')"

text \<open>\<^verbatim>\<open>views[idx] if 0 <= idx < len(views) else {}\<close>\<close>

fun view_at :: "json \<Rightarrow> nat \<Rightarrow> json result" where
  "view_at (JList vs) i = Inr (if i < length vs then vs ! i else JObj [])"
| "view_at (JObj kvs) i = (if i < length kvs then Inl (KeyError (show_nat i)) else Inr (JObj []))"
| "view_at (JStr s) i = Inr (if i < length s then JStr [s ! i] else JObj [])"
| "view_at _ i = Inl (TypeError ''len'')"

definition pano_meta_of :: "fs \<Rightarrow> path \<Rightarrow> json \<Rightarrow> json result" where
  "pano_meta_of fs base opt =
     (case py_get opt ''rel_path'' of
        Inl e \<Rightarrow> Inl e
      | Inr r \<Rightarrow>
          let rel = (if truthy r then r else JStr [])
          in case rel of
               JStr s \<Rightarrow>
                 (case pano_index s of
                    None \<Rightarrow> Inr (JObj [])
                  | Some i \<Rightarrow>
                      (case view_at (views_for fs base s) i of
                         Inl e \<Rightarrow> Inl e
                       | Inr entry \<Rightarrow> (case lift_entry entry of Inl e \<Rightarrow> Inl e | Inr kvs \<Rightarrow> Inr (JObj kvs))))
             | _ \<Rightarrow> Inl (TypeError ''expected string''))"

fun map_res :: "('a \<Rightarrow> 'b result) \<Rightarrow> 'a list \<Rightarrow> 'b list result" where
  "map_res f [] = Inr []"
| "map_res f (x # xs) =
     (case f x of Inl e \<Rightarrow> Inl e
      | Inr y \<Rightarrow> (case map_res f xs of Inl e \<Rightarrow> Inl e | Inr ys \<Rightarrow> Inr (y # ys)))"

definition resolve_pano_meta :: "fs \<Rightarrow> run_row \<Rightarrow> json list \<Rightarrow> json list result" where
  "resolve_pano_meta fs run opts =
     (if \<not> nonempty (r_out_dir run) \<or> opts = [] then Inr (map (\<lambda>_. JObj []) opts)
      else map_res (pano_meta_of fs (parse_path (the (r_out_dir run)))) opts)"

section \<open>Widgets\<close>

text \<open>
  Each branch extends the spec built so far. The reference context is built where the branch
  builds it, outside the \<^verbatim>\<open>try\<close>, so its exception escapes.
\<close>

definition spec_choose_one :: "host \<Rightarrow> jdict \<Rightarrow> jdict \<Rightarrow> jdict \<Rightarrow> jdict" where
  "spec_choose_one host step context spec =
     (let opts = resolve_source host (get_or step ''source'' JNull) context
      in jset ''multiple'' (JBool (truthy (get_or step ''multiple'' (JBool False))))
           (jset ''options'' (if truthy opts then opts else JList []) spec))"

definition turnout_option :: "host \<Rightarrow> json \<Rightarrow> json list" where
  "turnout_option host opt =
     (case opt of
        JObj kvs \<Rightarrow>
          if get_or kvs ''value'' JNull = JNull then []
          else [JObj [(''label'', JStr (py_str (h_rt host)
                   (get_or kvs ''label'' (get_or kvs ''value'' (JStr []))))),
                 (''value'', JStr (py_str (h_rt host) (get_or kvs ''value'' (JStr []))))]]
      | _ \<Rightarrow> [])"

definition spec_turnout :: "host \<Rightarrow> jdict \<Rightarrow> jdict \<Rightarrow> jdict result" where
  "spec_turnout host step spec =
     (let opts = get_or step ''options'' JNull
      in if \<not> truthy opts then Inr (jset ''turnout_options'' (JList []) spec)
         else case opts of
                JList xs \<Rightarrow> Inr (jset ''turnout_options'' (JList (concat (map (turnout_option host) xs))) spec)
              | JObj kvs \<Rightarrow> Inr (jset ''turnout_options'' (JList []) spec)
              | JStr s \<Rightarrow> Inr (jset ''turnout_options'' (JList []) spec)
              | _ \<Rightarrow> Inl (TypeError ''not iterable''))"

definition spec_pick_perspective :: "host \<Rightarrow> fs \<Rightarrow> jdict \<Rightarrow> run_row \<Rightarrow> jdict \<Rightarrow> jdict \<Rightarrow> jdict result" where
  "spec_pick_perspective host fs step run context spec =
     (let opts = as_options None (resolve_source host (get_or step ''source'' JNull) context)
      in case set_first_paths ''fisheye_rel_path'' ''fisheye_abs_path'' opts
                (jset ''fisheye_options'' (JList opts) spec) of
           Inl e \<Rightarrow> Inl e
         | Inr spec' \<Rightarrow>
             (case resolve_pano_meta fs run opts of
                Inl e \<Rightarrow> Inl e | Inr meta \<Rightarrow> Inr (jset ''pano_meta'' (JList meta) spec')))"

definition spec_pick_fence :: "host \<Rightarrow> fs \<Rightarrow> jdict \<Rightarrow> run_row \<Rightarrow> jdict \<Rightarrow> jdict \<Rightarrow> jdict result" where
  "spec_pick_fence host fs step run context spec =
     (let src = as_options (Some (\<lambda>s. file_info_for_abs_path fs s (r_out_dir run)))
            (resolve_source host (get_or step ''source'' JNull) context);
          det = as_options None (resolve_source host (get_or step ''detections'' JNull) context)
      in case set_first_paths ''source_rel_path'' ''source_abs_path'' src
                (jset ''source_options'' (JList src) spec) of
           Inl e \<Rightarrow> Inl e
         | Inr spec' \<Rightarrow> set_first_paths ''detections_rel_path'' ''detections_abs_path'' det
                (jset ''detections_options'' (JList det) spec'))"

text \<open>The optional references of the paint widgets.\<close>

definition paint_initial_mask :: "host \<Rightarrow> fs \<Rightarrow> jdict \<Rightarrow> run_row \<Rightarrow> jdict \<Rightarrow> jdict \<Rightarrow> jdict result" where
  "paint_initial_mask host fs step run context spec =
     (case get_or step ''initial_mask'' JNull of
        JNull \<Rightarrow> Inr spec
      | ref \<Rightarrow>
          let opts = as_options (Some (\<lambda>s. file_info_for_abs_path fs s (r_out_dir run)))
                (resolve_optional host ref context)
          in set_first_paths ''initial_mask_rel_path'' ''initial_mask_abs_path'' opts
               (jset ''initial_mask_options'' (JList opts) spec))"

fun py_float :: "fs \<Rightarrow> json \<Rightarrow> rat option" where
  "py_float fs (JBool b) = Some (if b then 1 else 0)"
| "py_float fs (JInt i) = Some (of_int i)"
| "py_float fs (JFloat q) = Some q"
| "py_float fs (JStr s) = fs_float_of_str fs s"
| "py_float fs _ = None"

definition paint_opacity :: "fs \<Rightarrow> jdict \<Rightarrow> jdict \<Rightarrow> jdict" where
  "paint_opacity fs step spec =
     (case get_or step ''initial_mask_opacity'' JNull of
        JNull \<Rightarrow> spec
      | v \<Rightarrow> (case py_float fs v of
                 None \<Rightarrow> spec
               | Some q \<Rightarrow> jset ''initial_mask_opacity'' (JFloat (max 0 (min 1 q))) spec))"

definition paint_layer :: "host \<Rightarrow> fs \<Rightarrow> jdict \<Rightarrow> run_row \<Rightarrow> jdict \<Rightarrow> string \<Rightarrow> jdict \<Rightarrow> jdict result" where
  "paint_layer host fs step run context key spec =
     (case get_or step key JNull of
        JNull \<Rightarrow> Inr spec
      | ref \<Rightarrow> set_first_paths (key @ ''_rel_path'') (key @ ''_abs_path'')
          (as_options (Some (\<lambda>s. file_info_for_abs_path fs s (r_out_dir run)))
             (resolve_optional host ref context)) spec)"

definition spec_paint :: "host \<Rightarrow> fs \<Rightarrow> jdict \<Rightarrow> run_row \<Rightarrow> jdict \<Rightarrow> jdict \<Rightarrow> jdict result" where
  "spec_paint host fs step run context spec =
     (let opts = as_options (Some (\<lambda>s. file_info_for_abs_path fs s (r_out_dir run)))
            (resolve_source host (get_or step ''source'' JNull) context)
      in case set_first_paths ''source_rel_path'' ''source_abs_path'' opts
                (jset ''source_options'' (JList opts) spec) of
           Inl e \<Rightarrow> Inl e
         | Inr spec1 \<Rightarrow>
             (case paint_initial_mask host fs step run context spec1 of
                Inl e \<Rightarrow> Inl e
              | Inr spec2 \<Rightarrow>
                  (case paint_layer host fs step run context ''predefined_layers''
                          (paint_opacity fs step spec2) of
                     Inl e \<Rightarrow> Inl e
                   | Inr spec3 \<Rightarrow> paint_layer host fs step run context ''hide_mask'' spec3)))"

text \<open>One wall of a lane's manifest.\<close>

definition wall_entry :: "path \<Rightarrow> json \<Rightarrow> jdict result" where
  "wall_entry lane_dir w =
     (case w of
        JObj kvs \<Rightarrow>
          let rel = get_or kvs ''image_path'' (JStr []);
              mk = (\<lambda>a. [(''id'', get_or kvs ''id'' JNull), (''label'', get_or kvs ''label'' (JStr [])),
                     (''abs_path'', JStr a)])
          in if \<not> truthy rel then Inr (mk [])
             else (case rel of
                     JStr r \<Rightarrow> Inr (mk (as_posix (join_path lane_dir r)))
                   | _ \<Rightarrow> Inl (TypeError ''unsupported operand''))
      | _ \<Rightarrow> Inl attribute_error)"

definition wall_list :: "json \<Rightarrow> json list result" where
  "wall_list ws =
     (case ws of
        JList xs \<Rightarrow> Inr xs
      | JObj kvs \<Rightarrow> Inr (map (JStr \<circ> fst) kvs)
      | JStr s \<Rightarrow> Inr (map (\<lambda>c. JStr [c]) s)
      | _ \<Rightarrow> Inl (TypeError ''not iterable''))"

text \<open>The walls of a lane and the count it reports; an unreadable manifest is an empty lane.\<close>

definition read_lane :: "fs \<Rightarrow> path \<Rightarrow> (jdict list \<times> json) result" where
  "read_lane fs lane_dir =
     (case fs_read_json fs (join_path lane_dir ''walls.json'') of
        None \<Rightarrow> Inr ([], JInt 0)
      | Some (JObj data) \<Rightarrow>
          (case wall_list (get_or data ''walls'' (JList [])) of
             Inl e \<Rightarrow> Inl e
           | Inr ws \<Rightarrow>
               (case map_res (wall_entry lane_dir) ws of
                  Inl e \<Rightarrow> Inl e
                | Inr entries \<Rightarrow> Inr (entries, get_or data ''n_walls'' (JInt (int (length entries))))))
      | Some _ \<Rightarrow> Inl attribute_error)"

definition lane_proposals :: "host \<Rightarrow> string \<Rightarrow> jdict list \<Rightarrow> json list" where
  "lane_proposals host lane entries =
     map (\<lambda>e. JObj (e @ [(''parser'', JStr lane),
       (''global_id'', JStr (lane @ '':'' @ py_str (h_rt host) (get_or e ''id'' JNull)))])) entries"

definition lane_row :: "string \<Rightarrow> jdict list \<Rightarrow> json \<Rightarrow> json" where
  "lane_row lane entries n =
     JObj [(''parser'', JStr lane), (''n_walls'', n), (''walls'', JList (map JObj entries))]"

definition spec_assign_walls :: "host \<Rightarrow> fs \<Rightarrow> run_row \<Rightarrow> jdict \<Rightarrow> jdict result" where
  "spec_assign_walls host fs run spec =
     (let fill = (\<lambda>lanes props plates. jset ''plate_candidates'' (JList plates)
            (jset ''all_proposals'' (JList props) (jset ''parser_lanes'' (JList lanes) spec)))
      in if \<not> nonempty (r_out_dir run) then Inr (fill [] [] [])
         else let base = parse_path (the (r_out_dir run));
                  parse_root = join_path base ''parse_facade'';
                  plates = concat (map (\<lambda>sr. let plate = join_path (join_path (join_path base ''diffuse_3d'') sr)
                        ''pano_0_upscaled.png''
                      in if fs_exists fs plate
                         then [JObj [(''lane'', JStr sr), (''abs_path'', JStr (as_posix plate))]] else [])
                    [''sr_realesrgan'', ''sr_swinir'', ''sr_osediff'']);
                  listing = (if fs_exists fs parse_root then fs_iterdir fs parse_root else Some [])
              in case listing of
                   None \<Rightarrow> Inl (OtherError ''OSError'')
                 | Some names \<Rightarrow>
                     let lanes = sort (filter (\<lambda>n. fs_is_dir fs (join_path parse_root n) \<and>
                           fs_exists fs (join_path (join_path parse_root n) ''walls.json'')) names)
                     in case map_res (\<lambda>n. case read_lane fs (join_path parse_root n) of
                               Inl e \<Rightarrow> Inl e | Inr (es, k) \<Rightarrow> Inr (n, es, k)) lanes of
                          Inl e \<Rightarrow> Inl e
                        | Inr rows \<Rightarrow> Inr (fill (map (\<lambda>(n, es, k). lane_row n es k) rows)
                            (concat (map (\<lambda>(n, es, k). lane_proposals host n es) rows)) plates))"

definition spec_capture_3d :: "run_row \<Rightarrow> jdict \<Rightarrow> jdict result" where
  "spec_capture_3d run spec =
     (let parcel = (let v = get_or (r_context run) ''parcel'' JNull in if truthy v then v else JObj [])
      in case parcel of
           JObj kvs \<Rightarrow>
             let label = get_or kvs ''label'' JNull;
                 spec' = jset ''lon'' (get_or kvs ''lon'' JNull) (jset ''lat'' (get_or kvs ''lat'' JNull) spec)
             in Inr (if truthy label then jset ''parcel_label'' label spec' else spec')
         | _ \<Rightarrow> Inl attribute_error)"

definition base_spec :: "string \<Rightarrow> json \<Rightarrow> jdict \<Rightarrow> jdict" where
  "base_spec step_id widget step =
     [(''step_id'', JStr step_id), (''widget'', widget), (''prompt'', get_or step ''prompt'' (JStr [])),
      (''target'', get_or step ''target'' JNull)]"

definition with_context :: "host \<Rightarrow> run_row \<Rightarrow> db \<Rightarrow> (jdict \<Rightarrow> jdict result) \<Rightarrow> jdict result" where
  "with_context host run d k = (case ref_context host run d of Inl e \<Rightarrow> Inl e | Inr ctx \<Rightarrow> k ctx)"

definition build_input_spec :: "host \<Rightarrow> fs \<Rightarrow> wf_step \<Rightarrow> run_row \<Rightarrow> db \<Rightarrow> jdict result" where
  "build_input_spec host fs s run d =
     (let step = st_raw s
      in case jget step ''widget'' of
           None \<Rightarrow> Inl (KeyError ''widget'')
         | Some widget \<Rightarrow>
             let spec = base_spec (st_id s) widget step
             in if widget = JStr ''choose_one''
                then with_context host run d (\<lambda>ctx. Inr (spec_choose_one host step ctx spec))
                else if widget = JStr ''file_upload''
                then Inr (jset ''accept'' (get_or step ''accept'' (JStr ''*/*'')) spec)
                else if widget = JStr ''pick_or_upload''
                then Inr (jset ''accept'' (get_or step ''accept'' (JStr ''*/*''))
                       (jset ''library'' (get_or step ''library'' JNull) spec))
                else if widget = JStr ''turnout'' then spec_turnout host step spec
                else if widget = JStr ''pick_perspective''
                then with_context host run d (\<lambda>ctx. spec_pick_perspective host fs step run ctx spec)
                else if widget = JStr ''pick_fence''
                then with_context host run d (\<lambda>ctx. spec_pick_fence host fs step run ctx spec)
                else if widget = JStr ''paint_mask'' \<or> widget = JStr ''paint_fence_regions''
                then with_context host run d (\<lambda>ctx. spec_paint host fs step run ctx spec)
                else if widget = JStr ''assign_walls'' then spec_assign_walls host fs run spec
                else if widget = JStr ''capture_3d'' then spec_capture_3d run spec
                else Inr spec)"

text \<open>A write that fails is logged and dropped; the statement has no other failure mode here.\<close>

definition on_node_awaiting_input :: "host \<Rightarrow> fs \<Rightarrow> string \<Rightarrow> string \<Rightarrow> (db, unit) act" where
  "on_node_awaiting_input host fs run_id node_id d =
     (case get_run run_id d of
        None \<Rightarrow> (Inr (), d)
      | Some run \<Rightarrow>
          if run_over (r_status run) then (Inr (), d)
          else case load_workflow host (r_workflow run) of
                 Inl e \<Rightarrow> (Inl e, d)
               | Inr steps \<Rightarrow>
                   (case find (\<lambda>s. st_kind s = Some ''input'' \<and> st_id s = node_id) steps of
                      None \<Rightarrow> (Inr (), d)
                    | Some s \<Rightarrow>
                        (case build_input_spec host fs s run d of
                           Inl e \<Rightarrow> (Inl e, d)
                         | Inr spec \<Rightarrow> (Inr (), set_input_spec run_id node_id (Some (JObj spec)) d))))"

section \<open>Laws of paths\<close>

definition proper_part :: "string \<Rightarrow> bool" where
  "proper_part p \<longleftrightarrow> p \<noteq> [] \<and> p \<noteq> ''.'' \<and> CHR ''/'' \<notin> set p"

lemma split_on_no_sep: "\<forall>p\<in>set (split_on c s). c \<notin> set p"
  by (induction s) (auto split: list.splits)

lemma parse_path_proper: "list_all proper_part (snd (parse_path s))"
  using split_on_no_sep[of "CHR ''/''" s] by (auto simp: parse_path_def proper_part_def list_all_iff)

lemma split_join:
  assumes "ps \<noteq> []" and "\<And>p. p \<in> set ps \<Longrightarrow> CHR ''/'' \<notin> set p"
  shows "split_on CHR ''/'' (join_with ''/'' ps) = ps"
  using assms
proof (induction "''/''" ps rule: join_with.induct)
  case (3 x y ys)
  then show ?case using split_on_append[of "CHR ''/''" x] by (simp add: split_on_nosep)
qed (simp_all add: split_on_nosep)

lemma join_with_start:
  assumes "list_all proper_part ps"
  shows "\<not> starts_with (join_with ''/'' ps) ''/''"
  using assms by (cases "(''/'', ps)" rule: join_with.cases)
    (auto simp: starts_with_def proper_part_def neq_Nil_conv)

text \<open>Printing a relative path and parsing it again is the identity.\<close>

lemma parse_as_posix:
  assumes "list_all proper_part ps"
  shows "parse_path (as_posix ([], ps)) = ([], ps)"
proof (cases "ps = []")
  case True
  then show ?thesis by (simp add: as_posix_def parse_path_def starts_with_def)
next
  case False
  let ?s = "join_with ''/'' ps"
  from False assms have "split_on CHR ''/'' ?s = ps"
    by (intro split_join) (auto simp: list_all_iff proper_part_def)
  moreover have "\<not> starts_with ?s ''/''" using assms by (rule join_with_start)
  moreover from this have "\<not> starts_with ?s ''//''" by (cases ?s) (auto simp: starts_with_def)
  moreover have "filter (\<lambda>p. p \<noteq> [] \<and> p \<noteq> ''.'') ps = ps"
    using assms by (auto simp: list_all_iff proper_part_def intro: filter_True)
  ultimately show ?thesis using False by (simp add: as_posix_def parse_path_def)
qed

lemma relative_to_join:
  assumes "relative_to p q = Some r" and "list_all proper_part (snd p)"
  shows "join_path q (as_posix r) = p"
proof -
  from assms have r: "r = ([], drop (length (snd q)) (snd p))" and same: "fst p = fst q"
    and pre: "take (length (snd q)) (snd p) = snd q"
    by (auto simp: relative_to_def split: if_splits)
  have "list_all proper_part (drop (length (snd q)) (snd p))"
    using assms(2) by (auto simp: list_all_iff dest: in_set_dropD)
  then have "parse_path (as_posix r) = r" unfolding r by (rule parse_as_posix)
  moreover have "snd q @ drop (length (snd q)) (snd p) = snd p"
    using append_take_drop_id[of "length (snd q)" "snd p"] pre by simp
  ultimately show ?thesis using same by (simp add: join_path_def r prod_eq_iff)
qed

section \<open>What the builder keeps and when it raises\<close>

definition base_keys :: "string list" where
  "base_keys = [''step_id'', ''widget'', ''prompt'', ''target'']"

definition opacity_ok :: "jdict \<Rightarrow> bool" where
  "opacity_ok spec \<longleftrightarrow>
     (case jget spec ''initial_mask_opacity'' of
        None \<Rightarrow> True | Some (JFloat q) \<Rightarrow> 0 \<le> q \<and> q \<le> 1 | Some _ \<Rightarrow> False)"

text \<open>A spec extends the four base entries and its opacity, if any, is in range.\<close>

definition extends_base :: "jdict \<Rightarrow> jdict \<Rightarrow> bool" where
  "extends_base spec spec' \<longleftrightarrow> (\<forall>k\<in>set base_keys. jget spec' k = jget spec k) \<and> opacity_ok spec'"

definition free_key :: "string \<Rightarrow> bool" where
  "free_key k \<longleftrightarrow> k \<notin> set base_keys \<and> k \<noteq> ''initial_mask_opacity''"

lemma extends_jset [simp]: "free_key k \<Longrightarrow> extends_base spec (jset k v spec') = extends_base spec spec'"
  by (auto simp: extends_base_def free_key_def opacity_ok_def)

lemma extends_opacity: "extends_base spec spec' \<Longrightarrow> extends_base spec (paint_opacity fs step spec')"
  by (auto simp: extends_base_def base_keys_def paint_opacity_def opacity_ok_def split: option.splits json.splits)

lemma extends_base_spec: "extends_base (base_spec i w step) (base_spec i w step)"
  by (simp add: extends_base_def base_spec_def opacity_ok_def jget_def)

text \<open>The first option, if there is one, is a mapping.\<close>

definition head_ok :: "json list \<Rightarrow> bool" where
  "head_ok opts \<longleftrightarrow> (case opts of JObj _ # _ \<Rightarrow> True | [] \<Rightarrow> True | _ \<Rightarrow> False)"

lemma set_first_paths_raises: "\<not> head_ok opts \<Longrightarrow> set_first_paths r a opts spec = Inl attribute_error"
  by (cases opts; cases "hd opts") (simp_all add: head_ok_def set_first_paths_def)

lemma set_first_paths_returns:
  "head_ok opts \<Longrightarrow> \<exists>spec'. set_first_paths r a opts spec = Inr spec' \<and>
     (free_key r \<longrightarrow> free_key a \<longrightarrow> extends_base spec0 spec' = extends_base spec0 spec)"
  by (cases opts; cases "hd opts") (simp_all add: head_ok_def set_first_paths_def)

lemma set_first_paths_extends:
  "set_first_paths r a opts spec = Inr spec' \<Longrightarrow> extends_base spec0 spec \<Longrightarrow> free_key r \<Longrightarrow> free_key a \<Longrightarrow>
   extends_base spec0 spec'"
  using set_first_paths_returns[of opts r a spec spec0] set_first_paths_raises[of opts r a spec]
  by (cases "head_ok opts") auto

lemma free_keys [simp]:
  "free_key ''options''" "free_key ''multiple''" "free_key ''accept''" "free_key ''library''"
  "free_key ''turnout_options''" "free_key ''fisheye_options''" "free_key ''fisheye_rel_path''"
  "free_key ''fisheye_abs_path''" "free_key ''pano_meta''" "free_key ''source_options''"
  "free_key ''source_rel_path''" "free_key ''source_abs_path''" "free_key ''detections_options''"
  "free_key ''detections_rel_path''" "free_key ''detections_abs_path''" "free_key ''initial_mask_options''"
  "free_key ''initial_mask_rel_path''" "free_key ''initial_mask_abs_path''"
  "free_key ''predefined_layers_rel_path''" "free_key ''predefined_layers_abs_path''"
  "free_key ''hide_mask_rel_path''" "free_key ''hide_mask_abs_path''" "free_key ''parser_lanes''"
  "free_key ''all_proposals''" "free_key ''plate_candidates''" "free_key ''lat''" "free_key ''lon''"
  "free_key ''parcel_label''"
  by (simp_all add: free_key_def base_keys_def)

text \<open>The options a reference of the step resolves to, a scalar path wrapped, and without the wrap.\<close>

definition wrapped_options :: "host \<Rightarrow> fs \<Rightarrow> run_row \<Rightarrow> json \<Rightarrow> json list" where
  "wrapped_options host fs run v =
     as_options (Some (\<lambda>s. file_info_for_abs_path fs s (r_out_dir run))) v"

text \<open>The references of a paint step whose first option the builder reads.\<close>

definition paint_heads_ok :: "host \<Rightarrow> fs \<Rightarrow> jdict \<Rightarrow> run_row \<Rightarrow> jdict \<Rightarrow> bool" where
  "paint_heads_ok host fs step run ctx \<longleftrightarrow>
     head_ok (wrapped_options host fs run (resolve_source host (get_or step ''source'' JNull) ctx)) \<and>
     list_all (\<lambda>key. get_or step key JNull = JNull \<or>
       head_ok (wrapped_options host fs run (resolve_optional host (get_or step key JNull) ctx)))
       [''initial_mask'', ''predefined_layers'', ''hide_mask'']"

lemma paint_initial_mask_cases:
  assumes "extends_base spec0 spec"
  shows "if get_or step ''initial_mask'' JNull = JNull \<or>
       head_ok (wrapped_options host fs run (resolve_optional host (get_or step ''initial_mask'' JNull) ctx))
     then \<exists>spec'. paint_initial_mask host fs step run ctx spec = Inr spec' \<and> extends_base spec0 spec'
     else paint_initial_mask host fs step run ctx spec = Inl attribute_error"
proof (cases "get_or step ''initial_mask'' JNull = JNull")
  case True
  then show ?thesis using assms by (simp add: paint_initial_mask_def)
next
  case False
  let ?o = "wrapped_options host fs run (resolve_optional host (get_or step ''initial_mask'' JNull) ctx)"
  have eq: "paint_initial_mask host fs step run ctx spec =
      set_first_paths ''initial_mask_rel_path'' ''initial_mask_abs_path'' ?o
        (jset ''initial_mask_options'' (JList ?o) spec)"
    using False by (simp add: paint_initial_mask_def wrapped_options_def Let_def split: json.splits)
  show ?thesis
    using False assms set_first_paths_returns[of ?o] set_first_paths_raises[of ?o]
    unfolding eq by auto (metis extends_jset free_keys)
qed

lemma paint_layer_cases:
  assumes "extends_base spec0 spec" and "free_key (key @ ''_rel_path'')" and "free_key (key @ ''_abs_path'')"
  shows "if get_or step key JNull = JNull \<or>
       head_ok (wrapped_options host fs run (resolve_optional host (get_or step key JNull) ctx))
     then \<exists>spec'. paint_layer host fs step run ctx key spec = Inr spec' \<and> extends_base spec0 spec'
     else paint_layer host fs step run ctx key spec = Inl attribute_error"
proof (cases "get_or step key JNull = JNull")
  case True
  then show ?thesis using assms by (simp add: paint_layer_def)
next
  case False
  let ?o = "wrapped_options host fs run (resolve_optional host (get_or step key JNull) ctx)"
  have eq: "paint_layer host fs step run ctx key spec =
      set_first_paths (key @ ''_rel_path'') (key @ ''_abs_path'') ?o spec"
    using False by (simp add: paint_layer_def wrapped_options_def split: json.splits)
  show ?thesis
    using False assms set_first_paths_returns[of ?o] set_first_paths_raises[of ?o]
    unfolding eq by auto metis
qed

lemma spec_paint_cases:
  assumes "extends_base spec0 spec"
  shows "if paint_heads_ok host fs step run ctx
     then \<exists>spec'. spec_paint host fs step run ctx spec = Inr spec' \<and> extends_base spec0 spec'
     else spec_paint host fs step run ctx spec = Inl attribute_error"
proof -
  let ?src = "wrapped_options host fs run (resolve_source host (get_or step ''source'' JNull) ctx)"
  let ?ok = "\<lambda>key. get_or step key JNull = JNull \<or>
    head_ok (wrapped_options host fs run (resolve_optional host (get_or step key JNull) ctx))"
  let ?s0 = "jset ''source_options'' (JList ?src) spec"
  have eq: "spec_paint host fs step run ctx spec =
      (case set_first_paths ''source_rel_path'' ''source_abs_path'' ?src ?s0 of
         Inl e \<Rightarrow> Inl e
       | Inr spec1 \<Rightarrow> (case paint_initial_mask host fs step run ctx spec1 of
           Inl e \<Rightarrow> Inl e
         | Inr spec2 \<Rightarrow> (case paint_layer host fs step run ctx ''predefined_layers'' (paint_opacity fs step spec2) of
             Inl e \<Rightarrow> Inl e | Inr spec3 \<Rightarrow> paint_layer host fs step run ctx ''hide_mask'' spec3)))"
    by (simp add: spec_paint_def wrapped_options_def Let_def)
  have ok: "paint_heads_ok host fs step run ctx \<longleftrightarrow>
      head_ok ?src \<and> ?ok ''initial_mask'' \<and> ?ok ''predefined_layers'' \<and> ?ok ''hide_mask''"
    by (simp add: paint_heads_ok_def)
  show ?thesis
  proof (cases "head_ok ?src")
    case False
    then show ?thesis by (simp add: eq ok set_first_paths_raises)
  next
    case True
    then obtain spec1 where s1: "set_first_paths ''source_rel_path'' ''source_abs_path'' ?src ?s0 = Inr spec1"
      and e1: "extends_base spec0 spec1"
      using set_first_paths_returns[of ?src "''source_rel_path''" "''source_abs_path''" ?s0 spec0] assms by auto
    show ?thesis
    proof (cases "?ok ''initial_mask''")
      case False
      then show ?thesis
        using paint_initial_mask_cases[OF e1, of step host fs run ctx] s1 by (simp add: eq ok)
    next
      case im: True
      then obtain spec2 where s2: "paint_initial_mask host fs step run ctx spec1 = Inr spec2"
        and e2: "extends_base spec0 (paint_opacity fs step spec2)"
        using paint_initial_mask_cases[OF e1, of step host fs run ctx] extends_opacity by fastforce
      show ?thesis
        using paint_layer_cases[OF e2, of "''predefined_layers''" step host fs run ctx]
          paint_layer_cases[of spec0 _ "''hide_mask''" step host fs run ctx] im True
        by (fastforce simp: eq ok s1 s2 split: if_splits)
    qed
  qed
qed

lemma spec_pick_fence_cases:
  assumes "extends_base spec0 spec"
  shows "if head_ok (wrapped_options host fs run (resolve_source host (get_or step ''source'' JNull) ctx)) \<and>
       head_ok (as_options None (resolve_source host (get_or step ''detections'' JNull) ctx))
     then \<exists>spec'. spec_pick_fence host fs step run ctx spec = Inr spec' \<and> extends_base spec0 spec'
     else spec_pick_fence host fs step run ctx spec = Inl attribute_error"
proof -
  let ?src = "wrapped_options host fs run (resolve_source host (get_or step ''source'' JNull) ctx)"
  let ?det = "as_options None (resolve_source host (get_or step ''detections'' JNull) ctx)"
  let ?s0 = "jset ''source_options'' (JList ?src) spec"
  have eq: "spec_pick_fence host fs step run ctx spec =
      (case set_first_paths ''source_rel_path'' ''source_abs_path'' ?src ?s0 of
         Inl e \<Rightarrow> Inl e
       | Inr spec' \<Rightarrow> set_first_paths ''detections_rel_path'' ''detections_abs_path'' ?det
           (jset ''detections_options'' (JList ?det) spec'))"
    by (simp add: spec_pick_fence_def wrapped_options_def Let_def)
  show ?thesis
  proof (cases "head_ok ?src")
    case False
    then show ?thesis by (simp add: eq set_first_paths_raises)
  next
    case True
    then obtain spec1 where s1: "set_first_paths ''source_rel_path'' ''source_abs_path'' ?src ?s0 = Inr spec1"
      and e1: "extends_base spec0 spec1"
      using set_first_paths_returns[of ?src "''source_rel_path''" "''source_abs_path''" ?s0 spec0] assms by auto
    show ?thesis
      using set_first_paths_returns[of ?det "''detections_rel_path''" "''detections_abs_path''"
          "jset ''detections_options'' (JList ?det) spec1" spec0]
        set_first_paths_raises[of ?det] e1 True
      by (auto simp: eq s1)
  qed
qed

lemma other_widgets_extend:
  assumes "extends_base spec0 spec"
  shows "extends_base spec0 (spec_choose_one host step ctx spec)"
    and "spec_turnout host step spec = Inr spec' \<Longrightarrow> extends_base spec0 spec'"
    and "spec_pick_perspective host fs step run ctx spec = Inr spec' \<Longrightarrow> extends_base spec0 spec'"
    and "spec_assign_walls host fs run spec = Inr spec' \<Longrightarrow> extends_base spec0 spec'"
    and "spec_capture_3d run spec = Inr spec' \<Longrightarrow> extends_base spec0 spec'"
proof -
  show "extends_base spec0 (spec_choose_one host step ctx spec)"
    using assms by (simp add: spec_choose_one_def Let_def)
  show "extends_base spec0 spec'" if "spec_turnout host step spec = Inr spec'"
    using that assms by (auto simp: spec_turnout_def Let_def split: if_splits json.splits)
  show "extends_base spec0 spec'" if "spec_pick_perspective host fs step run ctx spec = Inr spec'"
    using that assms
    by (auto simp: spec_pick_perspective_def Let_def split: sum.splits
        dest: set_first_paths_extends[where ?spec0.0 = spec0])
  show "extends_base spec0 spec'" if "spec_assign_walls host fs run spec = Inr spec'"
    using that assms by (auto simp: spec_assign_walls_def Let_def split: if_splits option.splits sum.splits)
  show "extends_base spec0 spec'" if "spec_capture_3d run spec = Inr spec'"
    using that assms by (auto simp: spec_capture_3d_def Let_def split: if_splits json.splits)
qed

lemma if_eqE: "(if b then x else y) = z \<Longrightarrow> (b \<Longrightarrow> x = z \<Longrightarrow> P) \<Longrightarrow> (\<not> b \<Longrightarrow> y = z \<Longrightarrow> P) \<Longrightarrow> P"
  by (cases b) auto

lemma with_contextE:
  assumes "with_context host run d k = Inr spec"
  obtains ctx where "ref_context host run d = Inr ctx" and "k ctx = Inr spec"
  using assms by (auto simp: with_context_def split: sum.splits)

lemma build_extends:
  assumes "build_input_spec host fs s run d = Inr spec" and "jget (st_raw s) ''widget'' = Some w"
  shows "extends_base (base_spec (st_id s) w (st_raw s)) spec"
proof -
  let ?b = "base_spec (st_id s) w (st_raw s)"
  note b = extends_base_spec[of "st_id s" w "st_raw s"]
  have fence: "spec_pick_fence host fs (st_raw s) run ctx ?b = Inr spec \<Longrightarrow> extends_base ?b spec" for ctx
    using spec_pick_fence_cases[OF b, of host fs run "st_raw s" ctx] by (auto split: if_splits)
  have paint: "spec_paint host fs (st_raw s) run ctx ?b = Inr spec \<Longrightarrow> extends_base ?b spec" for ctx
    using spec_paint_cases[OF b, of host fs "st_raw s" run ctx] by (auto split: if_splits)
  note others = other_widgets_extend[OF b]
  have up: "extends_base ?b (jset ''accept'' v ?b)" "extends_base ?b (jset ''accept'' v (jset ''library'' v' ?b))" for v v'
    using b by simp_all
  from assms(1)[unfolded build_input_spec_def Let_def assms(2) option.case] show ?thesis
    by (elim if_eqE with_contextE)
      ((erule others(2-5) fence paint) | (drule Inr_inject, erule subst, rule up b others(1)))+
qed

section \<open>The callback\<close>

lemma on_node_awaiting_input_effect:
  assumes "on_node_awaiting_input host fs run_id node_id d = (r, d')"
  shows "d' = d \<or> (\<exists>run s spec. get_run run_id d = Some run \<and> \<not> run_over (r_status run) \<and> st_id s = node_id \<and>
    build_input_spec host fs s run d = Inr spec \<and> r = Inr () \<and>
    d' = set_input_spec run_id node_id (Some (JObj spec)) d)"
  using assms
  by (auto simp: on_node_awaiting_input_def find_Some_iff split: option.splits if_splits sum.splits)

lemma on_node_awaiting_input_inv: "db_inv d \<Longrightarrow> db_inv (snd (on_node_awaiting_input host fs run_id n d))"
  using on_node_awaiting_input_effect[of host fs run_id n d] job_statements_db_inv(1)[of d]
  by (metis surjective_pairing)

lemma on_node_awaiting_input_same: "same_elsewhere run_id d (snd (on_node_awaiting_input host fs run_id n d))"
  using on_node_awaiting_input_effect[of host fs run_id n d] set_input_spec_same
  by (metis same_refl surjective_pairing)

lemma on_node_awaiting_input_runs [simp]: "runs (snd (on_node_awaiting_input host fs run_id n d)) = runs d"
  by (auto simp: on_node_awaiting_input_def set_input_spec_def update_jobs_def
      split: option.splits sum.splits)

section \<open>Properties\<close>


text \<open>A paint step whose source is a list of plain paths, and the same with one path.\<close>

definition demo_paint_step :: "json \<Rightarrow> wf_step" where
  "demo_paint_step src = \<lparr>st_id = ''mask'', st_kind = Some ''input'', st_pipeline = [], st_inputs = [],
     st_depends = [], st_skip_if = None, st_widget = Some ''paint_mask'', st_target = Some ''m'',
     st_raw = [(''id'', JStr ''mask''), (''widget'', JStr ''paint_mask''), (''target'', JStr ''m''),
       (''source'', JObj [(''$value'', src)]), (''initial_mask_opacity'', JInt 7)]\<rparr>"

definition demo_fs :: fs where
  "demo_fs = \<lparr>fs_size = (\<lambda>_. None), fs_exists = (\<lambda>_. False), fs_is_dir = (\<lambda>_. False),
     fs_iterdir = (\<lambda>_. None), fs_read_json = (\<lambda>_. None), fs_resolve = id, fs_float_of_str = (\<lambda>_. None)\<rparr>"


text \<open>
  The relative path a scalar reference is given leads back to the file. For a path under the
  run's output directory, the \<^verbatim>\<open>rel_path\<close> of \<^verbatim>\<open>_file_info_for_abs_path\<close>, joined to that directory the
  way the file endpoint joins it, is the path itself; outside, the absolute path is passed on.
\<close>

theorem file_info_rel_path_roundtrip:
  assumes "nonempty out_dir"
  shows "case relative_to (parse_path abs_path) (parse_path (the out_dir)) of
      Some q \<Rightarrow> \<exists>rel. py_get (file_info_for_abs_path fs abs_path out_dir) ''rel_path'' = Inr (JStr rel) \<and>
        join_path (parse_path (the out_dir)) rel = parse_path abs_path
    | None \<Rightarrow> py_get (file_info_for_abs_path fs abs_path out_dir) ''rel_path'' = Inr (JStr abs_path)"
proof (cases "relative_to (parse_path abs_path) (parse_path (the out_dir))")
  case None
  then show ?thesis using assms by (simp add: file_info_for_abs_path_def Let_def jget_def)
next
  case (Some q)
  then show ?thesis
    using assms relative_to_join[OF Some parse_path_proper]
    by (simp add: file_info_for_abs_path_def Let_def jget_def)
qed

theorem file_info_rel_path_roundtrip_witness:
  "py_get (file_info_for_abs_path demo_fs ''/runs//r1/./pano/a.jpg'' (Some ''/runs/r1/'')) ''rel_path'' =
     Inr (JStr ''pano/a.jpg'') \<and>
   join_path (parse_path ''/runs/r1/'') ''pano/a.jpg'' = parse_path ''/runs//r1/./pano/a.jpg''"
proof -
  have "nonempty (Some ''/runs/r1/'')" by code_simp
  note spec = file_info_rel_path_roundtrip[OF this, where abs_path = "''/runs//r1/./pano/a.jpg''" and fs = demo_fs]
  have rel: "py_get (file_info_for_abs_path demo_fs ''/runs//r1/./pano/a.jpg'' (Some ''/runs/r1/'')) ''rel_path'' =
     Inr (JStr ''pano/a.jpg'')" by code_simp
  have "relative_to (parse_path ''/runs//r1/./pano/a.jpg'') (parse_path (the (Some ''/runs/r1/''))) =
     Some ([], [''pano'', ''a.jpg''])" by code_simp
  with spec rel show ?thesis by simp
qed

end
