(* ===== verification/Node_Pool.thy ===== *)
theory Node_Pool
  imports Input_Spec
begin

text \<open>
  The outbox drain of \<^verbatim>\<open>node_pool.py\<close>: one open transaction around dispatcher callbacks that commit
  on other connections. A callback that must write a row the open transaction has locked never
  returns.
\<close>

section \<open>The outbox drain\<close>

text \<open>
  What the orchestrator runs with: the host services, the disk, \<^verbatim>\<open>f"{type(exc).__name__}: {exc}"\<close>,
  and the staleness threshold read from the environment.
\<close>

record pool_env =
  pe_host :: host
  pe_fs :: fs
  pe_exc_text :: "py_error \<Rightarrow> string"
  pe_env_stale :: int

definition dispatch_max_attempts :: nat where
  "dispatch_max_attempts = 10"

definition known_kind :: "string \<Rightarrow> bool" where
  "known_kind kind \<longleftrightarrow> kind = ''completed'' \<or> kind = ''failed'' \<or> kind = ''awaiting_input''"

definition drain_batch :: "config \<Rightarrow> db \<Rightarrow> dispatch_event list" where
  "drain_batch cfg d =
     order_by ev_created 50 (sql_select (\<lambda>e. ev_processed e = None \<and>
       list_ex (\<lambda>r. r_id r = ev_run e \<and> r_project r = cfg_project cfg) (runs d)) (dispatch_events d))"

definition run_callback :: "pool_env \<Rightarrow> dispatch_event \<Rightarrow> (db, unit) act" where
  "run_callback env e d =
     (if ev_kind e = ''completed'' then
        (case on_node_completed (pe_host env) (ev_run e) (ev_node e) d of
           (Inl x, d') \<Rightarrow> (Inl x, d') | (Inr _, d') \<Rightarrow> (Inr (), d'))
      else if ev_kind e = ''failed'' then on_node_failed (pe_host env) (ev_run e) (ev_node e) d
      else on_node_awaiting_input (pe_host env) (pe_fs env) (ev_run e) (ev_node e) d)"

text \<open>What the open transaction writes to an event row.\<close>

datatype mark = Done | Retry string | Poisoned string

fun mark_row :: "int \<Rightarrow> mark \<Rightarrow> dispatch_event \<Rightarrow> dispatch_event" where
  "mark_row t Done e = e\<lparr>ev_processed := Some t\<rparr>"
| "mark_row t (Retry err) e = e\<lparr>ev_attempts := ev_attempts e + 1, ev_error := Some err\<rparr>"
| "mark_row t (Poisoned err) e =
     e\<lparr>ev_attempts := ev_attempts e + 1, ev_error := Some err, ev_processed := Some t\<rparr>"

text \<open>The writes held back until the commit; the rows of \<open>tx_locked\<close> are locked meanwhile.\<close>

record drain_txn =
  tx_locked :: "(string \<times> string) list"
  tx_marks :: "(nat \<times> mark) list"

definition run_terminal :: "run_status \<Rightarrow> bool" where
  "run_terminal st \<longleftrightarrow> st = R_completed \<or> st = R_failed \<or> st = R_cancelled"

definition poison_text :: "pool_env \<Rightarrow> dispatch_event \<Rightarrow> string \<Rightarrow> string" where
  "poison_text env e err =
     ''dispatch callback '' @ h_repr (pe_host env) (ev_kind e) @ '' for node '' @
     h_repr (pe_host env) (ev_node e) @ '' failed after '' @ show_nat (ev_attempts e + 1) @
     '' attempts: '' @ take 500 err"

text \<open>
  The guarded \<^verbatim>\<open>UPDATE workflow_runs\<close> of the poison branch: it sees its own earlier write, and
  takes the row lock when it writes.
\<close>

definition lock_run :: "db \<Rightarrow> string \<Rightarrow> string \<Rightarrow> drain_txn \<Rightarrow> drain_txn" where
  "lock_run d run_id err tx =
     (if run_id \<in> fst ` set (tx_locked tx) then tx
      else case run_of d run_id of
             None \<Rightarrow> tx
           | Some r \<Rightarrow> if run_terminal (r_status r) then tx
                       else tx\<lparr>tx_locked := tx_locked tx @ [(run_id, err)]\<rparr>)"

definition add_mark :: "nat \<Rightarrow> mark \<Rightarrow> drain_txn \<Rightarrow> drain_txn" where
  "add_mark i m tx = tx\<lparr>tx_marks := tx_marks tx @ [(i, m)]\<rparr>"

text \<open>
  A callback writes its run's row by setting another status, so it has to wait for the lock
  exactly when it would change a locked row.
\<close>

definition blocked :: "drain_txn \<Rightarrow> string \<Rightarrow> db \<Rightarrow> db \<Rightarrow> bool" where
  "blocked tx run_id d d' \<longleftrightarrow> run_id \<in> fst ` set (tx_locked tx) \<and> run_of d' run_id \<noteq> run_of d run_id"

definition drain_one :: "pool_env \<Rightarrow> dispatch_event \<Rightarrow> drain_txn \<Rightarrow> db \<Rightarrow> (drain_txn \<times> db) option" where
  "drain_one env e tx d =
     (if \<not> known_kind (ev_kind e)
      then Some (add_mark (ev_id e) (Retry (''unknown kind='' @ h_repr (pe_host env) (ev_kind e))) tx, d)
      else case run_callback env e d of
             (res, d') \<Rightarrow>
               if blocked tx (ev_run e) d d' then None
               else (case res of
                       Inr _ \<Rightarrow> Some (add_mark (ev_id e) Done tx, d')
                     | Inl exc \<Rightarrow>
                         let err = pe_exc_text env exc
                         in if ev_attempts e + 1 \<ge> dispatch_max_attempts
                            then Some (add_mark (ev_id e) (Poisoned (take 8000 err))
                                   (lock_run d' (ev_run e) (poison_text env e err) tx), d')
                            else Some (add_mark (ev_id e) (Retry (take 8000 err)) tx, d')))"

fun drain_events :: "pool_env \<Rightarrow> dispatch_event list \<Rightarrow> drain_txn \<Rightarrow> db \<Rightarrow> (drain_txn \<times> db) option" where
  "drain_events env [] tx d = Some (tx, d)"
| "drain_events env (e # es) tx d =
     (case drain_one env e tx d of None \<Rightarrow> None | Some (tx', d') \<Rightarrow> drain_events env es tx' d')"

definition commit_mark :: "nat \<times> mark \<Rightarrow> db \<Rightarrow> db" where
  "commit_mark im d =
     d\<lparr>dispatch_events := sql_update (\<lambda>e. ev_id e = fst im) (mark_row (now d) (snd im)) (dispatch_events d)\<rparr>"

definition commit_lock :: "string \<times> string \<Rightarrow> db \<Rightarrow> db" where
  "commit_lock re d =
     d\<lparr>runs := sql_update (\<lambda>r. r_id r = fst re)
         (\<lambda>r. r\<lparr>r_status := R_failed, r_finished_at := Some (now d), r_error := Some (snd re)\<rparr>) (runs d)\<rparr>"

definition commit_drain :: "drain_txn \<Rightarrow> db \<Rightarrow> db" where
  "commit_drain tx d = fold commit_mark (tx_marks tx) (fold commit_lock (tx_locked tx) d)"

text \<open>\<open>None\<close> is a drain that waits for its own lock and never returns.\<close>

definition drain_dispatch_events :: "pool_env \<Rightarrow> db \<Rightarrow> db option" where
  "drain_dispatch_events env d =
     (case drain_events env (drain_batch (h_cfg (pe_host env)) d) \<lparr>tx_locked = [], tx_marks = []\<rparr> d of
        None \<Rightarrow> None | Some (tx, d') \<Rightarrow> Some (commit_drain tx d'))"

section \<open>What a drain does\<close>

lemma run_callback_same: "jobs_inv d \<Longrightarrow> same_elsewhere (ev_run e) d (snd (run_callback env e d))"
  using on_node_completed_same[of d "ev_run e" "pe_host env" "ev_node e"]
    on_node_failed_same[of "ev_run e" d "pe_host env" "ev_node e"]
    on_node_awaiting_input_same[of "ev_run e" d "pe_host env" "pe_fs env" "ev_node e"]
  by (auto simp: run_callback_def split: prod.splits sum.splits)

lemma run_callback_inv: "db_inv d \<Longrightarrow> db_inv (snd (run_callback env e d))"
  using on_node_completed_inv[of d "pe_host env" "ev_run e" "ev_node e"]
    on_node_failed_inv[of d "pe_host env" "ev_run e" "ev_node e"]
    on_node_awaiting_input_inv[of d "pe_host env" "pe_fs env" "ev_run e" "ev_node e"]
  by (auto simp: run_callback_def split: prod.splits sum.splits)

text \<open>The part of the database that belongs to one run.\<close>

definition same_run :: "string \<Rightarrow> db \<Rightarrow> db \<Rightarrow> bool" where
  "same_run x d d' \<longleftrightarrow> run_of d' x = run_of d x \<and>
     filter (\<lambda>j. nj_run j = x) (node_jobs d') = filter (\<lambda>j. nj_run j = x) (node_jobs d)"

lemma same_run_refl [simp]: "same_run x d d"
  by (simp add: same_run_def)

lemma same_run_trans: "same_run x d d' \<Longrightarrow> same_run x d' d'' \<Longrightarrow> same_run x d d''"
  by (simp add: same_run_def)

lemma row_of_filter: "(\<And>r. key r = k \<Longrightarrow> Q r) \<Longrightarrow> row_of key k (filter Q rows) = row_of key k rows"
  by (induction rows) auto

lemma same_elsewhere_run:
  assumes "same_elsewhere r d d'" and "x \<noteq> r"
  shows "same_run x d d'"
proof -
  have "run_of e x = row_of r_id x (filter (\<lambda>y. r_id y \<noteq> r) (runs e))" for e
    using assms(2) by (subst row_of_filter) auto
  then have run: "run_of d' x = run_of d x" using assms(1) by (simp add: same_elsewhere_def)
  have "filter (\<lambda>j. nj_run j = x) (filter (\<lambda>j. nj_run j \<noteq> r) js) = filter (\<lambda>j. nj_run j = x) js" for js
    using assms(2) by (induction js) auto
  then have "filter (\<lambda>j. nj_run j = x) (node_jobs d') = filter (\<lambda>j. nj_run j = x) (node_jobs d)"
    using assms(1) unfolding same_elsewhere_def by metis
  with run show ?thesis by (simp add: same_run_def)
qed

definition ended_at :: "db \<Rightarrow> string \<Rightarrow> bool" where
  "ended_at d x \<longleftrightarrow> (case run_of d x of None \<Rightarrow> True | Some r \<Rightarrow> run_terminal (r_status r))"

lemma run_mark_ended:
  "ended_at d y \<Longrightarrow> ended_at (snd (fail_run x err d)) y"
  "ended_at d y \<Longrightarrow> ended_at (snd (complete_run x d)) y"
  by (auto simp: ended_at_def fail_run_def complete_run_def update_run_def Let_def row_of_update run_terminal_def
      split: option.splits)

lemma cascade_ended:
  assumes "jobs_inv d" and "ended_at d y"
  shows "ended_at (snd (cascade_completed host x run d)) y"
proof -
  have "ended_at d' y" if "process_ready_all host x nodes run d = (r, d')" for nodes r d'
    using process_ready_all_get_run(1)[OF assms(1) that, of y] assms(2) by (simp add: ended_at_def get_run_def)
  then show ?thesis
    using assms(2) run_mark_ended(2)
    by (auto simp: cascade_completed_def split: sum.splits prod.splits) (metis snd_conv)+
qed

text \<open>A run that has ended stays ended, whatever callback runs.\<close>

lemma run_callback_ended:
  assumes "jobs_inv d" and "ended_at d y"
  shows "ended_at (snd (run_callback env e d)) y"
proof -
  have jobs: "ended_at d' y" if "runs d' = runs d" for d'
    using assms(2) that by (simp add: ended_at_def)
  have "ended_at (snd (on_node_completed (pe_host env) (ev_run e) (ev_node e) d)) y"
    using cascade_ended[OF assms] assms(2)
    by (auto simp: on_node_completed_def Let_def finish_patch_job_def bump_input_spec_def set_input_spec_def
        intro!: jobs split: option.splits json.splits)
  moreover have "ended_at (snd (on_node_failed (pe_host env) (ev_run e) (ev_node e) d)) y"
    using assms(2) run_mark_ended(1)[OF jobs]
    by (auto simp: on_node_failed_def Let_def flag_patch_error_def bump_input_spec_def set_input_spec_def
        cancel_siblings_after_failure_def cancel_queued_jobs_for_run_def split_def
        intro!: jobs split: option.splits json.splits)
  moreover have "ended_at (snd (on_node_awaiting_input (pe_host env) (pe_fs env) (ev_run e) (ev_node e) d)) y"
    by (rule jobs) simp
  ultimately show ?thesis
    by (auto simp: run_callback_def split: prod.splits sum.splits)
qed

text \<open>The mark an event gets and why.\<close>

definition mark_for :: "pool_env \<Rightarrow> dispatch_event \<Rightarrow> mark \<Rightarrow> bool" where
  "mark_for env e m \<longleftrightarrow>
     (case m of
        Done \<Rightarrow> known_kind (ev_kind e) \<and> (\<exists>d. db_inv d \<and> fst (run_callback env e d) = Inr ())
      | Retry err \<Rightarrow> known_kind (ev_kind e) \<longrightarrow> ev_attempts e + 1 < dispatch_max_attempts \<and>
          (\<exists>d exc. db_inv d \<and> fst (run_callback env e d) = Inl exc \<and> err = take 8000 (pe_exc_text env exc))
      | Poisoned err \<Rightarrow> known_kind (ev_kind e) \<and> dispatch_max_attempts \<le> ev_attempts e + 1 \<and>
          (\<exists>d exc. db_inv d \<and> fst (run_callback env e d) = Inl exc \<and> err = take 8000 (pe_exc_text env exc)))"

text \<open>One event: its mark, and a committed database that differs in its run only.\<close>

lemma drain_one_effect:
  assumes "drain_one env e tx d = Some (tx', d')" and inv: "db_inv d"
  shows "db_inv d' \<and> same_elsewhere (ev_run e) d d' \<and> (\<forall>y. ended_at d y \<longrightarrow> ended_at d' y) \<and>
    (\<exists>m. tx_marks tx' = tx_marks tx @ [(ev_id e, m)] \<and> mark_for env e m \<and>
      (tx_locked tx' = tx_locked tx \<or>
        (\<exists>err. tx_locked tx' = tx_locked tx @ [(ev_run e, err)] \<and> dispatch_max_attempts \<le> ev_attempts e + 1)) \<and>
      (\<forall>err. m = Poisoned err \<longrightarrow> ev_run e \<in> fst ` set (tx_locked tx') \<or>
        ended_at d' (ev_run e)))"
proof (cases "known_kind (ev_kind e)")
  case False
  then show ?thesis using assms by (auto simp: drain_one_def add_mark_def mark_for_def)
next
  case True
  have at: "\<exists>d. db_inv d \<and> fst (run_callback env e d) = x" if "fst (run_callback env e d) = x" for x
    using inv that by blast
  obtain res d1 where cb: "run_callback env e d = (res, d1)" by fastforce
  have d1: "db_inv d1" "same_elsewhere (ev_run e) d d1" "\<forall>y. ended_at d y \<longrightarrow> ended_at d1 y"
    using run_callback_inv[OF inv, of env e] run_callback_same[of d e env]
      run_callback_ended[of d _ env e] inv cb by (auto simp: db_inv_def)
  consider (returned) u where "res = Inr u" | (raised) exc where "res = Inl exc" by (cases res) auto
  then show ?thesis
  proof cases
    case returned
    then have "mark_for env e Done" using True at cb by (simp add: mark_for_def)
    with returned show ?thesis
      using assms True d1 by (auto simp: drain_one_def cb add_mark_def split: if_splits)
  next
    case raised
    let ?err = "take 8000 (pe_exc_text env exc)"
    have "\<exists>d x. db_inv d \<and> fst (run_callback env e d) = Inl x \<and> ?err = take 8000 (pe_exc_text env x)"
      using at[of "Inl exc"] cb raised by auto
    then have "mark_for env e (if dispatch_max_attempts \<le> ev_attempts e + 1 then Poisoned ?err else Retry ?err)"
      using True by (simp add: mark_for_def)
    with raised show ?thesis
      using assms True d1
      by (auto simp: drain_one_def cb Let_def add_mark_def lock_run_def ended_at_def[of d']
          split: if_splits option.splits) (force simp: image_iff)
  qed
qed

lemma drain_events_effect:
  assumes "drain_events env es tx d = Some (tx', d')" and "db_inv d"
  shows "\<exists>ms ls. db_inv d' \<and> dispatch_events d' = dispatch_events d \<and> now d' = now d \<and>
    map r_id (runs d') = map r_id (runs d) \<and>
    (\<forall>x. x \<notin> ev_run ` set es \<longrightarrow> same_run x d d') \<and> (\<forall>y. ended_at d y \<longrightarrow> ended_at d' y) \<and>
    tx_marks tx' = tx_marks tx @ zip (map ev_id es) ms \<and> list_all2 (mark_for env) es ms \<and>
    tx_locked tx' = tx_locked tx @ ls \<and>
    fst ` set ls \<subseteq> ev_run ` {e \<in> set es. dispatch_max_attempts \<le> ev_attempts e + 1} \<and>
    (\<forall>e err. (e, Poisoned err) \<in> set (zip es ms) \<longrightarrow>
      ev_run e \<in> fst ` set (tx_locked tx') \<or> ended_at d' (ev_run e))"
  using assms
proof (induction es arbitrary: tx d)
  case Nil
  then show ?case by (intro exI[of _ "[]"]) simp
next
  case (Cons e es)
  from Cons.prems(1) obtain tx1 d1 where one: "drain_one env e tx d = Some (tx1, d1)"
    and rest: "drain_events env es tx1 d1 = Some (tx', d')"
    by (auto split: option.splits)
  from drain_one_effect[OF one Cons.prems(2)] obtain m where
    d1: "db_inv d1" "same_elsewhere (ev_run e) d d1" "\<forall>y. ended_at d y \<longrightarrow> ended_at d1 y"
    and m: "tx_marks tx1 = tx_marks tx @ [(ev_id e, m)]" "mark_for env e m"
    and l: "tx_locked tx1 = tx_locked tx \<or> (\<exists>err. tx_locked tx1 = tx_locked tx @ [(ev_run e, err)] \<and>
        dispatch_max_attempts \<le> ev_attempts e + 1)"
    and p: "\<forall>err. m = Poisoned err \<longrightarrow> ev_run e \<in> fst ` set (tx_locked tx1) \<or> ended_at d1 (ev_run e)"
    by blast
  from l obtain l1 where l1: "tx_locked tx1 = tx_locked tx @ l1"
    "fst ` set l1 \<subseteq> ev_run ` {e' \<in> {e}. dispatch_max_attempts \<le> ev_attempts e' + 1}" by fastforce
  from Cons.IH[OF rest d1(1)] obtain ms ls where IH:
    "db_inv d'" "dispatch_events d' = dispatch_events d1" "now d' = now d1" "map r_id (runs d') = map r_id (runs d1)"
    "\<forall>x. x \<notin> ev_run ` set es \<longrightarrow> same_run x d1 d'" "\<forall>y. ended_at d1 y \<longrightarrow> ended_at d' y"
    "tx_marks tx' = tx_marks tx1 @ zip (map ev_id es) ms" "list_all2 (mark_for env) es ms"
    "tx_locked tx' = tx_locked tx1 @ ls"
    "fst ` set ls \<subseteq> ev_run ` {e \<in> set es. dispatch_max_attempts \<le> ev_attempts e + 1}"
    "\<forall>e err. (e, Poisoned err) \<in> set (zip es ms) \<longrightarrow>
      ev_run e \<in> fst ` set (tx_locked tx') \<or> ended_at d' (ev_run e)"
    by blast
  have base: "dispatch_events d1 = dispatch_events d" "now d1 = now d" "map r_id (runs d1) = map r_id (runs d)"
    using d1(2) by (simp_all add: same_elsewhere_def)
  have same: "same_run x d d'" if "x \<notin> ev_run ` set (e # es)" for x
    using that same_elsewhere_run[OF d1(2)] IH(5) by (auto intro: same_run_trans)
  have pois: "ev_run f \<in> fst ` set (tx_locked tx') \<or> ended_at d' (ev_run f)"
    if "(f, Poisoned err) \<in> set (zip (e # es) (m # ms))" for f err
    using that p IH(6,9,11) by auto
  show ?case
    using IH(1-4,6-10) d1(3) m l1 base same pois
    by (intro exI[of _ "m # ms"] exI[of _ "l1 @ ls"]) (auto simp: image_iff)
qed

lemma drain_events_hang:
  assumes "drain_events env es tx d = None" and "db_inv d"
  shows "\<exists>pre e post. es = pre @ e # post \<and> (ev_run e \<in> fst ` set (tx_locked tx) \<or>
    (\<exists>f\<in>set pre. ev_run f = ev_run e \<and> dispatch_max_attempts \<le> ev_attempts f + 1))"
  using assms
proof (induction es arbitrary: tx d)
  case Nil
  then show ?case by simp
next
  case (Cons e es)
  show ?case
  proof (cases "drain_one env e tx d")
    case None
    then have "ev_run e \<in> fst ` set (tx_locked tx)"
      by (auto simp: drain_one_def blocked_def Let_def split: if_splits prod.splits sum.splits)
    then show ?thesis by (intro exI[of _ "[]"] exI[of _ e] exI[of _ es]) simp
  next
    case (Some td)
    obtain tx1 d1 where one: "drain_one env e tx d = Some (tx1, d1)" using Some by (cases td) simp
    with Cons.prems(1) have "drain_events env es tx1 d1 = None" by simp
    from Cons.IH[OF this] drain_one_effect[OF one Cons.prems(2)]
    obtain pre f post where es: "es = pre @ f # post"
      and why: "ev_run f \<in> fst ` set (tx_locked tx1) \<or>
        (\<exists>g\<in>set pre. ev_run g = ev_run f \<and> dispatch_max_attempts \<le> ev_attempts g + 1)" by blast
    have "fst ` set (tx_locked tx1) \<subseteq> fst ` set (tx_locked tx) \<union>
        {r. r = ev_run e \<and> dispatch_max_attempts \<le> ev_attempts e + 1}"
      using drain_one_effect[OF one Cons.prems(2)] by auto
    with es why show ?thesis
      by (intro exI[of _ "e # pre"] exI[of _ f] exI[of _ post]) auto
  qed
qed

section \<open>What the commit writes\<close>

lemma mark_row_id [simp]: "ev_id (mark_row t m e) = ev_id e" "ev_run (mark_row t m e) = ev_run e"
  by (cases m; simp)+

lemma commit_mark_frame [simp]:
  "now (commit_mark im d) = now d" "runs (commit_mark im d) = runs d" "node_jobs (commit_mark im d) = node_jobs d"
  by (simp_all add: commit_mark_def)

lemma commit_marks_frame [simp]:
  "runs (fold commit_mark ims d) = runs d" "node_jobs (fold commit_mark ims d) = node_jobs d"
  by (induction ims arbitrary: d) simp_all

lemma commit_locks_frame [simp]:
  "now (fold commit_lock ls d) = now d" "node_jobs (fold commit_lock ls d) = node_jobs d"
  "dispatch_events (fold commit_lock ls d) = dispatch_events d"
  by (induction ls arbitrary: d) (simp_all add: commit_lock_def)

lemma commit_marks_event:
  assumes "distinct (map fst ims)"
  shows "row_of ev_id i (dispatch_events (fold commit_mark ims d)) =
    map_option (\<lambda>e. case map_of ims i of None \<Rightarrow> e | Some m \<Rightarrow> mark_row (now d) m e)
      (row_of ev_id i (dispatch_events d))"
  using assms
proof (induction ims arbitrary: d)
  case Nil
  then show ?case by (simp add: option.map_ident)
next
  case (Cons im ims)
  obtain k m where im: "im = (k, m)" by fastforce
  have step: "row_of ev_id i (dispatch_events (commit_mark (k, m) d)) =
      map_option (\<lambda>e. if i = k then mark_row (now d) m e else e) (row_of ev_id i (dispatch_events d))"
    by (cases "row_of ev_id i (dispatch_events d)") (auto simp: commit_mark_def row_of_update dest: row_of_SomeD)
  have "map_of ims k = None" using Cons.prems im by (simp add: map_of_eq_None_iff)
  with Cons.IH[of "commit_mark (k, m) d"] Cons.prems show ?case
    by (cases "row_of ev_id i (dispatch_events d)") (auto simp: step im split: option.splits)
qed

lemma commit_lock_run: "run_of (commit_lock l d) y = map_option (\<lambda>r. if y = fst l then r\<lparr>r_status := R_failed,
      r_finished_at := Some (now d), r_error := Some (snd l)\<rparr> else r) (run_of d y)"
  by (cases "run_of d y") (auto simp: commit_lock_def row_of_update dest: row_of_SomeD)

lemma commit_locks_run: "x \<notin> fst ` set ls \<Longrightarrow> run_of (fold commit_lock ls d) x = run_of d x"
  by (induction ls arbitrary: d) (auto simp: commit_lock_run option.map_ident)

lemma commit_locks_ended:
  assumes "x \<in> fst ` set ls \<or> ended_at d x"
  shows "ended_at (fold commit_lock ls d) x"
proof -
  have keep: "ended_at (commit_lock l d) y" if "ended_at d y \<or> y = fst l" for l d y
    using that by (auto simp: ended_at_def commit_lock_run run_terminal_def split: option.splits)
  show ?thesis
    using assms by (induction ls arbitrary: d) (auto intro: keep)
qed

lemma commit_drain_inv:
  assumes "db_inv d"
  shows "db_inv (commit_drain tx d)"
proof -
  have "db_inv (commit_lock l d)" if "db_inv d" for l d
    using that by (simp add: commit_lock_def db_inv_runs_update map_sql_update)
  then have "db_inv (fold commit_lock ls d)" if "db_inv d" for ls d
    using that by (induction ls arbitrary: d) simp_all
  moreover have "db_inv (fold commit_mark ims d)" if "db_inv d" for ims d
    using that
  proof (induction ims arbitrary: d)
    case (Cons im ims)
    have "db_inv (commit_mark im d)"
      using Cons.prems
      by (auto simp: commit_mark_def db_inv_def events_inv_def map_sql_update elim!: mem_sql_updateE)
    with Cons.IH show ?case by simp
  qed simp
  ultimately show ?thesis using assms by (simp add: commit_drain_def)
qed

section \<open>The batch\<close>

lemma drain_batch_mem:
  assumes "e \<in> set (drain_batch cfg d)"
  shows "e \<in> set (dispatch_events d)" and "ev_processed e = None"
    and "\<exists>r\<in>set (runs d). r_id r = ev_run e \<and> r_project r = cfg_project cfg"
  using assms set_order_by[of ev_created 50] by (fastforce simp: drain_batch_def sql_select_def list_ex_iff)+

lemma drain_batch_distinct:
  assumes "events_inv d"
  shows "distinct (map ev_id (drain_batch cfg d))"
proof -
  have "distinct (map ev_id (sort_key ev_created (sql_select P (dispatch_events d))))" for P
    using assms by (simp add: events_inv_def sql_select_def distinct_map distinct_filter inj_on_filter_key_eq)
      (auto simp: inj_on_def)
  then show ?thesis unfolding drain_batch_def order_by_def take_map[symmetric] by (rule distinct_take)
qed

lemma drain_split:
  assumes "db_inv d" and "drain_dispatch_events env d = Some d'"
  obtains tx d1 ms where "d' = commit_drain tx d1" and "db_inv d1"
    and "dispatch_events d1 = dispatch_events d" and "now d1 = now d"
    and "\<And>x. x \<notin> ev_run ` set (drain_batch (h_cfg (pe_host env)) d) \<Longrightarrow> same_run x d d1"
    and "tx_marks tx = zip (map ev_id (drain_batch (h_cfg (pe_host env)) d)) ms"
    and "list_all2 (mark_for env) (drain_batch (h_cfg (pe_host env)) d) ms"
    and "fst ` set (tx_locked tx) \<subseteq> ev_run ` set (drain_batch (h_cfg (pe_host env)) d)"
    and "\<And>e err. (e, Poisoned err) \<in> set (zip (drain_batch (h_cfg (pe_host env)) d) ms) \<Longrightarrow>
      ev_run e \<in> fst ` set (tx_locked tx) \<or> ended_at d1 (ev_run e)"
proof -
  let ?es = "drain_batch (h_cfg (pe_host env)) d"
  from assms(2) obtain tx d1 where run: "drain_events env ?es \<lparr>tx_locked = [], tx_marks = []\<rparr> d = Some (tx, d1)"
    and d': "d' = commit_drain tx d1" by (auto simp: drain_dispatch_events_def split: option.splits)
  from drain_events_effect[OF run assms(1)] obtain ms ls where "db_inv d1"
    "dispatch_events d1 = dispatch_events d" "now d1 = now d" "\<forall>x. x \<notin> ev_run ` set ?es \<longrightarrow> same_run x d d1"
    "tx_marks tx = zip (map ev_id ?es) ms" "list_all2 (mark_for env) ?es ms" "tx_locked tx = ls"
    "fst ` set ls \<subseteq> ev_run ` {e \<in> set ?es. dispatch_max_attempts \<le> ev_attempts e + 1}"
    "\<forall>e err. (e, Poisoned err) \<in> set (zip ?es ms) \<longrightarrow> ev_run e \<in> fst ` set (tx_locked tx) \<or> ended_at d1 (ev_run e)"
    by (elim exE conjE) simp
  with d' show thesis by (intro that[of tx d1 ms]) blast+
qed

text \<open>The row of an event after the commit: marked if it was in the batch.\<close>

lemma drain_event_row:
  assumes inv: "db_inv d" and run: "drain_dispatch_events env d = Some d'" and e: "e \<in> set (dispatch_events d)"
  shows "if e \<in> set (drain_batch (h_cfg (pe_host env)) d)
    then \<exists>m. row_of ev_id (ev_id e) (dispatch_events d') = Some (mark_row (now d) m e) \<and> mark_for env e m \<and>
      (\<forall>err. m = Poisoned err \<longrightarrow> ended_at d' (ev_run e))
    else row_of ev_id (ev_id e) (dispatch_events d') = Some e"
proof -
  let ?es = "drain_batch (h_cfg (pe_host env)) d"
  obtain tx d1 ms where d': "d' = commit_drain tx d1" and frame: "dispatch_events d1 = dispatch_events d" "now d1 = now d"
    and marks: "tx_marks tx = zip (map ev_id ?es) ms" "list_all2 (mark_for env) ?es ms"
    and pois: "\<And>e err. (e, Poisoned err) \<in> set (zip ?es ms) \<Longrightarrow>
      ev_run e \<in> fst ` set (tx_locked tx) \<or> ended_at d1 (ev_run e)"
    by (rule drain_split[OF inv run]) (blast intro: that)
  have ev: "events_inv d" using inv by (simp add: db_inv_def)
  have len: "length ms = length ?es" using marks(2) by (simp add: list_all2_lengthD)
  have keys: "map fst (tx_marks tx) = map ev_id ?es" using len by (simp add: marks(1))
  have dist: "distinct (map fst (tx_marks tx))" unfolding keys by (rule drain_batch_distinct[OF ev])
  have row: "row_of ev_id (ev_id e) (dispatch_events d') = Some (case map_of (tx_marks tx) (ev_id e) of
      None \<Rightarrow> e | Some m \<Rightarrow> mark_row (now d) m e)"
    using e ev row_of_mem[of ev_id "dispatch_events d" e]
    by (simp add: d' commit_drain_def commit_marks_event[OF dist] frame events_inv_def cong: option.case_cong)
  show ?thesis
  proof (cases "e \<in> set ?es")
    case True
    then obtain n where n: "n < length ?es" "?es ! n = e" by (auto simp: in_set_conv_nth)
    have z: "(e, ms ! n) \<in> set (zip ?es ms)" using n len by (auto simp: in_set_zip)
    have "tx_marks tx = map (\<lambda>(f, m). (ev_id f, m)) (zip ?es ms)" by (simp add: marks(1) zip_map1)
    with z have "(ev_id e, ms ! n) \<in> set (tx_marks tx)" by force
    then have "map_of (tx_marks tx) (ev_id e) = Some (ms ! n)" using dist by (intro map_of_is_SomeI)
    moreover have "mark_for env e (ms ! n)" using n marks(2) by (auto simp: list_all2_conv_all_nth)
    moreover have "ended_at d' (ev_run e)" if "ms ! n = Poisoned err" for err
      using pois z that commit_locks_ended[of "ev_run e" "tx_locked tx" d1]
      by (simp add: d' commit_drain_def ended_at_def)
    ultimately show ?thesis using True row by auto
  next
    case False
    have "ev_id e \<notin> ev_id ` set ?es"
      using False e ev drain_batch_mem(1) by (metis distinct_map_filter_eq events_inv_def imageE)
    then have "map_of (tx_marks tx) (ev_id e) = None" using keys by (metis list.set_map map_of_eq_None_iff)
    then show ?thesis using False row by simp
  qed
qed

lemma drain_isolated:
  assumes "db_inv d" and "drain_dispatch_events env d = Some d'"
    and "x \<notin> ev_run ` set (drain_batch (h_cfg (pe_host env)) d)"
  shows "same_run x d d'"
proof (rule drain_split[OF assms(1,2)])
  fix tx d1
  assume d': "d' = commit_drain tx d1"
    and same: "\<And>x. x \<notin> ev_run ` set (drain_batch (h_cfg (pe_host env)) d) \<Longrightarrow> same_run x d d1"
    and "fst ` set (tx_locked tx) \<subseteq> ev_run ` set (drain_batch (h_cfg (pe_host env)) d)"
  then have "same_run x d1 d'"
    using assms(3) commit_locks_run[of x "tx_locked tx" d1] by (auto simp: commit_drain_def same_run_def)
  then show ?thesis using same[OF assms(3)] by (blast intro: same_run_trans)
qed

lemma drain_inv: "db_inv d \<Longrightarrow> drain_dispatch_events env d = Some d' \<Longrightarrow> db_inv d'"
  by (erule drain_split, assumption) (metis commit_drain_inv)

section \<open>Properties\<close>


text \<open>
  An orchestrator over the two-node workflow of the examples; \<^verbatim>\<open>p/x\<close> has completed and its event
  is in the outbox.
\<close>

definition demo_env :: pool_env where
  "demo_env = \<lparr>pe_host = demo_host, pe_fs = demo_fs, pe_exc_text = (\<lambda>_. ''boom''), pe_env_stale = 30\<rparr>"

definition demo_outbox :: db where
  "demo_outbox = snd (enqueue_dispatch_event_in_txn ''r1'' ''p/x'' ''completed''
     (snd (mark_completed 0 [] 1 None demo_started)))"

lemma demo_outbox_inv: "db_inv demo_outbox"
  by code_simp


text \<open>
  When a drain returns. It does, unless an event that is on its tenth attempt is followed in
  the same batch by another event of the same run: a batch without such a pair is always drained.
\<close>

theorem drain_returns:
  assumes "db_inv d"
    and "\<And>pre e post. drain_batch (h_cfg (pe_host env)) d = pre @ e # post \<Longrightarrow>
      dispatch_max_attempts \<le> ev_attempts e + 1 \<Longrightarrow> ev_run e \<notin> ev_run ` set post"
  shows "\<exists>d'. drain_dispatch_events env d = Some d'"
proof (rule ccontr)
  assume "\<not> ?thesis"
  then have "drain_events env (drain_batch (h_cfg (pe_host env)) d) \<lparr>tx_locked = [], tx_marks = []\<rparr> d = None"
    by (auto simp: drain_dispatch_events_def split: option.splits)
  from drain_events_hang[OF this assms(1)] obtain pre e post f where
    es: "drain_batch (h_cfg (pe_host env)) d = pre @ e # post" and f: "f \<in> set pre" "ev_run f = ev_run e"
      "dispatch_max_attempts \<le> ev_attempts f + 1" by auto
  from f(1) obtain pre1 pre2 where "pre = pre1 @ f # pre2" by (meson split_list)
  with es assms(2)[of pre1 f "pre2 @ e # post"] f show False by simp
qed

theorem drain_returns_witness: "\<exists>d'. drain_dispatch_events demo_env demo_outbox = Some d'"
proof (rule drain_returns[OF demo_outbox_inv])
  have batch: "drain_batch (h_cfg (pe_host demo_env)) demo_outbox = dispatch_events demo_outbox"
    and one: "length (dispatch_events demo_outbox) = 1" by code_simp+
  fix pre e post
  assume "drain_batch (h_cfg (pe_host demo_env)) demo_outbox = pre @ e # post"
  then have "dispatch_events demo_outbox = pre @ e # post" using batch by simp
  then have "length (pre @ e # post) = 1" using one by simp
  then show "ev_run e \<notin> ev_run ` set post" by simp
qed

text \<open>
  The exception is real: a completion event on its tenth attempt, under a workflow loader that
  raises, locks the run's row; the failure event behind it waits for that lock for ever.
\<close>

definition demo_poison :: db where
  "demo_poison =
     (let d = snd (enqueue_dispatch_event_in_txn ''r1'' ''p/y'' ''failed'' demo_outbox)
      in d\<lparr>dispatch_events := sql_update (\<lambda>e. ev_id e = 0) (\<lambda>e. e\<lparr>ev_attempts := 9\<rparr>) (dispatch_events d)\<rparr>)"

lemma drain_waits_for_its_own_lock:
  "drain_dispatch_events (demo_env\<lparr>pe_host := demo_host\<lparr>h_workflow := None\<rparr>\<rparr>) demo_poison = None"
  by code_simp

end
