(* ===== verification/Orchestrator.thy ===== *)
theory Orchestrator
  imports Node_Pool
begin

text \<open>
  The rest of \<^verbatim>\<open>node_pool.py\<close> and \<^verbatim>\<open>orchestrator.py\<close>: the interval-gated sweeps, the dispatch
  tick and loop, the recovery gate, the per-box worker counts, and the boot sequence.
  \<^verbatim>\<open>time.time()\<close> is read once per sweep and is an argument (in microseconds), as is the clock of
  the database.
\<close>

section \<open>Worker counts\<close>

text \<open>The seams of \<^verbatim>\<open>_available_cpus\<close>; \<open>None\<close> is the \<^verbatim>\<open>OSError\<close> or \<^verbatim>\<open>AttributeError\<close>.\<close>

record cpu_seams =
  cs_read_text :: "string \<Rightarrow> string option"
  cs_affinity :: "int option"
  cs_cpu_count :: "int option"
  cs_environ :: "string \<Rightarrow> string option"

definition int_env :: "cpu_seams \<Rightarrow> string \<Rightarrow> int \<Rightarrow> int" where
  "int_env cs name dflt =
     (let raw = (case cs_environ cs name of None \<Rightarrow> [] | Some s \<Rightarrow> py_strip s)
      in if raw = [] then dflt
         else case py_int raw of None \<Rightarrow> dflt | Some n \<Rightarrow> max 0 n)"

definition quota_v2 :: "cpu_seams \<Rightarrow> int option" where
  "quota_v2 cs =
     (case cs_read_text cs ''/sys/fs/cgroup/cpu.max'' of
        None \<Rightarrow> None
      | Some s \<Rightarrow>
          (case py_split s of
             q # p # _ \<Rightarrow>
               if q = ''max'' then None
               else (case py_int p of
                       None \<Rightarrow> None
                     | Some period \<Rightarrow>
                         if period > 0
                         then (case py_int q of None \<Rightarrow> None | Some quota \<Rightarrow> Some (max 1 (quota div period)))
                         else None)
           | _ \<Rightarrow> None))"

definition quota_v1 :: "cpu_seams \<Rightarrow> int option" where
  "quota_v1 cs =
     (case cs_read_text cs ''/sys/fs/cgroup/cpu/cpu.cfs_quota_us'' of
        None \<Rightarrow> None
      | Some q \<Rightarrow>
          (case cs_read_text cs ''/sys/fs/cgroup/cpu/cpu.cfs_period_us'' of
             None \<Rightarrow> None
           | Some p \<Rightarrow>
               (case (py_int q, py_int p) of
                  (Some quota, Some period) \<Rightarrow>
                    if quota > 0 \<and> period > 0 then Some (max 1 (quota div period)) else None
                | _ \<Rightarrow> None)))"

definition available_cpus :: "cpu_seams \<Rightarrow> int" where
  "available_cpus cs =
     (case quota_v2 cs of
        Some n \<Rightarrow> n
      | None \<Rightarrow>
          (case quota_v1 cs of
             Some n \<Rightarrow> n
           | None \<Rightarrow>
               (case cs_affinity cs of
                  Some n \<Rightarrow> if n \<ge> 1 then n
                             else max 1 (case cs_cpu_count cs of Some c \<Rightarrow> if c \<noteq> 0 then c else 1 | None \<Rightarrow> 1)
                | None \<Rightarrow> max 1 (case cs_cpu_count cs of Some c \<Rightarrow> if c \<noteq> 0 then c else 1 | None \<Rightarrow> 1))))"

definition cpu_worker_count :: "cpu_seams \<Rightarrow> int" where
  "cpu_worker_count cs = int_env cs ''AI_LEADS_WORKFLOW_CPU_WORKERS'' (available_cpus cs)"

definition gpu_worker_count :: "cpu_seams \<Rightarrow> int" where
  "gpu_worker_count cs = int_env cs ''AI_LEADS_WORKFLOW_GPU_WORKERS'' 1"

section \<open>The pool\<close>

record gate =
  g_interval :: int
  g_last :: int

record pool =
  np_cpu_n :: int
  np_gpu_n :: int
  np_reclaim :: gate
  np_ingest :: gate
  np_dead :: gate
  np_retention_days :: int
  np_prune :: gate
  np_orphan :: gate
  np_stuck :: gate
  np_unassignable :: gate

text \<open>
  \<^verbatim>\<open>__init__\<close>: every interval can be overridden (\<open>seconds\<close> is the environment's value in
  microseconds, if set), and every sweep is due on the first tick of a real clock.
\<close>

definition new_pool :: "(string \<Rightarrow> int option) \<Rightarrow> int option \<Rightarrow> cpu_seams \<Rightarrow> int option \<Rightarrow> int option \<Rightarrow> pool" where
  "new_pool seconds retention cs cpu gpu =
     (let gate = (\<lambda>name dflt. \<lparr>g_interval = (case seconds name of Some t \<Rightarrow> t | None \<Rightarrow> secs dflt), g_last = 0\<rparr>)
      in \<lparr>np_cpu_n = (case cpu of Some n \<Rightarrow> n | None \<Rightarrow> cpu_worker_count cs),
          np_gpu_n = (case gpu of Some n \<Rightarrow> n | None \<Rightarrow> gpu_worker_count cs),
          np_reclaim = gate ''AI_LEADS_LEASE_RECLAIM_INTERVAL_S'' 5,
          np_ingest = gate ''AI_LEADS_LEASE_RECLAIM_INTERVAL_S'' 5,
          np_dead = gate ''AI_LEADS_DEAD_WORKER_SWEEP_INTERVAL_S'' 5,
          np_retention_days = (case retention of Some n \<Rightarrow> n | None \<Rightarrow> 30),
          np_prune = gate ''AI_LEADS_NODE_EVENT_PRUNE_INTERVAL_S'' 3600,
          np_orphan = gate ''AI_LEADS_ORPHAN_CANCEL_SWEEP_INTERVAL_S'' 30,
          np_stuck = gate ''AI_LEADS_STUCK_RUN_SWEEP_INTERVAL_S'' 300,
          np_unassignable = gate ''AI_LEADS_UNASSIGNABLE_SWEEP_INTERVAL_S'' 15\<rparr>)"

definition gate_due :: "int \<Rightarrow> gate \<Rightarrow> bool" where
  "gate_due t g \<longleftrightarrow> \<not> (t - g_last g < g_interval g)"

definition gate_ran :: "int \<Rightarrow> gate \<Rightarrow> gate" where
  "gate_ran t g = g\<lparr>g_last := t\<rparr>"

section \<open>The sweeps\<close>

type_synonym pool_db = "pool \<times> db"

definition sweep_expired_leases :: "int \<Rightarrow> pool_db \<Rightarrow> pool_db" where
  "sweep_expired_leases t pd =
     (if \<not> gate_due t (np_reclaim (fst pd)) then pd
      else ((fst pd)\<lparr>np_reclaim := gate_ran t (np_reclaim (fst pd))\<rparr>, snd (reclaim_expired_leases (snd pd))))"

definition sweep_expired_ingest_leases :: "int \<Rightarrow> pool_db \<Rightarrow> pool_db" where
  "sweep_expired_ingest_leases t pd =
     (if \<not> gate_due t (np_ingest (fst pd)) then pd
      else ((fst pd)\<lparr>np_ingest := gate_ran t (np_ingest (fst pd))\<rparr>, snd (reclaim_expired_ingest_leases (snd pd))))"

definition sweep_dead_workers :: "pool_env \<Rightarrow> int \<Rightarrow> pool_db \<Rightarrow> pool_db" where
  "sweep_dead_workers env t pd =
     (if \<not> gate_due t (np_dead (fst pd)) then pd
      else ((fst pd)\<lparr>np_dead := gate_ran t (np_dead (fst pd))\<rparr>,
            snd (flag_stale_workers_holding_running_jobs (h_cfg (pe_host env)) (pe_env_stale env) None None (snd pd))))"

definition sweep_node_event_retention :: "int \<Rightarrow> pool_db \<Rightarrow> pool_db" where
  "sweep_node_event_retention t pd =
     (if \<not> gate_due t (np_prune (fst pd)) then pd
      else ((fst pd)\<lparr>np_prune := gate_ran t (np_prune (fst pd))\<rparr>,
            snd (prune_node_events (np_retention_days (fst pd)) (snd pd))))"

definition sweep_orphan_queued_jobs :: "pool_env \<Rightarrow> int \<Rightarrow> pool_db \<Rightarrow> pool_db" where
  "sweep_orphan_queued_jobs env t pd =
     (if \<not> cfg_cancel_orphans (h_cfg (pe_host env)) \<or> \<not> gate_due t (np_orphan (fst pd)) then pd
      else ((fst pd)\<lparr>np_orphan := gate_ran t (np_orphan (fst pd))\<rparr>,
            snd (cancel_orphaned_queued_jobs (h_cfg (pe_host env)) None (snd pd))))"

definition sweep_stuck_runs :: "pool_env \<Rightarrow> int \<Rightarrow> pool_db \<Rightarrow> pool_db" where
  "sweep_stuck_runs env t pd =
     (if \<not> gate_due t (np_stuck (fst pd)) then pd
      else ((fst pd)\<lparr>np_stuck := gate_ran t (np_stuck (fst pd))\<rparr>,
            fold (\<lambda>run_id d. snd (reconcile_run (pe_host env) run_id d))
              (list_stuck_node_run_ids (h_cfg (pe_host env)) None (snd pd)) (snd pd)))"

definition unassignable_event :: "node_job \<Rightarrow> event_args" where
  "unassignable_event j =
     \<lparr>va_run = nj_run j, va_node = nj_node j, va_type = ''unassignable'', va_job = Some (nj_id j),
      va_attempt = 0, va_host = None, va_queue = Some ''gpu'', va_model = nj_model j, va_elapsed = None,
      va_error = nj_unassignable_reason j, va_detail = []\<rparr>"

definition sweep_unassignable_jobs :: "pool_env \<Rightarrow> int \<Rightarrow> pool_db \<Rightarrow> pool_db" where
  "sweep_unassignable_jobs env t pd =
     (if \<not> gate_due t (np_unassignable (fst pd)) then pd
      else ((fst pd)\<lparr>np_unassignable := gate_ran t (np_unassignable (fst pd))\<rparr>,
            (case flag_unassignable_gpu_jobs (h_cfg (pe_host env)) (pe_env_stale env) None None (snd pd) of
               (flagged, d) \<Rightarrow> fold (\<lambda>j d. snd (record_node_event (unassignable_event j) d)) flagged d)))"

section \<open>The tick\<close>

definition expand_run :: "pool_env \<Rightarrow> string \<Rightarrow> db \<Rightarrow> db" where
  "expand_run env run_id d =
     (case start_run (pe_host env) run_id d of
        (Inl e, d') \<Rightarrow> d'
      | (Inr n, d') \<Rightarrow> if n > 0 then snd (update_run run_id [F_status R_running] d') else d')"

definition expand_queued_runs :: "pool_env \<Rightarrow> db \<Rightarrow> db" where
  "expand_queued_runs env d =
     fold (expand_run env) (list_queued_node_run_ids (h_cfg (pe_host env)) None 50 d) d"

text \<open>The seven sweeps after the drain, in order, each under its own \<^verbatim>\<open>try\<close>.\<close>

definition sweeps :: "pool_env \<Rightarrow> (nat \<Rightarrow> int) \<Rightarrow> pool_db \<Rightarrow> pool_db" where
  "sweeps env clock pd =
     sweep_unassignable_jobs env (clock 6) (sweep_stuck_runs env (clock 5)
       (sweep_orphan_queued_jobs env (clock 4) (sweep_node_event_retention (clock 3)
         (sweep_dead_workers env (clock 2) (sweep_expired_ingest_leases (clock 1)
           (sweep_expired_leases (clock 0) pd))))))"

definition tick :: "pool_env \<Rightarrow> (nat \<Rightarrow> int) \<Rightarrow> pool_db \<Rightarrow> pool_db option" where
  "tick env clock pd =
     (case drain_dispatch_events env (expand_queued_runs env (snd pd)) of
        None \<Rightarrow> None
      | Some d \<Rightarrow> Some (sweeps env clock (fst pd, d)))"

text \<open>The dispatch thread: one tick per entry, at that database time, until it is stopped or hangs.\<close>

fun dispatch_loop :: "pool_env \<Rightarrow> (int \<times> (nat \<Rightarrow> int)) list \<Rightarrow> pool_db \<Rightarrow> pool_db option" where
  "dispatch_loop env [] pd = Some pd"
| "dispatch_loop env ((t, clock) # rest) pd =
     (case tick env clock (fst pd, (snd pd)\<lparr>now := t\<rparr>) of
        None \<Rightarrow> None | Some pd' \<Rightarrow> dispatch_loop env rest pd')"

section \<open>Recovery gate and boot\<close>

text \<open>
  \<^verbatim>\<open>_await_recovery\<close>: \<open>fails i\<close> tells that the database refuses attempt \<open>i\<close>, \<open>stops i\<close> that
  \<^verbatim>\<open>stop()\<close> arrives in the wait after it. The waits are part of the result.
\<close>

record recovery_env =
  rv_fails :: "nat \<Rightarrow> bool"
  rv_stops :: "nat \<Rightarrow> bool"
  rv_backoff :: int

definition recovery_wait :: "recovery_env \<Rightarrow> nat \<Rightarrow> int" where
  "recovery_wait rv attempt = min (rv_backoff rv * 2 ^ attempt) (secs 30)"

fun recover_from :: "recovery_env \<Rightarrow> nat \<Rightarrow> nat \<Rightarrow> db \<Rightarrow> int list \<times> unit result \<times> db" where
  "recover_from rv attempt 0 d = ([], Inl (RuntimeError ''node pool refused to start''), d)"
| "recover_from rv attempt (Suc left) d =
     (if \<not> rv_fails rv attempt then ([], Inr (), snd (reclaim_expired_leases d))
      else if left > 0 \<and> rv_backoff rv > 0 then
        (if rv_stops rv attempt
         then ([recovery_wait rv attempt], Inl (RuntimeError ''node pool stopped during recovery backoff''), d)
         else (case recover_from rv (Suc attempt) left d of
                 (ws, r, d') \<Rightarrow> (recovery_wait rv attempt # ws, r, d')))
      else recover_from rv (Suc attempt) left d)"

definition await_recovery :: "recovery_env \<Rightarrow> nat \<Rightarrow> db \<Rightarrow> int list \<times> unit result \<times> db" where
  "await_recovery rv max_attempts d = recover_from rv 0 max_attempts d"

text \<open>
  \<^verbatim>\<open>main\<close> after the migrations: requeue the interrupted runs, requeue the jobs of dead workers,
  then the recovery gate of \<^verbatim>\<open>NodePool.start\<close>, which raises out of \<^verbatim>\<open>main\<close>.
\<close>

definition orchestrator_boot :: "config \<Rightarrow> recovery_env \<Rightarrow> nat \<Rightarrow> db \<Rightarrow> unit result \<times> db" where
  "orchestrator_boot cfg rv max_attempts d =
     snd (await_recovery rv max_attempts
       (snd (reclaim_all_running_for_resume cfg None (snd (reenqueue_running_for_resume cfg None d)))))"

section \<open>What every tick keeps\<close>

definition retry_bounded :: "db \<Rightarrow> bool" where
  "retry_bounded d \<longleftrightarrow> (\<forall>e\<in>set (dispatch_events d). ev_processed e = None \<longrightarrow> known_kind (ev_kind e) \<longrightarrow>
     ev_attempts e < dispatch_max_attempts)"

text \<open>
  The invariant of the dispatch thread, with the row of one foreign run in it: the database
  invariant, the retry bound of the outbox, and that row as it is.
\<close>

definition pool_inv :: "string \<Rightarrow> run_row \<Rightarrow> db \<Rightarrow> bool" where
  "pool_inv x r d \<longleftrightarrow> db_inv d \<and> retry_bounded d \<and> run_of d x = Some r"

lemma pool_inv_frame:
  assumes "pool_inv x r d" and "db_inv d'" and "dispatch_events d' = dispatch_events d" and "runs d' = runs d"
  shows "pool_inv x r d'"
  using assms by (simp add: pool_inv_def retry_bounded_def)

lemma pool_inv_same:
  assumes "pool_inv x r d" and "same_elsewhere y d d'" and "db_inv d'" and "x \<noteq> y"
  shows "pool_inv x r d'"
  using assms same_elsewhere_run[OF assms(2,4)]
  by (simp add: pool_inv_def retry_bounded_def same_run_def same_elsewhere_def)

lemma pool_inv_fold:
  assumes "\<And>y d. y \<in> set ys \<Longrightarrow> pool_inv x r d \<Longrightarrow> pool_inv x r (f y d)" and "pool_inv x r d"
  shows "pool_inv x r (fold f ys d)"
  using assms by (induction ys arbitrary: d) simp_all

lemma foreign_run:
  assumes "pool_inv x r d" and "q \<in> set (runs d)" and "r_project q = cfg_project cfg" and "r_project r \<noteq> cfg_project cfg"
  shows "r_id q \<noteq> x"
proof
  assume "r_id q = x"
  then have "run_of d x = Some q"
    using assms(1,2) row_of_mem[of r_id "runs d" q] by (simp add: pool_inv_def db_inv_def runs_inv_def)
  with assms show False by (simp add: pool_inv_def)
qed

lemma expand_run_keeps:
  assumes inv: "pool_inv x r d" and "x \<noteq> y"
  shows "pool_inv x r (expand_run env y d)"
proof -
  have d: "db_inv d" "jobs_inv d" using inv by (simp_all add: pool_inv_def db_inv_def)
  obtain res d1 where st: "start_run (pe_host env) y d = (res, d1)" by fastforce
  have inv1: "pool_inv x r d1"
    using pool_inv_same[OF inv start_run_same[OF d(2)] start_run_inv[OF d(1)] assms(2)] by (metis st snd_conv)
  then have "pool_inv x r (snd (update_run y [F_status R_running] d1))"
    using update_run_same update_run_inv assms(2) by (blast intro: pool_inv_same dest: pool_inv_def[THEN iffD1])
  with inv1 show ?thesis by (simp add: expand_run_def st split: sum.splits)
qed

lemma expand_queued_runs_keeps:
  assumes "pool_inv x r d" and foreign: "r_project r \<noteq> cfg_project (h_cfg (pe_host env))"
  shows "pool_inv x r (expand_queued_runs env d)"
  unfolding expand_queued_runs_def
proof (rule pool_inv_fold[OF expand_run_keeps assms(1)])
  fix y
  assume "y \<in> set (list_queued_node_run_ids (h_cfg (pe_host env)) None 50 d)"
  then obtain q where "q \<in> set (runs d)" "r_id q = y" "r_project q = cfg_project (h_cfg (pe_host env))"
    using set_order_by by (fastforce simp: list_queued_node_run_ids_def sql_select_def project_of_def)
  with foreign_run[OF assms(1) _ _ foreign] show "x \<noteq> y" by blast
qed

lemma sweep_stuck_runs_keeps:
  assumes inv: "pool_inv x r d" and foreign: "r_project r \<noteq> cfg_project (h_cfg (pe_host env))"
  shows "pool_inv x r (snd (sweep_stuck_runs env t (p, d)))"
proof -
  have "pool_inv x r (fold (\<lambda>y d. snd (reconcile_run (pe_host env) y d))
      (list_stuck_node_run_ids (h_cfg (pe_host env)) None d) d)"
  proof (rule pool_inv_fold[OF _ inv])
    fix y e
    assume y: "y \<in> set (list_stuck_node_run_ids (h_cfg (pe_host env)) None d)" and e: "pool_inv x r e"
    from y have "x \<noteq> y"
      using foreign_run[OF inv _ _ foreign]
      by (auto simp: list_stuck_node_run_ids_def sql_select_def project_of_def)
    then show "pool_inv x r (snd (reconcile_run (pe_host env) y e))"
      using pool_inv_same[OF e reconcile_run_same reconcile_run_inv] e by (simp add: pool_inv_def db_inv_def)
  qed
  with inv show ?thesis by (simp add: sweep_stuck_runs_def)
qed

lemma drain_ids:
  assumes "db_inv d" and "drain_dispatch_events env d = Some d'"
  shows "map ev_id (dispatch_events d') = map ev_id (dispatch_events d)"
proof (rule drain_split[OF assms])
  fix tx d1
  assume d': "d' = commit_drain tx d1" and "dispatch_events d1 = dispatch_events d"
  moreover have "map ev_id (dispatch_events (fold commit_mark ims e)) = map ev_id (dispatch_events e)" for ims e
    by (induction ims arbitrary: e) (simp_all add: commit_mark_def map_sql_update)
  ultimately show ?thesis by (simp add: commit_drain_def)
qed

lemma drain_keeps:
  assumes inv: "pool_inv x r d" and foreign: "r_project r \<noteq> cfg_project (h_cfg (pe_host env))"
    and run: "drain_dispatch_events env d = Some d'"
  shows "pool_inv x r d'"
proof -
  have d: "db_inv d" and d': "db_inv d'" using inv drain_inv[OF _ run] by (simp_all add: pool_inv_def)
  have "x \<notin> ev_run ` set (drain_batch (h_cfg (pe_host env)) d)"
    using foreign_run[OF inv _ _ foreign] drain_batch_mem(3) by blast
  then have "run_of d' x = Some r" using drain_isolated[OF d run] inv by (simp add: same_run_def pool_inv_def)
  moreover have "ev_attempts e' < dispatch_max_attempts"
    if e': "e' \<in> set (dispatch_events d')" "ev_processed e' = None" "known_kind (ev_kind e')" for e'
  proof -
    from e' drain_ids[OF d run] obtain e where e: "e \<in> set (dispatch_events d)" "ev_id e = ev_id e'"
      by (metis imageE image_eqI list.set_map)
    have row: "row_of ev_id (ev_id e) (dispatch_events d') = Some e'"
      using e' e(2) d' row_of_mem[of ev_id "dispatch_events d'" e'] by (simp add: db_inv_def events_inv_def)
    have kind: "ev_kind (mark_row t m e) = ev_kind e" for t m by (cases m) simp_all
    show ?thesis
    proof (cases "e \<in> set (drain_batch (h_cfg (pe_host env)) d)")
      case True
      with drain_event_row[OF d run e(1)] row obtain m where "e' = mark_row (now d) m e" "mark_for env e m" by auto
      with e' kind show ?thesis by (cases m) (auto simp: mark_for_def)
    next
      case False
      with drain_event_row[OF d run e(1)] row have "e' = e" by simp
      with e' e(1) inv show ?thesis by (simp add: pool_inv_def retry_bounded_def)
    qed
  qed
  ultimately show ?thesis using d' by (simp add: pool_inv_def retry_bounded_def)
qed

lemma db_inv_frame [simp]:
  "db_inv (d\<lparr>now := t\<rparr>) = db_inv d" "db_inv (d\<lparr>heartbeats := hb\<rparr>) = db_inv d"
  "db_inv (d\<lparr>node_events := ne\<rparr>) = db_inv d" "db_inv (d\<lparr>submissions := sb\<rparr>) = db_inv d"
  by (simp_all add: db_inv_def)

text \<open>A statement that writes the job table, or the ingest table, alone.\<close>

lemma pool_inv_jobs:
  assumes "pool_inv x r d" and "jobs_inv d'" and "d' = d\<lparr>node_jobs := js\<rparr>"
  shows "pool_inv x r d'"
  using assms db_inv_jobs[of d js] by (auto simp: pool_inv_def retry_bounded_def)

lemma simple_sweeps_keep:
  assumes inv: "pool_inv x r d"
  shows "pool_inv x r (snd (sweep_expired_leases t (p, d)))"
    and "pool_inv x r (snd (sweep_expired_ingest_leases t (p, d)))"
    and "pool_inv x r (snd (sweep_dead_workers env t (p, d)))"
    and "pool_inv x r (snd (sweep_node_event_retention t (p, d)))"
    and "pool_inv x r (snd (sweep_orphan_queued_jobs env t (p, d)))"
    and "pool_inv x r (snd (sweep_unassignable_jobs env t (p, d)))"
proof -
  have d: "db_inv d" "jobs_inv d" "ingest_inv d" using inv by (simp_all add: pool_inv_def db_inv_def)
  have "pool_inv x r (snd (reclaim_expired_leases d))"
    using inv reclaim_expired_leases_inv[OF d(2)]
    by (rule pool_inv_jobs) (simp add: reclaim_expired_leases_def split_def update_jobs_def)
  then show "pool_inv x r (snd (sweep_expired_leases t (p, d)))"
    using inv by (simp add: sweep_expired_leases_def)
  have "pool_inv x r (snd (reclaim_expired_ingest_leases d))"
    using inv ingest_marks_inv(4)[OF d(3)]
    by (auto simp: reclaim_expired_ingest_leases_def split_def update_ingest_def pool_inv_def retry_bounded_def db_inv_def)
  then show "pool_inv x r (snd (sweep_expired_ingest_leases t (p, d)))"
    using inv by (simp add: sweep_expired_ingest_leases_def)
  show "pool_inv x r (snd (sweep_dead_workers env t (p, d)))"
    and "pool_inv x r (snd (sweep_node_event_retention t (p, d)))"
    using inv by (auto simp: sweep_dead_workers_def flag_stale_workers_holding_running_jobs_def
        sweep_node_event_retention_def prune_node_events_def Let_def pool_inv_def retry_bounded_def)
  have "pool_inv x r (snd (cancel_orphaned_queued_jobs cfg prj d))" for cfg prj
    using inv maintenance_inv(4)[OF d(2)]
    by (rule pool_inv_jobs) (simp add: cancel_orphaned_queued_jobs_def split_def update_jobs_def)
  then show "pool_inv x r (snd (sweep_orphan_queued_jobs env t (p, d)))"
    using inv by (simp add: sweep_orphan_queued_jobs_def)
  have "pool_inv x r (snd (flag_unassignable_gpu_jobs cfg e so prj d))" for cfg e so prj
    using inv flag_unassignable_inv[OF d(2)]
    by (rule pool_inv_jobs) (simp add: flag_unassignable_gpu_jobs_def Let_def update_jobs_def)
  moreover have "pool_inv x r (snd (record_node_event a e))" if "pool_inv x r e" for a e
    using that record_node_event_inv[of e a] by (simp add: pool_inv_def retry_bounded_def)
  ultimately show "pool_inv x r (snd (sweep_unassignable_jobs env t (p, d)))"
    using inv by (auto simp: sweep_unassignable_jobs_def intro!: pool_inv_fold split: prod.splits) (metis snd_conv)
qed

lemma sweeps_keep:
  assumes "pool_inv x r (snd pd)" and "r_project r \<noteq> cfg_project (h_cfg (pe_host env))"
  shows "pool_inv x r (snd (sweeps env clock pd))"
  unfolding sweeps_def
  using assms simple_sweeps_keep sweep_stuck_runs_keeps by (metis prod.collapse)

lemma tick_keeps:
  assumes "pool_inv x r d" and "r_project r \<noteq> cfg_project (h_cfg (pe_host env))"
    and "tick env clock (p, d) = Some (p', d')"
  shows "pool_inv x r d'"
proof -
  from assms(3) obtain d1 where "drain_dispatch_events env (expand_queued_runs env d) = Some d1"
    and "sweeps env clock (p, d1) = (p', d')" by (auto simp: tick_def split: option.splits)
  then show ?thesis
    using drain_keeps[OF expand_queued_runs_keeps[OF assms(1,2)] assms(2)] sweeps_keep[OF _ assms(2), of x "(p, d1)" clock]
    by simp
qed

lemma dispatch_loop_keeps:
  assumes "dispatch_loop env ticks (p, d) = Some (p', d')" and "pool_inv x r d"
    and "r_project r \<noteq> cfg_project (h_cfg (pe_host env))"
  shows "pool_inv x r d'"
  using assms(1,2)
proof (induction ticks arbitrary: p d)
  case Nil
  then show ?case by simp
next
  case (Cons tc ticks)
  obtain t clock where tc: "tc = (t, clock)" by fastforce
  with Cons.prems(1) obtain p1 d1 where one: "tick env clock (p, d\<lparr>now := t\<rparr>) = Some (p1, d1)"
    and rest: "dispatch_loop env ticks (p1, d1) = Some (p', d')" by (auto split: option.splits)
  have "pool_inv x r (d\<lparr>now := t\<rparr>)" using Cons.prems(2) by (simp add: pool_inv_def retry_bounded_def)
  from Cons.IH[OF rest tick_keeps[OF this assms(3) one]] show ?case .
qed

section \<open>The recovery gate\<close>

lemma recover_from_spec:
  assumes "recover_from rv k n d = (ws, res, d')"
  shows "length ws \<le> n - 1 \<and> list_all (\<lambda>w. 0 < w \<and> w \<le> secs 30) ws \<and>
    (res = Inr () \<longleftrightarrow> (\<exists>i<n. \<not> rv_fails rv (k + i) \<and>
       (\<forall>j<i. rv_fails rv (k + j) \<and> \<not> (rv_stops rv (k + j) \<and> rv_backoff rv > 0)))) \<and>
    d' = (if res = Inr () then snd (reclaim_expired_leases d) else d)"
  using assms
proof (induction n arbitrary: k ws)
  case 0
  then show ?case by auto
next
  case (Suc n)
  let ?good = "\<lambda>k i. \<not> rv_fails rv (k + i) \<and>
    (\<forall>j<i. rv_fails rv (k + j) \<and> \<not> (rv_stops rv (k + j) \<and> rv_backoff rv > 0))"
  have wait: "0 < recovery_wait rv k \<and> recovery_wait rv k \<le> secs 30" if "rv_backoff rv > 0"
    using that by (simp add: recovery_wait_def)
  show ?case
  proof (cases "rv_fails rv k")
    case False
    with Suc.prems have "ws = []" "res = Inr ()" "d' = snd (reclaim_expired_leases d)" by auto
    moreover have "\<exists>i<Suc n. ?good k i" using False by (intro exI[of _ 0]) simp
    ultimately show ?thesis by simp
  next
    case fails: True
    have shift: "(\<exists>i<Suc n. ?good k i) \<longleftrightarrow> \<not> (rv_stops rv k \<and> rv_backoff rv > 0) \<and> (\<exists>i<n. ?good (Suc k) i)"
      using fails by (auto simp: Ex_less_Suc2 All_less_Suc2)
    show ?thesis
    proof (cases "n > 0 \<and> rv_backoff rv > 0")
      case True
      show ?thesis
      proof (cases "rv_stops rv k")
        case True
        with \<open>n > 0 \<and> rv_backoff rv > 0\<close> fails Suc.prems wait show ?thesis
          unfolding shift by auto
      next
        case False
        with \<open>n > 0 \<and> rv_backoff rv > 0\<close> fails Suc.prems obtain ws1
          where rest: "recover_from rv (Suc k) n d = (ws1, res, d')" and ws: "ws = recovery_wait rv k # ws1"
          by (auto split: prod.splits)
        from Suc.IH[OF rest] False \<open>n > 0 \<and> rv_backoff rv > 0\<close> wait show ?thesis
          unfolding shift by (simp add: ws) linarith
      qed
    next
      case False
      with fails Suc.prems have rest: "recover_from rv (Suc k) n d = (ws, res, d')" by (auto split: if_splits)
      have "n = 0 \<or> \<not> rv_backoff rv > 0" using False by auto
      with Suc.IH[OF rest] show ?thesis unfolding shift by auto
    qed
  qed
qed

section \<open>Properties\<close>

text \<open>
  C35. The dispatch thread keeps to its project and to its bounds. Over any sequence of ticks, with
  the clocks moving as they like between them: the database invariant holds at the end, every
  pending outbox event has been tried fewer than ten times, and no run of another project has been
  changed in any column.
\<close>

theorem dispatch_loop_isolated:
  assumes "db_inv d" and "retry_bounded d" and "run_of d x = Some r"
    and "r_project r \<noteq> cfg_project (h_cfg (pe_host env))"
    and "dispatch_loop env ticks (p, d) = Some (p', d')"
  shows "db_inv d' \<and> retry_bounded d' \<and> run_of d' x = Some r"
  using dispatch_loop_keeps[OF assms(5) _ assms(4), of x] assms(1-3) by (simp add: pool_inv_def)

text \<open>A second project's run beside the demo run; two ticks a second apart.\<close>

definition demo_shared :: db where
  "demo_shared = demo_outbox\<lparr>runs := runs demo_outbox @
     [demo_run\<lparr>r_id := ''r2'', r_project := ''B'', r_status := R_queued\<rparr>]\<rparr>"

definition demo_pool :: pool where
  "demo_pool = new_pool (\<lambda>_. None) None \<lparr>cs_read_text = (\<lambda>_. None), cs_affinity = Some 4, cs_cpu_count = None,
     cs_environ = (\<lambda>_. None)\<rparr> None None"

theorem dispatch_loop_isolated_witness:
  "let pd = the (dispatch_loop demo_env [(10, \<lambda>_. 10), (1000010, \<lambda>_. 1000010)] (demo_pool, demo_shared))
   in db_inv (snd pd) \<and> retry_bounded (snd pd) \<and>
      map_option r_status (run_of (snd pd) ''r2'') = Some R_queued \<and>
      map nj_node (node_jobs (snd pd)) = [''p/x'', ''p/y'']"
proof -
  define pd where "pd = the (dispatch_loop demo_env [(10, \<lambda>_. 10), (1000010, \<lambda>_. 1000010)] (demo_pool, demo_shared))"
  have run: "dispatch_loop demo_env [(10, \<lambda>_. 10), (1000010, \<lambda>_. 1000010)] (demo_pool, demo_shared) =
      Some (fst pd, snd pd)" unfolding pd_def by code_simp
  have "db_inv demo_shared" "retry_bounded demo_shared"
    and "run_of demo_shared ''r2'' = Some (the (run_of demo_shared ''r2''))"
    and "r_project (the (run_of demo_shared ''r2'')) \<noteq> cfg_project (h_cfg (pe_host demo_env))"
    by code_simp+
  note spec = dispatch_loop_isolated[OF this run]
  have "r_status (the (run_of demo_shared ''r2'')) = R_queued" by code_simp
  moreover have "map nj_node (node_jobs (snd pd)) = [''p/x'', ''p/y'']" unfolding pd_def by code_simp
  ultimately show ?thesis using spec unfolding Let_def pd_def[symmetric] by simp
qed

section \<open>A resumed run and a lapsed lease\<close>

text \<open>
  After a restart an interrupted run is \<^verbatim>\<open>queued\<close>. The next tick leaves it so: its nodes have rows
  already, so the expansion adds none and the status is not set back to \<^verbatim>\<open>running\<close>. A worker claims
  its job all the same, and when that worker dies the lease sweep, which requeues for a
  \<^verbatim>\<open>running\<close> run only, cancels the job.
\<close>

definition demo_boot_env :: recovery_env where
  "demo_boot_env = \<lparr>rv_fails = (\<lambda>_. False), rv_stops = (\<lambda>_. False), rv_backoff = 2000000\<rparr>"

definition demo_resumed :: db where
  "demo_resumed =
     (let booted = snd (orchestrator_boot demo_cfg demo_boot_env 5 demo_started);
          ticked = snd (the (tick demo_env (\<lambda>_. 10) (demo_pool, booted)))
      in snd (claim_next_cpu_job demo_cfg (demo_claim ''h1'') ticked))"

lemma resumed_run_stays_queued:
  "map r_status (runs demo_resumed) = [R_queued] \<and> map nj_status (node_jobs demo_resumed) = [Running]"
  by code_simp

lemma resumed_run_loses_lapsed_job:
  "map nj_status (node_jobs (snd (reclaim_expired_leases (demo_resumed\<lparr>now := secs 601\<rparr>)))) = [Cancelled]"
  by code_simp

end
