(* ===== verification/Input_Listener.thy ===== *)
theory Input_Listener
  imports Orchestrator
begin

text \<open>
  The poller for user input, \<^verbatim>\<open>input_listener.py\<close>: claiming the pending submissions of the
  project, resuming the parked node with the submitted value, and settling the row.
\<close>

section \<open>The poller\<close>

text \<open>What the listener runs with: the host, \<^verbatim>\<open>json.loads\<close> (\<open>None\<close> when it raises) and the error text.\<close>

record listener_env =
  le_host :: host
  le_loads :: "string \<Rightarrow> json option"
  le_exc_text :: "py_error \<Rightarrow> string"

definition input_claim_reclaim_s :: int where
  "input_claim_reclaim_s = 60"

definition submission_due :: "config \<Rightarrow> db \<Rightarrow> submission \<Rightarrow> bool" where
  "submission_due cfg d s \<longleftrightarrow>
     (sb_status s = Pending \<or>
      sb_status s = Processing \<and>
        (case sb_claimed_at s of None \<Rightarrow> False | Some t \<Rightarrow> t < now d - secs input_claim_reclaim_s)) \<and>
     list_ex (\<lambda>r. r_id r = sb_run s \<and> r_project r = cfg_project cfg) (runs d)"

definition due_batch :: "config \<Rightarrow> db \<Rightarrow> nat list" where
  "due_batch cfg d = map sb_id (order_by sb_created 50 (sql_select (submission_due cfg d) (submissions d)))"

definition claim_pending :: "config \<Rightarrow> db \<Rightarrow> submission list \<times> db" where
  "claim_pending cfg d =
     (let P = (\<lambda>s. sb_id s \<in> set (due_batch cfg d));
          f = (\<lambda>s. s\<lparr>sb_status := Processing, sb_claimed_at := Some (now d)\<rparr>)
      in (sql_returning P f (submissions d), d\<lparr>submissions := sql_update P f (submissions d)\<rparr>))"

text \<open>A string value is run through \<^verbatim>\<open>json.loads\<close>, and kept as it is when that raises.\<close>

definition decode_value :: "listener_env \<Rightarrow> json \<Rightarrow> json" where
  "decode_value env v =
     (case v of
        JStr s \<Rightarrow> (case le_loads env s of Some w \<Rightarrow> w | None \<Rightarrow> JStr s)
      | _ \<Rightarrow> v)"

definition mark_sub_processed :: "nat \<Rightarrow> db \<Rightarrow> db" where
  "mark_sub_processed sub_id d =
     d\<lparr>submissions := sql_update (\<lambda>s. sb_id s = sub_id)
         (\<lambda>s. s\<lparr>sb_status := Processed, sb_processed := Some (now d)\<rparr>) (submissions d)\<rparr>"

definition mark_sub_failed :: "nat \<Rightarrow> string \<Rightarrow> db \<Rightarrow> db" where
  "mark_sub_failed sub_id err d =
     d\<lparr>submissions := sql_update (\<lambda>s. sb_id s = sub_id)
         (\<lambda>s. s\<lparr>sb_status := Sub_failed, sb_processed := Some (now d), sb_error := Some err\<rparr>)
         (submissions d)\<rparr>"

definition process_submission :: "listener_env \<Rightarrow> submission \<Rightarrow> db \<Rightarrow> db" where
  "process_submission env row d =
     (case resume_after_input (le_host env) (sb_run row) (sb_node row) (decode_value env (sb_value row)) d of
        (Inl exc, d') \<Rightarrow> mark_sub_failed (sb_id row) (le_exc_text env exc) d'
      | (Inr _, d') \<Rightarrow> mark_sub_processed (sb_id row) d')"

definition poll_once :: "listener_env \<Rightarrow> db \<Rightarrow> db" where
  "poll_once env d =
     (case claim_pending (h_cfg (le_host env)) d of (rows, d') \<Rightarrow> fold (process_submission env) rows d')"

section \<open>What a poll does\<close>

text \<open>A settled row, seen from the row it was claimed as.\<close>

definition settled_from :: "listener_env \<Rightarrow> int \<Rightarrow> submission \<Rightarrow> submission \<Rightarrow> bool" where
  "settled_from env t s s' \<longleftrightarrow>
     sb_processed s' = Some t \<and>
     (sb_status s' = Processed \<and> sb_error s' = sb_error s \<and>
        (\<exists>d n. db_inv d \<and> fst (resume_after_input (le_host env) (sb_run s) (sb_node s)
           (decode_value env (sb_value s)) d) = Inr n) \<or>
      sb_status s' = Sub_failed \<and>
        (\<exists>d exc. db_inv d \<and> fst (resume_after_input (le_host env) (sb_run s) (sb_node s)
           (decode_value env (sb_value s)) d) = Inl exc \<and> sb_error s' = Some (le_exc_text env exc)))"

lemma process_submission_effect:
  assumes inv: "db_inv d" and s: "row_of sb_id (sb_id row) (submissions d) = Some row"
  shows "db_inv (process_submission env row d) \<and> now (process_submission env row d) = now d \<and>
    (\<forall>x. x \<noteq> sb_run row \<longrightarrow> same_run x d (process_submission env row d)) \<and>
    (\<forall>i. i \<noteq> sb_id row \<longrightarrow> row_of sb_id i (submissions (process_submission env row d)) =
      row_of sb_id i (submissions d)) \<and>
    (\<exists>s'. row_of sb_id (sb_id row) (submissions (process_submission env row d)) = Some s' \<and>
      settled_from env (now d) row s')"
proof -
  let ?v = "decode_value env (sb_value row)"
  obtain res d1 where run: "resume_after_input (le_host env) (sb_run row) (sb_node row) ?v d = (res, d1)" by fastforce
  have inv1: "db_inv d1" using resume_after_input_inv[OF inv] run by (metis snd_conv)
  have same: "same_elsewhere (sb_run row) d d1"
    using resume_after_input_same[of d] inv run by (metis db_inv_def snd_conv)
  then have d1: "submissions d1 = submissions d" "now d1 = now d" by (simp_all add: same_elsewhere_def)
  have look: "row_of sb_id i (sql_update (\<lambda>s. sb_id s = sb_id row) f (submissions d)) =
      (if i = sb_id row then Some (f row) else row_of sb_id i (submissions d))"
    if "\<And>s. sb_id (f s) = sb_id s" for f i
    using s that by (cases "row_of sb_id i (submissions d)") (auto simp: row_of_update dest: row_of_SomeD)
  have runs: "same_run x d1 (process_submission env row d)" for x
    by (simp add: process_submission_def run same_run_def mark_sub_failed_def mark_sub_processed_def split: sum.splits)
  have "same_run x d (process_submission env row d)" if "x \<noteq> sb_run row" for x
    using same_elsewhere_run[OF same that] runs by (rule same_run_trans)
  moreover have "\<exists>s'. row_of sb_id (sb_id row) (submissions (process_submission env row d)) = Some s' \<and>
      settled_from env (now d) row s'"
    using inv run by (cases res)
      (auto simp: process_submission_def run mark_sub_failed_def mark_sub_processed_def d1 look settled_from_def)
  ultimately show ?thesis
    using inv1 by (auto simp: process_submission_def run mark_sub_failed_def mark_sub_processed_def d1 look
        split: sum.splits)
qed

lemma process_all_effect:
  assumes "db_inv d" and "distinct (map sb_id rows)"
    and "\<And>r. r \<in> set rows \<Longrightarrow> row_of sb_id (sb_id r) (submissions d) = Some r"
  shows "db_inv (fold (process_submission env) rows d) \<and> now (fold (process_submission env) rows d) = now d \<and>
    (\<forall>x. x \<notin> sb_run ` set rows \<longrightarrow> same_run x d (fold (process_submission env) rows d)) \<and>
    (\<forall>i. i \<notin> sb_id ` set rows \<longrightarrow> row_of sb_id i (submissions (fold (process_submission env) rows d)) =
      row_of sb_id i (submissions d)) \<and>
    (\<forall>r\<in>set rows. \<exists>s'. row_of sb_id (sb_id r) (submissions (fold (process_submission env) rows d)) = Some s' \<and>
      settled_from env (now d) r s')"
  using assms
proof (induction rows arbitrary: d)
  case Nil
  then show ?case by simp
next
  case (Cons r rows)
  let ?d1 = "process_submission env r d"
  note one = process_submission_effect[OF Cons.prems(1) Cons.prems(3)[of r], of env, simplified]
  have fresh: "sb_id r \<notin> sb_id ` set rows" using Cons.prems(2) by simp
  have "row_of sb_id (sb_id q) (submissions ?d1) = Some q" if "q \<in> set rows" for q
    using Cons.prems(3)[of q] one fresh that by (metis image_eqI list.set_intros(2))
  from Cons.IH[OF _ _ this] one Cons.prems(2) fresh show ?case
    by (auto intro: same_run_trans)
qed

lemma due_batch_mem:
  assumes "distinct (map sb_id (submissions d))" and "s \<in> set (submissions d)" and "sb_id s \<in> set (due_batch cfg d)"
  shows "submission_due cfg d s"
proof -
  from assms(3) obtain q where "q \<in> set (submissions d)" "submission_due cfg d q" "sb_id q = sb_id s"
    using set_order_by by (fastforce simp: due_batch_def sql_select_def)
  then show ?thesis using assms(1,2) by (metis distinct_map_filter_eq)
qed

lemma due_batch_all:
  assumes "length (sql_select (submission_due cfg d) (submissions d)) \<le> 50"
  shows "set (due_batch cfg d) = sb_id ` {s \<in> set (submissions d). submission_due cfg d s}"
  using assms by (auto simp: due_batch_def order_by_def sql_select_def)

section \<open>Properties\<close>


text \<open>One input step \<^verbatim>\<open>pick\<close> whose branch value steers a later skip condition.\<close>

definition demo_input_host :: host where
  "demo_input_host = demo_host\<lparr>h_workflow := Some (\<lambda>_. Inr [\<lparr>st_id = ''pick'', st_kind = Some ''input'', st_pipeline = [],
     st_inputs = [], st_depends = [], st_skip_if = None, st_widget = Some ''turnout'', st_target = Some ''branch'',
     st_raw = [(''widget'', JStr ''turnout'')]\<rparr>])\<rparr>"

definition demo_listener :: listener_env where
  "demo_listener = \<lparr>le_host = demo_input_host, le_loads = (\<lambda>s. if s = ''1'' then Some (JInt 1) else None),
     le_exc_text = (\<lambda>_. ''boom'')\<rparr>"

definition demo_submitted :: "string \<Rightarrow> db" where
  "demo_submitted v =
     (snd (mark_awaiting_input 0 (snd (start_run demo_input_host ''r1'' demo_fresh))))
       \<lparr>submissions := [\<lparr>sb_id = 0, sb_run = ''r1'', sb_node = ''pick'', sb_value = JStr v, sb_status = Pending,
          sb_error = None, sb_claimed_at = None, sb_created = 0, sb_processed = None\<rparr>,
         \<lparr>sb_id = 1, sb_run = ''r1'', sb_node = ''ghost'', sb_value = JNull, sb_status = Pending,
          sb_error = None, sb_claimed_at = None, sb_created = 1, sb_processed = None\<rparr>]\<rparr>"


text \<open>
  A string that happens to be JSON text is decoded a second time: the branch value \<^verbatim>\<open>"1"\<close>, which the
  driver has already decoded, is stored as the number 1, and the comparison with \<^verbatim>\<open>"1"\<close> fails.
\<close>

lemma submitted_string_retyped:
  "map nj_delta (node_jobs (poll_once demo_listener (demo_submitted ''1''))) = [[(''branch'', JInt 1)]] \<and>
   resolve_ref (h_rt demo_input_host) (JObj [(''$from'', JStr ''pick.branch''), (''$eq'', JStr ''1'')])
     (JObj (projr (ref_context demo_input_host demo_run (poll_once demo_listener (demo_submitted ''1''))))) =
     Inr (JBool False)"
  by code_simp

end
