(* ===== verification/Scheduler.thy ===== *)
theory Scheduler
  imports Examples
begin

text \<open>
  \<^verbatim>\<open>scheduler.py\<close>: schedule entries, the next instant an entry fires, the enqueue of due entries,
  the boot kick, and the waiting loop of the ticker. An instant is a number of microseconds since
  the epoch in UTC; \<^verbatim>\<open>replace(minute=m, second=0, microsecond=0)\<close> and \<^verbatim>\<open>.hour\<close> are arithmetic
  on it.
\<close>

section \<open>Schedule entries\<close>

record schedule_entry =
  se_name :: string
  se_minute :: int
  se_task :: string
  se_queue :: string
  se_hours :: "int list option"

abbreviation hour_us :: int where
  "hour_us \<equiv> 3600000000"

abbreviation minute_us :: int where
  "minute_us \<equiv> 60000000"

definition hour_of :: "int \<Rightarrow> int" where
  "hour_of t = (t div hour_us) mod 24"

definition replace_minute :: "int \<Rightarrow> int \<Rightarrow> int" where
  "replace_minute t m = (t div hour_us) * hour_us + m * minute_us"

text \<open>The bounded walk to the next allowed hour.\<close>

fun walk_hours :: "nat \<Rightarrow> int list \<Rightarrow> int \<Rightarrow> int" where
  "walk_hours 0 hours c = c"
| "walk_hours (Suc n) hours c = (if hour_of c \<in> set hours then c else walk_hours n hours (c + hour_us))"

definition next_fire_at :: "schedule_entry \<Rightarrow> int \<Rightarrow> int result" where
  "next_fire_at e t =
     (if \<not> (0 \<le> se_minute e \<and> se_minute e \<le> 59) then Inl (ValueError ''minute must be in 0..59'')
      else let candidate = replace_minute t (se_minute e);
               candidate' = (if candidate \<le> t then candidate + hour_us else candidate)
           in case se_hours e of
                None \<Rightarrow> Inr candidate'
              | Some hours \<Rightarrow> Inr (walk_hours 24 hours candidate'))"

fun next_fires :: "schedule_entry list \<Rightarrow> int \<Rightarrow> (int \<times> schedule_entry) list result" where
  "next_fires [] t = Inr []"
| "next_fires (e # es) t =
     (case next_fire_at e t of
        Inl err \<Rightarrow> Inl err
      | Inr f \<Rightarrow> (case next_fires es t of Inl err \<Rightarrow> Inl err | Inr fs \<Rightarrow> Inr ((f, e) # fs)))"

definition soonest :: "schedule_entry list \<Rightarrow> int \<Rightarrow> (int \<times> schedule_entry list) result" where
  "soonest schedule t =
     (case next_fires schedule t of
        Inl err \<Rightarrow> Inl err
      | Inr [] \<Rightarrow> Inl (ValueError ''min() arg is an empty sequence'')
      | Inr (f # fs) \<Rightarrow>
          let s = fold (\<lambda>x m. min m (fst x)) fs (fst f)
          in Inr (s, map snd (filter (\<lambda>x. fst x = s) (f # fs))))"

section \<open>Enqueueing\<close>

fun enqueue_due :: "config \<Rightarrow> string \<Rightarrow> schedule_entry list \<Rightarrow> (db, nat list) act" where
  "enqueue_due cfg reason [] d = (Inr [], d)"
| "enqueue_due cfg reason (e # es) d =
     (case enqueue_ingest_job cfg \<lparr>ia_task = se_task e, ia_queue = se_queue e, ia_reason = reason,
              ia_priority = 100, ia_args = [], ia_project = None\<rparr> d of
        (Inl err, d') \<Rightarrow> (Inl err, d')
      | (Inr jid, d') \<Rightarrow>
          (case enqueue_due cfg reason es d' of
             (Inl err, d'') \<Rightarrow> (Inl err, d'') | (Inr ids, d'') \<Rightarrow> (Inr (jid # ids), d'')))"

definition boot_entries :: "schedule_entry list \<Rightarrow> schedule_entry list" where
  "boot_entries schedule = filter (\<lambda>e. \<not> contains_sub (se_task e) ''freshness'') schedule"

definition enqueue_boot_kick :: "config \<Rightarrow> schedule_entry list \<Rightarrow> (db, nat list) act" where
  "enqueue_boot_kick cfg schedule = enqueue_due cfg ''boot'' (boot_entries schedule)"

section \<open>The ticker\<close>

definition max_sleep_us :: int where
  "max_sleep_us = 30000000"

datatype wait_end = Fire int "int list" | Halt "int list" | Asleep "int list"

text \<open>
  The sliced sleep of \<^verbatim>\<open>run_forever\<close>. After each slice the loop reads the stop event and the clock;
  the readings are the argument. The answer carries the clock reading it ended on and the slices
  slept; \<open>Asleep\<close> is a loop that has used up its readings and is still waiting.
\<close>

fun wait_loop :: "int \<Rightarrow> int \<Rightarrow> (bool \<times> int) list \<Rightarrow> int list \<Rightarrow> wait_end" where
  "wait_loop target t readings slept =
     (if target - t \<le> 0 then Fire t slept
      else case readings of
             [] \<Rightarrow> Asleep slept
           | (stopped, t') # rest \<Rightarrow>
               let slept' = slept @ [min (target - t) max_sleep_us]
               in if stopped then Halt slept' else wait_loop target t' rest slept')"

declare wait_loop.simps [simp del]

datatype tick_end = Ticked int "nat list" | Tick_halted | Tick_waiting

text \<open>One round: the soonest instant, the wait, the enqueue of everything due then.\<close>

definition ticker_round :: "config \<Rightarrow> schedule_entry list \<Rightarrow> int \<Rightarrow> (bool \<times> int) list \<Rightarrow> (db, tick_end) act" where
  "ticker_round cfg schedule t readings d =
     (case soonest schedule t of
        Inl err \<Rightarrow> (Inl err, d)
      | Inr (s, due) \<Rightarrow>
          (case wait_loop s t readings [] of
             Fire t' _ \<Rightarrow>
               (case enqueue_due cfg ''tick'' due d of
                  (Inl err, d') \<Rightarrow> (Inl err, d') | (Inr ids, d') \<Rightarrow> (Inr (Ticked t' ids), d'))
           | Halt _ \<Rightarrow> (Inr Tick_halted, d)
           | Asleep _ \<Rightarrow> (Inr Tick_waiting, d)))"

section \<open>When an entry fires\<close>

text \<open>The instants an entry is meant for.\<close>

definition fires :: "schedule_entry \<Rightarrow> int \<Rightarrow> bool" where
  "fires e t \<longleftrightarrow> t mod hour_us = se_minute e * minute_us \<and>
     (case se_hours e of None \<Rightarrow> True | Some hours \<Rightarrow> hour_of t \<in> set hours)"

definition entry_ok :: "schedule_entry \<Rightarrow> bool" where
  "entry_ok e \<longleftrightarrow> 0 \<le> se_minute e \<and> se_minute e \<le> 59 \<and>
     (case se_hours e of None \<Rightarrow> True | Some hours \<Rightarrow> \<exists>h\<in>set hours. 0 \<le> h \<and> h \<le> 23)"

lemma congruent_step:
  fixes u c H :: int
  assumes "0 < H" and "u mod H = c mod H" and "c - H < u"
  obtains i where "u = c + int i * H"
proof -
  from assms(2) obtain k where k: "u = c + k * H"
    by (metis mod_eqE add_diff_cancel_left' diff_add_cancel mult.commute)
  with assms(1,3) have "- 1 * H < k * H" by simp
  with assms(1) have "- 1 < k" using mult_less_cancel_right_pos by blast
  then have "u = c + int (nat k) * H" using k by simp
  then show thesis by (rule that)
qed

lemma hour_of_step: "hour_of (c + int j * hour_us) = (hour_of c + int j) mod 24"
  by (simp add: hour_of_def mod_simps add.commute)

lemma candidate_spec:
  fixes t :: int
  assumes "0 \<le> m" and "m \<le> 59"
  defines "c \<equiv> (if replace_minute t m \<le> t then replace_minute t m + hour_us else replace_minute t m)"
  shows "t < c \<and> c \<le> t + hour_us \<and> c mod hour_us = m * minute_us"
proof -
  have "(t div hour_us) * hour_us \<le> t" "t < (t div hour_us) * hour_us + hour_us"
    by (simp_all add: minus_mod_eq_div_mult [symmetric])
  moreover have "(k * hour_us + m * minute_us) mod hour_us = m * minute_us" for k
    using assms(1,2) by (simp add: mod_mult_self3)
  moreover have "(k * hour_us + m * minute_us + hour_us) mod hour_us = m * minute_us" for k
    using assms(1,2) by simp
  ultimately show ?thesis using assms(1,2) by (auto simp: c_def replace_minute_def)
qed

lemma walk_hours_spec:
  "(\<exists>j<n. walk_hours n hours c = c + int j * hour_us \<and> hour_of (c + int j * hour_us) \<in> set hours \<and>
      (\<forall>i<j. hour_of (c + int i * hour_us) \<notin> set hours)) \<or>
   (walk_hours n hours c = c + int n * hour_us \<and> (\<forall>i<n. hour_of (c + int i * hour_us) \<notin> set hours))"
proof (induction n arbitrary: c)
  case (Suc n)
  have shift: "c + hour_us + int i * hour_us = c + int (Suc i) * hour_us" for i by (simp add: algebra_simps)
  show ?case
  proof (cases "hour_of c \<in> set hours")
    case True
    then show ?thesis by (intro disjI1 exI[of _ 0]) simp
  next
    case False
    with Suc.IH[of "c + hour_us"] show ?thesis
      unfolding shift by (auto simp: All_less_Suc2 Ex_less_Suc2)
  qed
qed simp

text \<open>Some hour within the next 24 is an allowed one.\<close>

lemma some_hour_allowed:
  assumes "h \<in> set hours" and "0 \<le> h" and "h \<le> 23"
  shows "\<exists>j<24. hour_of (c + int j * hour_us) \<in> set hours"
proof -
  let ?j = "nat ((h - hour_of c) mod 24)"
  have "?j < 24" by simp
  moreover have "hour_of (c + int ?j * hour_us) = h"
    unfolding hour_of_step using assms(2,3) by (simp add: mod_simps)
  ultimately show ?thesis using assms(1) by metis
qed

lemma next_fire_at_spec:
  assumes "entry_ok e"
  obtains f where "next_fire_at e t = Inr f" and "fires e f" and "t < f" and "f \<le> t + 24 * hour_us"
    and "\<And>u. fires e u \<Longrightarrow> t < u \<Longrightarrow> f \<le> u"
proof -
  define c where "c = (if replace_minute t (se_minute e) \<le> t then replace_minute t (se_minute e) + hour_us
    else replace_minute t (se_minute e))"
  have c: "t < c" "c \<le> t + hour_us" "c mod hour_us = se_minute e * minute_us"
    using candidate_spec[of "se_minute e" t] assms by (simp_all add: c_def entry_ok_def)
  have later: "\<exists>i. u = c + int i * hour_us" if "fires e u" "t < u" for u
    using congruent_step[of hour_us u c] that c by (fastforce simp: fires_def)
  show thesis
  proof (cases "se_hours e")
    case None
    have nf: "next_fire_at e t = Inr c" using assms None by (simp add: next_fire_at_def entry_ok_def c_def)
    have least: "c \<le> u" if "fires e u" "t < u" for u using later[OF that] by auto
    show thesis by (rule that[OF nf _ c(1) _ least]) (use c None in \<open>auto simp: fires_def\<close>)
  next
    case (Some hours)
    let ?f = "walk_hours 24 hours c"
    have nf: "next_fire_at e t = Inr ?f" using assms Some by (simp add: next_fire_at_def entry_ok_def c_def)
    obtain h where h: "h \<in> set hours" "0 \<le> h" "h \<le> 23" using assms Some by (auto simp: entry_ok_def)
    obtain j where j: "j < 24" "?f = c + int j * hour_us" "hour_of ?f \<in> set hours"
      "\<forall>i<j. hour_of (c + int i * hour_us) \<notin> set hours"
      using walk_hours_spec[of 24 hours c] some_hour_allowed[OF h, of c] by metis
    have least: "?f \<le> u" if fu: "fires e u" and tu: "t < u" for u
    proof -
      obtain i where i: "u = c + int i * hour_us" using later[OF fu tu] by blast
      then have "\<not> i < j" using fu j(4) Some by (auto simp: fires_def)
      then show ?thesis using i j(2) by simp
    qed
    have "fires e ?f" using j(2,3) c(3) Some by (simp add: fires_def)
    moreover have "t < ?f" "?f \<le> t + 24 * hour_us" using j(1,2) c(1,2) by simp_all
    ultimately show thesis using that[OF nf] least by blast
  qed
qed

section \<open>Properties\<close>

text \<open>
  C31. When an entry fires next: for a valid minute and at least one hour of the day allowed, the
  computed instant is strictly after now, at most a day ahead, an instant the entry is meant for, and
  the earliest such one.
\<close>

theorem next_fire_is_earliest:
  assumes "entry_ok e"
  shows "\<exists>f. next_fire_at e t = Inr f \<and> fires e f \<and> t < f \<and> f \<le> t + 24 * hour_us \<and>
    (\<forall>u. fires e u \<and> t < u \<longrightarrow> f \<le> u)"
  using next_fire_at_spec[OF assms, of t] by metis

definition demo_entry :: schedule_entry where
  "demo_entry = \<lparr>se_name = ''sync'', se_minute = 15, se_task = ''sync'', se_queue = ''fetch'', se_hours = Some [6]\<rparr>"

theorem next_fire_is_earliest_witness:
  "next_fire_at demo_entry (7 * hour_us) = Inr (30 * hour_us + 15 * minute_us) \<and>
   fires demo_entry (30 * hour_us + 15 * minute_us)"
proof -
  have "entry_ok demo_entry" by (simp add: entry_ok_def demo_entry_def)
  from next_fire_is_earliest[OF this, of "7 * hour_us"]
  obtain f where "next_fire_at demo_entry (7 * hour_us) = Inr f" "fires demo_entry f" by blast
  moreover have "next_fire_at demo_entry (7 * hour_us) = Inr (30 * hour_us + 15 * minute_us)"
    by code_simp
  ultimately show ?thesis by simp
qed

text \<open>
  An entry whose hours are empty is documented as one that never fires; it has a next instant all the
  same, between 24 and 25 hours ahead, so the ticker enqueues it daily.
\<close>

lemma empty_hours_fire_daily:
  assumes "0 \<le> se_minute e" and "se_minute e \<le> 59" and "se_hours e = Some []"
  shows "\<exists>f. next_fire_at e t = Inr f \<and> t + 24 * hour_us < f \<and> f \<le> t + 25 * hour_us"
proof -
  let ?c = "if replace_minute t (se_minute e) \<le> t then replace_minute t (se_minute e) + hour_us
    else replace_minute t (se_minute e)"
  have "walk_hours n [] c = c + int n * hour_us" for n c
    using walk_hours_spec[of n "[]" c] by auto
  then have "next_fire_at e t = Inr (?c + 24 * hour_us)"
    using assms by (simp add: next_fire_at_def Let_def)
  then show ?thesis using candidate_spec[OF assms(1,2), of t] by auto
qed

lemma wait_loop_Fire: "wait_loop target t readings slept = Fire t' slept' \<Longrightarrow> target \<le> t'"
proof (induction target t readings slept arbitrary: t' slept' rule: wait_loop.induct)
  case (1 target t readings slept)
  then show ?case
    by (subst (asm) wait_loop.simps) (auto simp: Let_def split: if_splits list.splits)
qed

lemma next_fires_mem:
  assumes "next_fires es t = Inr fs"
  shows "map snd fs = es \<and> (\<forall>(f, e)\<in>set fs. next_fire_at e t = Inr f)"
  using assms by (induction es arbitrary: fs) (auto split: sum.splits)

lemma fold_min_le: "fold (\<lambda>x m. min m (fst x)) fs (s :: int) \<le> s \<and> (\<forall>x\<in>set fs. fold (\<lambda>x m. min m (fst x)) fs s \<le> fst x)"
proof (induction fs arbitrary: s)
  case (Cons x fs)
  from Cons[of "min s (fst x)"] show ?case by auto
qed simp

lemma fold_min_mem: "fold (\<lambda>x m. min m (fst x)) fs (s :: int) = s \<or> (\<exists>x\<in>set fs. fst x = fold (\<lambda>x m. min m (fst x)) fs s)"
proof (induction fs arbitrary: s)
  case (Cons x fs)
  from Cons[of "min s (fst x)"] show ?case by (auto simp: min_def split: if_splits)
qed simp

lemma soonest_spec:
  assumes ok: "\<forall>e\<in>set schedule. entry_ok e" and so: "soonest schedule t = Inr (s, due)"
  shows "t < s \<and> due = filter (\<lambda>e. next_fire_at e t = Inr s) schedule \<and> due \<noteq> [] \<and>
    (\<forall>e\<in>set due. fires e s) \<and> (\<forall>e\<in>set schedule. \<forall>u. fires e u \<and> t < u \<longrightarrow> s \<le> u)"
proof -
  obtain f fs where nf: "next_fires schedule t = Inr (f # fs)"
    and s: "s = fold (\<lambda>x m. min m (fst x)) fs (fst f)" and due: "due = map snd (filter (\<lambda>x. fst x = s) (f # fs))"
    using so by (auto simp: soonest_def Let_def split: sum.splits list.splits)
  note mem = next_fires_mem[OF nf]
  have each: "next_fire_at (snd x) t = Inr (fst x)" if "x \<in> set (f # fs)" for x
    using mem that by (auto simp: split_def)
  have sched: "schedule = map snd (f # fs)" using mem by simp
  have all: "s \<le> fst x" if "x \<in> set (f # fs)" for x
    using that fold_min_le[of fs "fst f"] s by auto
  obtain x where x: "x \<in> set (f # fs)" "fst x = s"
    using fold_min_mem[of fs "fst f"] s by (metis list.set_intros(1,2))
  have spec: "fires e g \<and> t < g \<and> (\<forall>u. fires e u \<and> t < u \<longrightarrow> g \<le> u)"
    if "e \<in> set schedule" "next_fire_at e t = Inr g" for e g
    using next_fire_at_spec[of e t] ok that by (metis sum.inject(2))
  have "due = filter (\<lambda>e. next_fire_at e t = Inr s) schedule"
    unfolding due sched filter_map comp_def using each by (intro arg_cong[where f = "map snd"] filter_cong) auto
  moreover have "due \<noteq> []" using due x by (auto simp: filter_empty_conv)
  moreover have "s \<le> u" if "e \<in> set schedule" "fires e u" "t < u" for e u
  proof -
    have "e \<in> snd ` set (f # fs)" using that(1) sched by (metis list.set_map)
    then obtain y where y: "y \<in> set (f # fs)" "snd y = e" by blast
    then have "fst y \<le> u" using spec[OF that(1)] each that(2,3) by blast
    with all[OF y(1)] show ?thesis by simp
  qed
  moreover have "t < s" using x each spec sched by (metis image_eqI list.set_map)
  ultimately show ?thesis using spec by auto
qed

lemma enqueue_due_effect:
  assumes "enqueue_due cfg reason es d = (Inr ids, d')"
  shows "\<exists>rows. ingest_jobs d' = ingest_jobs d @ rows \<and> map ij_id rows = ids \<and>
    map ij_task rows = map se_task es \<and> map ij_queue rows = map se_queue es \<and>
    (\<forall>r\<in>set rows. ij_status r = Queued \<and> ij_reason r = reason)"
  using assms
proof (induction es arbitrary: d ids)
  case (Cons e es)
  obtain jid d1 ids1 where one: "enqueue_ingest_job cfg \<lparr>ia_task = se_task e, ia_queue = se_queue e,
      ia_reason = reason, ia_priority = 100, ia_args = [], ia_project = None\<rparr> d = (Inr jid, d1)"
    and rest: "enqueue_due cfg reason es d1 = (Inr ids1, d')" and ids: "ids = jid # ids1"
    using Cons.prems by (auto split: prod.splits sum.splits)
  from Cons.IH[OF rest] obtain rows where rows: "ingest_jobs d' = ingest_jobs d1 @ rows" "map ij_id rows = ids1"
    "map ij_task rows = map se_task es" "map ij_queue rows = map se_queue es"
    "\<forall>r\<in>set rows. ij_status r = Queued \<and> ij_reason r = reason" by blast
  from one obtain r where "ingest_jobs d1 = ingest_jobs d @ [r]" "ij_id r = jid" "ij_task r = se_task e"
    "ij_queue r = se_queue e" "ij_status r = Queued" "ij_reason r = reason"
    by (auto simp: enqueue_ingest_job_def split: if_splits)
  with rows ids show ?case by (intro exI[of _ "r # rows"]) simp
qed simp

text \<open>
  A ticker round enqueues at the right time and exactly once: it fires only when the clock has
  reached the earliest instant after the start of the round that any entry is meant for, it enqueues
  one queued job per entry due at that instant and no other, in schedule order, and the next round
  can only fire at a later instant.
\<close>

theorem ticker_round_exact:
  assumes ok: "\<forall>e\<in>set schedule. entry_ok e"
    and run: "ticker_round cfg schedule t readings d = (Inr (Ticked t' ids), d')"
  shows "\<exists>s rows. t < s \<and> s \<le> t' \<and> (\<forall>e\<in>set schedule. \<forall>u. fires e u \<and> t < u \<longrightarrow> s \<le> u) \<and>
    ingest_jobs d' = ingest_jobs d @ rows \<and> map ij_id rows = ids \<and> (\<forall>r\<in>set rows. ij_status r = Queued) \<and>
    map ij_task rows = map se_task (filter (\<lambda>e. next_fire_at e t = Inr s) schedule) \<and>
    (\<forall>e\<in>set schedule. next_fire_at e t = Inr s \<longrightarrow> fires e s) \<and>
    (\<forall>s2 due2. soonest schedule t' = Inr (s2, due2) \<longrightarrow> s < s2)"
proof -
  obtain s due slept where so: "soonest schedule t = Inr (s, due)"
    and w: "wait_loop s t readings [] = Fire t' slept" and en: "enqueue_due cfg ''tick'' due d = (Inr ids, d')"
    using run by (auto simp: ticker_round_def split: sum.splits wait_end.splits prod.splits)
  note spec = soonest_spec[OF ok so]
  have "s \<le> t'" using w by (rule wait_loop_Fire)
  moreover have "s < s2" if "soonest schedule t' = Inr (s2, due2)" for s2 due2
    using soonest_spec[OF ok that] \<open>s \<le> t'\<close> by simp
  moreover obtain rows where "ingest_jobs d' = ingest_jobs d @ rows" "map ij_id rows = ids"
    "map ij_task rows = map se_task due" "\<forall>r\<in>set rows. ij_status r = Queued \<and> ij_reason r = ''tick''"
    using enqueue_due_effect[OF en] by blast
  ultimately show ?thesis using spec by (intro exI[of _ s] exI[of _ rows]) auto
qed

theorem ticker_round_exact_witness:
  "map ij_task (ingest_jobs (snd (ticker_round demo_cfg [demo_entry] (7 * hour_us)
     [(False, 20 * hour_us), (False, 31 * hour_us)] empty_db))) = [''sync'']"
proof -
  let ?r = "ticker_round demo_cfg [demo_entry] (7 * hour_us) [(False, 20 * hour_us), (False, 31 * hour_us)] empty_db"
  have ok: "\<forall>e\<in>set [demo_entry]. entry_ok e" by (simp add: entry_ok_def demo_entry_def)
  have f: "fst ?r = Inr (Ticked (31 * hour_us) [0])" by code_simp
  then have run: "?r = (Inr (Ticked (31 * hour_us) [0]), snd ?r)" by (metis prod.collapse)
  obtain s rows where s: "ingest_jobs (snd ?r) = ingest_jobs empty_db @ rows" "map ij_id rows = [0]"
    "map ij_task rows = map se_task (filter (\<lambda>e. next_fire_at e (7 * hour_us) = Inr s) [demo_entry])"
    using ticker_round_exact[OF ok run] by (elim exE conjE) (rule that)
  then have "filter (\<lambda>e. next_fire_at e (7 * hour_us) = Inr s) [demo_entry] = [demo_entry]"
    by (auto split: if_splits)
  with s show ?thesis by (simp add: empty_db_def demo_entry_def)
qed

end
