(* ===== verification/Model_Cache.thy ===== *)
theory Model_Cache
  imports Fleet
begin

text \<open>
  \<^verbatim>\<open>model_cache.py\<close> and \<^verbatim>\<open>gpu_model_cache.py\<close>: the single warm-model slot of a GPU worker process,
  its busy count, the idle reaper, and the publication of the slot in the worker's heartbeat row. The
  cache, the model registry of the process and the database are one state; loaders and the host's
  registrar are host code and are parameters. A handle is an opaque name.
\<close>

section \<open>State\<close>

record cache =
  ch_model :: "string option"
  ch_handle :: "string option"
  ch_last_used :: int
  ch_active :: int
  ch_reaper :: bool
  ch_ttl :: int

record gpu_proc =
  gp_cache :: cache
  gp_registry :: registry
  gp_db :: db

record cache_env =
  ce_cfg :: config
  ce_host :: string
  ce_loader :: "string \<Rightarrow> string result"
  ce_registrar :: "registry \<Rightarrow> registry result"
  ce_no_reaper :: bool

definition new_cache :: "int \<Rightarrow> cache" where
  "new_cache ttl = \<lparr>ch_model = None, ch_handle = None, ch_last_used = 0, ch_active = 0,
     ch_reaper = False, ch_ttl = ttl\<rparr>"

definition gpu_should_unload :: "bool \<Rightarrow> int \<Rightarrow> int \<Rightarrow> int \<Rightarrow> bool" where
  "gpu_should_unload handle_present active idle ttl =
     (if ttl \<le> 0 then False else handle_present \<and> active \<le> 0 \<and> idle \<ge> ttl)"

section \<open>Operations\<close>

text \<open>\<^verbatim>\<open>_publish_current_model\<close>\<close>

definition publish_current_model :: "cache_env \<Rightarrow> string option \<Rightarrow> gpu_proc \<Rightarrow> gpu_proc" where
  "publish_current_model env model p =
     p\<lparr>gp_db := upsert_worker_heartbeat (ce_cfg env)
         \<lparr>ba_host = ce_host env, ba_queue = ''gpu'', ba_concurrency = 1, ba_model = model,
          ba_known = Some (known_ids (gp_registry p)), ba_llm = None, ba_vram = None, ba_fits = None,
          ba_update_model = True, ba_project = None\<rparr> (gp_db p)\<rparr>"

definition drop_cache :: "cache \<Rightarrow> cache" where
  "drop_cache c = (if ch_handle c = None then c else c\<lparr>ch_handle := None, ch_model := None\<rparr>)"

definition ensure_idle_reaper :: "cache_env \<Rightarrow> cache \<Rightarrow> cache" where
  "ensure_idle_reaper env c =
     (if ch_reaper c \<or> ch_ttl c \<le> 0 \<or> ce_no_reaper env then c else c\<lparr>ch_reaper := True\<rparr>)"

text \<open>The registry lookup with the one re-registration when the id is missing.\<close>

definition lookup_model :: "cache_env \<Rightarrow> string \<Rightarrow> (gpu_proc, model_spec) act" where
  "lookup_model env model_id p =
     (case get_model (gp_registry p) model_id of
        Inr spec \<Rightarrow> (Inr spec, p)
      | Inl _ \<Rightarrow>
          (case ce_registrar env (gp_registry p) of
             Inl e \<Rightarrow> (Inl e, p)
           | Inr reg \<Rightarrow> (get_model reg model_id, p\<lparr>gp_registry := reg\<rparr>)))"

definition require_model :: "cache_env \<Rightarrow> string \<Rightarrow> int \<Rightarrow> (gpu_proc, string) act" where
  "require_model env model_id clock p =
     (let c = ensure_idle_reaper env ((gp_cache p)\<lparr>ch_last_used := clock\<rparr>);
          p1 = p\<lparr>gp_cache := c\<rparr>
      in case (ch_model c = Some model_id, ch_handle c) of
           (True, Some h) \<Rightarrow> (Inr h, p1)
         | _ \<Rightarrow>
             let p2 = publish_current_model env None (p1\<lparr>gp_cache := drop_cache c\<rparr>)
             in case lookup_model env model_id p2 of
                  (Inl e, p3) \<Rightarrow> (Inl e, p3)
                | (Inr spec, p3) \<Rightarrow>
                    (case ce_loader env (ms_id spec) of
                       Inl e \<Rightarrow> (Inl e, p3)
                     | Inr h \<Rightarrow>
                         (Inr h, publish_current_model env (Some model_id)
                            (p3\<lparr>gp_cache := (gp_cache p3)\<lparr>ch_handle := Some h, ch_model := Some model_id\<rparr>\<rparr>))))"

definition mark_busy :: "gpu_proc \<Rightarrow> gpu_proc" where
  "mark_busy p = p\<lparr>gp_cache := (gp_cache p)\<lparr>ch_active := ch_active (gp_cache p) + 1\<rparr>\<rparr>"

definition mark_idle :: "int \<Rightarrow> gpu_proc \<Rightarrow> gpu_proc" where
  "mark_idle clock p = p\<lparr>gp_cache := (gp_cache p)
     \<lparr>ch_active := max 0 (ch_active (gp_cache p) - 1), ch_last_used := clock\<rparr>\<rparr>"

definition reap_idle_once :: "cache_env \<Rightarrow> int \<Rightarrow> gpu_proc \<Rightarrow> bool \<times> gpu_proc" where
  "reap_idle_once env clock p =
     (let c = gp_cache p
      in if \<not> gpu_should_unload (ch_handle c \<noteq> None) (ch_active c) (clock - ch_last_used c) (ch_ttl c)
         then (False, p)
         else (True, publish_current_model env None (p\<lparr>gp_cache := drop_cache c\<rparr>)))"

section \<open>The invariant\<close>

text \<open>What the fleet sees of this worker: the model in its GPU heartbeat row.\<close>

definition advertised :: "cache_env \<Rightarrow> gpu_proc \<Rightarrow> string option" where
  "advertised env p =
     (case row_of hb_key (ce_host env, ''gpu'', cfg_project (ce_cfg env)) (heartbeats (gp_db p)) of
        None \<Rightarrow> None | Some h \<Rightarrow> hb_model h)"

definition cache_inv :: "cache_env \<Rightarrow> gpu_proc \<Rightarrow> bool" where
  "cache_inv env p \<longleftrightarrow> (ch_model (gp_cache p) = None \<longleftrightarrow> ch_handle (gp_cache p) = None) \<and>
     0 \<le> ch_active (gp_cache p) \<and> advertised env p = ch_model (gp_cache p)"

lemma beat_after_upsert:
  assumes "hb_key r = (h, q, prj)" and "\<And>x. hb_key (f x) = hb_key x"
  shows "row_of hb_key k (sql_upsert (\<lambda>x. hb_host x = h \<and> hb_queue x = q \<and> hb_project x = prj) f r rows) =
    (if k = (h, q, prj) then Some (case row_of hb_key (h, q, prj) rows of None \<Rightarrow> r | Some x \<Rightarrow> f x)
     else row_of hb_key k rows)"
  using row_of_upsert[of hb_key r "(h, q, prj)" f k rows] assms by simp

lemma publish_simps [simp]:
  "gp_cache (publish_current_model env m p) = gp_cache p"
  "gp_registry (publish_current_model env m p) = gp_registry p"
  "advertised env (publish_current_model env m p) = m"
  by (simp_all add: publish_current_model_def advertised_def upsert_worker_heartbeat_def Let_def
      project_of_def beat_after_upsert split: option.splits)

lemma advertised_frame [simp]:
  "advertised env (p\<lparr>gp_cache := c\<rparr>) = advertised env p"
  "advertised env (p\<lparr>gp_registry := r\<rparr>) = advertised env p"
  by (simp_all add: advertised_def)

lemma lookup_model_frame:
  assumes "lookup_model env k p = (r, p')"
  shows "gp_cache p' = gp_cache p \<and> advertised env p' = advertised env p"
  using assms by (auto simp: lookup_model_def split: sum.splits)

lemma drop_cache_empty: "ch_model c = None \<longleftrightarrow> ch_handle c = None \<Longrightarrow>
    ch_model (drop_cache c) = None \<and> ch_handle (drop_cache c) = None \<and> ch_active (drop_cache c) = ch_active c"
  by (simp add: drop_cache_def)

lemma reaper_frame [simp]:
  "ch_model (ensure_idle_reaper env c) = ch_model c" "ch_handle (ensure_idle_reaper env c) = ch_handle c"
  "ch_active (ensure_idle_reaper env c) = ch_active c" "ch_last_used (ensure_idle_reaper env c) = ch_last_used c"
  by (simp_all add: ensure_idle_reaper_def)

text \<open>The four outcomes of \<open>require_model\<close>.\<close>

lemma require_model_cases:
  assumes inv: "cache_inv env p" and run: "require_model env k t p = (r, p')"
  obtains (warm) h where "ch_model (gp_cache p) = Some k" "ch_handle (gp_cache p) = Some h" "r = Inr h"
      "ch_model (gp_cache p') = Some k" "ch_handle (gp_cache p') = Some h"
      "ch_active (gp_cache p') = ch_active (gp_cache p)" "advertised env p' = Some k"
  | (loaded) h where "ch_model (gp_cache p) \<noteq> Some k" "r = Inr h" "ch_model (gp_cache p') = Some k"
      "ch_handle (gp_cache p') = Some h" "ch_active (gp_cache p') = ch_active (gp_cache p)"
      "advertised env p' = Some k"
  | (failed) e where "ch_model (gp_cache p) \<noteq> Some k" "r = Inl e" "ch_model (gp_cache p') = None"
      "ch_handle (gp_cache p') = None" "ch_active (gp_cache p') = ch_active (gp_cache p)"
      "advertised env p' = None"
proof -
  let ?c = "ensure_idle_reaper env ((gp_cache p)\<lparr>ch_last_used := t\<rparr>)"
  let ?p2 = "publish_current_model env None (p\<lparr>gp_cache := drop_cache ?c\<rparr>)"
  have slot: "ch_model (gp_cache p) = None \<longleftrightarrow> ch_handle (gp_cache p) = None"
    and adv: "advertised env p = ch_model (gp_cache p)" using inv by (simp_all add: cache_inv_def)
  have drop: "ch_model (drop_cache ?c) = None" "ch_handle (drop_cache ?c) = None"
    "ch_active (drop_cache ?c) = ch_active (gp_cache p)"
    using drop_cache_empty[of ?c] slot by simp_all
  show thesis
  proof (cases "ch_model (gp_cache p) = Some k")
    case True
    then obtain h where h: "ch_handle (gp_cache p) = Some h" using slot by (cases "ch_handle (gp_cache p)") auto
    with True run have "r = Inr h" "p' = p\<lparr>gp_cache := ?c\<rparr>" by (auto simp: require_model_def Let_def)
    with True h adv show thesis by (intro warm) auto
  next
    case False
    then have body: "(r, p') = (case lookup_model env k ?p2 of
        (Inl e, p3) \<Rightarrow> (Inl e, p3)
      | (Inr spec, p3) \<Rightarrow> (case ce_loader env (ms_id spec) of
           Inl e \<Rightarrow> (Inl e, p3)
         | Inr h \<Rightarrow> (Inr h, publish_current_model env (Some k)
             (p3\<lparr>gp_cache := (gp_cache p3)\<lparr>ch_handle := Some h, ch_model := Some k\<rparr>\<rparr>))))"
      using run by (auto simp: require_model_def Let_def)
    obtain s p3 where lk: "lookup_model env k ?p2 = (s, p3)" by fastforce
    have p3: "gp_cache p3 = drop_cache ?c" "advertised env p3 = None" using lookup_model_frame[OF lk] by simp_all
    show thesis
    proof (cases "\<exists>spec h. s = Inr spec \<and> ce_loader env (ms_id spec) = Inr h")
      case True
      then obtain h where "r = Inr h" "p' = publish_current_model env (Some k)
             (p3\<lparr>gp_cache := (gp_cache p3)\<lparr>ch_handle := Some h, ch_model := Some k\<rparr>\<rparr>)"
        using body lk by auto
      with False p3 drop show thesis by (intro loaded) auto
    next
      case no: False
      then obtain e where "r = Inl e" "p' = p3" using body lk by (auto split: sum.splits)
      with False p3 drop show thesis by (intro failed) auto
    qed
  qed
qed

section \<open>Histories\<close>

text \<open>What happens to the slot over time: the worker's calls and the reaper thread's ticks, each under the lock.\<close>

datatype cache_op = Require string int | Busy | Idle int | Reap int

fun cache_do :: "cache_env \<Rightarrow> cache_op \<Rightarrow> gpu_proc \<Rightarrow> gpu_proc" where
  "cache_do env (Require k t) p = snd (require_model env k t p)"
| "cache_do env Busy p = mark_busy p"
| "cache_do env (Idle t) p = mark_idle t p"
| "cache_do env (Reap t) p = snd (reap_idle_once env t p)"

lemma cache_do_inv: "cache_inv env p \<Longrightarrow> cache_inv env (cache_do env op p)"
proof (cases op)
  case (Require k t)
  assume inv: "cache_inv env p"
  show ?thesis using inv prod.collapse[symmetric, of "require_model env k t p"]
    by (rule require_model_cases) (use inv Require in \<open>auto simp: cache_inv_def\<close>)
next
  case (Reap t)
  assume "cache_inv env p"
  then show ?thesis using Reap drop_cache_empty[of "gp_cache p"]
    by (auto simp: reap_idle_once_def cache_inv_def Let_def)
qed (auto simp: cache_inv_def mark_busy_def mark_idle_def)

lemma cache_history_inv: "cache_inv env p \<Longrightarrow> cache_inv env (fold (cache_do env) ops p)"
  by (induction ops arbitrary: p) (auto simp: cache_do_inv)


definition demo_cache_env :: cache_env where
  "demo_cache_env = \<lparr>ce_cfg = demo_cfg, ce_host = ''h1'',
     ce_loader = (\<lambda>k. if k = ''wan'' then Inl (RuntimeError ''CUDA out of memory'') else Inr (k @ ''-pipe'')),
     ce_registrar = (\<lambda>reg. Inr (register_model \<lparr>ms_id = ''sdxl'', ms_est_vram_gb = 8\<rparr>
       (register_model \<lparr>ms_id = ''wan'', ms_est_vram_gb = 24\<rparr> reg))), ce_no_reaper = False\<rparr>"


end
