(* ===== verification/Storage_Backend.thy ===== *)
theory Storage_Backend
  imports Queue_Interface
begin

text \<open>
  The storage-backend port of \<^verbatim>\<open>backends/base.py\<close>: the job and event shapes, the operations of a
  backend as a record of functions, and the contract of the docstrings as a locale. The contract is
  shown to be a leased work queue, so the delivery bounds hold for whatever backend meets it. The
  backends (\<open>Table_Backends\<close>, \<open>Redis_Backend\<close>) interpret the locale; the GPU pool is its client.
\<close>

section \<open>Jobs and events\<close>

record spi_job =
  j_id :: string
  j_queue :: string
  j_namespace :: string
  j_status :: job_status
  j_payload :: json
  j_priority :: int
  j_attempts :: nat
  j_claimed :: "string option"
  j_lease :: "int option"
  j_result :: "json option"
  j_error :: "string option"
  j_created :: int
  j_updated :: int

record spi_event =
  e_seq :: nat
  e_job :: string
  e_namespace :: string
  e_queue :: string
  e_type :: string
  e_detail :: json
  e_created :: int

text \<open>\<^verbatim>\<open>TERMINAL_STATUSES\<close>\<close>

definition spi_terminal :: "job_status \<Rightarrow> bool" where
  "spi_terminal st \<longleftrightarrow> st = Completed \<or> st = Failed"

text \<open>\<^verbatim>\<open>StorageBackend.__init__\<close>: the namespace an instance is bound to.\<close>

definition bound_namespace :: "string \<Rightarrow> string" where
  "bound_namespace ns = (if ns = [] then ''default'' else ns)"

text \<open>\<^verbatim>\<open>x or {}\<close>\<close>

definition or_empty :: "json \<Rightarrow> json" where
  "or_empty v = (if truthy v then v else JObj [])"

definition queued_job :: "string \<Rightarrow> string \<Rightarrow> string \<Rightarrow> json \<Rightarrow> int \<Rightarrow> int \<Rightarrow> spi_job" where
  "queued_job jid ns queue payload priority t =
     \<lparr>j_id = jid, j_queue = queue, j_namespace = ns, j_status = Queued, j_payload = or_empty payload,
      j_priority = priority, j_attempts = 0, j_claimed = None, j_lease = None, j_result = None,
      j_error = None, j_created = t, j_updated = t\<rparr>"

text \<open>How a job ends: with a result, or with an error.\<close>

datatype ending = Ends_completed "json option" | Ends_failed "string option"

fun ending_status :: "ending \<Rightarrow> job_status" where
  "ending_status (Ends_completed _) = Completed"
| "ending_status (Ends_failed _) = Failed"

fun ending_result :: "ending \<Rightarrow> json option" where
  "ending_result (Ends_completed r) = r"
| "ending_result (Ends_failed _) = None"

fun ending_error :: "ending \<Rightarrow> string option" where
  "ending_error (Ends_completed _) = None"
| "ending_error (Ends_failed e) = e"

text \<open>The three transitions a row goes through, each at the time \<open>t\<close>.\<close>

definition claim_stamp :: "string option \<Rightarrow> int \<Rightarrow> int \<Rightarrow> ('a spi_job_scheme) \<Rightarrow> 'a spi_job_scheme" where
  "claim_stamp worker lease t j =
     j\<lparr>j_status := Running, j_claimed := worker, j_lease := Some (t + lease),
       j_attempts := Suc (j_attempts j), j_updated := t\<rparr>"

definition unclaim :: "int \<Rightarrow> ('a spi_job_scheme) \<Rightarrow> 'a spi_job_scheme" where
  "unclaim t j = j\<lparr>j_status := Queued, j_claimed := None, j_lease := None, j_updated := t\<rparr>"

definition end_job :: "job_status \<Rightarrow> json option \<Rightarrow> string option \<Rightarrow> int \<Rightarrow> ('a spi_job_scheme) \<Rightarrow>
    'a spi_job_scheme" where
  "end_job st result error t j = j\<lparr>j_status := st, j_result := result, j_error := error, j_updated := t\<rparr>"

definition renew_stamp :: "int \<Rightarrow> int \<Rightarrow> ('a spi_job_scheme) \<Rightarrow> 'a spi_job_scheme" where
  "renew_stamp lease t j = j\<lparr>j_lease := Some (t + lease), j_updated := t\<rparr>"

lemmas row_defs = claim_stamp_def unclaim_def end_job_def renew_stamp_def

definition on_queue :: "string option \<Rightarrow> ('a spi_job_scheme) \<Rightarrow> bool" where
  "on_queue qo j \<longleftrightarrow> (case qo of None \<Rightarrow> True | Some q \<Rightarrow> j_queue j = q)"

section \<open>The operations\<close>

text \<open>The operator rows: a worker's heartbeat and its ON/OFF control.\<close>

record qw_worker =
  qw_ns :: string
  qw_host :: string
  qw_queue :: string
  qw_model :: "string option"
  qw_last_seen :: int

record qw_control =
  qc_ns :: string
  qc_host :: string
  qc_queue :: string
  qc_desired :: string
  qc_policy :: string
  qc_requested_by :: "string option"
  qc_updated :: int

text \<open>
  \<open>be_enqueue queue payload id priority\<close> takes the id that was given or drawn; \<open>be_terminal id
  ending event\<close> is the four terminal methods, with the event of the \<^verbatim>\<open>*_with_event\<close> ones.
  \<open>be_wait\<close> is the clock moving on between two calls.
\<close>

record 's backend =
  be_enqueue :: "string \<Rightarrow> json \<Rightarrow> string \<Rightarrow> int \<Rightarrow> ('s, string) act"
  be_claim :: "string \<Rightarrow> string \<Rightarrow> int \<Rightarrow> 's \<Rightarrow> spi_job option \<times> 's"
  be_renew :: "string \<Rightarrow> string \<Rightarrow> int \<Rightarrow> 's \<Rightarrow> bool \<times> 's"
  be_reclaim :: "string option \<Rightarrow> 's \<Rightarrow> string list \<times> 's"
  be_requeue :: "string \<Rightarrow> 's \<Rightarrow> spi_job option \<times> 's"
  be_terminal :: "string \<Rightarrow> ending \<Rightarrow> (string \<times> json) option \<Rightarrow> 's \<Rightarrow> spi_job option \<times> 's"
  be_get :: "string \<Rightarrow> 's \<Rightarrow> spi_job option"
  be_counts :: "string \<Rightarrow> job_status \<Rightarrow> 's \<Rightarrow> int"
  be_events :: "nat \<Rightarrow> nat \<Rightarrow> 's \<Rightarrow> spi_event list"
  be_workers :: "string \<Rightarrow> 's \<Rightarrow> qw_worker list"
  be_wait :: "nat \<Rightarrow> 's \<Rightarrow> 's"

text \<open>One call, with its answer.\<close>

datatype spi_op =
    Enqueue string json string int
  | Claim_next string string int
  | Renew string string int
  | Reclaim_expired "string option"
  | Requeue string
  | Terminate string ending "(string \<times> json) option"
  | Wait nat

datatype spi_out =
    Enqueued string
  | Raised py_error
  | Job_out "spi_job option"
  | Flag bool
  | Ids "string list"
  | Waited

fun spi_exec :: "'s backend \<Rightarrow> spi_op \<Rightarrow> 's \<Rightarrow> spi_out \<times> 's" where
  "spi_exec be (Enqueue q p k pri) s =
     (case be_enqueue be q p k pri s of (Inl e, s') \<Rightarrow> (Raised e, s') | (Inr i, s') \<Rightarrow> (Enqueued i, s'))"
| "spi_exec be (Claim_next q w l) s = (case be_claim be q w l s of (j, s') \<Rightarrow> (Job_out j, s'))"
| "spi_exec be (Renew k w l) s = (case be_renew be k w l s of (b, s') \<Rightarrow> (Flag b, s'))"
| "spi_exec be (Reclaim_expired qo) s = (case be_reclaim be qo s of (is, s') \<Rightarrow> (Ids is, s'))"
| "spi_exec be (Requeue k) s = (case be_requeue be k s of (j, s') \<Rightarrow> (Job_out j, s'))"
| "spi_exec be (Terminate k en ev) s = (case be_terminal be k en ev s of (j, s') \<Rightarrow> (Job_out j, s'))"
| "spi_exec be (Wait n) s = (Waited, be_wait be n s)"

section \<open>The abstract queue\<close>

text \<open>
  What the docstrings of \<^verbatim>\<open>base.py\<close> promise, as a transition relation over a map of jobs and a log
  of events. A claim takes a job of the highest priority among the queued ones of its queue; which
  of several equals is left open. A backend may read an empty worker name or error text back as
  none, and may drop an event without a type.
\<close>

record spec_queue =
  sp_jobs :: "string \<rightharpoonup> spi_job"
  sp_events :: "spi_event list"

definition put :: "string \<Rightarrow> spi_job \<Rightarrow> spec_queue \<Rightarrow> spec_queue" where
  "put k j a = a\<lparr>sp_jobs := (sp_jobs a)(k \<mapsto> j)\<rparr>"

definition queued_on :: "spec_queue \<Rightarrow> string \<Rightarrow> string \<Rightarrow> spi_job \<Rightarrow> bool" where
  "queued_on a q k j \<longleftrightarrow> sp_jobs a k = Some j \<and> j_queue j = q \<and> j_status j = Queued"

definition text_kept :: "string option \<Rightarrow> string option \<Rightarrow> bool" where
  "text_kept x y \<longleftrightarrow> y = x \<or> x = Some [] \<and> y = None"

text \<open>A job that a terminal call ends: it is there and not terminal.\<close>

definition open_job :: "spec_queue \<Rightarrow> string \<Rightarrow> spi_job \<Rightarrow> bool" where
  "open_job a k j \<longleftrightarrow> sp_jobs a k = Some j \<and> \<not> spi_terminal (j_status j)"

definition event_appended :: "string \<Rightarrow> string \<Rightarrow> (string \<times> json) option \<Rightarrow> spi_event list \<Rightarrow> spi_event list \<Rightarrow> bool" where
  "event_appended k q ev es es' \<longleftrightarrow>
     (case ev of
        None \<Rightarrow> es' = es
      | Some (ty, d) \<Rightarrow> ty = [] \<and> es' = es \<or>
          (\<exists>e. es' = es @ [e] \<and> e_job e = k \<and> e_queue e = q \<and> e_type e = ty \<and> e_detail e = or_empty d \<and>
               (\<forall>x\<in>set es. e_seq x < e_seq e)))"

text \<open>What a sweep at time \<open>t\<close> does: exactly the named jobs return to the queue.\<close>

definition swept :: "int \<Rightarrow> string option \<Rightarrow> string list \<Rightarrow> spec_queue \<Rightarrow> spec_queue \<Rightarrow> bool" where
  "swept t qo ids a a' \<longleftrightarrow>
     distinct ids \<and> sp_events a' = sp_events a \<and>
     (\<forall>k. if k \<in> set ids
          then (\<exists>j l. sp_jobs a k = Some j \<and> j_status j = Running \<and> on_queue qo j \<and> j_lease j = Some l \<and> l \<le> t \<and>
                    sp_jobs a' k = Some (unclaim t j))
          else sp_jobs a' k = sp_jobs a k \<and>
               (\<forall>j l. sp_jobs a k = Some j \<longrightarrow> j_status j = Running \<longrightarrow> on_queue qo j \<longrightarrow> j_lease j = Some l \<longrightarrow> t \<le> l))"

inductive spec_step :: "spec_queue \<Rightarrow> spi_op \<Rightarrow> spi_out \<Rightarrow> spec_queue \<Rightarrow> bool" where
  spec_enqueue: "sp_jobs a k = None \<Longrightarrow>
    spec_step a (Enqueue q p k pri) (Enqueued k) (put k (queued_job k ns q p pri t) a)"
| spec_enqueue_taken: "spec_step a (Enqueue q p k pri) (Raised UniqueViolation) a"
| spec_claim: "queued_on a q k j \<Longrightarrow> (\<And>i j2. queued_on a q i j2 \<Longrightarrow> j_priority j2 \<le> j_priority j) \<Longrightarrow>
    text_kept (Some w) c \<Longrightarrow> j' = claim_stamp c l t j \<Longrightarrow>
    spec_step a (Claim_next q w l) (Job_out (Some j')) (put k j' a)"
| spec_claim_none: "(\<And>i j2. \<not> queued_on a q i j2) \<Longrightarrow> spec_step a (Claim_next q w l) (Job_out None) a"
| spec_renew: "sp_jobs a k = Some j \<Longrightarrow> j_status j = Running \<Longrightarrow> text_kept (Some w) (j_claimed j) \<Longrightarrow>
    spec_step a (Renew k w l) (Flag True) (put k (renew_stamp l t j) a)"
| spec_renew_lost: "(\<And>j. sp_jobs a k = Some j \<Longrightarrow> j_status j = Running \<Longrightarrow> j_claimed j \<noteq> Some w) \<Longrightarrow>
    spec_step a (Renew k w l) (Flag False) a"
| spec_reclaim: "swept t qo ids a a' \<Longrightarrow> spec_step a (Reclaim_expired qo) (Ids ids) a'"
| spec_requeue: "open_job a k j \<Longrightarrow> j' = unclaim t j \<Longrightarrow> spec_step a (Requeue k) (Job_out (Some j')) (put k j' a)"
| spec_requeue_none: "(\<And>j. \<not> open_job a k j) \<Longrightarrow> spec_step a (Requeue k) (Job_out None) a"
| spec_terminate: "open_job a k j \<Longrightarrow> text_kept (ending_error en) err \<Longrightarrow>
    j' = end_job (ending_status en) (ending_result en) err t j \<Longrightarrow>
    event_appended k (j_queue j) ev (sp_events a) es' \<Longrightarrow>
    spec_step a (Terminate k en ev) (Job_out (Some j')) (put k j' a\<lparr>sp_events := es'\<rparr>)"
| spec_terminate_none: "(\<And>j. \<not> open_job a k j) \<Longrightarrow> spec_step a (Terminate k en ev) (Job_out None) a"
| spec_wait: "spec_step a (Wait n) Waited a"

inductive_cases spec_enqueueE: "spec_step a (Enqueue q p k pri) out a'"
inductive_cases spec_claimE: "spec_step a (Claim_next q w l) out a'"
inductive_cases spec_renewE: "spec_step a (Renew k w l) out a'"
inductive_cases spec_reclaimE: "spec_step a (Reclaim_expired qo) out a'"
inductive_cases spec_requeueE: "spec_step a (Requeue k) out a'"
inductive_cases spec_terminateE: "spec_step a (Terminate k en ev) out a'"
inductive_cases spec_waitE: "spec_step a (Wait n) out a'"

text \<open>A session: calls and their answers, one after the other.\<close>

inductive spec_run :: "spec_queue \<Rightarrow> (spi_op \<times> spi_out) list \<Rightarrow> spec_queue \<Rightarrow> bool" where
  spec_done: "spec_run a [] a"
| spec_more: "spec_step a op out b \<Longrightarrow> spec_run b tr c \<Longrightarrow> spec_run a ((op, out) # tr) c"

inductive_cases spec_run_NilE: "spec_run a [] c"
inductive_cases spec_run_ConsE: "spec_run a (x # tr) c"

definition spec_ok :: "spec_queue \<Rightarrow> bool" where
  "spec_ok a \<longleftrightarrow>
     (\<forall>k j. sp_jobs a k = Some j \<longrightarrow> j_id j = k \<and> (j_status j = Queued \<or> j_status j = Running \<or> spi_terminal (j_status j)))"

lemma spec_ok_id: "spec_ok a \<Longrightarrow> sp_jobs a k = Some j \<Longrightarrow> j_id j = k"
  by (simp add: spec_ok_def)

lemma sp_jobs_put [simp]: "sp_jobs (put k j a) = (sp_jobs a)(k \<mapsto> j)"
  by (simp add: put_def)

lemma sp_events_put [simp]: "sp_events (put k j a) = sp_events a"
  by (simp add: put_def)

lemmas spec_defs = queued_on_def open_job_def text_kept_def event_appended_def swept_def row_defs

lemma sweptD: "swept t qo ids a a' \<Longrightarrow>
    (k \<notin> set ids \<and> sp_jobs a' k = sp_jobs a k) \<or>
    (k \<in> set ids \<and> (\<exists>j. sp_jobs a k = Some j \<and> j_status j = Running \<and> sp_jobs a' k = Some (unclaim t j)))"
  unfolding swept_def by meson

lemma spec_step_ok:
  assumes "spec_step a op out a'" and "spec_ok a"
  shows "spec_ok a'"
  using assms
proof cases
  case (spec_reclaim t qo ids)
  have "j_id j = k \<and> (j_status j = Queued \<or> j_status j = Running \<or> spi_terminal (j_status j))"
    if "sp_jobs a' k = Some j" for k j
    using sweptD[OF spec_reclaim(3), of k] assms(2) that
    by (auto simp: spec_ok_def unclaim_def dest!: sym[of "Some _"])
  then show ?thesis by (simp add: spec_ok_def)
next
  case (spec_terminate k j en err j' t ev es')
  then show ?thesis using assms(2)
    by (cases en) (auto simp: spec_ok_def open_job_def end_job_def spi_terminal_def)
qed (auto simp: spec_ok_def queued_on_def open_job_def row_defs queued_job_def)

section \<open>What the abstract queue guarantees\<close>

text \<open>A step leaves a terminal job exactly as it is.\<close>

lemma spec_step_terminal:
  assumes "spec_step a op out a'" and "sp_jobs a k = Some j" and "spi_terminal (j_status j)"
  shows "sp_jobs a' k = Some j"
  using assms(1)
proof cases
  case (spec_reclaim t qo ids)
  then show ?thesis using sweptD[OF spec_reclaim(3), of k] assms(2,3) by (auto simp: spi_terminal_def)
qed (use assms(2,3) in \<open>auto simp: queued_on_def open_job_def spi_terminal_def\<close>)

text \<open>The two calls that put jobs back move a job from running (or queued) to queued, or not at all.\<close>

lemma spec_reclaim_moves:
  "spec_step a (Reclaim_expired qo) out a' \<Longrightarrow> sp_jobs a' k = sp_jobs a k \<or>
     (\<exists>j n. sp_jobs a k = Some j \<and> (j_status j = Queued \<or> j_status j = Running) \<and> sp_jobs a' k = Some (unclaim n j))"
  by (elim spec_reclaimE) (use sweptD in blast)

lemma spec_requeue_moves:
  "spec_step a (Requeue i) out a' \<Longrightarrow> spec_ok a \<Longrightarrow> sp_jobs a' k = sp_jobs a k \<or>
     (\<exists>j n. sp_jobs a k = Some j \<and> (j_status j = Queued \<or> j_status j = Running) \<and> sp_jobs a' k = Some (unclaim n j))"
  by (elim spec_requeueE) (auto simp: open_job_def spec_ok_def)

text \<open>The deliveries of a job in a session.\<close>

fun delivers :: "string \<Rightarrow> spi_op \<times> spi_out \<Rightarrow> bool" where
  "delivers k (Claim_next q w l, Job_out (Some j)) \<longleftrightarrow> j_id j = k"
| "delivers k _ \<longleftrightarrow> False"

text \<open>The attempts column counts them.\<close>

definition attempts_of :: "string \<Rightarrow> spec_queue \<Rightarrow> nat" where
  "attempts_of k a = (case sp_jobs a k of None \<Rightarrow> 0 | Some j \<Rightarrow> j_attempts j)"

lemma spec_step_attempts:
  assumes "spec_step a op out a'" and "spec_ok a"
  shows "attempts_of k a' = attempts_of k a + (if delivers k (op, out) then 1 else 0)"
  using assms(1)
proof cases
  case (spec_reclaim t qo ids)
  then show ?thesis using sweptD[OF spec_reclaim(3), of k] by (auto simp: attempts_of_def unclaim_def)
qed (use assms(2) in \<open>auto simp: attempts_of_def queued_on_def open_job_def row_defs queued_job_def spec_ok_def\<close>)

lemma spec_run_attempts:
  "spec_run a tr a' \<Longrightarrow> spec_ok a \<Longrightarrow> attempts_of k a' = attempts_of k a + length (filter (delivers k) tr)"
  by (induction rule: spec_run.induct) (auto simp: spec_step_attempts dest: spec_step_ok)

lemma spec_run_terminal:
  "spec_run a tr a' \<Longrightarrow> sp_jobs a k = Some j \<Longrightarrow> spi_terminal (j_status j) \<Longrightarrow> sp_jobs a' k = Some j"
  by (induction rule: spec_run.induct) (auto dest: spec_step_terminal)

text \<open>What a job is never loses: its payload, queue and priority.\<close>

lemma spec_step_payload:
  assumes "spec_step a op out a'" and "sp_jobs a k = Some j"
  shows "\<exists>j'. sp_jobs a' k = Some j' \<and> j_payload j' = j_payload j \<and> j_queue j' = j_queue j \<and> j_priority j' = j_priority j"
  using assms(1)
proof cases
  case (spec_reclaim t qo ids)
  then show ?thesis using sweptD[OF spec_reclaim(3), of k] assms(2) by (auto simp: unclaim_def)
qed (use assms(2) in \<open>auto simp: queued_on_def open_job_def row_defs\<close>)

lemma spec_run_payload:
  "spec_run a tr a' \<Longrightarrow> sp_jobs a k = Some j \<Longrightarrow>
     \<exists>j'. sp_jobs a' k = Some j' \<and> j_payload j' = j_payload j \<and> j_queue j' = j_queue j \<and> j_priority j' = j_priority j"
proof (induction arbitrary: j rule: spec_run.induct)
  case (spec_more a op out b tr c)
  from spec_step_payload[OF spec_more(1) spec_more.prems] obtain i where
    i: "sp_jobs b k = Some i" "j_payload i = j_payload j" "j_queue i = j_queue j" "j_priority i = j_priority j" by blast
  from spec_more.IH[OF i(1)] i show ?case by simp
qed simp

text \<open>
  The outbox: a job has at most one event, and only once it is terminal; when every terminal call of
  the session carries an event, a terminal job has one.
\<close>

definition events_of :: "string \<Rightarrow> spec_queue \<Rightarrow> spi_event list" where
  "events_of k a = filter (\<lambda>e. e_job e = k) (sp_events a)"

definition terminal_in :: "spec_queue \<Rightarrow> string \<Rightarrow> bool" where
  "terminal_in a k \<longleftrightarrow> (\<exists>j. sp_jobs a k = Some j \<and> spi_terminal (j_status j))"

definition outbox_ok :: "spec_queue \<Rightarrow> bool" where
  "outbox_ok a \<longleftrightarrow> (\<forall>k. length (events_of k a) \<le> (if terminal_in a k then 1 else 0))"

definition outbox_full :: "spec_queue \<Rightarrow> bool" where
  "outbox_full a \<longleftrightarrow> (\<forall>k. terminal_in a k \<longrightarrow> events_of k a \<noteq> [])"

fun with_event :: "spi_op \<Rightarrow> bool" where
  "with_event (Terminate k en ev) \<longleftrightarrow> (case ev of None \<Rightarrow> False | Some (ty, d) \<Rightarrow> ty \<noteq> [])"
| "with_event _ \<longleftrightarrow> True"

lemma end_job_terminal: "spi_terminal (j_status (end_job (ending_status en) r e t j))"
  by (cases en) (simp_all add: end_job_def spi_terminal_def)

lemma end_job_guarded: "guarded_terminal (j_status (end_job (ending_status en) r e t j))"
  by (cases en) (simp_all add: end_job_def guarded_terminal_def)

text \<open>How one step moves a job's events and whether it is terminal.\<close>

lemma spec_step_outbox:
  assumes "spec_step a op out a'"
  shows "events_of k a' = events_of k a \<and> (terminal_in a' k \<longleftrightarrow> terminal_in a k) \<or>
    \<not> terminal_in a k \<and> terminal_in a' k \<and>
    (\<exists>e. events_of k a' = events_of k a @ [e] \<or> \<not> with_event op \<and> events_of k a' = events_of k a)"
  using assms
proof cases
  case (spec_reclaim t qo ids)
  have "terminal_in a' k \<longleftrightarrow> terminal_in a k"
    using sweptD[OF spec_reclaim(3), of k] by (elim disjE) (auto simp: terminal_in_def unclaim_def spi_terminal_def)
  moreover have "sp_events a' = sp_events a" using spec_reclaim(3) by (simp add: swept_def)
  ultimately show ?thesis by (simp add: events_of_def)
next
  case (spec_terminate i j en err j' t ev es')
  show ?thesis
  proof (cases "i = k")
    case True
    have "\<not> terminal_in a k" using spec_terminate True by (auto simp: open_job_def terminal_in_def)
    moreover have "terminal_in a' k" using spec_terminate True end_job_terminal by (auto simp: terminal_in_def)
    moreover have "\<exists>e. events_of k a' = events_of k a @ [e] \<or> \<not> with_event op \<and> events_of k a' = events_of k a"
      using spec_terminate True by (auto simp: events_of_def event_appended_def split: option.splits)
    ultimately show ?thesis by simp
  next
    case False
    then have "terminal_in a' k \<longleftrightarrow> terminal_in a k" using spec_terminate by (auto simp: terminal_in_def)
    moreover have "events_of k a' = events_of k a"
      using spec_terminate False by (auto simp: events_of_def event_appended_def split: option.splits prod.splits)
    ultimately show ?thesis by simp
  qed
qed (auto simp: events_of_def terminal_in_def queued_on_def open_job_def row_defs queued_job_def spi_terminal_def)

lemma spec_run_outbox:
  "spec_run a tr a' \<Longrightarrow> outbox_ok a \<Longrightarrow>
     outbox_ok a' \<and> (outbox_full a \<longrightarrow> list_all (\<lambda>(op, out). with_event op) tr \<longrightarrow> outbox_full a')"
proof (induction rule: spec_run.induct)
  case (spec_more a op out b tr c)
  have "length (events_of k b) \<le> (if terminal_in b k then 1 else 0)" for k
    using spec_step_outbox[OF spec_more(1), of k] spec_more.prems[unfolded outbox_ok_def, rule_format, of k]
    by (auto split: if_splits)
  then have ok: "outbox_ok b" by (simp add: outbox_ok_def)
  have "outbox_full b" if "outbox_full a" "with_event op"
    unfolding outbox_full_def
  proof (intro allI impI)
    fix k
    assume "terminal_in b k"
    with spec_step_outbox[OF spec_more(1), of k] that show "events_of k b \<noteq> []" by (auto simp: outbox_full_def)
  qed
  with ok spec_more.IH show ?case by auto
qed simp

section \<open>The contract\<close>

text \<open>
  When a call is allowed: \<open>add\<close> says which ids may be enqueued, \<open>fin\<close> which jobs may be ended or sent
  back. The SQL and document backends allow everything; Redis does not check either.
\<close>

fun spi_may :: "('s \<Rightarrow> string \<Rightarrow> bool) \<Rightarrow> ('s \<Rightarrow> string \<Rightarrow> bool) \<Rightarrow> 's \<Rightarrow> spi_op \<Rightarrow> bool" where
  "spi_may add fin s (Enqueue q p k pri) = add s k"
| "spi_may add fin s (Requeue k) = fin s k"
| "spi_may add fin s (Terminate k en ev) = fin s k"
| "spi_may add fin s _ = True"

fun spi_trace :: "'s backend \<Rightarrow> spi_op list \<Rightarrow> 's \<Rightarrow> (spi_op \<times> spi_out) list \<times> 's" where
  "spi_trace be [] s = ([], s)"
| "spi_trace be (op # ops) s =
     (case spi_exec be op s of (out, s') \<Rightarrow> (case spi_trace be ops s' of (tr, t) \<Rightarrow> ((op, out) # tr, t)))"

fun spi_lawful :: "'s backend \<Rightarrow> ('s \<Rightarrow> string \<Rightarrow> bool) \<Rightarrow> ('s \<Rightarrow> string \<Rightarrow> bool) \<Rightarrow> spi_op list \<Rightarrow> 's \<Rightarrow> bool" where
  "spi_lawful be add fin [] s = True"
| "spi_lawful be add fin (op # ops) s =
     (spi_may add fin s op \<and> spi_lawful be add fin ops (snd (spi_exec be op s)))"

lemma spi_lawful_trivial [simp]: "spi_lawful be (\<lambda>_ _. True) (\<lambda>_ _. True) ops s"
proof (induction ops arbitrary: s)
  case (Cons op ops)
  then show ?case by (cases op) simp_all
qed simp

text \<open>The counters of a queue, on the abstract side.\<close>

definition keys_with :: "spec_queue \<Rightarrow> string \<Rightarrow> job_status \<Rightarrow> string set" where
  "keys_with a q st = {k. \<exists>j. sp_jobs a k = Some j \<and> j_queue j = q \<and> j_status j = st}"

locale storage_backend =
  fixes be :: "'s backend"
    and inv :: "'s \<Rightarrow> bool"
    and may_add may_end :: "'s \<Rightarrow> string \<Rightarrow> bool"
    and abs :: "'s \<Rightarrow> spec_queue"
  assumes refines: "inv s \<Longrightarrow> spi_may may_add may_end s op \<Longrightarrow> spi_exec be op s = (out, s') \<Longrightarrow>
      spec_step (abs s) op out (abs s') \<and> inv s'"
    and idle: "inv s \<Longrightarrow> spi_may may_add may_end s op \<Longrightarrow> spi_exec be op s = (Job_out None, s') \<Longrightarrow> s' = s"
    and abs_ok: "inv s \<Longrightarrow> spec_ok (abs s)"
    and get_abs: "inv s \<Longrightarrow> be_get be k s = sp_jobs (abs s) k"
    and events_abs: "inv s \<Longrightarrow>
      be_events be since limit s = take limit (filter (\<lambda>e. since < e_seq e) (sp_events (abs s)))"
    and counts_abs: "inv s \<Longrightarrow> be_counts be q st s = int (card (keys_with (abs s) q st))"
begin

text \<open>A session with the backend is a session with the abstract queue.\<close>

lemma run_refines:
  "inv s \<Longrightarrow> spi_lawful be may_add may_end ops s \<Longrightarrow> spi_trace be ops s = (tr, s') \<Longrightarrow>
     spec_run (abs s) tr (abs s') \<and> inv s' \<and> map fst tr = ops"
proof (induction ops arbitrary: s tr)
  case Nil
  then show ?case by (auto intro: spec_done)
next
  case (Cons op ops)
  obtain out s1 where ex: "spi_exec be op s = (out, s1)" by fastforce
  obtain tr1 where tr: "spi_trace be ops s1 = (tr1, s')" "tr = (op, out) # tr1"
    using Cons.prems(3) ex by (auto split: prod.splits)
  have step: "spec_step (abs s) op out (abs s1)" "inv s1"
    using refines[OF Cons.prems(1) _ ex] Cons.prems(2) by simp_all
  with Cons.IH[OF step(2) _ tr(1)] Cons.prems(2) ex tr(2) show ?case by (auto intro: spec_more)
qed

text \<open>
  Reading a job back after a session: its attempts are the claims that delivered it, and a job that
  was terminal reads back unchanged.
\<close>

lemma attempts_are_deliveries:
  assumes "inv s" and "spi_lawful be may_add may_end ops s" and "spi_trace be ops s = (tr, s')"
    and "be_get be k s = None" and "be_get be k s' = Some j"
  shows "j_attempts j = length (filter (delivers k) tr)"
  using spec_run_attempts[of "abs s" tr "abs s'" k] run_refines[OF assms(1-3)] abs_ok assms
  by (simp add: attempts_of_def get_abs)

lemma terminal_reads_back:
  assumes "inv s" and "spi_lawful be may_add may_end ops s" and "spi_trace be ops s = (tr, s')"
    and "be_get be k s = Some j" and "spi_terminal (j_status j)"
  shows "be_get be k s' = Some j"
  using spec_run_terminal[of "abs s" tr "abs s'" k j] run_refines[OF assms(1-3)] assms
  by (simp add: get_abs)

lemma exec_ok:
  "inv s \<Longrightarrow> spi_may may_add may_end s op \<Longrightarrow> spec_step (abs s) op (fst (spi_exec be op s)) (abs (snd (spi_exec be op s)))
     \<and> inv (snd (spi_exec be op s))"
  using refines[of s op] by (cases "spi_exec be op s") simp

end

section \<open>A backend is a leased queue\<close>

text \<open>The operations of a history, in the vocabulary of the queue contract.\<close>

datatype spi_claim = Spi_claim string string int
datatype spi_finish = Spi_finish ending "(string \<times> json) option"
datatype spi_back = Spi_sweep "string option" | Spi_retry string
datatype spi_other = Spi_enqueue string json string int | Spi_renew string string int | Spi_wait nat

fun claimer :: "string \<Rightarrow> string option" where
  "claimer w = (if w = [] then None else Some w)"

fun spi_who :: "spi_claim \<Rightarrow> string option" where
  "spi_who (Spi_claim q w l) = claimer w"

definition spi_status :: "'s backend \<Rightarrow> 's \<Rightarrow> string \<Rightarrow> job_status option" where
  "spi_status be s k = map_option j_status (be_get be k s)"

text \<open>The owner as the workers see it: an unnamed worker owns nothing.\<close>

definition spi_owner :: "'s backend \<Rightarrow> 's \<Rightarrow> string \<Rightarrow> string option" where
  "spi_owner be s k =
     (case be_get be k s of None \<Rightarrow> None | Some j \<Rightarrow> (case j_claimed j of None \<Rightarrow> None | Some w \<Rightarrow> claimer w))"

fun spi_do_claim :: "'s backend \<Rightarrow> spi_claim \<Rightarrow> 's \<Rightarrow> string option \<times> 's" where
  "spi_do_claim be (Spi_claim q w l) s = (case be_claim be q w l s of (r, s') \<Rightarrow> (map_option j_id r, s'))"

fun spi_do_finish :: "'s backend \<Rightarrow> spi_finish \<Rightarrow> string \<Rightarrow> 's \<Rightarrow> bool \<times> 's" where
  "spi_do_finish be (Spi_finish en ev) k s = (case be_terminal be k en ev s of (r, s') \<Rightarrow> (r \<noteq> None, s'))"

definition when_may :: "'s backend \<Rightarrow> ('s \<Rightarrow> string \<Rightarrow> bool) \<Rightarrow> ('s \<Rightarrow> string \<Rightarrow> bool) \<Rightarrow> spi_op \<Rightarrow> 's \<Rightarrow> 's" where
  "when_may be add fin op s = (if spi_may add fin s op then snd (spi_exec be op s) else s)"

fun back_op :: "spi_back \<Rightarrow> spi_op" where
  "back_op (Spi_sweep qo) = Reclaim_expired qo"
| "back_op (Spi_retry k) = Requeue k"

fun other_op :: "spi_other \<Rightarrow> spi_op" where
  "other_op (Spi_enqueue q p k pri) = Enqueue q p k pri"
| "other_op (Spi_renew k w l) = Renew k w l"
| "other_op (Spi_wait n) = Wait n"

lemma spec_back_moves:
  "spec_step a (back_op c) out a' \<Longrightarrow> spec_ok a \<Longrightarrow> sp_jobs a' k = sp_jobs a k \<or>
     (\<exists>j n. sp_jobs a k = Some j \<and> (j_status j = Queued \<or> j_status j = Running) \<and> sp_jobs a' k = Some (unclaim n j))"
  using spec_reclaim_moves[of a _ out a' k] spec_requeue_moves[of a _ out a' k] by (cases c) simp_all

lemma spec_other_keeps:
  "spec_step a (other_op e) out a' \<Longrightarrow> sp_jobs a k = Some j \<Longrightarrow> \<exists>j'. sp_jobs a' k = Some j' \<and> j_status j' = j_status j"
  by (cases e) (auto elim!: spec_enqueueE spec_renewE spec_waitE simp: renew_stamp_def)

context storage_backend
begin

lemma when_may_step:
  "inv s \<Longrightarrow> when_may be may_add may_end op s = s \<or>
     (\<exists>out. spec_step (abs s) op out (abs (when_may be may_add may_end op s)))"
  using exec_ok[of s op] by (auto simp: when_may_def)

lemma when_may_back:
  assumes "inv s"
  shows "sp_jobs (abs (when_may be may_add may_end (back_op c) s)) k = sp_jobs (abs s) k \<or>
     (\<exists>j n. sp_jobs (abs s) k = Some j \<and> (j_status j = Queued \<or> j_status j = Running) \<and>
        sp_jobs (abs (when_may be may_add may_end (back_op c) s)) k = Some (unclaim n j))"
  using when_may_step[OF assms, of "back_op c"]
proof (elim disjE exE)
  assume "when_may be may_add may_end (back_op c) s = s"
  then show ?thesis by simp
next
  fix out
  assume "spec_step (abs s) (back_op c) out (abs (when_may be may_add may_end (back_op c) s))"
  from spec_back_moves[OF this abs_ok[OF assms]] show ?thesis .
qed

lemma when_may_inv: "inv s \<Longrightarrow> inv (when_may be may_add may_end op s)"
  using exec_ok[of s op] by (simp add: when_may_def)

lemma status_abs: "inv s \<Longrightarrow> spi_status be s k = map_option j_status (sp_jobs (abs s) k)"
  by (simp add: spi_status_def get_abs)

lemma not_cancelled: "inv s \<Longrightarrow> spi_status be s k = Some t \<Longrightarrow> guarded_terminal t = spi_terminal t"
  using abs_ok[of s] by (force simp: status_abs spec_ok_def guarded_terminal_def spi_terminal_def)

lemma claim_step:
  assumes "inv s" and "be_claim be q w l s = (r, s')"
  shows "spec_step (abs s) (Claim_next q w l) (Job_out r) (abs s') \<and> inv s'"
  using refines[of s "Claim_next q w l" "Job_out r" s'] assms by simp

lemma claim_idle: "inv s \<Longrightarrow> be_claim be q w l s = (None, s') \<Longrightarrow> s' = s"
  using idle[of s "Claim_next q w l" s'] by simp

lemma claim_SomeE:
  assumes "inv s" and "be_claim be q w l s = (Some j', s')"
  obtains j c n where "queued_on (abs s) q (j_id j') j" and "text_kept (Some w) c" and "j' = claim_stamp c l n j"
    and "abs s' = put (j_id j') j' (abs s)" and "inv s'"
    and "\<And>i j2. queued_on (abs s) q i j2 \<Longrightarrow> j_priority j2 \<le> j_priority j"
proof -
  from claim_step[OF assms] obtain k j c n where step: "queued_on (abs s) q k j" "text_kept (Some w) c"
      "j' = claim_stamp c l n j" "abs s' = put k j' (abs s)" "inv s'"
      "\<And>i j2. queued_on (abs s) q i j2 \<Longrightarrow> j_priority j2 \<le> j_priority j"
    by (auto elim!: spec_claimE)
  moreover have "k = j_id j'"
    using step(1,3) spec_ok_id[OF abs_ok[OF assms(1)], of k j] by (simp add: queued_on_def claim_stamp_def)
  ultimately show thesis using that by blast
qed

lemma terminal_step:
  assumes "inv s" and "may_end s k" and "be_terminal be k en ev s = (r, s')"
  shows "spec_step (abs s) (Terminate k en ev) (Job_out r) (abs s') \<and> inv s' \<and> (r = None \<longrightarrow> s' = s)"
  using refines[of s "Terminate k en ev" "Job_out r" s'] idle[of s "Terminate k en ev" s'] assms by auto

end

sublocale storage_backend \<subseteq> leased_queue inv "spi_status be" "spi_owner be" "spi_do_claim be" spi_who may_end
  "spi_do_finish be" "\<lambda>c. when_may be may_add may_end (back_op c)" "\<lambda>e. when_may be may_add may_end (other_op e)"
proof unfold_locales
  fix s p s' and i k :: string
  assume inv: "inv s" and cl: "spi_do_claim be p s = (Some i, s')"
  obtain q w l where p: "p = Spi_claim q w l" by (cases p)
  with cl obtain j' where run: "be_claim be q w l s = (Some j', s')" and i: "i = j_id j'"
    by (auto split: prod.splits)
  obtain j c n where step: "queued_on (abs s) q i j" "text_kept (Some w) c"
      "j' = claim_stamp c l n j" "abs s' = put i j' (abs s)" and inv': "inv s'"
    using claim_SomeE[OF inv run] i by metis
  show "spi_status be s i = Some Queued \<and> spi_status be s' i = Some Running \<and> spi_owner be s' i = spi_who p"
    using step p by (auto simp: status_abs[OF inv] status_abs[OF inv'] spi_owner_def get_abs[OF inv']
        queued_on_def text_kept_def claim_stamp_def)
  show "k \<noteq> i \<Longrightarrow> spi_status be s' k = spi_status be s k \<and> spi_owner be s' k = spi_owner be s k"
    using step by (simp add: status_abs[OF inv] status_abs[OF inv'] spi_owner_def get_abs[OF inv] get_abs[OF inv'])
next
  fix s p s'
  assume inv: "inv s" and cl: "spi_do_claim be p s = (None, s')"
  then show "s' = s" using claim_idle by (cases p) (auto split: prod.splits)
next
  fix s p
  assume inv: "inv s"
  show "inv (snd (spi_do_claim be p s))" using claim_step[OF inv] by (cases p) (auto split: prod.splits)
next
  fix s t f b s' and i :: string
  assume inv: "inv s" and mf: "may_end s i" and st: "spi_status be s i = Some t" "\<not> guarded_terminal t"
    and fin: "spi_do_finish be f i s = (b, s')"
  obtain en ev where f: "f = Spi_finish en ev" by (cases f)
  obtain r where run: "be_terminal be i en ev s = (r, s')" "b = (r \<noteq> None)" using fin f by (auto split: prod.splits)
  from terminal_step[OF inv mf run(1)]
  have step: "spec_step (abs s) (Terminate i en ev) (Job_out r) (abs s')" and inv': "inv s'" by simp_all
  from st obtain j where "open_job (abs s) i j"
    using not_cancelled[OF inv st(1)] by (auto simp: status_abs[OF inv] open_job_def)
  with step run(2) show "b \<and> (\<exists>t'. spi_status be s' i = Some t' \<and> guarded_terminal t')"
    by (auto elim!: spec_terminateE simp: status_abs[OF inv'] end_job_guarded)
next
  fix s t f and i :: string
  assume inv: "inv s" and mf: "may_end s i" and st: "spi_status be s i = Some t" "guarded_terminal t"
  obtain en ev where f: "f = Spi_finish en ev" by (cases f)
  obtain r s' where run: "be_terminal be i en ev s = (r, s')" by fastforce
  have "\<not> open_job (abs s) i j" for j
    using st not_cancelled[OF inv st(1)] by (auto simp: status_abs[OF inv] open_job_def)
  with terminal_step[OF inv mf run] f run show "spi_do_finish be f i s = (False, s)"
    by (auto elim!: spec_terminateE)
next
  fix s f and i :: string
  assume inv: "inv s" and mf: "may_end s i" and st: "spi_status be s i = None"
  obtain en ev where f: "f = Spi_finish en ev" by (cases f)
  obtain r s' where run: "be_terminal be i en ev s = (r, s')" by fastforce
  have "\<not> open_job (abs s) i j" for j using st by (auto simp: status_abs[OF inv] open_job_def)
  with terminal_step[OF inv mf run] f run show "spi_do_finish be f i s = (False, s)"
    by (auto elim!: spec_terminateE)
next
  fix s f and k i :: string
  assume inv: "inv s" and mf: "may_end s i" and "k \<noteq> i"
  obtain en ev where f: "f = Spi_finish en ev" by (cases f)
  obtain r s' where run: "be_terminal be i en ev s = (r, s')" by fastforce
  have "sp_jobs (abs s') k = sp_jobs (abs s) k"
    using terminal_step[OF inv mf run] \<open>k \<noteq> i\<close> by (auto elim!: spec_terminateE)
  then show "spi_status be (snd (spi_do_finish be f i s)) k = spi_status be s k"
    using terminal_step[OF inv mf run] f run inv by (simp add: status_abs)
next
  fix s f and i :: string
  assume inv: "inv s" and mf: "may_end s i"
  then show "inv (snd (spi_do_finish be f i s))"
    using terminal_step[OF inv mf] by (cases f) (auto split: prod.splits)
next
  fix s c and k :: string
  assume inv: "inv s"
  let ?t = "when_may be may_add may_end (back_op c) s"
  show "spi_status be ?t k = spi_status be s k \<or>
      spi_status be s k = Some Running \<and> (spi_status be ?t k = Some Queued \<or> spi_status be ?t k = Some Cancelled)"
    using when_may_back[OF inv, of c k]
    by (auto simp: status_abs[OF inv] status_abs[OF when_may_inv[OF inv]] unclaim_def)
next
  fix s c
  assume "inv s"
  then show "inv (when_may be may_add may_end (back_op c) s)" by (rule when_may_inv)
next
  fix s t e and k :: string
  assume inv: "inv s" and st: "spi_status be s k = Some t"
  let ?t = "when_may be may_add may_end (other_op e) s"
  have "spi_status be ?t k = Some t"
    using when_may_step[OF inv, of "other_op e"] spec_other_keeps[of "abs s" e _ "abs ?t" k] st
    by (auto simp: status_abs[OF inv] status_abs[OF when_may_inv[OF inv]])
  then show "spi_status be ?t k = Some t \<or>
      \<not> guarded_terminal t \<and> (\<exists>t'. spi_status be ?t k = Some t' \<and> t' \<noteq> Queued)" by simp
next
  fix s e
  assume "inv s"
  then show "inv (when_may be may_add may_end (other_op e) s)" by (rule when_may_inv)
qed

section \<open>What the adapters share\<close>

text \<open>Lapsed leases, the status vocabulary and the shape of a stored log.\<close>

definition lapsed :: "int \<Rightarrow> ('a spi_job_scheme) \<Rightarrow> bool" where
  "lapsed t j \<longleftrightarrow> (case j_lease j of None \<Rightarrow> False | Some l \<Rightarrow> l < t)"

definition job_status_ok :: "('a spi_job_scheme) \<Rightarrow> bool" where
  "job_status_ok j \<longleftrightarrow> j_status j = Queued \<or> j_status j = Running \<or> spi_terminal (j_status j)"

definition log_ok :: "spi_event list \<Rightarrow> nat \<Rightarrow> bool" where
  "log_ok es n \<longleftrightarrow> sorted_wrt (<) (map e_seq es) \<and> (\<forall>e\<in>set es. e_seq e \<le> n)"

lemma log_ok_append: "log_ok es n \<Longrightarrow> e_seq e = Suc n \<Longrightarrow> log_ok (es @ [e]) (Suc n)"
  by (auto simp: log_ok_def sorted_wrt_append)

lemma log_ok_filter: "log_ok es n \<Longrightarrow> log_ok (filter P es) n"
  by (induction es) (auto simp: log_ok_def)

lemma order_log: "log_ok es n \<Longrightarrow> order_by e_seq limit es = take limit es"
  by (simp add: order_by_def log_ok_def sorted_sort_id sort_key_id_if_sorted strict_sorted_iff sorted_wrt_map
      sorted_map sorted_wrt_mono_rel[of es "\<lambda>x y. e_seq x < e_seq y" "\<lambda>x y. e_seq x \<le> e_seq y"])

lemma fetchone_list [simp]: "fetchone [] = None" "fetchone (x # xs) = Some x"
  by (simp_all add: fetchone_def)

lemma fetchone_append: "fetchone (xs @ ys) = (case fetchone xs of None \<Rightarrow> fetchone ys | Some x \<Rightarrow> Some x)"
  by (cases xs) (simp_all add: fetchone_def)

lemma row_stamps [simp]:
  "j_id (claim_stamp c l t j) = j_id j" "j_namespace (claim_stamp c l t j) = j_namespace j"
  "j_id (unclaim t j) = j_id j" "j_namespace (unclaim t j) = j_namespace j"
  "j_id (renew_stamp l t j) = j_id j" "j_namespace (renew_stamp l t j) = j_namespace j"
  "j_id (end_job st r e t j) = j_id j" "j_namespace (end_job st r e t j) = j_namespace j"
  "job_status_ok (claim_stamp c l t j)" "job_status_ok (unclaim t j)"
  "job_status_ok (renew_stamp l t j) = job_status_ok j"
  "job_status_ok (end_job (ending_status en) r e t j)"
  using end_job_terminal[of en r e t j] by (simp_all add: row_defs job_status_ok_def)

lemma not_a_job:
  "spi_exec be (Enqueue q p k pri) s \<noteq> (Job_out r, s')" "spi_exec be (Renew k w l) s \<noteq> (Job_out r, s')"
  "spi_exec be (Reclaim_expired qo) s \<noteq> (Job_out r, s')" "spi_exec be (Wait n) s \<noteq> (Job_out r, s')"
  by (auto split: prod.splits sum.splits)

lemma filter_map_le:
  "(\<And>x. x \<in> set xs \<Longrightarrow> P (g x) \<Longrightarrow> P x) \<Longrightarrow> length (filter P (map g xs)) \<le> length (filter P xs)"
  by (induction xs) (auto intro: le_SucI)

lemma filter_shrinks:
  assumes "\<And>x. x \<in> set xs \<Longrightarrow> P (g x) \<Longrightarrow> P x" and "c \<in> set xs" and "P c" and "\<not> P (g c)"
  shows "length (filter P (map g xs)) < length (filter P xs)"
  using assms
proof (induction xs)
  case (Cons x xs)
  have le: "length (filter P (map g xs)) \<le> length (filter P xs)" 
    by (rule filter_map_le) (use Cons.prems(1) in auto)
  show ?case
  proof (cases "c \<in> set xs")
    case True
    then have "length (filter P (map g xs)) < length (filter P xs)" using Cons by auto
    then show ?thesis using Cons.prems(1)[of x] by auto
  next
    case False
    then have "x = c" using Cons.prems(2) by auto
    then show ?thesis using le Cons.prems(3,4) by simp
  qed
qed simp

end
