(* ===== verification/Postgres_Backend.thy ===== *)
theory Postgres_Backend
  imports Storage_Backend
begin

text \<open>
  \<^verbatim>\<open>backends/postgres.py\<close>, the reference adapter: one table of jobs shared by all namespaces, each
  operation one SQL statement or one transaction. It meets the contract of \<open>storage_backend\<close> with no
  condition on the calls.
\<close>

section \<open>PostgreSQL\<close>

record pg_db =
  pg_now :: int
  pg_jobs :: "spi_job list"
  pg_events :: "spi_event list"
  pg_eventseq :: nat
  pg_workers :: "qw_worker list"
  pg_controls :: "qw_control list"

definition pg_enqueue :: "string \<Rightarrow> string \<Rightarrow> json \<Rightarrow> string \<Rightarrow> int \<Rightarrow> (pg_db, string) act" where
  "pg_enqueue ns queue payload jid priority s =
     (if jid \<in> j_id ` set (pg_jobs s) then (Inl UniqueViolation, s)
      else (Inr jid, s\<lparr>pg_jobs := pg_jobs s @ [queued_job jid ns queue payload priority (pg_now s)]\<rparr>))"

definition pg_update :: "(spi_job \<Rightarrow> bool) \<Rightarrow> (spi_job \<Rightarrow> spi_job) \<Rightarrow> pg_db \<Rightarrow> spi_job list \<times> pg_db" where
  "pg_update P f s = (sql_returning P f (pg_jobs s), s\<lparr>pg_jobs := sql_update P f (pg_jobs s)\<rparr>)"

definition pg_claim :: "string \<Rightarrow> string \<Rightarrow> string \<Rightarrow> int \<Rightarrow> pg_db \<Rightarrow> spi_job option \<times> pg_db" where
  "pg_claim ns queue worker lease s =
     (case first_by (\<lambda>j. (- j_priority j, j_created j, j_id j))
             (sql_select (\<lambda>j. j_namespace j = ns \<and> j_queue j = queue \<and> j_status j = Queued) (pg_jobs s)) of
        None \<Rightarrow> (None, s)
      | Some c \<Rightarrow>
          (case pg_update (\<lambda>j. j_id j = j_id c) (claim_stamp (Some worker) lease (pg_now s)) s of
             (rows, s') \<Rightarrow> (fetchone rows, s')))"

definition pg_renew :: "string \<Rightarrow> string \<Rightarrow> string \<Rightarrow> int \<Rightarrow> pg_db \<Rightarrow> bool \<times> pg_db" where
  "pg_renew ns jid worker lease s =
     (case pg_update (\<lambda>j. j_id j = jid \<and> j_namespace j = ns \<and> j_status j = Running \<and> j_claimed j = Some worker)
             (renew_stamp lease (pg_now s)) s of
        (rows, s') \<Rightarrow> (rows \<noteq> [], s'))"

definition pg_reclaim :: "string \<Rightarrow> string option \<Rightarrow> pg_db \<Rightarrow> string list \<times> pg_db" where
  "pg_reclaim ns queue s =
     (case pg_update (\<lambda>j. j_namespace j = ns \<and> j_status j = Running \<and> lapsed (pg_now s) j \<and>
             on_queue queue j) (unclaim (pg_now s)) s of
        (rows, s') \<Rightarrow> (map j_id rows, s'))"

definition pg_requeue :: "string \<Rightarrow> string \<Rightarrow> pg_db \<Rightarrow> spi_job option \<times> pg_db" where
  "pg_requeue ns jid s =
     (case pg_update (\<lambda>j. j_id j = jid \<and> j_namespace j = ns \<and> \<not> spi_terminal (j_status j))
             (unclaim (pg_now s)) s of
        (rows, s') \<Rightarrow> (fetchone rows, s'))"

text \<open>\<^verbatim>\<open>_mark\<close> and \<^verbatim>\<open>_terminal_with_event\<close>: one transaction, rolled back when no row was updated.\<close>

definition pg_terminal :: "string \<Rightarrow> string \<Rightarrow> ending \<Rightarrow> (string \<times> json) option \<Rightarrow> pg_db \<Rightarrow>
    spi_job option \<times> pg_db" where
  "pg_terminal ns jid en event s =
     (case pg_update (\<lambda>j. j_id j = jid \<and> j_namespace j = ns \<and> \<not> spi_terminal (j_status j))
             (end_job (ending_status en) (ending_result en) (ending_error en) (pg_now s)) s of
        (rows, s') \<Rightarrow>
          (case fetchone rows of
             None \<Rightarrow> (None, s)
           | Some row \<Rightarrow>
               (case event of
                  None \<Rightarrow> (Some row, s')
                | Some (etype, detail) \<Rightarrow>
                    (Some row, s'\<lparr>pg_events := pg_events s' @
                       [\<lparr>e_seq = Suc (pg_eventseq s'), e_job = jid, e_namespace = ns, e_queue = j_queue row,
                         e_type = etype, e_detail = or_empty detail, e_created = pg_now s'\<rparr>],
                       pg_eventseq := Suc (pg_eventseq s')\<rparr>))))"

definition pg_get :: "string \<Rightarrow> string \<Rightarrow> pg_db \<Rightarrow> spi_job option" where
  "pg_get ns jid s = fetchone (sql_select (\<lambda>j. j_id j = jid \<and> j_namespace j = ns) (pg_jobs s))"

definition pg_counts :: "string \<Rightarrow> string \<Rightarrow> job_status \<Rightarrow> pg_db \<Rightarrow> int" where
  "pg_counts ns queue st s =
     int (length (sql_select (\<lambda>j. j_namespace j = ns \<and> j_queue j = queue \<and> j_status j = st) (pg_jobs s)))"

definition pg_events_since :: "string \<Rightarrow> nat \<Rightarrow> nat \<Rightarrow> pg_db \<Rightarrow> spi_event list" where
  "pg_events_since ns since limit s =
     order_by e_seq limit (sql_select (\<lambda>e. e_namespace e = ns \<and> e_seq e > since) (pg_events s))"

definition pg_heartbeat :: "string \<Rightarrow> string \<Rightarrow> string \<Rightarrow> string option \<Rightarrow> pg_db \<Rightarrow> pg_db" where
  "pg_heartbeat ns host queue model s =
     s\<lparr>pg_workers := sql_upsert (\<lambda>w. (qw_ns w, qw_host w, qw_queue w) = (ns, host, queue))
         (\<lambda>w. w\<lparr>qw_model := model, qw_last_seen := pg_now s\<rparr>)
         \<lparr>qw_ns = ns, qw_host = host, qw_queue = queue, qw_model = model, qw_last_seen = pg_now s\<rparr>
         (pg_workers s)\<rparr>"

definition pg_live_workers :: "string \<Rightarrow> string \<Rightarrow> pg_db \<Rightarrow> qw_worker list" where
  "pg_live_workers ns queue s =
     sql_select (\<lambda>w. qw_ns w = ns \<and> qw_queue w = queue \<and> qw_last_seen w > pg_now s - secs 60) (pg_workers s)"

definition pg_set_control :: "string \<Rightarrow> string \<Rightarrow> string \<Rightarrow> string \<Rightarrow> string \<Rightarrow> string option \<Rightarrow> pg_db \<Rightarrow> pg_db" where
  "pg_set_control ns host queue desired policy by s =
     s\<lparr>pg_controls := sql_upsert (\<lambda>c. (qc_ns c, qc_host c, qc_queue c) = (ns, host, queue))
         (\<lambda>c. c\<lparr>qc_desired := desired, qc_policy := policy, qc_requested_by := by, qc_updated := pg_now s\<rparr>)
         \<lparr>qc_ns = ns, qc_host = host, qc_queue = queue, qc_desired = desired, qc_policy = policy,
          qc_requested_by = by, qc_updated = pg_now s\<rparr> (pg_controls s)\<rparr>"

definition pg_desired_state :: "string \<Rightarrow> string \<Rightarrow> string \<Rightarrow> pg_db \<Rightarrow> string" where
  "pg_desired_state ns host queue s =
     (case row_of (\<lambda>c. (qc_ns c, qc_host c, qc_queue c)) (ns, host, queue) (pg_controls s) of
        Some c \<Rightarrow> if qc_desired c = ''off'' then ''off'' else ''on'' | None \<Rightarrow> ''on'')"

text \<open>Time passes between two calls.\<close>

definition pg_wait :: "nat \<Rightarrow> pg_db \<Rightarrow> pg_db" where
  "pg_wait n s = s\<lparr>pg_now := pg_now s + int n\<rparr>"

definition pg_backend :: "string \<Rightarrow> pg_db backend" where
  "pg_backend ns = \<lparr>be_enqueue = pg_enqueue ns, be_claim = pg_claim ns, be_renew = pg_renew ns,
     be_reclaim = pg_reclaim ns, be_requeue = pg_requeue ns, be_terminal = pg_terminal ns, be_get = pg_get ns,
     be_counts = pg_counts ns, be_events = pg_events_since ns, be_workers = pg_live_workers ns, be_wait = pg_wait\<rparr>"

section \<open>PostgreSQL meets the contract\<close>

definition pg_inv :: "pg_db \<Rightarrow> bool" where
  "pg_inv s \<longleftrightarrow> distinct (map j_id (pg_jobs s)) \<and> list_all job_status_ok (pg_jobs s) \<and> log_ok (pg_events s) (pg_eventseq s)"

definition pg_abs :: "string \<Rightarrow> pg_db \<Rightarrow> spec_queue" where
  "pg_abs ns s = \<lparr>sp_jobs = (\<lambda>k. pg_get ns k s), sp_events = filter (\<lambda>e. e_namespace e = ns) (pg_events s)\<rparr>"

text \<open>Reading a row by its id and namespace, when ids are unique.\<close>

lemma pg_get_row:
  "distinct (map j_id (pg_jobs s)) \<Longrightarrow> pg_get ns k s =
     (case row_of j_id k (pg_jobs s) of None \<Rightarrow> None | Some j \<Rightarrow> if j_namespace j = ns then Some j else None)"
  using fetchone_returning[of j_id "pg_jobs s" "\<lambda>j. j" k "\<lambda>j. j_namespace j = ns"]
  by (simp add: pg_get_def sql_select_def sql_returning_def)

lemma pg_get_SomeD: "pg_get ns k s = Some j \<Longrightarrow> j \<in> set (pg_jobs s) \<and> j_id j = k \<and> j_namespace j = ns"
  by (auto simp: pg_get_def sql_select_def fetchone_def filter_eq_Cons_iff split: list.splits)

lemma pg_get_mem: "distinct (map j_id (pg_jobs s)) \<Longrightarrow> j \<in> set (pg_jobs s) \<Longrightarrow> pg_get (j_namespace j) (j_id j) s = Some j"
  by (simp add: pg_get_row row_of_mem)

lemma pg_get_update:
  assumes "\<And>j. P j \<Longrightarrow> j_id (f j) = j_id j \<and> j_namespace (f j) = j_namespace j"
  shows "pg_get ns k (s\<lparr>pg_jobs := sql_update P f (pg_jobs s)\<rparr>) = map_option (\<lambda>j. if P j then f j else j) (pg_get ns k s)"
proof -
  have "fetchone (filter (\<lambda>j. j_id j = k \<and> j_namespace j = ns) (sql_update P f rows)) =
      map_option (\<lambda>j. if P j then f j else j) (fetchone (filter (\<lambda>j. j_id j = k \<and> j_namespace j = ns) rows))" for rows
    by (induction rows) (auto simp: fetchone_def assms)
  then show ?thesis by (simp add: pg_get_def sql_select_def)
qed

lemma pg_get_frame [simp]:
  "pg_get ns k (s\<lparr>pg_events := es, pg_eventseq := n\<rparr>) = pg_get ns k s"
  "pg_get ns k (s\<lparr>pg_now := t\<rparr>) = pg_get ns k s"
  by (simp_all add: pg_get_def)

lemma pg_inv_update:
  assumes "pg_inv s" and "\<And>j. P j \<Longrightarrow> j_id (f j) = j_id j" and "\<And>j. P j \<Longrightarrow> job_status_ok (f j)"
  shows "pg_inv (s\<lparr>pg_jobs := sql_update P f (pg_jobs s)\<rparr>)"
  using assms by (auto simp: pg_inv_def map_sql_update list_all_iff elim!: mem_sql_updateE)

text \<open>A statement addressed to one id of the namespace hits that row or nothing.\<close>

lemma pg_update_oneE:
  assumes inv: "pg_inv s" and f: "\<And>j. j_id (f j) = j_id j \<and> j_namespace (f j) = j_namespace j"
    and run: "pg_update (\<lambda>j. j_id j = k \<and> j_namespace j = ns \<and> Q j) f s = (rows, s')"
  obtains j where "pg_get ns k s = Some j" and "Q j" and "fetchone rows = Some (f j)"
      and "pg_abs ns s' = put k (f j) (pg_abs ns s)"
  | "\<And>j. pg_get ns k s = Some j \<Longrightarrow> \<not> Q j" and "rows = []" and "s' = s"
proof -
  let ?P = "\<lambda>j. j_id j = k \<and> j_namespace j = ns \<and> Q j"
  have rows: "rows = sql_returning ?P f (pg_jobs s)" and s': "s' = s\<lparr>pg_jobs := sql_update ?P f (pg_jobs s)\<rparr>"
    using run by (auto simp: pg_update_def)
  have dist: "distinct (map j_id (pg_jobs s))" using inv by (simp add: pg_inv_def)
  have fetch: "fetchone rows = (case row_of j_id k (pg_jobs s) of None \<Rightarrow> None
      | Some j \<Rightarrow> if j_namespace j = ns \<and> Q j then Some (f j) else None)"
    unfolding rows by (rule fetchone_returning[OF dist]) (simp add: f)
  show thesis
  proof (cases "\<exists>j. pg_get ns k s = Some j \<and> Q j")
    case True
    then obtain j where j: "pg_get ns k s = Some j" "Q j" by blast
    note jd = pg_get_SomeD[OF j(1)]
    have "row_of j_id k (pg_jobs s) = Some j" using jd row_of_mem[OF dist, of j] by simp
    then have "fetchone rows = Some (f j)" using fetch j jd by simp
    moreover have "pg_get ns i s' = ((\<lambda>i. pg_get ns i s)(k \<mapsto> f j)) i" for i
      using pg_get_SomeD[of ns i s] j jd unfolding s'
      by (cases "pg_get ns i s"; cases "i = k") (auto simp: pg_get_update f)
    then have "pg_abs ns s' = put k (f j) (pg_abs ns s)" by (auto simp: pg_abs_def put_def s')
    ultimately show thesis using that(1) j by blast
  next
    case False
    then have none: "\<not> ?P j" if "j \<in> set (pg_jobs s)" for j using pg_get_mem[OF dist that] by auto
    then have "rows = []" unfolding rows by (auto simp: sql_returning_Nil_iff)
    moreover have "s' = s" using none by (simp add: s' sql_update_False)
    ultimately show thesis using that(2) False by blast
  qed
qed

lemma pg_spec_ok: "pg_inv s \<Longrightarrow> spec_ok (pg_abs ns s)"
  using pg_get_SomeD[of ns _ s]
  by (fastforce simp: spec_ok_def pg_abs_def pg_inv_def list_all_iff job_status_ok_def)

lemma pg_enqueue_step:
  assumes "pg_inv s" and "spi_exec (pg_backend ns) (Enqueue q p k pri) s = (out, s')"
  shows "spec_step (pg_abs ns s) (Enqueue q p k pri) out (pg_abs ns s') \<and> pg_inv s'"
proof (cases "k \<in> j_id ` set (pg_jobs s)")
  case True
  then show ?thesis using assms by (auto simp: pg_backend_def pg_enqueue_def intro: spec_enqueue_taken)
next
  case False
  let ?j = "queued_job k ns q p pri (pg_now s)"
  have s': "out = Enqueued k" "s' = s\<lparr>pg_jobs := pg_jobs s @ [?j]\<rparr>"
    using assms(2) False by (auto simp: pg_backend_def pg_enqueue_def)
  have none: "pg_get ns k s = None" using False pg_get_SomeD[of ns k s] by (cases "pg_get ns k s") auto
  have "pg_get ns i s' = ((\<lambda>i. pg_get ns i s)(k \<mapsto> ?j)) i" for i
    using none by (auto simp: s' pg_get_def sql_select_def fetchone_append queued_job_def split: option.splits)
  then have "pg_abs ns s' = put k ?j (pg_abs ns s)" by (auto simp: pg_abs_def put_def s')
  moreover have "pg_inv s'" using assms(1) False
    by (auto simp: s' pg_inv_def queued_job_def job_status_ok_def)
  ultimately show ?thesis using s' none by (auto simp: pg_abs_def intro!: spec_enqueue)
qed

lemma pg_claim_step:
  assumes inv: "pg_inv s" and ex: "spi_exec (pg_backend ns) (Claim_next q w l) s = (out, s')"
  shows "spec_step (pg_abs ns s) (Claim_next q w l) out (pg_abs ns s') \<and> pg_inv s' \<and> (out = Job_out None \<longrightarrow> s' = s)"
proof -
  let ?Q = "\<lambda>j. j_namespace j = ns \<and> j_queue j = q \<and> j_status j = Queued"
  let ?key = "\<lambda>j. (- j_priority j, j_created j, j_id j)"
  have dist: "distinct (map j_id (pg_jobs s))" using inv by (simp add: pg_inv_def)
  have on: "queued_on (pg_abs ns s) q i j \<longleftrightarrow> j \<in> set (filter ?Q (pg_jobs s)) \<and> j_id j = i" for i j
    using pg_get_SomeD[of ns i s j] pg_get_mem[OF dist, of j] by (auto simp: queued_on_def pg_abs_def)
  show ?thesis
  proof (cases "first_by ?key (filter ?Q (pg_jobs s))")
    case None
    then have "out = Job_out None" "s' = s" using ex by (simp_all add: pg_backend_def pg_claim_def sql_select_def)
    moreover have "filter ?Q (pg_jobs s) = []" using None by simp
    then have "\<not> queued_on (pg_abs ns s) q i j" for i j unfolding on by simp
    ultimately show ?thesis using inv by (auto intro: spec_claim_none)
  next
    case (Some c)
    have c: "c \<in> set (filter ?Q (pg_jobs s))" using Some by (rule first_by_mem)
    have max: "j_priority j2 \<le> j_priority c" if "queued_on (pg_abs ns s) q i j2" for i j2
      using first_by_min[OF Some, of j2] that unfolding on by auto
    let ?f = "claim_stamp (Some w) l (pg_now s)"
    obtain rows t where run: "pg_update (\<lambda>j. j_id j = j_id c \<and> j_namespace j = ns \<and> True) ?f s = (rows, t)" by fastforce
    have same: "j_id j = j_id c \<longleftrightarrow> j_id j = j_id c \<and> j_namespace j = ns \<and> True" if "j \<in> set (pg_jobs s)" for j
      using distinct_map_filter_eq[OF dist that, of c] c by auto
    have "pg_update (\<lambda>j. j_id j = j_id c) ?f s = (rows, t)"
      using run same unfolding pg_update_def sql_returning_def sql_update_def
      by (auto intro!: arg_cong[where f = "map ?f"] filter_cong arg_cong[where f = "\<lambda>x. s\<lparr>pg_jobs := x\<rparr>"] map_cong)
    then have out: "out = Job_out (fetchone rows)" "s' = t"
      using ex Some by (simp_all add: pg_backend_def pg_claim_def sql_select_def)
    have get: "pg_get ns (j_id c) s = Some c" using pg_get_mem[OF dist, of c] c by simp
    have inv': "pg_inv s'" using run out(2) pg_inv_update[OF inv, of _ ?f] by (auto simp: pg_update_def)
    show ?thesis
    proof (rule pg_update_oneE[OF inv _ run], goal_cases)
      case (2 j)
      then have j: "j = c" using get by simp
      have "queued_on (pg_abs ns s) q (j_id c) c" using c unfolding on by simp
      then have "spec_step (pg_abs ns s) (Claim_next q w l) (Job_out (Some (?f c))) (put (j_id c) (?f c) (pg_abs ns s))"
        by (rule spec_claim[where c = "Some w" and t = "pg_now s"]) (use max in \<open>auto simp: text_kept_def\<close>)
      with 2 j inv' out show ?case by simp
    qed (use get in auto)
  qed
qed

lemma pg_renew_step:
  assumes inv: "pg_inv s" and ex: "spi_exec (pg_backend ns) (Renew k w l) s = (out, s')"
  shows "spec_step (pg_abs ns s) (Renew k w l) out (pg_abs ns s') \<and> pg_inv s'"
proof -
  let ?Q = "\<lambda>j. j_status j = Running \<and> j_claimed j = Some w"
  obtain rows where run: "pg_update (\<lambda>j. j_id j = k \<and> j_namespace j = ns \<and> ?Q j) (renew_stamp l (pg_now s)) s = (rows, s')"
      and out: "out = Flag (rows \<noteq> [])"
    using ex by (auto simp: pg_backend_def pg_renew_def split: prod.splits)
  have "pg_inv s'" using run
    by (auto simp: pg_update_def job_status_ok_def renew_stamp_def intro!: pg_inv_update[OF inv])
  moreover have "spec_step (pg_abs ns s) (Renew k w l) out (pg_abs ns s')"
  proof (rule pg_update_oneE[OF inv _ run], goal_cases)
    case (2 j)
    then show ?case using out
      by (auto simp: pg_abs_def[of ns s] text_kept_def fetchone_def intro!: spec_renew split: list.splits)
  next
    case 3
    then show ?case using out by (auto simp: pg_abs_def intro!: spec_renew_lost)
  qed simp
  ultimately show ?thesis by simp
qed

lemma pg_requeue_step:
  assumes inv: "pg_inv s" and ex: "spi_exec (pg_backend ns) (Requeue k) s = (out, s')"
  shows "spec_step (pg_abs ns s) (Requeue k) out (pg_abs ns s') \<and> pg_inv s' \<and> (out = Job_out None \<longrightarrow> s' = s)"
proof -
  obtain rows where run: "pg_update (\<lambda>j. j_id j = k \<and> j_namespace j = ns \<and> \<not> spi_terminal (j_status j))
      (unclaim (pg_now s)) s = (rows, s')" and out: "out = Job_out (fetchone rows)"
    using ex by (auto simp: pg_backend_def pg_requeue_def split: prod.splits)
  have "pg_inv s'" using run pg_inv_update[OF inv] by (auto simp: pg_update_def)
  moreover have "spec_step (pg_abs ns s) (Requeue k) out (pg_abs ns s') \<and> (out = Job_out None \<longrightarrow> s' = s)"
  proof (rule pg_update_oneE[OF inv _ run], goal_cases)
    case (2 j)
    then show ?case using out by (auto simp: pg_abs_def[of ns s] open_job_def intro!: spec_requeue)
  next
    case 3
    then show ?case using out by (auto simp: pg_abs_def open_job_def intro!: spec_requeue_none)
  qed simp
  ultimately show ?thesis by simp
qed

lemma pg_terminate_step:
  assumes inv: "pg_inv s" and ex: "spi_exec (pg_backend ns) (Terminate k en ev) s = (out, s')"
  shows "spec_step (pg_abs ns s) (Terminate k en ev) out (pg_abs ns s') \<and> pg_inv s' \<and> (out = Job_out None \<longrightarrow> s' = s)"
proof -
  let ?f = "end_job (ending_status en) (ending_result en) (ending_error en) (pg_now s)"
  obtain rows t where run: "pg_update (\<lambda>j. j_id j = k \<and> j_namespace j = ns \<and> \<not> spi_terminal (j_status j)) ?f s = (rows, t)"
    by fastforce
  have invt: "pg_inv t" using run pg_inv_update[OF inv, of _ ?f] by (auto simp: pg_update_def)
  have evs: "pg_events t = pg_events s" "pg_eventseq t = pg_eventseq s" using run by (auto simp: pg_update_def)
  show ?thesis
  proof (rule pg_update_oneE[OF inv _ run], goal_cases)
    case (2 j)
    let ?new = "\<lambda>ty d. \<lparr>e_seq = Suc (pg_eventseq t), e_job = k, e_namespace = ns, e_queue = j_queue (?f j),
        e_type = ty, e_detail = or_empty d, e_created = pg_now t\<rparr>"
    have s': "out = Job_out (Some (?f j))"
      "s' = (case ev of None \<Rightarrow> t | Some (ty, d) \<Rightarrow> t\<lparr>pg_events := pg_events t @ [?new ty d], pg_eventseq := Suc (pg_eventseq t)\<rparr>)"
      using ex run 2(3) by (auto simp: pg_backend_def pg_terminal_def split: option.splits)
    have "pg_inv s'" using invt log_ok_append[of "pg_events t" "pg_eventseq t"]
      by (auto simp: s' pg_inv_def split: option.splits)
    moreover have "pg_abs ns s' = (put k (?f j) (pg_abs ns s))\<lparr>sp_events := sp_events (pg_abs ns s')\<rparr>"
      using 2(4) by (auto simp: s' pg_abs_def put_def split: option.splits)
    moreover have "event_appended k (j_queue j) ev (sp_events (pg_abs ns s)) (sp_events (pg_abs ns s'))"
      using inv evs by (auto simp: s' event_appended_def pg_abs_def pg_inv_def log_ok_def end_job_def
          split: option.splits)
    moreover have "open_job (pg_abs ns s) k j" using 2 by (simp add: open_job_def pg_abs_def)
    ultimately show ?case using s'(1) spec_terminate[of "pg_abs ns s" k j en "ending_error en" "?f j" "pg_now s" ev "sp_events (pg_abs ns s')"]
      by (simp add: text_kept_def)
  next
    case 3
    then show ?case using inv ex run
      by (auto simp: pg_backend_def pg_terminal_def pg_abs_def open_job_def intro!: spec_terminate_none)
  qed simp
qed

lemma pg_reclaim_step:
  assumes inv: "pg_inv s" and ex: "spi_exec (pg_backend ns) (Reclaim_expired qo) s = (out, s')"
  shows "spec_step (pg_abs ns s) (Reclaim_expired qo) out (pg_abs ns s') \<and> pg_inv s'"
proof -
  let ?P = "\<lambda>j. j_namespace j = ns \<and> j_status j = Running \<and> lapsed (pg_now s) j \<and> on_queue qo j"
  let ?ids = "map j_id (filter ?P (pg_jobs s))"
  have s': "out = Ids ?ids" "s' = s\<lparr>pg_jobs := sql_update ?P (unclaim (pg_now s)) (pg_jobs s)\<rparr>"
    using ex by (auto simp: pg_backend_def pg_reclaim_def pg_update_def sql_returning_def)
  have dist: "distinct (map j_id (pg_jobs s))" using inv by (simp add: pg_inv_def)
  have mem: "k \<in> set ?ids \<longleftrightarrow> (\<exists>j. pg_get ns k s = Some j \<and> ?P j)" for k
    using pg_get_SomeD[of ns k s] pg_get_mem[OF dist] by fastforce
  have get: "pg_get ns k s' = map_option (\<lambda>j. if ?P j then unclaim (pg_now s) j else j) (pg_get ns k s)" for k
    unfolding s' by (rule pg_get_update) simp
  have "swept (pg_now s) qo ?ids (pg_abs ns s) (pg_abs ns s')"
    unfolding swept_def
  proof (intro conjI allI)
    show "distinct ?ids" using dist by (simp add: distinct_map_filter)
    show "sp_events (pg_abs ns s') = sp_events (pg_abs ns s)" by (simp add: pg_abs_def s')
    fix k
    show "if k \<in> set ?ids
      then \<exists>j l. sp_jobs (pg_abs ns s) k = Some j \<and> j_status j = Running \<and> on_queue qo j \<and> j_lease j = Some l \<and>
        l \<le> pg_now s \<and> sp_jobs (pg_abs ns s') k = Some (unclaim (pg_now s) j)
      else sp_jobs (pg_abs ns s') k = sp_jobs (pg_abs ns s) k \<and>
        (\<forall>j l. sp_jobs (pg_abs ns s) k = Some j \<longrightarrow> j_status j = Running \<longrightarrow> on_queue qo j \<longrightarrow> j_lease j = Some l \<longrightarrow> pg_now s \<le> l)"
      unfolding mem using get[of k] pg_get_SomeD[of ns k s]
      by (cases "pg_get ns k s") (auto simp: pg_abs_def lapsed_def split: option.splits)
  qed
  moreover have "pg_inv s'" unfolding s' by (rule pg_inv_update[OF inv]) auto
  ultimately show ?thesis by (auto simp: s'(1) intro: spec_reclaim)
qed

lemma pg_counts_abs: "pg_inv s \<Longrightarrow> pg_counts ns q st s = int (card (keys_with (pg_abs ns s) q st))"
proof -
  assume inv: "pg_inv s"
  then have dist: "distinct (map j_id (pg_jobs s))" by (simp add: pg_inv_def)
  let ?rows = "filter (\<lambda>j. j_namespace j = ns \<and> j_queue j = q \<and> j_status j = st) (pg_jobs s)"
  have "keys_with (pg_abs ns s) q st = set (map j_id ?rows)"
    using pg_get_SomeD[of ns _ s] pg_get_mem[OF dist] by (fastforce simp: keys_with_def pg_abs_def)
  then have "card (keys_with (pg_abs ns s) q st) = length (map j_id ?rows)"
    using distinct_card[of "map j_id ?rows"] dist by (simp add: distinct_map_filter)
  then show ?thesis by (simp add: pg_counts_def sql_select_def)
qed

lemma pg_exec_step:
  assumes inv: "pg_inv s" and ex: "spi_exec (pg_backend ns) op s = (out, s')"
  shows "spec_step (pg_abs ns s) op out (pg_abs ns s') \<and> pg_inv s' \<and> (out = Job_out None \<longrightarrow> s' = s)"
proof (cases op)
  case (Enqueue q p k pri)
  with pg_enqueue_step[OF inv ex[unfolded Enqueue]] ex show ?thesis by (auto simp: not_a_job simp del: spi_exec.simps)
next
  case (Claim_next q w l)
  with pg_claim_step[OF inv ex[unfolded Claim_next]] show ?thesis by simp
next
  case (Renew k w l)
  with pg_renew_step[OF inv ex[unfolded Renew]] ex show ?thesis by (auto simp: not_a_job simp del: spi_exec.simps)
next
  case (Reclaim_expired qo)
  with pg_reclaim_step[OF inv ex[unfolded Reclaim_expired]] ex show ?thesis by (auto simp: not_a_job simp del: spi_exec.simps)
next
  case (Requeue k)
  with pg_requeue_step[OF inv ex[unfolded Requeue]] show ?thesis by simp
next
  case (Terminate k en ev)
  with pg_terminate_step[OF inv ex[unfolded Terminate]] show ?thesis by simp
next
  case (Wait n)
  have "pg_abs ns (pg_wait n s) = pg_abs ns s" "pg_inv (pg_wait n s)"
    using inv by (simp_all add: pg_abs_def pg_wait_def pg_inv_def)
  with Wait ex show ?thesis by (auto simp: pg_backend_def intro: spec_wait)
qed

interpretation pg: storage_backend "pg_backend ns" pg_inv "\<lambda>_ _. True" "\<lambda>_ _. True" "pg_abs ns"
  for ns
proof (unfold_locales, goal_cases)
  case (1 s op out s')
  then show ?case using pg_exec_step by blast
next
  case (2 s op s')
  then show ?case using pg_exec_step by blast
next
  case (3 s)
  then show ?case by (rule pg_spec_ok)
next
  case (4 s k)
  then show ?case by (simp add: pg_backend_def pg_abs_def)
next
  case (5 s since limit)
  then have "log_ok (filter (\<lambda>e. since < e_seq e) (filter (\<lambda>e. e_namespace e = ns) (pg_events s))) (pg_eventseq s)"
    by (simp only: pg_inv_def log_ok_filter)
  then show ?case
    by (simp add: pg_backend_def pg_events_since_def pg_abs_def sql_select_def order_log conj_commute)
next
  case (6 s q st)
  then show ?case by (simp add: pg_backend_def pg_counts_abs)
qed

end
