(* ===== verification/Mongo_Backend.thy ===== *)
theory Mongo_Backend
  imports Storage_Backend
begin

text \<open>
  \<^verbatim>\<open>backends/mongodb.py\<close>: a namespace is a database, a job a document, and each operation one
  \<^verbatim>\<open>find_one_and_update\<close>. It meets the contract of \<open>storage_backend\<close> with no condition on the calls;
  the reclaim loop is shown to return and to equal one update of all lapsed documents.
\<close>

section \<open>MongoDB\<close>

text \<open>\<^verbatim>\<open>_db_name\<close>: the database a namespace lives in.\<close>

definition word_char :: "char \<Rightarrow> bool" where
  "word_char c \<longleftrightarrow> (let n = of_char c :: nat in 48 \<le> n \<and> n \<le> 57 \<or> 65 \<le> n \<and> n \<le> 90 \<or> 97 \<le> n \<and> n \<le> 122 \<or> n = 95)"

definition mongo_db_name :: "string \<Rightarrow> string" where
  "mongo_db_name ns = ''qw_'' @ take 48 (map (\<lambda>c. if word_char c then c else CHR ''_'') ns)"

record mongo_job = spi_job +
  m_seq :: nat

record mongo_db =
  m_now :: int
  m_jobs :: "mongo_job list"
  m_events :: "spi_event list"
  m_seqs :: nat
  m_eventseq :: nat
  m_workers :: "qw_worker list"
  m_controls :: "qw_control list"

text \<open>\<^verbatim>\<open>_job\<close>: the document without its sequence number.\<close>

definition mongo_row :: "mongo_job \<Rightarrow> spi_job" where
  "mongo_row j = spi_job.truncate j"

text \<open>\<^verbatim>\<open>find_one_and_update\<close> with a sort: the first match, updated, is returned.\<close>

definition mongo_find_update :: "(mongo_job \<Rightarrow> bool) \<Rightarrow> (mongo_job \<Rightarrow> 'k::linorder) \<Rightarrow> (mongo_job \<Rightarrow> mongo_job) \<Rightarrow>
    mongo_db \<Rightarrow> mongo_job option \<times> mongo_db" where
  "mongo_find_update P key f s =
     (case first_by key (sql_select P (m_jobs s)) of
        None \<Rightarrow> (None, s)
      | Some c \<Rightarrow> (Some (f c), s\<lparr>m_jobs := sql_update (\<lambda>j. j_id j = j_id c) f (m_jobs s)\<rparr>))"

text \<open>The sequence number is drawn before the insert, which a duplicate \<^verbatim>\<open>_id\<close> makes fail.\<close>

definition mongo_enqueue :: "string \<Rightarrow> string \<Rightarrow> json \<Rightarrow> string \<Rightarrow> int \<Rightarrow> (mongo_db, string) act" where
  "mongo_enqueue ns queue payload jid priority s =
     (let s' = s\<lparr>m_seqs := Suc (m_seqs s)\<rparr>
      in if jid \<in> j_id ` set (m_jobs s) then (Inl UniqueViolation, s')
         else (Inr jid, s'\<lparr>m_jobs := m_jobs s @
           [spi_job.extend (queued_job jid ns queue payload priority (m_now s)) \<lparr>m_seq = Suc (m_seqs s)\<rparr>]\<rparr>))"

definition mongo_claim :: "string \<Rightarrow> string \<Rightarrow> int \<Rightarrow> mongo_db \<Rightarrow> spi_job option \<times> mongo_db" where
  "mongo_claim queue worker lease s =
     (case mongo_find_update (\<lambda>j. j_queue j = queue \<and> j_status j = Queued) (\<lambda>j. (- j_priority j, m_seq j))
             (claim_stamp (Some worker) lease (m_now s)) s of
        (doc, s') \<Rightarrow> (map_option mongo_row doc, s'))"

definition mongo_renew :: "string \<Rightarrow> string \<Rightarrow> int \<Rightarrow> mongo_db \<Rightarrow> bool \<times> mongo_db" where
  "mongo_renew jid worker lease s =
     (case mongo_find_update (\<lambda>j. j_id j = jid \<and> j_status j = Running \<and> j_claimed j = Some worker) (\<lambda>_. 0::nat)
             (renew_stamp lease (m_now s)) s of
        (doc, s') \<Rightarrow> (doc \<noteq> None, s'))"

text \<open>
  The loop of single updates; each one takes a document out of the filter, so one more round than
  there are documents is enough.
\<close>

fun mongo_reclaim_loop :: "nat \<Rightarrow> (mongo_job \<Rightarrow> bool) \<Rightarrow> mongo_db \<Rightarrow> (string list \<times> mongo_db) option" where
  "mongo_reclaim_loop 0 P s = None"
| "mongo_reclaim_loop (Suc fuel) P s =
     (case mongo_find_update P (\<lambda>_. 0::nat) (unclaim (m_now s)) s of
        (None, s') \<Rightarrow> Some ([], s')
      | (Some doc, s') \<Rightarrow>
          (case mongo_reclaim_loop fuel P s' of None \<Rightarrow> None | Some (ids, t) \<Rightarrow> Some (j_id doc # ids, t)))"

definition mongo_reclaim :: "string option \<Rightarrow> mongo_db \<Rightarrow> string list \<times> mongo_db" where
  "mongo_reclaim queue s =
     (case mongo_reclaim_loop (Suc (length (m_jobs s)))
             (\<lambda>j. j_status j = Running \<and> lapsed (m_now s) j \<and> on_queue queue j) s of
        Some r \<Rightarrow> r | None \<Rightarrow> ([], s))"

definition mongo_requeue :: "string \<Rightarrow> mongo_db \<Rightarrow> spi_job option \<times> mongo_db" where
  "mongo_requeue jid s =
     (case mongo_find_update (\<lambda>j. j_id j = jid \<and> \<not> spi_terminal (j_status j)) (\<lambda>_. 0::nat) (unclaim (m_now s)) s of
        (doc, s') \<Rightarrow> (map_option mongo_row doc, s'))"

text \<open>\<^verbatim>\<open>_mark\<close> and \<^verbatim>\<open>_terminal_with_event\<close>, the latter in one multi-document transaction.\<close>

definition mongo_terminal :: "string \<Rightarrow> string \<Rightarrow> ending \<Rightarrow> (string \<times> json) option \<Rightarrow> mongo_db \<Rightarrow>
    spi_job option \<times> mongo_db" where
  "mongo_terminal ns jid en event s =
     (case mongo_find_update (\<lambda>j. j_id j = jid \<and> \<not> spi_terminal (j_status j)) (\<lambda>_. 0::nat) (end_job (ending_status en) (ending_result en) (ending_error en) (m_now s)) s of
        (None, s') \<Rightarrow> (None, s')
      | (Some doc, s') \<Rightarrow>
          (case event of
             None \<Rightarrow> (Some (mongo_row doc), s')
           | Some (etype, detail) \<Rightarrow>
               (Some (mongo_row doc), s'\<lparr>m_events := m_events s' @
                  [\<lparr>e_seq = Suc (m_eventseq s'), e_job = jid, e_namespace = ns, e_queue = j_queue doc,
                    e_type = etype, e_detail = or_empty detail, e_created = m_now s'\<rparr>],
                  m_eventseq := Suc (m_eventseq s')\<rparr>)))"

definition mongo_get :: "string \<Rightarrow> mongo_db \<Rightarrow> spi_job option" where
  "mongo_get jid s = map_option mongo_row (row_of j_id jid (m_jobs s))"

definition mongo_counts :: "string \<Rightarrow> job_status \<Rightarrow> mongo_db \<Rightarrow> int" where
  "mongo_counts queue st s = int (length (sql_select (\<lambda>j. j_queue j = queue \<and> j_status j = st) (m_jobs s)))"

definition mongo_events_since :: "nat \<Rightarrow> nat \<Rightarrow> mongo_db \<Rightarrow> spi_event list" where
  "mongo_events_since since limit s = order_by e_seq limit (sql_select (\<lambda>e. e_seq e > since) (m_events s))"

text \<open>
  The operator rows: a worker document's id is \<^verbatim>\<open>queue:host\<close>, and the read leaves expiry to the TTL
  index of the server.
\<close>

definition mongo_worker_id :: "string \<Rightarrow> string \<Rightarrow> string" where
  "mongo_worker_id queue host = queue @ '':'' @ host"

definition mongo_heartbeat :: "string \<Rightarrow> string \<Rightarrow> string \<Rightarrow> string option \<Rightarrow> mongo_db \<Rightarrow> mongo_db" where
  "mongo_heartbeat ns host queue model s =
     (let doc = \<lparr>qw_ns = ns, qw_host = host, qw_queue = queue, qw_model = model, qw_last_seen = m_now s\<rparr>
      in s\<lparr>m_workers := sql_upsert (\<lambda>w. mongo_worker_id (qw_queue w) (qw_host w) = mongo_worker_id queue host)
           (\<lambda>_. doc) doc (m_workers s)\<rparr>)"

definition mongo_live_workers :: "string \<Rightarrow> mongo_db \<Rightarrow> qw_worker list" where
  "mongo_live_workers queue s = sql_select (\<lambda>w. qw_queue w = queue) (m_workers s)"

definition mongo_set_control :: "string \<Rightarrow> string \<Rightarrow> string \<Rightarrow> string \<Rightarrow> string \<Rightarrow> string option \<Rightarrow> mongo_db \<Rightarrow> mongo_db" where
  "mongo_set_control ns host queue desired policy by s =
     s\<lparr>m_controls := sql_upsert (\<lambda>c. (qc_host c, qc_queue c) = (host, queue))
         (\<lambda>c. c\<lparr>qc_desired := desired, qc_policy := policy, qc_requested_by := by, qc_updated := m_now s\<rparr>)
         \<lparr>qc_ns = ns, qc_host = host, qc_queue = queue, qc_desired = desired, qc_policy = policy,
          qc_requested_by = by, qc_updated = m_now s\<rparr> (m_controls s)\<rparr>"

definition mongo_desired_state :: "string \<Rightarrow> string \<Rightarrow> mongo_db \<Rightarrow> string" where
  "mongo_desired_state host queue s =
     (case row_of (\<lambda>c. (qc_host c, qc_queue c)) (host, queue) (m_controls s) of
        Some c \<Rightarrow> if qc_desired c = ''off'' then ''off'' else ''on'' | None \<Rightarrow> ''on'')"

definition mongo_wait :: "nat \<Rightarrow> mongo_db \<Rightarrow> mongo_db" where
  "mongo_wait n s = s\<lparr>m_now := m_now s + int n\<rparr>"

definition mongo_backend :: "string \<Rightarrow> mongo_db backend" where
  "mongo_backend ns = \<lparr>be_enqueue = mongo_enqueue ns, be_claim = mongo_claim, be_renew = mongo_renew,
     be_reclaim = mongo_reclaim, be_requeue = mongo_requeue, be_terminal = mongo_terminal ns, be_get = mongo_get,
     be_counts = mongo_counts, be_events = mongo_events_since, be_workers = mongo_live_workers, be_wait = mongo_wait\<rparr>"

section \<open>MongoDB meets the contract\<close>

definition mongo_inv :: "mongo_db \<Rightarrow> bool" where
  "mongo_inv s \<longleftrightarrow> distinct (map j_id (m_jobs s)) \<and> list_all job_status_ok (m_jobs s) \<and> log_ok (m_events s) (m_eventseq s)"

definition mongo_abs :: "mongo_db \<Rightarrow> spec_queue" where
  "mongo_abs s = \<lparr>sp_jobs = (\<lambda>k. mongo_get k s), sp_events = m_events s\<rparr>"

lemma mongo_row_simps [simp]:
  "j_id (mongo_row j) = j_id j" "j_queue (mongo_row j) = j_queue j" "j_status (mongo_row j) = j_status j"
  "j_priority (mongo_row j) = j_priority j" "j_claimed (mongo_row j) = j_claimed j" "j_lease (mongo_row j) = j_lease j"
  "mongo_row (claim_stamp c l t j) = claim_stamp c l t (mongo_row j)"
  "mongo_row (unclaim t j) = unclaim t (mongo_row j)"
  "mongo_row (renew_stamp l t j) = renew_stamp l t (mongo_row j)"
  "mongo_row (end_job st r e t j) = end_job st r e t (mongo_row j)"
  by (simp_all add: mongo_row_def spi_job.truncate_def row_defs)

lemma mongo_getE:
  assumes "mongo_get k s = Some r"
  obtains j where "j \<in> set (m_jobs s)" and "j_id j = k" and "r = mongo_row j"
  using assms by (auto simp: mongo_get_def dest: row_of_SomeD)

lemma mongo_get_mem: "distinct (map j_id (m_jobs s)) \<Longrightarrow> j \<in> set (m_jobs s) \<Longrightarrow> mongo_get (j_id j) s = Some (mongo_row j)"
  by (simp add: mongo_get_def row_of_mem)

lemma mongo_get_iff: "mongo_inv s \<Longrightarrow> mongo_get k s = Some r \<longleftrightarrow> (\<exists>j\<in>set (m_jobs s). j_id j = k \<and> r = mongo_row j)"
  by (auto simp: mongo_inv_def mongo_get_mem elim: mongo_getE)

lemma mongo_inv_update:
  assumes "mongo_inv s" and "\<And>j. P j \<Longrightarrow> j_id (f j) = j_id j" and "\<And>j. j \<in> set (m_jobs s) \<Longrightarrow> P j \<Longrightarrow> job_status_ok (f j)"
  shows "mongo_inv (s\<lparr>m_jobs := sql_update P f (m_jobs s)\<rparr>)"
  using assms by (auto simp: mongo_inv_def map_sql_update list_all_iff elim!: mem_sql_updateE)

text \<open>The update hits one document, the first of its order, or nothing.\<close>

lemma mongo_find_updateE:
  assumes inv: "mongo_inv s" and f: "\<And>j. j_id (f j) = j_id j"
    and ok: "\<And>j. j \<in> set (m_jobs s) \<Longrightarrow> P j \<Longrightarrow> job_status_ok (f j)"
    and run: "mongo_find_update P key f s = (doc, s')"
  obtains c where "c \<in> set (m_jobs s)" and "P c" and "doc = Some (f c)"
      and "\<And>j. j \<in> set (m_jobs s) \<Longrightarrow> P j \<Longrightarrow> key c \<le> key j"
      and "mongo_abs s' = put (j_id c) (mongo_row (f c)) (mongo_abs s)" and "mongo_inv s'"
      and "s' = s\<lparr>m_jobs := sql_update (\<lambda>j. j_id j = j_id c) f (m_jobs s)\<rparr>"
  | "\<And>j. j \<in> set (m_jobs s) \<Longrightarrow> \<not> P j" and "doc = None" and "s' = s"
proof (cases "first_by key (filter P (m_jobs s))")
  case None
  then have "filter P (m_jobs s) = []" by simp
  moreover have "doc = None" "s' = s" using None run by (simp_all add: mongo_find_update_def sql_select_def)
  ultimately show thesis by (intro that(2)) (simp_all add: filter_empty_conv)
next
  case (Some c)
  have dist: "distinct (map j_id (m_jobs s))" using inv by (simp add: mongo_inv_def)
  have c: "c \<in> set (m_jobs s)" "P c" using first_by_mem[OF Some] by auto
  have same: "j = c" if "j \<in> set (m_jobs s)" "j_id j = j_id c" for j
    using distinct_map_filter_eq[OF dist that(1) c(1)] that(2) by simp
  have run': "doc = Some (f c)" "s' = s\<lparr>m_jobs := sql_update (\<lambda>j. j_id j = j_id c) f (m_jobs s)\<rparr>"
    using run Some by (auto simp: mongo_find_update_def sql_select_def)
  have "row_of j_id i (sql_update (\<lambda>j. j_id j = j_id c) f (m_jobs s)) = (if i = j_id c then Some (f c) else row_of j_id i (m_jobs s))" for i
  proof (cases "i = j_id c")
    case True
    then show ?thesis using row_of_mem[OF dist c(1)] by (simp add: row_of_update[where key = j_id and f = f] f)
  next
    case False
    then have "j_id r \<noteq> j_id c" if "row_of j_id i (m_jobs s) = Some r" for r using row_of_SomeD[OF that] by simp
    then show ?thesis using False
      by (cases "row_of j_id i (m_jobs s)") (simp_all add: row_of_update[where key = j_id and f = f] f)
  qed
  then have "mongo_abs s' = put (j_id c) (mongo_row (f c)) (mongo_abs s)"
    by (auto simp: mongo_abs_def put_def run'(2) mongo_get_def)
  moreover have "mongo_inv s'" unfolding run'(2)
  proof (rule mongo_inv_update[OF inv])
    show "j_id (f j) = j_id j" for j by (rule f)
    show "job_status_ok (f j)" if "j \<in> set (m_jobs s)" "j_id j = j_id c" for j
      using same[OF that] ok[OF c] by simp
  qed
  moreover have "key c \<le> key j" if "j \<in> set (m_jobs s)" "P j" for j using first_by_min[OF Some, of j] that by simp
  ultimately show thesis using c run' by (intro that(1))
qed

lemma mongo_spec_ok: "mongo_inv s \<Longrightarrow> spec_ok (mongo_abs s)"
  by (auto simp: spec_ok_def mongo_abs_def mongo_inv_def list_all_iff job_status_ok_def elim!: mongo_getE)

lemma mongo_enqueue_step:
  assumes "mongo_inv s" and "spi_exec (mongo_backend ns) (Enqueue q p k pri) s = (out, s')"
  shows "spec_step (mongo_abs s) (Enqueue q p k pri) out (mongo_abs s') \<and> mongo_inv s'"
proof (cases "k \<in> j_id ` set (m_jobs s)")
  case True
  then have s': "out = Raised UniqueViolation" "s' = s\<lparr>m_seqs := Suc (m_seqs s)\<rparr>"
    using assms(2) by (auto simp: mongo_backend_def mongo_enqueue_def)
  then have "mongo_abs s' = mongo_abs s" "mongo_inv s'"
    using assms(1) by (simp_all add: mongo_abs_def mongo_get_def mongo_inv_def)
  then show ?thesis using s'(1) spec_enqueue_taken by simp
next
  case False
  let ?j = "queued_job k ns q p pri (m_now s)"
  let ?d = "spi_job.extend ?j \<lparr>m_seq = Suc (m_seqs s)\<rparr>"
  have s': "out = Enqueued k" "s' = s\<lparr>m_seqs := Suc (m_seqs s), m_jobs := m_jobs s @ [?d]\<rparr>"
    using assms(2) False by (auto simp: mongo_backend_def mongo_enqueue_def Let_def)
  have d: "j_id ?d = k" "mongo_row ?d = ?j" "job_status_ok ?d"
    by (simp_all add: spi_job.extend_def mongo_row_def spi_job.truncate_def queued_job_def job_status_ok_def)
  have none: "row_of j_id k (m_jobs s) = None" using False by (simp add: row_of_None)
  have "mongo_abs s' = put k ?j (mongo_abs s)"
    using d none by (auto simp: mongo_abs_def put_def s' mongo_get_def row_of_append split: option.splits)
  moreover have "mongo_inv s'" using assms(1) False d by (auto simp: s' mongo_inv_def)
  ultimately show ?thesis using s' none by (auto simp: mongo_abs_def mongo_get_def intro!: spec_enqueue)
qed

lemma mongo_claim_step:
  assumes inv: "mongo_inv s" and ex: "spi_exec (mongo_backend ns) (Claim_next q w l) s = (out, s')"
  shows "spec_step (mongo_abs s) (Claim_next q w l) out (mongo_abs s') \<and> mongo_inv s' \<and> (out = Job_out None \<longrightarrow> s' = s)"
proof -
  have on: "queued_on (mongo_abs s) q i r \<longleftrightarrow> (\<exists>j\<in>set (m_jobs s). j_id j = i \<and> r = mongo_row j \<and> j_queue j = q \<and> j_status j = Queued)" for i r
    using mongo_get_iff[OF inv] by (auto simp: queued_on_def mongo_abs_def)
  obtain doc where run: "mongo_find_update (\<lambda>j. j_queue j = q \<and> j_status j = Queued) (\<lambda>j. (- j_priority j, m_seq j))
      (claim_stamp (Some w) l (m_now s)) s = (doc, s')" and out: "out = Job_out (map_option mongo_row doc)"
    using ex by (auto simp: mongo_backend_def mongo_claim_def split: prod.splits)
  show ?thesis
  proof (rule mongo_find_updateE[OF inv _ _ run], goal_cases)
    case (3 c)
    let ?j' = "claim_stamp (Some w) l (m_now s) (mongo_row c)"
    have "queued_on (mongo_abs s) q (j_id c) (mongo_row c)" using 3 by (auto simp: on)
    then have "spec_step (mongo_abs s) (Claim_next q w l) (Job_out (Some ?j')) (put (j_id c) ?j' (mongo_abs s))"
    proof (rule spec_claim[where c = "Some w" and t = "m_now s"])
      show "j_priority j2 \<le> j_priority (mongo_row c)" if "queued_on (mongo_abs s) q i j2" for i j2
        using that 3(4) unfolding on by fastforce
    qed (simp_all add: text_kept_def)
    with 3 out show ?case by simp
  next
    case 4
    then show ?case using out inv by (auto simp: on intro!: spec_claim_none)
  qed auto
qed

lemma mongo_renew_step:
  assumes inv: "mongo_inv s" and ex: "spi_exec (mongo_backend ns) (Renew k w l) s = (out, s')"
  shows "spec_step (mongo_abs s) (Renew k w l) out (mongo_abs s') \<and> mongo_inv s'"
proof -
  obtain doc where run: "mongo_find_update (\<lambda>j. j_id j = k \<and> j_status j = Running \<and> j_claimed j = Some w) (\<lambda>_. 0::nat)
      (renew_stamp l (m_now s)) s = (doc, s')" and out: "out = Flag (doc \<noteq> None)"
    using ex by (auto simp: mongo_backend_def mongo_renew_def split: prod.splits)
  show ?thesis
  proof (rule mongo_find_updateE[OF inv _ _ run], goal_cases)
    case (3 c)
    then have "sp_jobs (mongo_abs s) k = Some (mongo_row c)" using mongo_get_iff[OF inv] by (auto simp: mongo_abs_def)
    from spec_renew[OF this, of w l "m_now s"] 3 out show ?case by (simp add: text_kept_def)
  next
    case 4
    then show ?case using out inv
      by (auto simp: mongo_abs_def mongo_get_iff[OF inv] intro!: spec_renew_lost)
  qed (auto simp: job_status_ok_def renew_stamp_def)
qed

lemma mongo_open_iff:
  "mongo_inv s \<Longrightarrow> open_job (mongo_abs s) k r \<longleftrightarrow>
     (\<exists>j\<in>set (m_jobs s). j_id j = k \<and> r = mongo_row j \<and> \<not> spi_terminal (j_status j))"
  by (auto simp: open_job_def mongo_abs_def mongo_get_iff)

lemma mongo_requeue_step:
  assumes inv: "mongo_inv s" and ex: "spi_exec (mongo_backend ns) (Requeue k) s = (out, s')"
  shows "spec_step (mongo_abs s) (Requeue k) out (mongo_abs s') \<and> mongo_inv s' \<and> (out = Job_out None \<longrightarrow> s' = s)"
proof -
  obtain doc where run: "mongo_find_update (\<lambda>j. j_id j = k \<and> \<not> spi_terminal (j_status j)) (\<lambda>_. 0::nat)
      (unclaim (m_now s)) s = (doc, s')" and out: "out = Job_out (map_option mongo_row doc)"
    using ex by (auto simp: mongo_backend_def mongo_requeue_def split: prod.splits)
  show ?thesis
  proof (rule mongo_find_updateE[OF inv _ _ run], goal_cases)
    case (3 c)
    then have "open_job (mongo_abs s) k (mongo_row c)" using mongo_open_iff[OF inv] by auto
    from spec_requeue[OF this, of _ "m_now s"] 3 out show ?case by simp
  next
    case 4
    then show ?case using out inv by (auto simp: mongo_open_iff intro!: spec_requeue_none)
  qed auto
qed

lemma mongo_terminate_step:
  assumes inv: "mongo_inv s" and ex: "spi_exec (mongo_backend ns) (Terminate k en ev) s = (out, s')"
  shows "spec_step (mongo_abs s) (Terminate k en ev) out (mongo_abs s') \<and> mongo_inv s' \<and> (out = Job_out None \<longrightarrow> s' = s)"
proof -
  let ?f = "\<lambda>j. end_job (ending_status en) (ending_result en) (ending_error en) (m_now s) j"
  obtain doc t where run: "mongo_find_update (\<lambda>j. j_id j = k \<and> \<not> spi_terminal (j_status j)) (\<lambda>_. 0::nat) ?f s = (doc, t)"
    by fastforce
  show ?thesis
  proof (rule mongo_find_updateE[OF inv _ _ run], goal_cases)
    case (3 c)
    let ?new = "\<lambda>ty d. \<lparr>e_seq = Suc (m_eventseq t), e_job = k, e_namespace = ns, e_queue = j_queue (?f c),
        e_type = ty, e_detail = or_empty d, e_created = m_now t\<rparr>"
    have s': "out = Job_out (Some (?f (mongo_row c)))"
      "s' = (case ev of None \<Rightarrow> t | Some (ty, d) \<Rightarrow> t\<lparr>m_events := m_events t @ [?new ty d], m_eventseq := Suc (m_eventseq t)\<rparr>)"
      using ex run 3(3) by (auto simp: mongo_backend_def mongo_terminal_def split: option.splits)
    have evs: "m_events t = m_events s" "m_eventseq t = m_eventseq s" using 3(7) by simp_all
    have "mongo_inv s'" using 3(6) log_ok_append[of "m_events t" "m_eventseq t"]
      by (auto simp: s' mongo_inv_def split: option.splits)
    moreover have "mongo_abs s' = (put k (?f (mongo_row c)) (mongo_abs s))\<lparr>sp_events := sp_events (mongo_abs s')\<rparr>"
      using 3(2,5) by (auto simp: s' mongo_abs_def put_def mongo_get_def split: option.splits)
    moreover have "event_appended k (j_queue (mongo_row c)) ev (sp_events (mongo_abs s)) (sp_events (mongo_abs s'))"
      using inv evs by (auto simp: s' event_appended_def mongo_abs_def mongo_inv_def log_ok_def end_job_def
          split: option.splits)
    moreover have "open_job (mongo_abs s) k (mongo_row c)" using 3(1,2) mongo_open_iff[OF inv] by auto
    ultimately show ?case using s'(1) spec_terminate[of "mongo_abs s" k "mongo_row c" en "ending_error en"
        "?f (mongo_row c)" "m_now s" ev "sp_events (mongo_abs s')"] by (simp add: text_kept_def)
  next
    case 4
    then show ?case using ex run inv
      by (auto simp: mongo_backend_def mongo_terminal_def mongo_open_iff intro!: spec_terminate_none)
  qed auto
qed

text \<open>The reclaim loop returns, and does what one update of all matching documents would.\<close>

lemma mongo_reclaim_loop_returns:
  assumes inv: "mongo_inv s" and P: "\<And>j. P (unclaim (m_now s) j) = False"
    and fuel: "length (filter P (m_jobs s)) < fuel"
  shows "\<exists>ids. mongo_reclaim_loop fuel P s = Some (ids, s\<lparr>m_jobs := sql_update P (unclaim (m_now s)) (m_jobs s)\<rparr>) \<and>
    distinct ids \<and> set ids = j_id ` {j \<in> set (m_jobs s). P j}"
  using assms
proof (induction fuel arbitrary: s)
  case (Suc fuel)
  let ?f = "unclaim (m_now s)"
  obtain doc s1 where run: "mongo_find_update P (\<lambda>_. 0::nat) ?f s = (doc, s1)" by fastforce
  show ?case
  proof (rule mongo_find_updateE[OF Suc.prems(1) _ _ run], goal_cases)
    case (3 c)
    have dist: "distinct (map j_id (m_jobs s))" using Suc.prems(1) by (simp add: mongo_inv_def)
    have same: "j = c" if "j \<in> set (m_jobs s)" "j_id j = j_id c" for j
      using distinct_map_filter_eq[OF dist that(1) 3(1)] that(2) by simp
    let ?g = "\<lambda>j. if j_id j = j_id c then ?f j else j"
    have jobs1: "m_jobs s1 = map ?g (m_jobs s)" "m_now s1 = m_now s" using 3(7) by (simp_all add: sql_update_def)
    have "length (filter P (m_jobs s1)) < length (filter P (m_jobs s))"
      unfolding jobs1 by (rule filter_shrinks[of _ P ?g c]) (use 3(1,2) Suc.prems(2) in \<open>auto split: if_splits\<close>)
    then obtain ids where rec: "mongo_reclaim_loop fuel P s1 = Some (ids, s1\<lparr>m_jobs := sql_update P ?f (m_jobs s1)\<rparr>)"
        "distinct ids" "set ids = j_id ` {j \<in> set (m_jobs s1). P j}"
      using Suc.IH[OF 3(6)] Suc.prems(2,3) jobs1(2) by auto
    have "sql_update P ?f (m_jobs s1) = sql_update P ?f (m_jobs s)"
      unfolding jobs1 sql_update_def using same 3(2) Suc.prems(2) by (auto simp: Suc.prems(2))
    then have "mongo_reclaim_loop (Suc fuel) P s = Some (j_id c # ids, s\<lparr>m_jobs := sql_update P ?f (m_jobs s)\<rparr>)"
      using run rec(1) 3(3,7) by simp
    moreover have left: "{j \<in> set (m_jobs s1). P j} = {j \<in> set (m_jobs s). P j \<and> j_id j \<noteq> j_id c}"
      unfolding jobs1 using Suc.prems(2) by (auto split: if_splits)
    moreover have "set (j_id c # ids) = j_id ` {j \<in> set (m_jobs s). P j}"
      unfolding list.set rec(3) left using 3(1,2) by auto
    moreover have "distinct (j_id c # ids)" using rec(2,3) unfolding left by auto
    ultimately show ?case by blast
  next
    case 4
    then show ?case using run by (simp add: sql_update_False)
  qed auto
qed simp

lemma mongo_reclaim_step:
  assumes inv: "mongo_inv s" and ex: "spi_exec (mongo_backend ns) (Reclaim_expired qo) s = (out, s')"
  shows "spec_step (mongo_abs s) (Reclaim_expired qo) out (mongo_abs s') \<and> mongo_inv s'"
proof -
  let ?P = "\<lambda>j. j_status j = Running \<and> lapsed (m_now s) j \<and> on_queue qo j"
  let ?f = "unclaim (m_now s)"
  have "length (filter ?P (m_jobs s)) < Suc (length (m_jobs s))" by (simp add: le_imp_less_Suc)
  then obtain ids where ids: "mongo_reclaim qo s = (ids, s\<lparr>m_jobs := sql_update ?P ?f (m_jobs s)\<rparr>)"
      "distinct ids" "set ids = j_id ` {j \<in> set (m_jobs s). ?P j}"
    using mongo_reclaim_loop_returns[OF inv, of ?P "Suc (length (m_jobs s))"]
    by (auto simp: mongo_reclaim_def unclaim_def)
  then have s': "out = Ids ids" "s' = s\<lparr>m_jobs := sql_update ?P ?f (m_jobs s)\<rparr>"
    using ex by (simp_all add: mongo_backend_def)
  have dist: "distinct (map j_id (m_jobs s))" using inv by (simp add: mongo_inv_def)
  have get: "mongo_get k s' = map_option (\<lambda>j. mongo_row (if ?P j then ?f j else j)) (row_of j_id k (m_jobs s))" for k
    by (simp add: s' mongo_get_def row_of_update option.map_comp comp_def)
  have mem: "k \<in> set ids \<longleftrightarrow> (\<exists>j. row_of j_id k (m_jobs s) = Some j \<and> ?P j)" for k
    unfolding ids(3) using row_of_SomeD[of j_id k "m_jobs s"] row_of_mem[OF dist] by fastforce
  have "swept (m_now s) qo ids (mongo_abs s) (mongo_abs s')"
    unfolding swept_def
  proof (intro conjI allI)
    show "distinct ids" by (rule ids(2))
    show "sp_events (mongo_abs s') = sp_events (mongo_abs s)" by (simp add: mongo_abs_def s')
    fix k
    show "if k \<in> set ids
      then \<exists>j l. sp_jobs (mongo_abs s) k = Some j \<and> j_status j = Running \<and> on_queue qo j \<and> j_lease j = Some l \<and>
        l \<le> m_now s \<and> sp_jobs (mongo_abs s') k = Some (unclaim (m_now s) j)
      else sp_jobs (mongo_abs s') k = sp_jobs (mongo_abs s) k \<and>
        (\<forall>j l. sp_jobs (mongo_abs s) k = Some j \<longrightarrow> j_status j = Running \<longrightarrow> on_queue qo j \<longrightarrow> j_lease j = Some l \<longrightarrow> m_now s \<le> l)"
      unfolding mem using get[of k]
      by (cases "row_of j_id k (m_jobs s)")
        (auto simp: mongo_abs_def mongo_get_def[of k s] lapsed_def on_queue_def split: option.splits)
  qed
  moreover have "mongo_inv s'" unfolding s' by (rule mongo_inv_update[OF inv]) auto
  ultimately show ?thesis by (auto simp: s'(1) intro: spec_reclaim)
qed

lemma mongo_exec_step:
  assumes inv: "mongo_inv s" and ex: "spi_exec (mongo_backend ns) op s = (out, s')"
  shows "spec_step (mongo_abs s) op out (mongo_abs s') \<and> mongo_inv s' \<and> (out = Job_out None \<longrightarrow> s' = s)"
proof (cases op)
  case (Enqueue q p k pri)
  with mongo_enqueue_step[OF inv ex[unfolded Enqueue]] ex show ?thesis by (auto simp: not_a_job simp del: spi_exec.simps)
next
  case (Claim_next q w l)
  with mongo_claim_step[OF inv ex[unfolded Claim_next]] show ?thesis by simp
next
  case (Renew k w l)
  with mongo_renew_step[OF inv ex[unfolded Renew]] ex show ?thesis by (auto simp: not_a_job simp del: spi_exec.simps)
next
  case (Reclaim_expired qo)
  with mongo_reclaim_step[OF inv ex[unfolded Reclaim_expired]] ex show ?thesis by (auto simp: not_a_job simp del: spi_exec.simps)
next
  case (Requeue k)
  with mongo_requeue_step[OF inv ex[unfolded Requeue]] show ?thesis by simp
next
  case (Terminate k en ev)
  with mongo_terminate_step[OF inv ex[unfolded Terminate]] show ?thesis by simp
next
  case (Wait n)
  have "mongo_abs (mongo_wait n s) = mongo_abs s" "mongo_inv (mongo_wait n s)"
    using inv by (simp_all add: mongo_abs_def mongo_get_def mongo_wait_def mongo_inv_def)
  with Wait ex show ?thesis by (auto simp: mongo_backend_def intro: spec_wait)
qed

lemma mongo_counts_abs: "mongo_inv s \<Longrightarrow> mongo_counts q st s = int (card (keys_with (mongo_abs s) q st))"
proof -
  assume inv: "mongo_inv s"
  then have dist: "distinct (map j_id (m_jobs s))" by (simp add: mongo_inv_def)
  let ?rows = "filter (\<lambda>j. j_queue j = q \<and> j_status j = st) (m_jobs s)"
  have "keys_with (mongo_abs s) q st = set (map j_id ?rows)"
    using mongo_get_iff[OF inv] by (fastforce simp: keys_with_def mongo_abs_def)
  then have "card (keys_with (mongo_abs s) q st) = length (map j_id ?rows)"
    using distinct_card[of "map j_id ?rows"] dist by (simp add: distinct_map_filter)
  then show ?thesis by (simp add: mongo_counts_def sql_select_def)
qed

interpretation mongo: storage_backend "mongo_backend ns" mongo_inv "\<lambda>_ _. True" "\<lambda>_ _. True" mongo_abs
  for ns
proof (unfold_locales, goal_cases)
  case (1 s op out s')
  then show ?case using mongo_exec_step by blast
next
  case (2 s op s')
  then show ?case using mongo_exec_step by blast
next
  case (3 s)
  then show ?case by (rule mongo_spec_ok)
next
  case (4 s k)
  then show ?case by (simp add: mongo_backend_def mongo_abs_def)
next
  case (5 s since limit)
  then have "log_ok (filter (\<lambda>e. since < e_seq e) (m_events s)) (m_eventseq s)"
    by (simp only: mongo_inv_def log_ok_filter)
  then show ?case by (simp add: mongo_backend_def mongo_events_since_def mongo_abs_def sql_select_def order_log)
next
  case (6 s q st)
  then show ?case by (simp add: mongo_backend_def mongo_counts_abs)
qed

end
