(* ===== verification/Redis_Backend.thy ===== *)
theory Redis_Backend
  imports Storage_Backend
begin

text \<open>
  \<^verbatim>\<open>backends/redis.py\<close>: a hash per job, a sorted set of waiting members per queue, a sorted set of
  leases per queue, counters and an event list, each Lua script one step. The scripts keep these five
  structures in step as long as a job that is still waiting is not ended or sent back; under that
  condition, and with fresh ids, the backend meets the contract of \<open>storage_backend\<close>.
\<close>

section \<open>The keys of a namespace\<close>

text \<open>
  The hash of a job. An empty string stands for no worker and no error; the lease and the result,
  which are written as numbers and JSON text, are empty or a value.
\<close>

record redis_hash =
  h_id :: string
  h_namespace :: string
  h_queue :: string
  h_status :: job_status
  h_payload :: json
  h_priority :: int
  h_attempts :: nat
  h_claimed :: string
  h_lease :: "int option"
  h_result :: "json option"
  h_error :: string
  h_created :: int
  h_updated :: int

text \<open>
  A member \<^verbatim>\<open>%020d|id\<close> of a queue's sorted set, with its score: padding makes the order of the
  members the order of their sequence numbers.
\<close>

record zmember =
  z_queue :: string
  z_score :: int
  z_seq :: nat
  z_id :: string

record lease_entry =
  l_queue :: string
  l_id :: string
  l_at :: int

record redis_db =
  r_now :: int
  r_jobs :: "redis_hash list"
  r_waiting :: "zmember list"
  r_running :: "lease_entry list"
  r_queues :: "string list"
  r_cnt :: "string \<Rightarrow> job_status \<Rightarrow> int"
  r_seq :: nat
  r_events :: "spi_event list"
  r_eventseq :: nat
  r_workers :: "(string \<times> qw_worker \<times> int) list"
  r_controls :: "(string \<times> qw_control) list"

definition or_none :: "string \<Rightarrow> string option" where
  "or_none x = (if x = [] then None else Some x)"

definition or_blank :: "string option \<Rightarrow> string" where
  "or_blank x = (case x of None \<Rightarrow> [] | Some t \<Rightarrow> t)"

text \<open>\<^verbatim>\<open>_job_from_dict\<close>\<close>

definition job_from_dict :: "redis_hash \<Rightarrow> spi_job" where
  "job_from_dict h =
     \<lparr>j_id = h_id h, j_queue = h_queue h, j_namespace = h_namespace h, j_status = h_status h,
      j_payload = h_payload h, j_priority = h_priority h, j_attempts = h_attempts h,
      j_claimed = or_none (h_claimed h), j_lease = h_lease h, j_result = h_result h,
      j_error = or_none (h_error h), j_created = h_created h, j_updated = h_updated h\<rparr>"

section \<open>The Redis commands the scripts use\<close>

definition hget :: "string \<Rightarrow> redis_db \<Rightarrow> redis_hash option" where
  "hget jid s = row_of h_id jid (r_jobs s)"

definition hset :: "string \<Rightarrow> (redis_hash \<Rightarrow> redis_hash) \<Rightarrow> redis_db \<Rightarrow> redis_db" where
  "hset jid f s = s\<lparr>r_jobs := sql_update (\<lambda>h. h_id h = jid) f (r_jobs s)\<rparr>"

definition bump :: "string \<Rightarrow> job_status \<Rightarrow> int \<Rightarrow> redis_db \<Rightarrow> redis_db" where
  "bump q st n s = s\<lparr>r_cnt := (\<lambda>q' st'. r_cnt s q' st' + (if q' = q \<and> st' = st then n else 0))\<rparr>"

text \<open>\<^verbatim>\<open>ZADD q:<queue>\<close> of a fresh member: \<^verbatim>\<open>INCR seq\<close> comes first, so it replaces none.\<close>

definition zadd_waiting :: "string \<Rightarrow> int \<Rightarrow> string \<Rightarrow> redis_db \<Rightarrow> redis_db" where
  "zadd_waiting q score jid s =
     s\<lparr>r_seq := Suc (r_seq s),
       r_waiting := r_waiting s @ [\<lparr>z_queue = q, z_score = score, z_seq = Suc (r_seq s), z_id = jid\<rparr>]\<rparr>"

definition zrem_running :: "string \<Rightarrow> string \<Rightarrow> redis_db \<Rightarrow> redis_db" where
  "zrem_running q jid s = s\<lparr>r_running := sql_delete (\<lambda>l. l_queue l = q \<and> l_id l = jid) (r_running s)\<rparr>"

definition zadd_running :: "string \<Rightarrow> int \<Rightarrow> string \<Rightarrow> redis_db \<Rightarrow> redis_db" where
  "zadd_running q expiry jid s =
     s\<lparr>r_running := sql_delete (\<lambda>l. l_queue l = q \<and> l_id l = jid) (r_running s) @
         [\<lparr>l_queue = q, l_id = jid, l_at = expiry\<rparr>]\<rparr>"

definition sadd_queue :: "string \<Rightarrow> redis_db \<Rightarrow> redis_db" where
  "sadd_queue q s = s\<lparr>r_queues := (if q \<in> set (r_queues s) then r_queues s else r_queues s @ [q])\<rparr>"

section \<open>The scripts\<close>

text \<open>\<^verbatim>\<open>_LUA_ENQUEUE\<close>: the hash is written whether or not the id is new.\<close>

definition redis_hash_new :: "string \<Rightarrow> string \<Rightarrow> string \<Rightarrow> json \<Rightarrow> int \<Rightarrow> int \<Rightarrow> redis_hash" where
  "redis_hash_new jid ns queue payload priority t =
     \<lparr>h_id = jid, h_namespace = ns, h_queue = queue, h_status = Queued, h_payload = or_empty payload,
      h_priority = priority, h_attempts = 0, h_claimed = [], h_lease = None, h_result = None, h_error = [],
      h_created = t, h_updated = t\<rparr>"

definition redis_enqueue :: "string \<Rightarrow> string \<Rightarrow> json \<Rightarrow> string \<Rightarrow> int \<Rightarrow> (redis_db, string) act" where
  "redis_enqueue ns queue payload jid priority s =
     (let h = redis_hash_new jid ns queue payload priority (r_now s);
          s1 = s\<lparr>r_jobs := sql_upsert (\<lambda>h'. h_id h' = jid) (\<lambda>_. h) h (r_jobs s)\<rparr>
      in (Inr jid, bump queue Queued 1 (sadd_queue queue (zadd_waiting queue (- priority) jid s1))))"

text \<open>
  \<^verbatim>\<open>_LUA_CLAIM\<close>: pops the least member and claims whatever job it names. No script deletes a hash,
  so the hash is there.
\<close>

definition redis_claim :: "string \<Rightarrow> string \<Rightarrow> int \<Rightarrow> redis_db \<Rightarrow> spi_job option \<times> redis_db" where
  "redis_claim queue worker lease s =
     (case first_by (\<lambda>z. (z_score z, z_seq z)) (filter (\<lambda>z. z_queue z = queue) (r_waiting s)) of
        None \<Rightarrow> (None, s)
      | Some z \<Rightarrow>
          (let s1 = s\<lparr>r_waiting := remove1 z (r_waiting s)\<rparr>;
               s2 = hset (z_id z) (\<lambda>h. h\<lparr>h_status := Running, h_claimed := worker, h_lease := Some (r_now s + lease),
                      h_attempts := Suc (h_attempts h), h_updated := r_now s\<rparr>) s1;
               s3 = bump queue Running 1 (bump queue Queued (-1) (zadd_running queue (r_now s + lease) (z_id z) s2))
           in (map_option job_from_dict (hget (z_id z) s3), s3)))"

definition redis_renew :: "string \<Rightarrow> string \<Rightarrow> int \<Rightarrow> redis_db \<Rightarrow> bool \<times> redis_db" where
  "redis_renew jid worker lease s =
     (case hget jid s of
        None \<Rightarrow> (False, s)
      | Some h \<Rightarrow>
          if h_status h = Running \<and> h_claimed h = worker
          then (True, zadd_running (h_queue h) (r_now s + lease) jid
                  (hset jid (\<lambda>h. h\<lparr>h_lease := Some (r_now s + lease), h_updated := r_now s\<rparr>) s))
          else (False, s))"

text \<open>\<^verbatim>\<open>_LUA_TERMINAL\<close>: the waiting set is not touched; an event without a type is not written.\<close>

definition redis_terminal :: "string \<Rightarrow> string \<Rightarrow> ending \<Rightarrow> (string \<times> json) option \<Rightarrow> redis_db \<Rightarrow>
    spi_job option \<times> redis_db" where
  "redis_terminal ns jid en event s =
     (case hget jid s of
        None \<Rightarrow> (None, s)
      | Some h \<Rightarrow>
          if spi_terminal (h_status h) then (None, s)
          else
            (let q = h_queue h;
                 s1 = hset jid (\<lambda>h. h\<lparr>h_status := ending_status en, h_result := ending_result en,
                        h_error := or_blank (ending_error en), h_updated := r_now s\<rparr>) s;
                 s2 = bump q (ending_status en) 1 (bump q (h_status h) (-1) (zrem_running q jid s1));
                 s3 = (case event of
                         None \<Rightarrow> s2
                       | Some (etype, detail) \<Rightarrow>
                           if etype = [] then s2
                           else s2\<lparr>r_eventseq := Suc (r_eventseq s2), r_events := r_events s2 @
                             [\<lparr>e_seq = Suc (r_eventseq s2), e_job = jid, e_namespace = ns, e_queue = q,
                               e_type = etype, e_detail = or_empty detail, e_created = r_now s\<rparr>]\<rparr>)
             in (map_option job_from_dict (hget jid s3), s3)))"

text \<open>\<^verbatim>\<open>_LUA_REQUEUE\<close>: a new member is added whatever the status was.\<close>

definition to_queued :: "int \<Rightarrow> redis_hash \<Rightarrow> redis_hash" where
  "to_queued t h = h\<lparr>h_status := Queued, h_claimed := [], h_lease := None, h_updated := t\<rparr>"

definition redis_requeue :: "string \<Rightarrow> redis_db \<Rightarrow> spi_job option \<times> redis_db" where
  "redis_requeue jid s =
     (case hget jid s of
        None \<Rightarrow> (None, s)
      | Some h \<Rightarrow>
          if spi_terminal (h_status h) then (None, s)
          else
            (let q = h_queue h;
                 s1 = zrem_running q jid (hset jid (to_queued (r_now s)) s);
                 s2 = bump q Queued 1 (bump q (h_status h) (-1) (zadd_waiting q (- h_priority h) jid s1))
             in (map_option job_from_dict (hget jid s2), s2)))"

text \<open>\<^verbatim>\<open>_LUA_RECLAIM\<close>: the loop over the lapsed leases of one queue.\<close>

definition reclaim_one :: "string \<Rightarrow> string \<Rightarrow> redis_db \<Rightarrow> string list \<times> redis_db" where
  "reclaim_one queue jid s =
     (case hget jid s of
        None \<Rightarrow> ([], s)
      | Some h \<Rightarrow>
          if h_status h = Running
          then ([jid], bump queue Queued 1 (bump queue Running (-1) (zadd_waiting queue (- h_priority h) jid
                  (zrem_running queue jid (hset jid (to_queued (r_now s)) s)))))
          else ([], s))"

fun reclaim_all :: "string \<Rightarrow> string list \<Rightarrow> redis_db \<Rightarrow> string list \<times> redis_db" where
  "reclaim_all queue [] s = ([], s)"
| "reclaim_all queue (jid # jids) s =
     (case reclaim_one queue jid s of
        (out, s') \<Rightarrow> (case reclaim_all queue jids s' of (outs, t) \<Rightarrow> (out @ outs, t)))"

definition redis_reclaim_script :: "string \<Rightarrow> redis_db \<Rightarrow> string list \<times> redis_db" where
  "redis_reclaim_script queue s =
     reclaim_all queue
       (map l_id (sort_key (\<lambda>l. (l_at l, l_id l)) (filter (\<lambda>l. l_queue l = queue \<and> l_at l \<le> r_now s) (r_running s)))) s"

fun reclaim_queues :: "string list \<Rightarrow> redis_db \<Rightarrow> string list \<times> redis_db" where
  "reclaim_queues [] s = ([], s)"
| "reclaim_queues (q # qs) s =
     (case redis_reclaim_script q s of
        (out, s') \<Rightarrow> (case reclaim_queues qs s' of (outs, t) \<Rightarrow> (out @ outs, t)))"

definition redis_reclaim :: "string option \<Rightarrow> redis_db \<Rightarrow> string list \<times> redis_db" where
  "redis_reclaim queue s = reclaim_queues (case queue of None \<Rightarrow> r_queues s | Some q \<Rightarrow> [q]) s"

section \<open>Reads and operator rows\<close>

definition redis_get :: "string \<Rightarrow> redis_db \<Rightarrow> spi_job option" where
  "redis_get jid s = map_option job_from_dict (hget jid s)"

definition redis_counts :: "string \<Rightarrow> job_status \<Rightarrow> redis_db \<Rightarrow> int" where
  "redis_counts queue st s = max 0 (r_cnt s queue st)"

text \<open>The list of sequence numbers and the hashes they name are one list here.\<close>

definition redis_events :: "nat \<Rightarrow> nat \<Rightarrow> redis_db \<Rightarrow> spi_event list" where
  "redis_events since limit s = take limit (filter (\<lambda>e. e_seq e > since) (r_events s))"

text \<open>A worker's key, with the time it expires.\<close>

definition redis_heartbeat :: "string \<Rightarrow> string \<Rightarrow> string \<Rightarrow> string option \<Rightarrow> int \<Rightarrow> redis_db \<Rightarrow> redis_db" where
  "redis_heartbeat ns host queue model stale_after s =
     (let key = ''worker:'' @ queue @ '':'' @ host;
          row = (key, \<lparr>qw_ns = ns, qw_host = host, qw_queue = queue, qw_model = or_none (or_blank model),
                       qw_last_seen = r_now s\<rparr>, r_now s + secs (max 1 stale_after))
      in s\<lparr>r_workers := sql_upsert (\<lambda>r. fst r = key) (\<lambda>_. row) row (r_workers s)\<rparr>)"

text \<open>\<^verbatim>\<open>scan_iter\<close> with the pattern \<^verbatim>\<open>worker:<queue>:*\<close>, for a queue name without glob characters.\<close>

definition redis_workers :: "string \<Rightarrow> redis_db \<Rightarrow> qw_worker list" where
  "redis_workers queue s =
     map (fst \<circ> snd) (filter (\<lambda>(key, w, expires). starts_with key (''worker:'' @ queue @ '':'') \<and> r_now s < expires)
       (r_workers s))"

definition redis_set_control :: "string \<Rightarrow> string \<Rightarrow> string \<Rightarrow> string \<Rightarrow> string \<Rightarrow> string option \<Rightarrow> redis_db \<Rightarrow> redis_db" where
  "redis_set_control ns host queue desired policy by s =
     (let key = ''control:'' @ host @ '':'' @ queue;
          row = (key, \<lparr>qc_ns = ns, qc_host = host, qc_queue = queue, qc_desired = desired, qc_policy = policy,
                       qc_requested_by = or_none (or_blank by), qc_updated = r_now s\<rparr>)
      in s\<lparr>r_controls := sql_upsert (\<lambda>r. fst r = key) (\<lambda>_. row) row (r_controls s)\<rparr>)"

definition redis_desired_state :: "string \<Rightarrow> string \<Rightarrow> redis_db \<Rightarrow> string" where
  "redis_desired_state host queue s =
     (case row_of fst (''control:'' @ host @ '':'' @ queue) (r_controls s) of
        Some (key, c) \<Rightarrow> if qc_desired c = ''off'' then ''off'' else ''on'' | None \<Rightarrow> ''on'')"

definition redis_wait :: "nat \<Rightarrow> redis_db \<Rightarrow> redis_db" where
  "redis_wait n s = s\<lparr>r_now := r_now s + int n\<rparr>"

definition redis_backend :: "string \<Rightarrow> redis_db backend" where
  "redis_backend ns = \<lparr>be_enqueue = redis_enqueue ns, be_claim = redis_claim, be_renew = redis_renew,
     be_reclaim = redis_reclaim, be_requeue = redis_requeue, be_terminal = redis_terminal ns, be_get = redis_get,
     be_counts = redis_counts, be_events = redis_events, be_workers = redis_workers, be_wait = redis_wait\<rparr>"

section \<open>The invariant\<close>

text \<open>
  What the other structures must hold for a job with a given hash: its waiting members (queue and
  score), its leases (queue and expiry), and the counters.
\<close>

definition w_of :: "string \<Rightarrow> redis_db \<Rightarrow> (string \<times> int) list" where
  "w_of k s = map (\<lambda>z. (z_queue z, z_score z)) (filter (\<lambda>z. z_id z = k) (r_waiting s))"

definition r_of :: "string \<Rightarrow> redis_db \<Rightarrow> (string \<times> int option) list" where
  "r_of k s = map (\<lambda>l. (l_queue l, Some (l_at l))) (filter (\<lambda>l. l_id l = k) (r_running s))"

fun want_w :: "redis_hash option \<Rightarrow> (string \<times> int) list" where
  "want_w None = []"
| "want_w (Some h) = (if h_status h = Queued then [(h_queue h, - h_priority h)] else [])"

fun want_r :: "redis_hash option \<Rightarrow> (string \<times> int option) list" where
  "want_r None = []"
| "want_r (Some h) = (if h_status h = Running then [(h_queue h, h_lease h)] else [])"

definition counts_as :: "string \<Rightarrow> job_status \<Rightarrow> redis_hash \<Rightarrow> int" where
  "counts_as q st h = (if h_queue h = q \<and> h_status h = st then 1 else 0)"

definition cnt_of :: "string \<Rightarrow> job_status \<Rightarrow> redis_hash list \<Rightarrow> int" where
  "cnt_of q st hs = sum_list (map (counts_as q st) hs)"

definition hash_ok :: "string list \<Rightarrow> redis_hash \<Rightarrow> bool" where
  "hash_ok qs h \<longleftrightarrow> (h_status h = Queued \<or> h_status h = Running \<or> spi_terminal (h_status h)) \<and> h_queue h \<in> set qs"

definition redis_inv :: "redis_db \<Rightarrow> bool" where
  "redis_inv s \<longleftrightarrow>
     distinct (map h_id (r_jobs s)) \<and> list_all (hash_ok (r_queues s)) (r_jobs s) \<and> distinct (r_queues s) \<and>
     (\<forall>k. w_of k s = want_w (hget k s)) \<and> (\<forall>k. r_of k s = want_r (hget k s)) \<and>
     (\<forall>q st. r_cnt s q st = cnt_of q st (r_jobs s)) \<and> log_ok (r_events s) (r_eventseq s)"

definition redis_abs :: "redis_db \<Rightarrow> spec_queue" where
  "redis_abs s = \<lparr>sp_jobs = (\<lambda>k. redis_get k s), sp_events = r_events s\<rparr>"

text \<open>Which calls keep the structures in step.\<close>

definition redis_may_add :: "redis_db \<Rightarrow> string \<Rightarrow> bool" where
  "redis_may_add s k \<longleftrightarrow> hget k s = None"

definition redis_may_end :: "redis_db \<Rightarrow> string \<Rightarrow> bool" where
  "redis_may_end s k \<longleftrightarrow> (case hget k s of None \<Rightarrow> True | Some h \<Rightarrow> h_status h \<noteq> Queued)"

lemmas redis_cmds = hset_def bump_def zadd_waiting_def zrem_running_def zadd_running_def sadd_queue_def

lemma cmd_frames [simp]:
  "r_jobs (bump q st n s) = r_jobs s" "r_jobs (zadd_waiting q sc k s) = r_jobs s"
  "r_jobs (zrem_running q k s) = r_jobs s" "r_jobs (zadd_running q e k s) = r_jobs s" "r_jobs (sadd_queue q s) = r_jobs s"
  "r_waiting (bump q st n s) = r_waiting s" "r_waiting (hset k f s) = r_waiting s"
  "r_waiting (zrem_running q k s) = r_waiting s" "r_waiting (zadd_running q e k s) = r_waiting s"
  "r_waiting (sadd_queue q s) = r_waiting s"
  "r_running (bump q st n s) = r_running s" "r_running (hset k f s) = r_running s"
  "r_running (zadd_waiting q sc k s) = r_running s" "r_running (sadd_queue q s) = r_running s"
  "r_cnt (hset k f s) = r_cnt s" "r_cnt (zadd_waiting q sc k s) = r_cnt s" "r_cnt (zrem_running q k s) = r_cnt s"
  "r_cnt (zadd_running q e k s) = r_cnt s" "r_cnt (sadd_queue q s) = r_cnt s"
  "r_queues (bump q st n s) = r_queues s" "r_queues (hset k f s) = r_queues s" "r_queues (zadd_waiting q sc k s) = r_queues s"
  "r_queues (zrem_running q k s) = r_queues s" "r_queues (zadd_running q e k s) = r_queues s"
  "r_events (bump q st n s) = r_events s" "r_events (hset k f s) = r_events s" "r_events (zadd_waiting q sc k s) = r_events s"
  "r_events (zrem_running q k s) = r_events s" "r_events (zadd_running q e k s) = r_events s" "r_events (sadd_queue q s) = r_events s"
  "r_eventseq (bump q st n s) = r_eventseq s" "r_eventseq (hset k f s) = r_eventseq s"
  "r_eventseq (zadd_waiting q sc k s) = r_eventseq s" "r_eventseq (zrem_running q k s) = r_eventseq s"
  "r_eventseq (zadd_running q e k s) = r_eventseq s" "r_eventseq (sadd_queue q s) = r_eventseq s"
  "r_now (bump q st n s) = r_now s" "r_now (hset k f s) = r_now s" "r_now (zadd_waiting q sc k s) = r_now s"
  "r_now (zrem_running q k s) = r_now s" "r_now (zadd_running q e k s) = r_now s" "r_now (sadd_queue q s) = r_now s"
  by (simp_all add: redis_cmds)

lemma w_of_cong: "r_waiting s' = r_waiting s \<Longrightarrow> w_of k s' = w_of k s"
  by (simp add: w_of_def)

lemma r_of_cong: "r_running s' = r_running s \<Longrightarrow> r_of k s' = r_of k s"
  by (simp add: r_of_def)

lemma hget_cong: "r_jobs s' = r_jobs s \<Longrightarrow> hget k s' = hget k s"
  by (simp add: hget_def)

lemma r_cnt_bump [simp]: "r_cnt (bump q st n s) q' st' = r_cnt s q' st' + (if q' = q \<and> st' = st then n else 0)"
  by (simp add: bump_def)

lemma w_of_zadd: "w_of k (zadd_waiting q sc jid s) = w_of k s @ (if k = jid then [(q, sc)] else [])"
  by (simp add: w_of_def zadd_waiting_def)

lemma r_of_zrem: "r_of k (zrem_running q jid s) = (if k = jid then filter (\<lambda>x. fst x \<noteq> q) (r_of k s) else r_of k s)"
proof -
  have "map g (filter (\<lambda>l. l_id l = k) (sql_delete (\<lambda>l. l_queue l = q \<and> l_id l = jid) ls)) =
      (if k = jid then filter (\<lambda>x. fst x \<noteq> q) (map g (filter (\<lambda>l. l_id l = k) ls)) else map g (filter (\<lambda>l. l_id l = k) ls))"
    if "\<And>l. fst (g l) = l_queue l" for g :: "lease_entry \<Rightarrow> string \<times> int option" and ls
    using that by (induction ls) (auto simp: sql_delete_def)
  then show ?thesis by (simp add: r_of_def zrem_running_def)
qed

lemma r_of_zadd: "r_of k (zadd_running q e jid s) = r_of k (zrem_running q jid s) @ (if k = jid then [(q, Some e)] else [])"
  by (simp add: r_of_def zadd_running_def zrem_running_def)

lemma hget_hset:
  "(\<And>h. h_id (f h) = h_id h) \<Longrightarrow> hget k (hset jid f s) = (if k = jid then map_option f (hget k s) else hget k s)"
proof -
  assume f: "\<And>h. h_id (f h) = h_id h"
  have "h_id h = k" if "row_of h_id k (r_jobs s) = Some h" for h using row_of_SomeD[OF that] by simp
  then show ?thesis
    by (cases "row_of h_id k (r_jobs s)") (auto simp: hget_def hset_def row_of_update[where key = h_id and f = f] f)
qed

lemma cnt_of_hset:
  assumes "distinct (map h_id hs)" and "row_of h_id jid hs = Some h"
  shows "cnt_of q st (sql_update (\<lambda>x. h_id x = jid) f hs) = cnt_of q st hs - counts_as q st h + counts_as q st (f h)"
  using assms
proof (induction hs)
  case (Cons x hs)
  show ?case
  proof (cases "h_id x = jid")
    case True
    then have "h_id r \<noteq> jid" if "r \<in> set hs" for r using Cons.prems(1) that by (metis distinct.simps(2) image_eqI list.set_map list.simps(9))
    then have "sql_update (\<lambda>x. h_id x = jid) f hs = hs" by (intro sql_update_False)
    then show ?thesis using True Cons.prems(2) by (simp add: cnt_of_def)
  next
    case False
    then show ?thesis using Cons by (simp add: cnt_of_def)
  qed
qed simp

text \<open>
  A script that rewrites one hash and moves the job's members, leases and counters accordingly keeps
  the invariant.
\<close>

lemma redis_inv_move:
  assumes inv: "redis_inv s" and h: "hget jid s = Some h"
    and f: "\<And>h. h_id (f h) = h_id h" "h_queue (f h) = h_queue h" and ok: "hash_ok (r_queues s) (f h)"
    and jobs: "r_jobs s' = r_jobs (hset jid f s)" and qs: "r_queues s' = r_queues s"
    and w: "\<And>k. w_of k s' = (if k = jid then want_w (Some (f h)) else w_of k s)"
    and r: "\<And>k. r_of k s' = (if k = jid then want_r (Some (f h)) else r_of k s)"
    and cnt: "\<And>q st. r_cnt s' q st = r_cnt s q st - counts_as q st h + counts_as q st (f h)"
    and log: "log_ok (r_events s') (r_eventseq s')"
  shows "redis_inv s'"
proof -
  have get: "hget k s' = (if k = jid then Some (f h) else hget k s)" for k
    using hget_cong[OF jobs] hget_hset[of f, OF f(1)] h by simp
  have row: "row_of h_id jid (r_jobs s) = Some h" using h by (simp add: hget_def)
  have dist: "distinct (map h_id (r_jobs s))" using inv by (simp add: redis_inv_def)
  have "distinct (map h_id (r_jobs s'))"
    using dist unfolding jobs by (simp add: hset_def map_sql_update f(1))
  moreover have "list_all (hash_ok (r_queues s)) (r_jobs s')"
  proof -
    have "x = h" if "x \<in> set (r_jobs s)" "h_id x = jid" for x
      using row row_of_mem[OF dist that(1)] that(2) by simp
    then show ?thesis using inv ok unfolding jobs
      by (auto simp: redis_inv_def list_all_iff hset_def elim!: mem_sql_updateE)
  qed
  moreover have "r_cnt s' q st = cnt_of q st (r_jobs s')" for q st
    using inv cnt cnt_of_hset[OF dist row] by (simp add: redis_inv_def jobs hset_def)
  ultimately show ?thesis using inv w r log qs by (auto simp: redis_inv_def get)
qed

lemma redis_invD:
  assumes "redis_inv s"
  shows "distinct (map h_id (r_jobs s))" "list_all (hash_ok (r_queues s)) (r_jobs s)" "distinct (r_queues s)"
    "w_of k s = want_w (hget k s)" "r_of k s = want_r (hget k s)" "r_cnt s q st = cnt_of q st (r_jobs s)"
    "log_ok (r_events s) (r_eventseq s)"
  using assms by (simp_all add: redis_inv_def)

lemma hget_ok: "redis_inv s \<Longrightarrow> hget k s = Some h \<Longrightarrow> hash_ok (r_queues s) h \<and> h_id h = k"
  using row_of_SomeD[of h_id k "r_jobs s" h] by (auto simp: redis_inv_def hget_def list_all_iff)

lemma redis_spec_ok: "redis_inv s \<Longrightarrow> spec_ok (redis_abs s)"
  using hget_ok[of s] by (fastforce simp: spec_ok_def redis_abs_def redis_get_def job_from_dict_def hash_ok_def)

lemma job_from_dict_simps [simp]:
  "j_id (job_from_dict h) = h_id h" "j_queue (job_from_dict h) = h_queue h" "j_status (job_from_dict h) = h_status h"
  "j_priority (job_from_dict h) = h_priority h" "j_lease (job_from_dict h) = h_lease h"
  "j_claimed (job_from_dict h) = or_none (h_claimed h)"
  by (simp_all add: job_from_dict_def)

lemma or_none_kept: "text_kept (Some w) (or_none w)" "text_kept x (or_none (or_blank x))"
  by (auto simp: text_kept_def or_none_def or_blank_def split: option.splits)

text \<open>Writing one hash, on the abstract side.\<close>

lemma redis_abs_put:
  assumes "\<And>k. hget k s' = (if k = jid then Some h' else hget k s)"
  shows "redis_abs s' = (put jid (job_from_dict h') (redis_abs s))\<lparr>sp_events := r_events s'\<rparr>"
  using assms by (auto simp: redis_abs_def put_def redis_get_def)

lemma redis_enqueue_step:
  assumes inv: "redis_inv s" and may: "redis_may_add s k" and ex: "spi_exec (redis_backend ns) (Enqueue q p k pri) s = (out, s')"
  shows "spec_step (redis_abs s) (Enqueue q p k pri) out (redis_abs s') \<and> redis_inv s'"
proof -
  let ?h = "redis_hash_new k ns q p pri (r_now s)"
  have none: "hget k s = None" using may by (simp add: redis_may_add_def)
  then have fresh: "k \<notin> h_id ` set (r_jobs s)" by (simp add: hget_def row_of_None)
  then have "\<not> list_ex (\<lambda>h'. h_id h' = k) (r_jobs s)" by (auto simp: list_ex_iff)
  then have s': "out = Enqueued k"
      "s' = bump q Queued 1 (sadd_queue q (zadd_waiting q (- pri) k (s\<lparr>r_jobs := r_jobs s @ [?h]\<rparr>)))"
    using ex by (auto simp: redis_backend_def redis_enqueue_def Let_def sql_upsert_def)
  have get: "hget i s' = (if i = k then Some ?h else hget i s)" for i
    using none by (auto simp: hget_def s' row_of_append redis_hash_new_def split: option.splits)
  have "w_of i s' = w_of i s @ (if i = k then [(q, - pri)] else [])" for i
    by (simp add: s' w_of_def zadd_waiting_def bump_def sadd_queue_def)
  then have w: "w_of i s' = want_w (hget i s')" for i
    using redis_invD(4)[OF inv] none by (simp add: get redis_hash_new_def)
  have "r_of i s' = r_of i s" for i by (rule r_of_cong) (simp add: s')
  then have r: "r_of i s' = want_r (hget i s')" for i
    using redis_invD(5)[OF inv] none by (simp add: get redis_hash_new_def)
  have "redis_inv s'"
    unfolding redis_inv_def
  proof (intro conjI allI)
    show "distinct (map h_id (r_jobs s'))" using redis_invD(1)[OF inv] fresh by (simp add: s' redis_hash_new_def)
    show "list_all (hash_ok (r_queues s')) (r_jobs s')"
      using redis_invD(2)[OF inv] by (auto simp: s' sadd_queue_def list_all_iff hash_ok_def redis_hash_new_def)
    show "distinct (r_queues s')" using redis_invD(3)[OF inv] by (simp add: s' sadd_queue_def)
    show "r_cnt s' q' st = cnt_of q' st (r_jobs s')" for q' st
      using redis_invD(6)[OF inv] by (auto simp: s' cnt_of_def counts_as_def redis_hash_new_def)
    show "log_ok (r_events s') (r_eventseq s')" using redis_invD(7)[OF inv] by (simp add: s')
  qed (rule w r)+
  moreover have "job_from_dict ?h = queued_job k ns q p pri (r_now s)"
    by (simp add: job_from_dict_def redis_hash_new_def queued_job_def or_none_def)
  then have "redis_abs s' = put k (queued_job k ns q p pri (r_now s)) (redis_abs s)"
    using redis_abs_put[OF get] by (simp add: s' redis_abs_def put_def)
  ultimately show ?thesis using s'(1) none by (auto simp: redis_abs_def redis_get_def intro!: spec_enqueue)
qed

lemma redis_queued_on:
  "queued_on (redis_abs s) q k j \<longleftrightarrow> (\<exists>h. hget k s = Some h \<and> j = job_from_dict h \<and> h_queue h = q \<and> h_status h = Queued)"
  by (auto simp: queued_on_def redis_abs_def redis_get_def)

text \<open>The members of a queue are its queued jobs.\<close>

lemma waiting_member:
  assumes inv: "redis_inv s" and z: "z \<in> set (r_waiting s)"
  obtains h where "hget (z_id z) s = Some h" and "h_status h = Queued" and "h_queue h = z_queue z"
    and "z_score z = - h_priority h" and "filter (\<lambda>x. z_id x = z_id z) (r_waiting s) = [z]"
proof -
  have mem: "z \<in> set (filter (\<lambda>x. z_id x = z_id z) (r_waiting s))" using z by simp
  have "w_of (z_id z) s \<noteq> []" using z by (auto simp: w_of_def filter_empty_conv)
  then have ne: "want_w (hget (z_id z) s) \<noteq> []" using redis_invD(4)[OF inv, of "z_id z"] by simp
  then obtain h where h: "hget (z_id z) s = Some h" by (cases "hget (z_id z) s") auto
  then have st: "h_status h = Queued" using ne by (simp split: if_splits)
  then have "w_of (z_id z) s = [(h_queue h, - h_priority h)]" using redis_invD(4)[OF inv, of "z_id z"] h by simp
  then obtain y where y: "filter (\<lambda>x. z_id x = z_id z) (r_waiting s) = [y]" "z_queue y = h_queue h" "z_score y = - h_priority h"
    by (auto simp: w_of_def)
  with mem have "y = z" by simp
  with y h st that show thesis by simp
qed

lemma queued_waiting:
  assumes inv: "redis_inv s" and h: "hget k s = Some h" "h_status h = Queued"
  obtains z where "z \<in> set (r_waiting s)" and "z_id z = k" and "z_queue z = h_queue h" and "z_score z = - h_priority h"
proof -
  have "w_of k s = [(h_queue h, - h_priority h)]" using redis_invD(4)[OF inv, of k] h by simp
  then obtain z where "filter (\<lambda>x. z_id x = k) (r_waiting s) = [z]" "z_queue z = h_queue h" "z_score z = - h_priority h"
    by (auto simp: w_of_def)
  moreover from this(1) have "z \<in> set (r_waiting s) \<and> z_id z = k"
    by (auto simp: filter_eq_Cons_iff)
  ultimately show thesis using that by blast
qed

lemma redis_claim_step:
  assumes inv: "redis_inv s" and ex: "spi_exec (redis_backend ns) (Claim_next q w l) s = (out, s')"
  shows "spec_step (redis_abs s) (Claim_next q w l) out (redis_abs s') \<and> redis_inv s' \<and> (out = Job_out None \<longrightarrow> s' = s)"
proof (cases "first_by (\<lambda>z. (z_score z, z_seq z)) (filter (\<lambda>z. z_queue z = q) (r_waiting s))")
  case None
  then have "out = Job_out None" "s' = s" using ex by (simp_all add: redis_backend_def redis_claim_def)
  moreover have "\<not> queued_on (redis_abs s) q i j" for i j
    using None by (auto simp: redis_queued_on filter_empty_conv elim: queued_waiting[OF inv])
  ultimately show ?thesis using inv by (auto intro: spec_claim_none)
next
  case (Some z)
  have z: "z \<in> set (r_waiting s)" "z_queue z = q" using first_by_mem[OF Some] by auto
  obtain h where h: "hget (z_id z) s = Some h" "h_status h = Queued" "h_queue h = q" "z_score z = - h_priority h"
      "filter (\<lambda>x. z_id x = z_id z) (r_waiting s) = [z]"
    using waiting_member[OF inv z(1)] z(2) by metis
  let ?f = "\<lambda>h. h\<lparr>h_status := Running, h_claimed := w, h_lease := Some (r_now s + l),
      h_attempts := Suc (h_attempts h), h_updated := r_now s\<rparr>"
  let ?s1 = "s\<lparr>r_waiting := remove1 z (r_waiting s)\<rparr>"
  have s': "s' = bump q Running 1 (bump q Queued (-1) (zadd_running q (r_now s + l) (z_id z) (hset (z_id z) ?f ?s1)))"
    and out: "out = Job_out (map_option job_from_dict (hget (z_id z) s'))"
    using ex Some by (auto simp: redis_backend_def redis_claim_def Let_def)
  have get: "hget k s' = (if k = z_id z then Some (?f h) else hget k s)" for k
    using h(1) hget_hset[of ?f k "z_id z" s] hget_cong[of s' "hset (z_id z) ?f s"] by (simp add: s' hset_def)
  have "redis_inv s'"
  proof (rule redis_inv_move[OF inv h(1), of ?f])
    show "hash_ok (r_queues s) (?f h)" using hget_ok[OF inv h(1)] by (simp add: hash_ok_def)
    show "w_of k s' = (if k = z_id z then want_w (Some (?f h)) else w_of k s)" for k
      using h(5) by (auto simp: w_of_def s' filter_remove1 remove1_idem)
    have "r_of k s' = r_of k (zadd_running q (r_now s + l) (z_id z) s)" for k
      by (simp add: r_of_def s' zadd_running_def hset_def bump_def)
    then show "r_of k s' = (if k = z_id z then want_r (Some (?f h)) else r_of k s)" for k
      using redis_invD(5)[OF inv, of "z_id z"] h by (simp add: r_of_zadd r_of_zrem)
    show "r_cnt s' q' st = r_cnt s q' st - counts_as q' st h + counts_as q' st (?f h)" for q' st
      using h by (auto simp: s' counts_as_def)
    show "log_ok (r_events s') (r_eventseq s')" using redis_invD(7)[OF inv] by (simp add: s')
  qed (simp_all add: s' hset_def)
  moreover let ?j = "claim_stamp (or_none w) l (r_now s) (job_from_dict h)"
  have j: "job_from_dict (?f h) = ?j" by (simp add: job_from_dict_def claim_stamp_def)
  have "redis_abs s' = put (z_id z) ?j (redis_abs s)"
    using redis_abs_put[OF get] j by (simp add: s' redis_abs_def put_def)
  moreover have "queued_on (redis_abs s) q (z_id z) (job_from_dict h)" using h by (simp add: redis_queued_on)
  then have "spec_step (redis_abs s) (Claim_next q w l) (Job_out (Some ?j)) (put (z_id z) ?j (redis_abs s))"
  proof (rule spec_claim[where c = "or_none w" and t = "r_now s"])
    show "j_priority j2 \<le> j_priority (job_from_dict h)" if on: "queued_on (redis_abs s) q i j2" for i j2
    proof -
      from on obtain h2 where h2: "hget i s = Some h2" "j2 = job_from_dict h2" "h_queue h2 = q" "h_status h2 = Queued"
        by (auto simp: redis_queued_on)
      obtain y where "y \<in> set (r_waiting s)" "z_queue y = q" "z_score y = - h_priority h2"
        using queued_waiting[OF inv h2(1,4)] h2(3) by metis
      then show ?thesis using first_by_min[OF Some, of y] h(4) h2(2) by auto
    qed
  qed (simp_all add: or_none_kept)
  ultimately show ?thesis using out get j by simp
qed

lemma redis_renew_step:
  assumes inv: "redis_inv s" and ex: "spi_exec (redis_backend ns) (Renew k w l) s = (out, s')"
  shows "spec_step (redis_abs s) (Renew k w l) out (redis_abs s') \<and> redis_inv s'"
proof (cases "\<exists>h. hget k s = Some h \<and> h_status h = Running \<and> h_claimed h = w")
  case True
  then obtain h where h: "hget k s = Some h" "h_status h = Running" "h_claimed h = w" by blast
  let ?f = "\<lambda>h. h\<lparr>h_lease := Some (r_now s + l), h_updated := r_now s\<rparr>"
  have s': "out = Flag True" "s' = zadd_running (h_queue h) (r_now s + l) k (hset k ?f s)"
    using ex h by (auto simp: redis_backend_def redis_renew_def)
  have get: "hget i s' = (if i = k then Some (?f h) else hget i s)" for i
    using h(1) hget_hset[of ?f i k s] hget_cong[of s' "hset k ?f s"] by (simp add: s')
  have "redis_inv s'"
  proof (rule redis_inv_move[OF inv h(1), of ?f])
    show "hash_ok (r_queues s) (?f h)" using hget_ok[OF inv h(1)] by (simp add: hash_ok_def)
    show "w_of i s' = (if i = k then want_w (Some (?f h)) else w_of i s)" for i
      using redis_invD(4)[OF inv, of k] h w_of_cong[of s' s i] by (simp add: s')
    have "r_of i s' = r_of i (zadd_running (h_queue h) (r_now s + l) k s)" for i
      by (simp add: r_of_def s' zadd_running_def hset_def)
    then show "r_of i s' = (if i = k then want_r (Some (?f h)) else r_of i s)" for i
      using redis_invD(5)[OF inv, of k] h by (simp add: r_of_zadd r_of_zrem)
    show "r_cnt s' q' st = r_cnt s q' st - counts_as q' st h + counts_as q' st (?f h)" for q' st
      by (simp add: s' counts_as_def)
    show "log_ok (r_events s') (r_eventseq s')" using redis_invD(7)[OF inv] by (simp add: s')
  qed (simp_all add: s')
  moreover have "job_from_dict (?f h) = renew_stamp l (r_now s) (job_from_dict h)"
    by (simp add: job_from_dict_def renew_stamp_def)
  then have "redis_abs s' = put k (renew_stamp l (r_now s) (job_from_dict h)) (redis_abs s)"
    using redis_abs_put[OF get] by (simp add: s' redis_abs_def put_def)
  moreover have "spec_step (redis_abs s) (Renew k w l) (Flag True) (put k (renew_stamp l (r_now s) (job_from_dict h)) (redis_abs s))"
    by (rule spec_renew) (use h or_none_kept(1) in \<open>auto simp: redis_abs_def redis_get_def\<close>)
  ultimately show ?thesis using s'(1) by simp
next
  case False
  then have "out = Flag False" "s' = s" using ex by (auto simp: redis_backend_def redis_renew_def split: option.splits)
  moreover have "spec_step (redis_abs s) (Renew k w l) (Flag False) (redis_abs s)"
    by (rule spec_renew_lost) (use False in \<open>auto simp: redis_abs_def redis_get_def or_none_def split: if_splits\<close>)
  ultimately show ?thesis using inv by simp
qed

lemma redis_open_iff:
  "open_job (redis_abs s) k j \<longleftrightarrow> (\<exists>h. hget k s = Some h \<and> j = job_from_dict h \<and> \<not> spi_terminal (h_status h))"
  by (auto simp: open_job_def redis_abs_def redis_get_def)

text \<open>A job that may be ended and is not terminal is running.\<close>

lemma may_end_running:
  "redis_inv s \<Longrightarrow> redis_may_end s k \<Longrightarrow> hget k s = Some h \<Longrightarrow> \<not> spi_terminal (h_status h) \<Longrightarrow> h_status h = Running"
  using hget_ok[of s k h] by (auto simp: redis_may_end_def hash_ok_def)

lemma redis_terminate_step:
  assumes inv: "redis_inv s" and may: "redis_may_end s k" and ex: "spi_exec (redis_backend ns) (Terminate k en ev) s = (out, s')"
  shows "spec_step (redis_abs s) (Terminate k en ev) out (redis_abs s') \<and> redis_inv s' \<and> (out = Job_out None \<longrightarrow> s' = s)"
proof (cases "\<exists>h. hget k s = Some h \<and> \<not> spi_terminal (h_status h)")
  case True
  then obtain h where h: "hget k s = Some h" "\<not> spi_terminal (h_status h)" by blast
  have st: "h_status h = Running" using may_end_running[OF inv may h] .
  let ?q = "h_queue h"
  let ?f = "\<lambda>h. h\<lparr>h_status := ending_status en, h_result := ending_result en, h_error := or_blank (ending_error en), h_updated := r_now s\<rparr>"
  let ?s2 = "bump ?q (ending_status en) 1 (bump ?q Running (-1) (zrem_running ?q k (hset k ?f s)))"
  let ?ev = "\<lambda>ty d. \<lparr>e_seq = Suc (r_eventseq s), e_job = k, e_namespace = ns, e_queue = ?q, e_type = ty,
      e_detail = or_empty d, e_created = r_now s\<rparr>"
  let ?s3 = "case ev of None \<Rightarrow> ?s2 | Some (ty, d) \<Rightarrow> if ty = [] then ?s2
      else ?s2\<lparr>r_eventseq := Suc (r_eventseq s), r_events := r_events s @ [?ev ty d]\<rparr>"
  have s': "s' = ?s3" and out: "out = Job_out (map_option job_from_dict (hget k s'))"
    using ex h st by (auto simp: redis_backend_def redis_terminal_def Let_def split: option.splits)
  have eqs: "r_jobs s' = r_jobs (hset k ?f s)" "r_waiting s' = r_waiting s" "r_running s' = r_running (zrem_running ?q k s)"
      "r_cnt s' = r_cnt ?s2" "r_queues s' = r_queues s"
    by (auto simp: s' zrem_running_def hset_def bump_def split: option.splits)
  have get: "hget i s' = (if i = k then Some (?f h) else hget i s)" for i
    using h(1) hget_hset[of ?f i k s] hget_cong[OF eqs(1)] by simp
  have fin: "ending_status en \<noteq> Queued" "ending_status en \<noteq> Running" by (cases en; simp)+
  have "redis_inv s'"
  proof (rule redis_inv_move[OF inv h(1), of ?f])
    show "hash_ok (r_queues s) (?f h)" using hget_ok[OF inv h(1)] by (cases en) (simp_all add: hash_ok_def spi_terminal_def)
    show "w_of i s' = (if i = k then want_w (Some (?f h)) else w_of i s)" for i
      using redis_invD(4)[OF inv, of k] h st fin w_of_cong[OF eqs(2)] by simp
    show "r_of i s' = (if i = k then want_r (Some (?f h)) else r_of i s)" for i
      using redis_invD(5)[OF inv, of k] h st fin r_of_cong[OF eqs(3)] by (simp add: r_of_zrem)
    show "r_cnt s' q' st = r_cnt s q' st - counts_as q' st h + counts_as q' st (?f h)" for q' st
      using st by (auto simp: eqs(4) counts_as_def)
    show "log_ok (r_events s') (r_eventseq s')"
      using redis_invD(7)[OF inv] log_ok_append[of "r_events s" "r_eventseq s"] by (auto simp: s' split: option.splits)
  qed (simp_all add: eqs)
  moreover let ?j = "end_job (ending_status en) (ending_result en) (or_none (or_blank (ending_error en))) (r_now s) (job_from_dict h)"
  have j: "job_from_dict (?f h) = ?j" by (simp add: job_from_dict_def end_job_def)
  have "redis_abs s' = (put k ?j (redis_abs s))\<lparr>sp_events := r_events s'\<rparr>" using redis_abs_put[OF get] j by simp
  moreover have "spec_step (redis_abs s) (Terminate k en ev) (Job_out (Some ?j)) ((put k ?j (redis_abs s))\<lparr>sp_events := r_events s'\<rparr>)"
  proof (rule spec_terminate)
    show "open_job (redis_abs s) k (job_from_dict h)" using h by (simp add: redis_open_iff)
    show "event_appended k (j_queue (job_from_dict h)) ev (sp_events (redis_abs s)) (r_events s')"
      using redis_invD(7)[OF inv] by (auto simp: event_appended_def redis_abs_def s' log_ok_def split: option.splits)
  qed (simp_all add: or_none_kept)
  ultimately show ?thesis using out get j by simp
next
  case False
  then have "out = Job_out None" "s' = s" using ex by (auto simp: redis_backend_def redis_terminal_def split: option.splits)
  then show ?thesis using inv False by (auto simp: redis_open_iff intro!: spec_terminate_none)
qed

text \<open>Sending a running job back, as the requeue and the reclaim scripts do it.\<close>

definition sent_back :: "string \<Rightarrow> redis_hash \<Rightarrow> redis_db \<Rightarrow> redis_db" where
  "sent_back k h s =
     bump (h_queue h) Queued 1 (bump (h_queue h) Running (-1) (zadd_waiting (h_queue h) (- h_priority h) k
       (zrem_running (h_queue h) k (hset k (to_queued (r_now s)) s))))"

lemma sent_back:
  assumes inv: "redis_inv s" and h: "hget k s = Some h" "h_status h = Running"
  shows "redis_inv (sent_back k h s)"
    and "hget i (sent_back k h s) = (if i = k then Some (to_queued (r_now s) h) else hget i s)"
    and "r_now (sent_back k h s) = r_now s" and "r_events (sent_back k h s) = r_events s"
    and "r_queues (sent_back k h s) = r_queues s"
proof -
  let ?f = "to_queued (r_now s)" and ?s' = "sent_back k h s"
  have f: "h_id (?f h) = h_id h" "h_queue (?f h) = h_queue h" for h by (simp_all add: to_queued_def)
  have jobs: "r_jobs ?s' = r_jobs (hset k ?f s)" by (simp add: sent_back_def)
  show "hget i ?s' = (if i = k then Some (?f h) else hget i s)" for i
    using h(1) hget_hset[of ?f i k s, OF f(1)] hget_cong[OF jobs] by simp
  show "redis_inv ?s'"
  proof (rule redis_inv_move[OF inv h(1) f(1) f(2) _ jobs])
    show "hash_ok (r_queues s) (?f h)" using hget_ok[OF inv h(1)] by (simp add: hash_ok_def to_queued_def)
    have "w_of i ?s' = w_of i (zadd_waiting (h_queue h) (- h_priority h) k s)" for i
      by (simp add: w_of_def sent_back_def zadd_waiting_def zrem_running_def bump_def hset_def)
    then show "w_of i ?s' = (if i = k then want_w (Some (?f h)) else w_of i s)" for i
      using redis_invD(4)[OF inv, of k] h by (simp add: w_of_zadd to_queued_def)
    have "r_of i ?s' = r_of i (zrem_running (h_queue h) k s)" for i
      by (simp add: r_of_def sent_back_def zadd_waiting_def zrem_running_def bump_def hset_def)
    then show "r_of i ?s' = (if i = k then want_r (Some (?f h)) else r_of i s)" for i
      using redis_invD(5)[OF inv, of k] h by (simp add: r_of_zrem to_queued_def)
    show "r_cnt ?s' q' st = r_cnt s q' st - counts_as q' st h + counts_as q' st (?f h)" for q' st
      using h by (auto simp: sent_back_def counts_as_def to_queued_def)
    show "log_ok (r_events ?s') (r_eventseq ?s')" using redis_invD(7)[OF inv] by (simp add: sent_back_def)
  qed (simp add: sent_back_def)
qed (simp_all add: sent_back_def)

lemma job_to_queued: "job_from_dict (to_queued t h) = unclaim t (job_from_dict h)"
  by (simp add: job_from_dict_def to_queued_def unclaim_def or_none_def)

lemma redis_requeue_step:
  assumes inv: "redis_inv s" and may: "redis_may_end s k" and ex: "spi_exec (redis_backend ns) (Requeue k) s = (out, s')"
  shows "spec_step (redis_abs s) (Requeue k) out (redis_abs s') \<and> redis_inv s' \<and> (out = Job_out None \<longrightarrow> s' = s)"
proof (cases "\<exists>h. hget k s = Some h \<and> \<not> spi_terminal (h_status h)")
  case True
  then obtain h where h: "hget k s = Some h" "\<not> spi_terminal (h_status h)" by blast
  have st: "h_status h = Running" using may_end_running[OF inv may h] .
  have s': "s' = sent_back k h s" and out: "out = Job_out (map_option job_from_dict (hget k s'))"
    using ex h st by (auto simp: redis_backend_def redis_requeue_def sent_back_def Let_def)
  note sb = sent_back[OF inv h(1) st, folded s']
  let ?j = "unclaim (r_now s) (job_from_dict h)"
  have "redis_abs s' = put k ?j (redis_abs s)"
    using redis_abs_put[OF sb(2)] sb(4) by (simp add: job_to_queued redis_abs_def put_def)
  moreover have "spec_step (redis_abs s) (Requeue k) (Job_out (Some ?j)) (put k ?j (redis_abs s))"
    by (rule spec_requeue) (use h in \<open>auto simp: redis_open_iff\<close>)
  ultimately show ?thesis using out sb by (simp add: job_to_queued)
next
  case False
  then have "out = Job_out None" "s' = s" using ex by (auto simp: redis_backend_def redis_requeue_def split: option.splits)
  then show ?thesis using inv False by (auto simp: redis_open_iff intro!: spec_requeue_none)
qed

text \<open>What a sweep does to the hashes: those of \<open>ids\<close>, and only those, are sent back.\<close>

definition back_from :: "string list \<Rightarrow> redis_db \<Rightarrow> redis_db \<Rightarrow> bool" where
  "back_from ids s s' \<longleftrightarrow> redis_inv s' \<and> r_now s' = r_now s \<and> r_events s' = r_events s \<and> r_queues s' = r_queues s \<and>
     (\<forall>k. hget k s' = (if k \<in> set ids then map_option (to_queued (r_now s)) (hget k s) else hget k s))"

lemma to_queued_idem: "to_queued t (to_queued t h) = to_queued t h"
  by (simp add: to_queued_def)

lemma back_from_trans: "back_from xs s t \<Longrightarrow> back_from ys t u \<Longrightarrow> back_from (xs @ ys) s u"
  by (auto simp: back_from_def to_queued_idem option.map_comp comp_def)

lemma reclaim_all_effect:
  assumes "redis_inv s" and "distinct jids"
    and "\<And>k. k \<in> set jids \<Longrightarrow> \<exists>h. hget k s = Some h \<and> h_status h = Running \<and> h_queue h = q"
  shows "\<exists>s'. reclaim_all q jids s = (jids, s') \<and> back_from jids s s'"
  using assms
proof (induction jids arbitrary: s)
  case Nil
  then show ?case by (simp add: back_from_def)
next
  case (Cons k jids)
  from Cons.prems(3)[of k] obtain h where h: "hget k s = Some h" "h_status h = Running" "h_queue h = q" by auto
  note sb = sent_back[OF Cons.prems(1) h(1,2)]
  have one: "reclaim_one q k s = ([k], sent_back k h s)" using h by (simp add: reclaim_one_def sent_back_def)
  have "hget i (sent_back k h s) = hget i s" if "i \<in> set jids" for i using Cons.prems(2) that sb(2)[of i] by auto
  then obtain s' where s': "reclaim_all q jids (sent_back k h s) = (jids, s')" "back_from jids (sent_back k h s) s'"
    using Cons.IH[OF sb(1)] Cons.prems(2,3) by auto
  have "back_from [k] s (sent_back k h s)" using sb h by (simp add: back_from_def)
  from back_from_trans[OF this s'(2)] one s'(1) show ?case by simp
qed

text \<open>The lapsed leases of a queue are its running jobs whose lease is over.\<close>

lemma running_entry:
  assumes inv: "redis_inv s"
  shows "(\<exists>l\<in>set (r_running s). l_id l = k \<and> l_queue l = q \<and> l_at l = e) \<longleftrightarrow>
    (\<exists>h. hget k s = Some h \<and> h_status h = Running \<and> h_queue h = q \<and> h_lease h = Some e)"
proof -
  have "(\<exists>l\<in>set (r_running s). l_id l = k \<and> l_queue l = q \<and> l_at l = e) \<longleftrightarrow> (q, Some e) \<in> set (r_of k s)"
    by (auto simp: r_of_def)
  also have "\<dots> \<longleftrightarrow> (\<exists>h. hget k s = Some h \<and> h_status h = Running \<and> h_queue h = q \<and> h_lease h = Some e)"
    unfolding redis_invD(5)[OF inv] by (cases "hget k s") (auto split: if_splits)
  finally show ?thesis .
qed

lemma running_distinct: "redis_inv s \<Longrightarrow> distinct (map l_id (r_running s))"
proof (rule distinct_of_count)
  fix k
  assume inv: "redis_inv s"
  have "count_list (map l_id xs) k = length (filter (\<lambda>l. l_id l = k) xs)" for xs by (induction xs) auto
  then have "count_list (map l_id (r_running s)) k = length (r_of k s)" by (simp add: r_of_def)
  also have "\<dots> \<le> 1" unfolding redis_invD(5)[OF inv] by (cases "hget k s") auto
  finally show "count_list (map l_id (r_running s)) k \<le> 1" .
qed

definition lease_over :: "redis_db \<Rightarrow> string \<Rightarrow> redis_hash \<Rightarrow> bool" where
  "lease_over s q h \<longleftrightarrow> h_status h = Running \<and> h_queue h = q \<and> (\<exists>e. h_lease h = Some e \<and> e \<le> r_now s)"

lemma redis_reclaim_script_effect:
  assumes inv: "redis_inv s"
  shows "\<exists>ids s'. redis_reclaim_script q s = (ids, s') \<and> back_from ids s s' \<and> distinct ids \<and>
    (\<forall>k. k \<in> set ids \<longleftrightarrow> (\<exists>h. hget k s = Some h \<and> lease_over s q h))"
proof -
  let ?ls = "filter (\<lambda>l. l_queue l = q \<and> l_at l \<le> r_now s) (r_running s)"
  let ?ids = "map l_id (sort_key (\<lambda>l. (l_at l, l_id l)) ?ls)"
  have "distinct (map l_id ?ls)" using running_distinct[OF inv] by (rule distinct_map_filter)
  then have dist: "distinct ?ids" by (auto simp: distinct_map distinct_sort)
  have mem: "k \<in> set ?ids \<longleftrightarrow> (\<exists>h. hget k s = Some h \<and> lease_over s q h)" for k
  proof -
    have "k \<in> set ?ids \<longleftrightarrow> (\<exists>e. e \<le> r_now s \<and> (\<exists>l\<in>set (r_running s). l_id l = k \<and> l_queue l = q \<and> l_at l = e))" by auto
    then show ?thesis unfolding running_entry[OF inv] by (auto simp: lease_over_def)
  qed
  have "\<exists>h. hget k s = Some h \<and> h_status h = Running \<and> h_queue h = q" if "k \<in> set ?ids" for k
    using that unfolding mem by (auto simp: lease_over_def)
  from reclaim_all_effect[OF inv dist this] dist mem show ?thesis unfolding redis_reclaim_script_def by blast
qed

lemma reclaim_queues_effect:
  assumes "redis_inv s" and "distinct qs"
  shows "\<exists>ids s'. reclaim_queues qs s = (ids, s') \<and> back_from ids s s' \<and> distinct ids \<and>
    (\<forall>k. k \<in> set ids \<longleftrightarrow> (\<exists>h. hget k s = Some h \<and> (\<exists>q\<in>set qs. lease_over s q h)))"
  using assms
proof (induction qs arbitrary: s)
  case Nil
  then show ?case by (simp add: back_from_def)
next
  case (Cons q qs)
  from redis_reclaim_script_effect[OF Cons.prems(1), of q] obtain ids s1
    where one: "redis_reclaim_script q s = (ids, s1)" "back_from ids s s1" "distinct ids"
      "\<And>k. k \<in> set ids \<longleftrightarrow> (\<exists>h. hget k s = Some h \<and> lease_over s q h)" by blast
  have inv1: "redis_inv s1" and now: "r_now s1 = r_now s" using one(2) by (simp_all add: back_from_def)
  from Cons.IH[OF inv1] Cons.prems(2) obtain ids2 s2
    where rest: "reclaim_queues qs s1 = (ids2, s2)" "back_from ids2 s1 s2" "distinct ids2"
      "\<And>k. k \<in> set ids2 \<longleftrightarrow> (\<exists>h. hget k s1 = Some h \<and> (\<exists>q\<in>set qs. lease_over s1 q h))" by auto
  have ids2: "k \<in> set ids2 \<longleftrightarrow> k \<notin> set ids \<and> (\<exists>h. hget k s = Some h \<and> (\<exists>q\<in>set qs. lease_over s q h))" for k
    using one(2) now unfolding rest(4)
    by (cases "hget k s") (auto simp: back_from_def lease_over_def to_queued_def split: if_splits)
  have "reclaim_queues (q # qs) s = (ids @ ids2, s2)" using one(1) rest(1) by simp
  moreover have "back_from (ids @ ids2) s s2" using back_from_trans[OF one(2) rest(2)] .
  moreover have "distinct (ids @ ids2)" using one(3) rest(3) ids2 by auto
  moreover have "k \<in> set (ids @ ids2) \<longleftrightarrow> (\<exists>h. hget k s = Some h \<and> (\<exists>q'\<in>set (q # qs). lease_over s q' h))" for k
    using one(4) ids2 by auto
  ultimately show ?case by blast
qed

lemma redis_reclaim_step:
  assumes inv: "redis_inv s" and ex: "spi_exec (redis_backend ns) (Reclaim_expired qo) s = (out, s')"
  shows "spec_step (redis_abs s) (Reclaim_expired qo) out (redis_abs s') \<and> redis_inv s'"
proof -
  let ?qs = "case qo of None \<Rightarrow> r_queues s | Some q \<Rightarrow> [q]"
  have "distinct ?qs" using redis_invD(3)[OF inv] by (simp split: option.splits)
  from reclaim_queues_effect[OF inv this] obtain ids t
    where run: "reclaim_queues ?qs s = (ids, t)" "back_from ids s t" "distinct ids"
      "\<And>k. k \<in> set ids \<longleftrightarrow> (\<exists>h. hget k s = Some h \<and> (\<exists>q\<in>set ?qs. lease_over s q h))" by blast
  have s': "out = Ids ids" "s' = t" using ex run(1) by (auto simp: redis_backend_def redis_reclaim_def)
  have mem: "k \<in> set ids \<longleftrightarrow> (\<exists>h e. hget k s = Some h \<and> h_status h = Running \<and> on_queue qo (job_from_dict h) \<and>
      h_lease h = Some e \<and> e \<le> r_now s)" for k
    unfolding run(4) using hget_ok[OF inv, of k]
    by (auto simp: lease_over_def on_queue_def hash_ok_def split: option.splits)
  have get: "redis_get k s' = (if k \<in> set ids then map_option (unclaim (r_now s)) (redis_get k s) else redis_get k s)" for k
    using run(2) s'(2) by (auto simp: redis_get_def back_from_def option.map_comp comp_def job_to_queued)
  have "swept (r_now s) qo ids (redis_abs s) (redis_abs s')"
    unfolding swept_def
  proof (intro conjI allI)
    show "distinct ids" by (rule run(3))
    show "sp_events (redis_abs s') = sp_events (redis_abs s)" using run(2) s'(2) by (simp add: redis_abs_def back_from_def)
    fix k
    show "if k \<in> set ids
      then \<exists>j l. sp_jobs (redis_abs s) k = Some j \<and> j_status j = Running \<and> on_queue qo j \<and> j_lease j = Some l \<and>
        l \<le> r_now s \<and> sp_jobs (redis_abs s') k = Some (unclaim (r_now s) j)
      else sp_jobs (redis_abs s') k = sp_jobs (redis_abs s) k \<and>
        (\<forall>j l. sp_jobs (redis_abs s) k = Some j \<longrightarrow> j_status j = Running \<longrightarrow> on_queue qo j \<longrightarrow> j_lease j = Some l \<longrightarrow> r_now s \<le> l)"
      using get[of k] mem[of k] by (cases "hget k s") (auto simp: redis_abs_def redis_get_def[of k s])
  qed
  moreover have "redis_inv s'" using run(2) s'(2) by (simp add: back_from_def)
  ultimately show ?thesis by (auto simp: s'(1) intro: spec_reclaim)
qed

lemma redis_exec_step:
  assumes inv: "redis_inv s" and may: "spi_may redis_may_add redis_may_end s op"
    and ex: "spi_exec (redis_backend ns) op s = (out, s')"
  shows "spec_step (redis_abs s) op out (redis_abs s') \<and> redis_inv s' \<and> (out = Job_out None \<longrightarrow> s' = s)"
proof (cases op)
  case (Enqueue q p k pri)
  with redis_enqueue_step[OF inv _ ex[unfolded Enqueue]] may ex show ?thesis by (auto simp: not_a_job simp del: spi_exec.simps)
next
  case (Claim_next q w l)
  with redis_claim_step[OF inv ex[unfolded Claim_next]] show ?thesis by simp
next
  case (Renew k w l)
  with redis_renew_step[OF inv ex[unfolded Renew]] ex show ?thesis by (auto simp: not_a_job simp del: spi_exec.simps)
next
  case (Reclaim_expired qo)
  with redis_reclaim_step[OF inv ex[unfolded Reclaim_expired]] ex show ?thesis by (auto simp: not_a_job simp del: spi_exec.simps)
next
  case (Requeue k)
  with redis_requeue_step[OF inv _ ex[unfolded Requeue]] may show ?thesis by simp
next
  case (Terminate k en ev)
  with redis_terminate_step[OF inv _ ex[unfolded Terminate]] may show ?thesis by simp
next
  case (Wait n)
  have "redis_abs (redis_wait n s) = redis_abs s" "redis_inv (redis_wait n s)"
    using inv by (simp_all add: redis_abs_def redis_get_def hget_def redis_wait_def redis_inv_def w_of_def r_of_def)
  with Wait ex show ?thesis by (auto simp: redis_backend_def intro: spec_wait)
qed

lemma redis_counts_abs:
  assumes inv: "redis_inv s"
  shows "redis_counts q st s = int (card (keys_with (redis_abs s) q st))"
proof -
  have dist: "distinct (map h_id (r_jobs s))" using redis_invD(1)[OF inv] .
  let ?rows = "filter (\<lambda>h. h_queue h = q \<and> h_status h = st) (r_jobs s)"
  have "keys_with (redis_abs s) q st = {k. \<exists>h. row_of h_id k (r_jobs s) = Some h \<and> h_queue h = q \<and> h_status h = st}"
    by (auto simp: keys_with_def redis_abs_def redis_get_def hget_def)
  also have "\<dots> = set (map h_id ?rows)"
    using row_of_mem[OF dist] by (fastforce dest: row_of_SomeD)
  finally have "card (keys_with (redis_abs s) q st) = length (map h_id ?rows)"
    using distinct_card[of "map h_id ?rows"] dist by (simp add: distinct_map_filter)
  moreover have "cnt_of q st hs = int (length (filter (\<lambda>h. h_queue h = q \<and> h_status h = st) hs))" for hs
    by (induction hs) (auto simp: cnt_of_def counts_as_def)
  ultimately show ?thesis using redis_invD(6)[OF inv] by (simp add: redis_counts_def)
qed

interpretation redis: storage_backend "redis_backend ns" redis_inv redis_may_add redis_may_end redis_abs
  for ns
proof (unfold_locales, goal_cases)
  case (1 s op out s')
  then show ?case using redis_exec_step by blast
next
  case (2 s op s')
  then show ?case using redis_exec_step by blast
next
  case (3 s)
  then show ?case by (rule redis_spec_ok)
next
  case (4 s k)
  then show ?case by (simp add: redis_backend_def redis_abs_def)
next
  case (5 s since limit)
  then show ?case by (simp add: redis_backend_def redis_events_def redis_abs_def)
next
  case (6 s q st)
  then show ?case by (simp add: redis_backend_def redis_counts_abs)
qed

end
