(* ===== verification/Gpu_Pool.thy ===== *)
theory Gpu_Pool
  imports Postgres_Backend Mongo_Backend Redis_Backend
begin

text \<open>
  \<^verbatim>\<open>gpu_pool.py\<close>: self-contained GPU tasks on a shared storage backend. The submitter's side
  (submit, await) and the worker's side (claim in queue order, execute, reclaim) are functions over any
  backend; what they promise is proved from the backend contract alone.
\<close>

section \<open>The submitter\<close>

text \<open>The id is the one the backend draws.\<close>

definition pool_payload :: "string \<Rightarrow> json \<Rightarrow> json \<Rightarrow> json \<Rightarrow> json \<Rightarrow> json" where
  "pool_payload handler model inputs output_dir params =
     JObj [(''handler'', JStr handler), (''model'', model), (''inputs'', or_empty inputs),
           (''output_dir'', output_dir), (''params'', or_empty params)]"

definition submit_pool_task :: "'s backend \<Rightarrow> string \<Rightarrow> string \<Rightarrow> json \<Rightarrow> json \<Rightarrow> json \<Rightarrow> json \<Rightarrow> int \<Rightarrow> string \<Rightarrow>
    ('s, string) act" where
  "submit_pool_task be queue handler model inputs output_dir params priority jid s =
     be_enqueue be queue (pool_payload handler model inputs output_dir params) jid priority s"

definition get_pool_task :: "'s backend \<Rightarrow> string \<Rightarrow> 's \<Rightarrow> spi_job option" where
  "get_pool_task be task_id s = be_get be task_id s"

text \<open>
  \<^verbatim>\<open>await_pool_result\<close>. The store changes between two polls, so the loop runs over what it meets: for
  each poll the reading of the monotonic clock and the store. \<open>None\<close>: the loop is still waiting.
\<close>

datatype await_outcome =
    Awaited json
  | Task_failed "string option"
  | Task_unknown
  | Await_timeout

fun await_pool_result :: "'s backend \<Rightarrow> string \<Rightarrow> int \<Rightarrow> (int \<times> 's) list \<Rightarrow> await_outcome option" where
  "await_pool_result be task_id deadline [] = None"
| "await_pool_result be task_id deadline ((t, s) # polls) =
     (case be_get be task_id s of
        None \<Rightarrow> Some Task_unknown
      | Some job \<Rightarrow>
          if j_status job = Completed
          then Some (Awaited (case j_result job of None \<Rightarrow> JObj [] | Some r \<Rightarrow> or_empty r))
          else if j_status job = Failed then Some (Task_failed (j_error job))
          else if t \<ge> deadline then Some Await_timeout
          else await_pool_result be task_id deadline polls)"

section \<open>The worker\<close>

fun claim_pool_task :: "'s backend \<Rightarrow> string list \<Rightarrow> string \<Rightarrow> int \<Rightarrow> 's \<Rightarrow> spi_job option \<times> 's" where
  "claim_pool_task be [] worker lease s = (None, s)"
| "claim_pool_task be (q # qs) worker lease s =
     (case be_claim be q worker lease s of
        (Some job, s') \<Rightarrow> (Some job, s')
      | (None, s') \<Rightarrow> claim_pool_task be qs worker lease s')"

definition renew_pool_lease :: "'s backend \<Rightarrow> string \<Rightarrow> string \<Rightarrow> int \<Rightarrow> 's \<Rightarrow> bool \<times> 's" where
  "renew_pool_lease be task_id worker lease s = be_renew be task_id worker lease s"

definition reclaim_expired_pool_leases :: "'s backend \<Rightarrow> 's \<Rightarrow> string list \<times> 's" where
  "reclaim_expired_pool_leases be s = be_reclaim be None s"

text \<open>
  A registered op, and how an exception reads: its type's name and its text. A handler that is not a
  string is looked up like any other key, and an unhashable one raises.
\<close>

type_synonym pool_handler = "json \<Rightarrow> json \<Rightarrow> json \<Rightarrow> json result"

record pool_config =
  gp_handlers :: "string \<Rightarrow> pool_handler option"
  gp_exc_type :: "py_error \<Rightarrow> string"
  gp_exc_text :: "py_error \<Rightarrow> string"

definition find_handler :: "pool_config \<Rightarrow> json option \<Rightarrow> pool_handler option result" where
  "find_handler cfg key =
     (case key of
        Some (JStr h) \<Rightarrow> Inr (gp_handlers cfg h)
      | Some (JList _) \<Rightarrow> Inl (TypeError ''unhashable type'')
      | Some (JObj _) \<Rightarrow> Inl (TypeError ''unhashable type'')
      | _ \<Rightarrow> Inr None)"

definition payload_get :: "jdict \<Rightarrow> string \<Rightarrow> json" where
  "payload_get kvs k = (case jget kvs k of None \<Rightarrow> JNull | Some v \<Rightarrow> v)"

text \<open>What running the task comes to: the way it ends.\<close>

definition as_result :: "json \<Rightarrow> json" where
  "as_result v = (case v of JObj _ \<Rightarrow> v | _ \<Rightarrow> JObj [(''result'', v)])"

definition run_handler :: "pool_config \<Rightarrow> jdict \<Rightarrow> ending result" where
  "run_handler cfg payload =
     (case find_handler cfg (jget payload ''handler'') of
        Inl e \<Rightarrow> Inl e
      | Inr None \<Rightarrow> Inr (Ends_failed (Some ''unknown pool handler''))
      | Inr (Some fn) \<Rightarrow>
          (case fn (or_empty (payload_get payload ''inputs'')) (payload_get payload ''output_dir'')
                   (or_empty (payload_get payload ''params'')) of
             Inl exc \<Rightarrow> Inr (Ends_failed (Some (gp_exc_type cfg exc @ '': '' @ gp_exc_text cfg exc)))
           | Inr v \<Rightarrow> Inr (Ends_completed (Some (as_result v)))))"

datatype pool_outcome = P_completed | P_failed | P_skipped

definition payload_dict :: "json \<Rightarrow> jdict result" where
  "payload_dict v = (case or_empty v of JObj kvs \<Rightarrow> Inr kvs | _ \<Rightarrow> Inl (OtherError ''AttributeError''))"

fun ending_event :: "ending \<Rightarrow> string" where
  "ending_event (Ends_completed _) = ''completed''"
| "ending_event (Ends_failed _) = ''failed''"

fun ending_outcome :: "ending \<Rightarrow> pool_outcome" where
  "ending_outcome (Ends_completed _) = P_completed"
| "ending_outcome (Ends_failed _) = P_failed"

text \<open>\<^verbatim>\<open>execute_pool_task\<close>, on the store as it is when the handler has ended.\<close>

definition execute_pool_task :: "'s backend \<Rightarrow> pool_config \<Rightarrow> spi_job \<Rightarrow> ('s, pool_outcome) act" where
  "execute_pool_task be cfg job s =
     (case payload_dict (j_payload job) of
        Inl e \<Rightarrow> (Inl e, s)
      | Inr payload \<Rightarrow>
          (case run_handler cfg payload of
             Inl e \<Rightarrow> (Inl e, s)
           | Inr en \<Rightarrow>
               (case be_terminal be (j_id job) en (Some (ending_event en, JNull)) s of
                  (row, s') \<Rightarrow> (Inr (if row \<noteq> None then ending_outcome en else P_skipped), s'))))"

text \<open>
  \<^verbatim>\<open>run_pool_worker_once\<close>; \<open>meanwhile\<close> is what the rest of the fleet does to the store while the handler
  runs.
\<close>

definition run_pool_worker_once :: "'s backend \<Rightarrow> pool_config \<Rightarrow> ('s \<Rightarrow> 's) \<Rightarrow> string list \<Rightarrow> string \<Rightarrow> int \<Rightarrow>
    ('s, pool_outcome option) act" where
  "run_pool_worker_once be cfg meanwhile queues worker lease s =
     (case claim_pool_task be queues worker lease s of
        (None, s') \<Rightarrow> (Inr None, s')
      | (Some job, s') \<Rightarrow>
          (case execute_pool_task be cfg job (meanwhile s') of
             (Inl e, s'') \<Rightarrow> (Inl e, s'') | (Inr out, s'') \<Rightarrow> (Inr (Some out), s'')))"

section \<open>What the pool promises, over any backend\<close>

text \<open>What a submitted task must come to: its handler on what was submitted.\<close>

definition pool_ending :: "pool_config \<Rightarrow> string \<Rightarrow> json \<Rightarrow> json \<Rightarrow> json \<Rightarrow> ending" where
  "pool_ending cfg handler inputs output_dir params =
     (case gp_handlers cfg handler of
        None \<Rightarrow> Ends_failed (Some ''unknown pool handler'')
      | Some fn \<Rightarrow>
          (case fn (or_empty inputs) output_dir (or_empty params) of
             Inl exc \<Rightarrow> Ends_failed (Some (gp_exc_type cfg exc @ '': '' @ gp_exc_text cfg exc))
           | Inr v \<Rightarrow> Ends_completed (Some (as_result v))))"

lemma or_empty_idem [simp]: "or_empty (or_empty v) = or_empty v"
  by (simp add: or_empty_def)

lemma submitted_payload:
  obtains kvs where "payload_dict (or_empty (pool_payload h m i d p)) = Inr kvs" and "run_handler cfg kvs = Inr (pool_ending cfg h i d p)"
proof -
  have "payload_dict (or_empty (pool_payload h m i d p)) = Inr [(''handler'', JStr h), (''model'', m),
      (''inputs'', or_empty i), (''output_dir'', d), (''params'', or_empty p)]"
    by (simp add: payload_dict_def pool_payload_def or_empty_def[of "JObj _"])
  then show thesis
    by (rule that) (simp add: run_handler_def find_handler_def jget_def payload_get_def pool_ending_def
        split: option.splits sum.splits)
qed

text \<open>How the submitter sees an ended task.\<close>

fun ending_seen :: "ending \<Rightarrow> await_outcome" where
  "ending_seen (Ends_completed r) = Awaited (case r of None \<Rightarrow> JObj [] | Some v \<Rightarrow> or_empty v)"
| "ending_seen (Ends_failed e) = Task_failed e"

lemma await_returns:
  "polls \<noteq> [] \<Longrightarrow> deadline \<le> fst (last polls) \<Longrightarrow> await_pool_result be k deadline polls \<noteq> None"
  by (induction polls) (auto split: option.splits if_splits)

lemma run_handler_error_text: "run_handler cfg payload = Inr en \<Longrightarrow> ending_error en \<noteq> Some []"
  by (auto simp: run_handler_def split: sum.splits option.splits)

text \<open>The first queue of the list that has a queued task is served, with a task of highest priority.\<close>

definition empty_on :: "spec_queue \<Rightarrow> string \<Rightarrow> bool" where
  "empty_on a q \<longleftrightarrow> (\<forall>k j. \<not> queued_on a q k j)"

definition head_of :: "spec_queue \<Rightarrow> string \<Rightarrow> string \<Rightarrow> bool" where
  "head_of a q k \<longleftrightarrow> (\<exists>j. queued_on a q k j \<and> (\<forall>i j2. queued_on a q i j2 \<longrightarrow> j_priority j2 \<le> j_priority j))"

primrec served_from :: "spec_queue \<Rightarrow> string list \<Rightarrow> string \<Rightarrow> bool" where
  "served_from a [] k = False"
| "served_from a (q # qs) k = (if empty_on a q then served_from a qs k else head_of a q k)"

context storage_backend
begin

lemma claim_pool_task_None:
  "inv s \<Longrightarrow> claim_pool_task be qs w l s = (None, s') \<Longrightarrow> s' = s \<and> list_all (empty_on (abs s)) qs"
proof (induction qs)
  case (Cons q qs)
  obtain r s1 where cl: "be_claim be q w l s = (r, s1)" by fastforce
  with Cons.prems have r: "r = None" by (cases r) auto
  then have "s1 = s" using claim_idle[OF Cons.prems(1)] cl by simp
  moreover have "empty_on (abs s) q"
    using claim_step[OF Cons.prems(1) cl] r by (auto simp: empty_on_def elim!: spec_claimE)
  ultimately show ?case using Cons cl r by simp
qed simp

lemma claim_pool_task_Some:
  "inv s \<Longrightarrow> claim_pool_task be qs w l s = (Some j', s') \<Longrightarrow>
     inv s' \<and> be_get be (j_id j') s' = Some j' \<and> j_status j' = Running \<and> served_from (abs s) qs (j_id j')"
proof (induction qs)
  case (Cons q qs)
  obtain r s1 where cl: "be_claim be q w l s = (r, s1)" by fastforce
  show ?case
  proof (cases r)
    case None
    then have "s1 = s" using claim_idle[OF Cons.prems(1)] cl by simp
    moreover have "empty_on (abs s) q"
      using claim_step[OF Cons.prems(1) cl] None by (auto simp: empty_on_def elim!: spec_claimE)
    ultimately show ?thesis using Cons cl None by simp
  next
    case (Some j)
    then have j: "j = j'" "s1 = s'" using Cons.prems(2) cl by simp_all
    obtain i c n where i: "queued_on (abs s) q (j_id j') i" "j' = claim_stamp c l n i"
        "abs s' = put (j_id j') j' (abs s)" "inv s'" "\<And>i' j2. queued_on (abs s) q i' j2 \<Longrightarrow> j_priority j2 \<le> j_priority i"
      by (rule claim_SomeE[OF Cons.prems(1) cl[unfolded Some j]]) (rule that)
    have "\<not> empty_on (abs s) q" using i(1) by (auto simp: empty_on_def)
    moreover have "head_of (abs s) q (j_id j')" unfolding head_of_def using i(1,5) by blast
    moreover have "be_get be (j_id j') s' = Some j'" using get_abs[OF i(4)] i(3) by simp
    moreover have "j_status j' = Running" using i(2) by (simp add: claim_stamp_def)
    ultimately show ?thesis using i(4) by simp
  qed
qed simp

lemma claim_pool_task_keeps:
  "inv s \<Longrightarrow> claim_pool_task be qs w l s = (Some j', s') \<Longrightarrow>
     \<exists>j. sp_jobs (abs s) (j_id j') = Some j \<and> j_payload j' = j_payload j"
proof (induction qs)
  case (Cons q qs)
  obtain r s1 where cl: "be_claim be q w l s = (r, s1)" by fastforce
  show ?case
  proof (cases r)
    case None
    then have "s1 = s" using claim_idle[OF Cons.prems(1)] cl by simp
    then show ?thesis using Cons cl None by simp
  next
    case (Some j)
    then have j: "j = j'" "s1 = s'" using Cons.prems(2) cl by simp_all
    show ?thesis
      by (rule claim_SomeE[OF Cons.prems(1) cl[unfolded Some j]]) (auto simp: queued_on_def claim_stamp_def)
  qed
qed simp

text \<open>
  An open task that is executed ends the way its handler ended, and from then on every await, after
  whatever lawful session, returns that.
\<close>

lemma execute_pool_task_ends:
  assumes "inv s" and "may_end s (j_id job)" and "open_job (abs s) (j_id job) j"
    and "payload_dict (j_payload job) = Inr payload" and "run_handler cfg payload = Inr en"
    and "execute_pool_task be cfg job s = (out, s')"
  shows "out = Inr (ending_outcome en) \<and> inv s' \<and>
    (\<exists>j'. be_get be (j_id job) s' = Some j' \<and> j_status j' = ending_status en \<and> j_result j' = ending_result en \<and>
       j_error j' = ending_error en)"
proof -
  obtain row where run: "be_terminal be (j_id job) en (Some (ending_event en, JNull)) s = (row, s')"
      and out: "out = Inr (if row \<noteq> None then ending_outcome en else P_skipped)"
    using assms(4-6) by (auto simp: execute_pool_task_def split: prod.splits)
  from terminal_step[OF assms(1,2) run]
  have step: "spec_step (abs s) (Terminate (j_id job) en (Some (ending_event en, JNull))) (Job_out row) (abs s')" "inv s'"
    by simp_all
  from step(1) assms(3) run_handler_error_text[OF assms(5)] have "row \<noteq> None \<and>
      (\<exists>j'. sp_jobs (abs s') (j_id job) = Some j' \<and> j_status j' = ending_status en \<and> j_result j' = ending_result en \<and>
         j_error j' = ending_error en)"
    by (auto elim!: spec_terminateE simp: text_kept_def end_job_def)
  then show ?thesis using out step(2) by (simp add: get_abs)
qed

lemma executed_then_awaited:
  assumes "inv s" and "may_end s (j_id job)" and "open_job (abs s) (j_id job) j"
    and "payload_dict (j_payload job) = Inr payload" and "run_handler cfg payload = Inr en"
    and "execute_pool_task be cfg job s = (out, s')"
    and "spi_lawful be may_add may_end ops s'" and "spi_trace be ops s' = (tr, t)"
  shows "out = Inr (ending_outcome en) \<and>
    await_pool_result be (j_id job) deadline ((clock, t) # polls) = Some (ending_seen en)"
proof -
  from execute_pool_task_ends[OF assms(1-6)] obtain j' where out: "out = Inr (ending_outcome en)" and "inv s'"
      and j': "be_get be (j_id job) s' = Some j'" "j_status j' = ending_status en" "j_result j' = ending_result en"
        "j_error j' = ending_error en" by blast
  have "spi_terminal (j_status j')" using j'(2) by (cases en) (simp_all add: spi_terminal_def)
  from terminal_reads_back[OF \<open>inv s'\<close> assms(7,8) j'(1) this]
  have "be_get be (j_id job) t = Some j'" .
  with out j' show ?thesis by (cases en) simp_all
qed

text \<open>A task that someone else ended while the handler ran is skipped, and nothing is written.\<close>

lemma execute_pool_task_skips:
  assumes "inv s" and "may_end s (j_id job)" and "\<And>j. \<not> open_job (abs s) (j_id job) j"
    and "payload_dict (j_payload job) = Inr payload" and "run_handler cfg payload = Inr en"
  shows "execute_pool_task be cfg job s = (Inr P_skipped, s)"
proof -
  obtain row s' where run: "be_terminal be (j_id job) en (Some (ending_event en, JNull)) s = (row, s')" by fastforce
  from terminal_step[OF assms(1,2) run] assms(3) have "row = None" "s' = s" by (auto elim!: spec_terminateE)
  with run assms(4,5) show ?thesis by (simp add: execute_pool_task_def)
qed

text \<open>
  From submission to result, with the rest of the fleet acting in between: a task that is claimed and
  still the worker's when its handler ends is ended by it, and the submitter sees what the handler
  made of what was submitted.
\<close>

lemma pool_end_to_end:
  assumes "inv s0" and "may_add s0 tid" and "submit_pool_task be q h m i d p pri tid s0 = (Inr tid', s1)"
    and "spi_lawful be may_add may_end ops1 s1" and "spi_trace be ops1 s1 = (tr1, s2)"
    and "claim_pool_task be qs w l s2 = (Some job, s3)" and "j_id job = tid"
    and "spi_lawful be may_add may_end ops2 s3" and "spi_trace be ops2 s3 = (tr2, s4)"
    and "be_get be tid s4 = Some j" and "j_status j = Running" and "may_end s4 tid"
    and "execute_pool_task be cfg job s4 = (out, s5)"
    and "spi_lawful be may_add may_end ops3 s5" and "spi_trace be ops3 s5 = (tr3, s6)"
  shows "tid' = tid \<and> out = Inr (ending_outcome (pool_ending cfg h i d p)) \<and>
    await_pool_result be tid deadline ((clock, s6) # polls) = Some (ending_seen (pool_ending cfg h i d p))"
proof -
  let ?pay = "pool_payload h m i d p"
  have ex: "spi_exec be (Enqueue q ?pay tid pri) s0 = (Enqueued tid', s1)"
    using assms(3) by (simp add: submit_pool_task_def)
  have step: "spec_step (abs s0) (Enqueue q ?pay tid pri) (Enqueued tid') (abs s1)" and inv1: "inv s1"
    using refines[OF assms(1) _ ex] assms(2) by simp_all
  then obtain j1 where j1: "sp_jobs (abs s1) tid = Some j1" "j_payload j1 = or_empty ?pay" and tid': "tid' = tid"
    by (auto elim!: spec_enqueueE simp: queued_job_def)
  have run1: "spec_run (abs s1) tr1 (abs s2)" and inv2: "inv s2" using run_refines[OF inv1 assms(4,5)] by simp_all
  obtain j2 where j2: "sp_jobs (abs s2) tid = Some j2" "j_payload j2 = or_empty ?pay"
    using spec_run_payload[OF run1 j1(1)] j1(2) by auto
  have inv3: "inv s3" and job: "be_get be tid s3 = Some job"
    using claim_pool_task_Some[OF inv2 assms(6)] assms(7) by simp_all
  have "j_payload job = or_empty ?pay"
    using claim_pool_task_keeps[OF inv2 assms(6)] assms(7) j2 by auto
  moreover obtain kvs where kvs: "payload_dict (or_empty ?pay) = Inr kvs" "run_handler cfg kvs = Inr (pool_ending cfg h i d p)"
    by (rule submitted_payload)
  moreover have inv4: "inv s4" using run_refines[OF inv3 assms(8,9)] by simp
  moreover have "open_job (abs s4) (j_id job) j"
    using assms(7,10,11) get_abs[OF inv4] by (simp add: open_job_def spi_terminal_def)
  ultimately show ?thesis
    using executed_then_awaited[of s4 job j kvs cfg "pool_ending cfg h i d p" out s5 ops3 tr3 s6 deadline clock polls]
      assms(7,12-15) tid' by simp
qed

end

end
