(* ===== verification/Ingest_Store.thy ===== *)
theory Ingest_Store
  imports Gpu_Pool Ingest_Queue
begin

text \<open>
  \<^verbatim>\<open>ingest_store.py\<close>, the seam that keeps the ingest queue on the relational tables or maps it onto a
  storage backend, and the registry of \<^verbatim>\<open>backends/__init__.py\<close> that names the backends. On the backend
  path the ingest priority is stored negated, so the smaller number is served first on either path.
\<close>

section \<open>The registry\<close>

definition backend_aliases :: "(string \<times> string) list" where
  "backend_aliases = [(''pg'', ''pg''), (''postgres'', ''pg''), (''postgresql'', ''pg''), (''redis'', ''redis''),
     (''mongo'', ''mongodb''), (''mongodb'', ''mongodb'')]"

definition known_backends :: "string list" where
  "known_backends = [''pg'', ''redis'', ''mongodb'']"

definition canonical_backend_name :: "string \<Rightarrow> string result" where
  "canonical_backend_name name =
     (case map_of backend_aliases (map to_lower (py_strip name)) of
        None \<Rightarrow> Inl (ValueError ''unknown db_backend'') | Some c \<Rightarrow> Inr c)"

definition is_known_backend :: "string \<Rightarrow> bool" where
  "is_known_backend name \<longleftrightarrow> map to_lower (py_strip name) \<in> fst ` set backend_aliases"

text \<open>
  \<^verbatim>\<open>get_backend\<close> and \<^verbatim>\<open>close_all\<close>: handles cached by canonical name, namespace and DSN. Building one
  imports the driver and creates the schema, either of which may raise; nothing is cached then.
\<close>

type_synonym backend_key = "string \<times> string \<times> string"

record registry =
  rg_instances :: "(backend_key \<times> nat) list"
  rg_next :: nat

record registry_env =
  re_db_backend :: string
  re_db_namespace :: string
  re_pg_url :: "string result"
  re_redis_url :: "string option"
  re_mongo_url :: "string option"
  re_build :: "backend_key \<Rightarrow> py_error option"

definition url_for :: "registry_env \<Rightarrow> string \<Rightarrow> string result" where
  "url_for env canonical =
     (if canonical = ''pg'' then re_pg_url env
      else case (if canonical = ''redis'' then re_redis_url env else re_mongo_url env) of
             Some (c # cs) \<Rightarrow> Inr (c # cs)
           | _ \<Rightarrow> Inl (RuntimeError ''backend DSN is not set''))"

definition get_backend :: "registry_env \<Rightarrow> string option \<Rightarrow> (registry, nat) act" where
  "get_backend env namespace g =
     (case canonical_backend_name (re_db_backend env) of
        Inl e \<Rightarrow> (Inl e, g)
      | Inr canonical \<Rightarrow>
          (case url_for env canonical of
             Inl e \<Rightarrow> (Inl e, g)
           | Inr url \<Rightarrow>
               (let ns = (case namespace of Some n \<Rightarrow> n | None \<Rightarrow> re_db_namespace env);
                    key = (canonical, ns, url)
                in case map_of (rg_instances g) key of
                     Some h \<Rightarrow> (Inr h, g)
                   | None \<Rightarrow>
                       (case re_build env key of
                          Some e \<Rightarrow> (Inl e, g)
                        | None \<Rightarrow> (Inr (rg_next g), g\<lparr>rg_instances := (key, rg_next g) # rg_instances g,
                                                   rg_next := Suc (rg_next g)\<rparr>)))))"

definition close_all :: "registry \<Rightarrow> registry" where
  "close_all g = g\<lparr>rg_instances := []\<rparr>"

section \<open>The mapping\<close>

text \<open>The ingest row a backend job is read back as.\<close>

record ingest_view =
  iv_id :: string
  iv_task :: json
  iv_queue :: string
  iv_reason :: json
  iv_args :: json
  iv_status :: job_status
  iv_claimed :: "string option"
  iv_priority :: int
  iv_result :: "json option"
  iv_error :: "string option"
  iv_lease :: "int option"
  iv_created :: int

text \<open>A payload that is not an object has no \<^verbatim>\<open>get\<close>; only this module writes to its queues.\<close>

definition payload_fields :: "json \<Rightarrow> jdict" where
  "payload_fields v = (case v of JObj kvs \<Rightarrow> kvs | _ \<Rightarrow> [])"

definition job_to_ingest_row :: "spi_job \<Rightarrow> ingest_view" where
  "job_to_ingest_row job =
     (let payload = payload_fields (j_payload job)
      in \<lparr>iv_id = j_id job, iv_task = payload_get payload ''task_name'', iv_queue = j_queue job,
          iv_reason = (case jget payload ''reason'' of None \<Rightarrow> JStr ''tick'' | Some r \<Rightarrow> r),
          iv_args = or_empty (payload_get payload ''args''), iv_status = j_status job, iv_claimed = j_claimed job,
          iv_priority = - j_priority job, iv_result = j_result job, iv_error = j_error job,
          iv_lease = j_lease job, iv_created = j_created job\<rparr>)"

section \<open>The store\<close>

text \<open>
  The relational database and the backend's own store side by side; \<open>use_spi\<close> is the switch. A row
  or id of the first is on the left of a sum, of the second on the right.
\<close>

record 's ingest_store =
  is_db :: db
  is_spi :: 's

definition use_spi :: "string \<Rightarrow> bool" where
  "use_spi db_backend \<longleftrightarrow> db_backend = ''redis'' \<or> db_backend = ''mongodb''"

definition validate_ingest :: "config \<Rightarrow> string \<Rightarrow> string \<Rightarrow> py_error option" where
  "validate_ingest cfg task_name queue =
     (if queue \<notin> set (cfg_ingest_queues cfg) then Some (ValueError ''ingest queue'')
      else if task_name \<notin> set (cfg_ingest_tasks cfg) then Some (ValueError ''task_name'')
      else None)"

definition on_db :: "(db \<Rightarrow> 'a \<times> db) \<Rightarrow> 's ingest_store \<Rightarrow> 'a \<times> 's ingest_store" where
  "on_db f st = (case f (is_db st) of (x, d) \<Rightarrow> (x, st\<lparr>is_db := d\<rparr>))"

definition on_spi :: "('s \<Rightarrow> 'a \<times> 's) \<Rightarrow> 's ingest_store \<Rightarrow> 'a \<times> 's ingest_store" where
  "on_spi f st = (case f (is_spi st) of (x, s) \<Rightarrow> (x, st\<lparr>is_spi := s\<rparr>))"

definition ingest_payload :: "ingest_args \<Rightarrow> json" where
  "ingest_payload a =
     JObj [(''task_name'', JStr (ia_task a)), (''reason'', JStr (ia_reason a)), (''args'', or_empty (JObj (ia_args a)))]"

definition store_enqueue :: "string \<Rightarrow> config \<Rightarrow> 's backend \<Rightarrow> ingest_args \<Rightarrow> string \<Rightarrow>
    ('s ingest_store, nat + string) act" where
  "store_enqueue db_backend cfg be a uuid st =
     (if \<not> use_spi db_backend
      then (case on_db (enqueue_ingest_job cfg a) st of
              (Inl e, st') \<Rightarrow> (Inl e, st') | (Inr i, st') \<Rightarrow> (Inr (Inl i), st'))
      else case validate_ingest cfg (ia_task a) (ia_queue a) of
             Some e \<Rightarrow> (Inl e, st)
           | None \<Rightarrow>
               (case on_spi (be_enqueue be (ia_queue a) (ingest_payload a) uuid (- ia_priority a)) st of
                  (Inl e, st') \<Rightarrow> (Inl e, st') | (Inr i, st') \<Rightarrow> (Inr (Inr i), st')))"

definition store_get :: "'s backend \<Rightarrow> nat + string \<Rightarrow> 's ingest_store \<Rightarrow> (ingest_row + ingest_view) option" where
  "store_get be i st =
     (case i of
        Inl n \<Rightarrow> map_option Inl (get_ingest_job n (is_db st))
      | Inr k \<Rightarrow> map_option (Inr \<circ> job_to_ingest_row) (be_get be k (is_spi st)))"

definition store_claim :: "string \<Rightarrow> config \<Rightarrow> 's backend \<Rightarrow> string \<Rightarrow> string option \<Rightarrow> int \<Rightarrow> 's ingest_store \<Rightarrow>
    (ingest_row + ingest_view) option \<times> 's ingest_store" where
  "store_claim db_backend cfg be queue host lease_s st =
     (if \<not> use_spi db_backend
      then (case on_db (claim_next_ingest_job cfg queue host lease_s None) st of (r, st') \<Rightarrow> (map_option Inl r, st'))
      else (case on_spi (be_claim be queue (case host of None \<Rightarrow> [] | Some h \<Rightarrow> h) (secs lease_s)) st of
              (r, st') \<Rightarrow> (map_option (Inr \<circ> job_to_ingest_row) r, st')))"

definition store_renew :: "'s backend \<Rightarrow> nat + string \<Rightarrow> string \<Rightarrow> int \<Rightarrow> 's ingest_store \<Rightarrow> bool \<times> 's ingest_store" where
  "store_renew be i host lease_s st =
     (case i of Inl n \<Rightarrow> on_db (renew_ingest_lease n host lease_s) st
      | Inr k \<Rightarrow> on_spi (be_renew be k host (secs lease_s)) st)"

definition store_complete :: "'s backend \<Rightarrow> nat + string \<Rightarrow> jdict \<Rightarrow> int option \<Rightarrow> 's ingest_store \<Rightarrow>
    (ingest_row + ingest_view) option \<times> 's ingest_store" where
  "store_complete be i res seconds st =
     (case i of
        Inl n \<Rightarrow> (case on_db (mark_ingest_completed n res seconds) st of (r, st') \<Rightarrow> (map_option Inl r, st'))
      | Inr k \<Rightarrow> (case on_spi (be_terminal be k (Ends_completed (Some (or_empty (JObj res)))) None) st of
                     (r, st') \<Rightarrow> (map_option (Inr \<circ> job_to_ingest_row) r, st')))"

definition store_fail :: "'s backend \<Rightarrow> nat + string \<Rightarrow> string \<Rightarrow> int option \<Rightarrow> 's ingest_store \<Rightarrow>
    (ingest_row + ingest_view) option \<times> 's ingest_store" where
  "store_fail be i error seconds st =
     (case i of
        Inl n \<Rightarrow> (case on_db (mark_ingest_failed n (Some error) seconds) st of (r, st') \<Rightarrow> (map_option Inl r, st'))
      | Inr k \<Rightarrow> (case on_spi (be_terminal be k (Ends_failed (Some error)) None) st of
                     (r, st') \<Rightarrow> (map_option (Inr \<circ> job_to_ingest_row) r, st')))"

text \<open>The rows a sweep put back, as \<^verbatim>\<open>(id, task_name, queue)\<close>.\<close>

definition store_reclaim :: "string \<Rightarrow> 's backend \<Rightarrow> 's ingest_store \<Rightarrow>
    ((nat \<times> string \<times> string) list + (string \<times> json \<times> string) list) \<times> 's ingest_store" where
  "store_reclaim db_backend be st =
     (if \<not> use_spi db_backend
      then (case on_db reclaim_expired_ingest_leases st of (rows, st') \<Rightarrow> (Inl rows, st'))
      else (case on_spi (be_reclaim be None) st of
              (ids, st') \<Rightarrow>
                (Inr (map ((\<lambda>v. (iv_id v, iv_task v, iv_queue v)) \<circ> job_to_ingest_row)
                        (List.map_filter (\<lambda>k. be_get be k (is_spi st')) ids)), st')))"

text \<open>\<^verbatim>\<open>ingest_snapshot\<close> on the backend path: per queue the four depths and the live workers.\<close>

definition store_snapshot :: "config \<Rightarrow> 's backend \<Rightarrow> 's \<Rightarrow> (string \<times> (int \<times> int \<times> int \<times> int \<times> nat)) list" where
  "store_snapshot cfg be s =
     map (\<lambda>q. (q, be_counts be q Queued s, be_counts be q Running s, be_counts be q Completed s,
               be_counts be q Failed s, length (be_workers be q s))) (sort (remdups (cfg_ingest_queues cfg)))"

section \<open>What the seam keeps\<close>

lemma canonical_idem: "canonical_backend_name name = Inr c \<Longrightarrow> canonical_backend_name c = Inr c \<and> c \<in> set known_backends"
proof -
  assume "canonical_backend_name name = Inr c"
  then have "map_of backend_aliases (map to_lower (py_strip name)) = Some c"
    by (auto simp: canonical_backend_name_def split: option.splits)
  then have "c = ''pg'' \<or> c = ''redis'' \<or> c = ''mongodb''"
    using map_of_SomeD[of backend_aliases _ c] by (auto simp: backend_aliases_def simp del: map_of.simps)
  moreover have "canonical_backend_name ''pg'' = Inr ''pg''" "canonical_backend_name ''redis'' = Inr ''redis''"
      "canonical_backend_name ''mongodb'' = Inr ''mongodb''" by code_simp+
  ultimately show ?thesis by (auto simp: known_backends_def)
qed

lemma known_iff: "is_known_backend name \<longleftrightarrow> (\<exists>c. canonical_backend_name name = Inr c)"
  using map_of_eq_None_iff[of backend_aliases "map to_lower (py_strip name)"]
  by (auto simp: is_known_backend_def canonical_backend_name_def split: option.splits)

text \<open>A cached handle is reused until everything is closed, and no two keys share one.\<close>

definition registry_ok :: "registry \<Rightarrow> bool" where
  "registry_ok g \<longleftrightarrow> distinct (map snd (rg_instances g)) \<and> (\<forall>h\<in>snd ` set (rg_instances g). h < rg_next g)"

lemma get_backend_ok: "registry_ok g \<Longrightarrow> registry_ok (snd (get_backend env ns g))"
  by (auto simp: get_backend_def registry_ok_def Let_def less_Suc_eq split: sum.splits option.splits)

lemma get_backend_again:
  "get_backend env ns g = (Inr h, g') \<Longrightarrow> get_backend env ns g' = (Inr h, g')"
  by (auto simp: get_backend_def Let_def split: sum.splits option.splits)

context storage_backend
begin

text \<open>What was enqueued is read back with the same fields.\<close>

lemma store_enqueue_reads_back:
  assumes "inv s" and "may_add s uuid" and "be_enqueue be q p uuid pri s = (Inr k, s')"
  shows "k = uuid \<and> inv s' \<and> (\<exists>ns t. be_get be uuid s' = Some (queued_job uuid ns q p pri t))"
proof -
  have "spec_step (abs s) (Enqueue q p uuid pri) (Enqueued k) (abs s')" "inv s'"
    using refines[of s "Enqueue q p uuid pri" "Enqueued k" s'] assms by simp_all
  moreover from this obtain ns t where "k = uuid" "abs s' = put uuid (queued_job uuid ns q p pri t) (abs s)"
    by (auto elim!: spec_enqueueE)
  ultimately show ?thesis by (simp add: get_abs) blast
qed

text \<open>The claim serves the smallest ingest priority of the queue.\<close>

lemma claim_serves_least:
  assumes "inv s" and "be_claim be q w l s = (Some j', s')" and "be_get be k s = Some j2"
    and "j_queue j2 = q" and "j_status j2 = Queued"
  shows "iv_priority (job_to_ingest_row j') \<le> iv_priority (job_to_ingest_row j2)"
proof -
  obtain j c n where "j' = claim_stamp c l n j" "\<And>i j2. queued_on (abs s) q i j2 \<Longrightarrow> j_priority j2 \<le> j_priority j"
    by (rule claim_SomeE[OF assms(1,2)]) (rule that)
  moreover from this(2)[of k j2] have "j_priority j2 \<le> j_priority j" using assms by (simp add: queued_on_def get_abs)
  ultimately show ?thesis by (simp add: job_to_ingest_row_def Let_def claim_stamp_def)
qed

end

end
