(* ===== verification/Backend_Laws.thy ===== *)
theory Backend_Laws
  imports Ingest_Store Examples
begin

text \<open>
  The promises of the storage backends and of their two clients, the GPU pool and the ingest seam,
  over the models of PostgreSQL, MongoDB and Redis; and the calls on which Redis leaves the contract.
\<close>

section \<open>Stores to start from\<close>

definition empty_redis :: redis_db where
  "empty_redis = \<lparr>r_now = 0, r_jobs = [], r_waiting = [], r_running = [], r_queues = [], r_cnt = (\<lambda>_ _. 0), r_seq = 0,
     r_events = [], r_eventseq = 0, r_workers = [], r_controls = []\<rparr>"

definition empty_pg :: pg_db where
  "empty_pg = \<lparr>pg_now = 0, pg_jobs = [], pg_events = [], pg_eventseq = 0, pg_workers = [], pg_controls = []\<rparr>"

definition empty_mongo :: mongo_db where
  "empty_mongo = \<lparr>m_now = 0, m_jobs = [], m_events = [], m_seqs = 0, m_eventseq = 0, m_workers = [], m_controls = []\<rparr>"

lemma empty_inv: "redis_inv empty_redis" "pg_inv empty_pg" "mongo_inv empty_mongo"
  by (simp_all add: redis_inv_def pg_inv_def mongo_inv_def empty_redis_def empty_pg_def empty_mongo_def
      w_of_def r_of_def hget_def cnt_of_def log_ok_def)

lemma empty_outbox: "outbox_ok (redis_abs empty_redis)" "outbox_full (redis_abs empty_redis)"
  by (simp_all add: outbox_ok_def outbox_full_def events_of_def terminal_in_def redis_abs_def redis_get_def
      hget_def empty_redis_def)

text \<open>A session: two tasks, the urgent one claimed, lost, reclaimed, claimed again and completed twice.\<close>

definition demo_ops :: "spi_op list" where
  "demo_ops =
     [Enqueue ''q'' (JObj []) ''a'' 0, Enqueue ''q'' (JObj []) ''b'' 5, Claim_next ''q'' ''w1'' 10, Wait 20,
      Reclaim_expired None, Claim_next ''q'' ''w2'' 10, Renew ''b'' ''w1'' 10,
      Terminate ''b'' (Ends_completed None) (Some (''done'', JNull)),
      Terminate ''b'' (Ends_failed None) (Some (''failed'', JNull))]"

lemma demo_lawful: "spi_lawful (redis_backend ''t'') redis_may_add redis_may_end demo_ops empty_redis"
  by code_simp

section \<open>The backends refine the abstract queue\<close>







section \<open>What follows for Redis\<close>

text \<open>
  C20. The stored structures of Redis are well formed after every lawful session from an empty
  database, and so the counters it answers \<^verbatim>\<open>counts\<close> from are exact: for every queue and status the
  answer is the number of jobs of that queue in that status.
\<close>

theorem redis_counts_exact:
  assumes "spi_lawful (redis_backend ns) redis_may_add redis_may_end ops empty_redis"
    and "spi_trace (redis_backend ns) ops empty_redis = (tr, s)"
  shows "redis_inv s \<and>
    redis_counts q st s = int (card {k. \<exists>j. redis_get k s = Some j \<and> j_queue j = q \<and> j_status j = st})"
proof -
  have inv: "redis_inv s" using redis.run_refines[OF empty_inv(1) assms] by simp
  then show ?thesis using redis_counts_abs[OF inv, of q st] by (simp add: keys_with_def redis_abs_def)
qed

text \<open>After the session one job is queued and one is completed.\<close>

theorem redis_counts_exact_witness:
  "redis_counts ''q'' Completed (snd (spi_trace (redis_backend ''t'') demo_ops empty_redis)) = 1 \<and>
   card {k. \<exists>j. redis_get k (snd (spi_trace (redis_backend ''t'') demo_ops empty_redis)) = Some j \<and> j_queue j = ''q'' \<and>
     j_status j = Completed} = 1"
proof -
  have run: "redis_counts ''q'' Completed (snd (spi_trace (redis_backend ''t'') demo_ops empty_redis)) = 1" by code_simp
  have "int (card {k. \<exists>j. redis_get k (snd (spi_trace (redis_backend ''t'') demo_ops empty_redis)) = Some j \<and> j_queue j = ''q'' \<and>
     j_status j = Completed}) = 1"
    by (rule trans[OF sym[OF conjunct2[OF redis_counts_exact[OF demo_lawful prod.collapse[symmetric]]]] run])
  then show ?thesis by (simp only: run of_nat_eq_1_iff simp_thms)
qed

text \<open>
  Exactly-once claims on Redis: over any history of claims, lawful terminal calls, renewals,
  enqueues and clock ticks in which nothing is swept or sent back, no job is delivered twice.
\<close>

theorem redis_exactly_once:
  assumes "redis_inv s" and "filter is_reclaim ops = []"
    and "lawful redis_may_end (spi_do_claim (redis_backend ns)) (spi_do_finish (redis_backend ns))
      (\<lambda>c. when_may (redis_backend ns) redis_may_add redis_may_end (back_op c))
      (\<lambda>e. when_may (redis_backend ns) redis_may_add redis_may_end (other_op e)) ops s"
  shows "distinct (fst (play (spi_do_claim (redis_backend ns)) (spi_do_finish (redis_backend ns))
      (\<lambda>c. when_may (redis_backend ns) redis_may_add redis_may_end (back_op c))
      (\<lambda>e. when_may (redis_backend ns) redis_may_add redis_may_end (other_op e)) ops s))"
  using redis.exactly_once[OF assms(1,3,2)] by simp

text \<open>Two claims on a queue of one job deliver it once.\<close>

theorem redis_exactly_once_witness:
  "fst (play (spi_do_claim (redis_backend ''t'')) (spi_do_finish (redis_backend ''t''))
      (\<lambda>c. when_may (redis_backend ''t'') redis_may_add redis_may_end (back_op c))
      (\<lambda>e. when_may (redis_backend ''t'') redis_may_add redis_may_end (other_op e))
      [Other (Spi_enqueue ''q'' (JObj []) ''a'' 0), Claim (Spi_claim ''q'' ''w1'' 10), Claim (Spi_claim ''q'' ''w2'' 10)]
      empty_redis) = [''a''] \<and> distinct [''a'']"
proof -
  let ?ops = "[Other (Spi_enqueue ''q'' (JObj []) ''a'' 0), Claim (Spi_claim ''q'' ''w1'' 10), Claim (Spi_claim ''q'' ''w2'' 10)]"
  have run: "fst (play (spi_do_claim (redis_backend ''t'')) (spi_do_finish (redis_backend ''t''))
      (\<lambda>c. when_may (redis_backend ''t'') redis_may_add redis_may_end (back_op c))
      (\<lambda>e. when_may (redis_backend ''t'') redis_may_add redis_may_end (other_op e)) ?ops empty_redis) = [''a'']"
    by code_simp
  have "lawful redis_may_end (spi_do_claim (redis_backend ''t'')) (spi_do_finish (redis_backend ''t''))
      (\<lambda>c. when_may (redis_backend ''t'') redis_may_add redis_may_end (back_op c))
      (\<lambda>e. when_may (redis_backend ''t'') redis_may_add redis_may_end (other_op e)) ?ops empty_redis" by simp
  from redis_exactly_once[OF empty_inv(1) _ this] run show ?thesis by simp
qed

text \<open>
  The atomic outbox on Redis: after a lawful session from an empty database in which every
  terminal call carries an event, each terminal job has exactly one event and every other job none,
  however often and by whomever the terminal calls were repeated.
\<close>

theorem redis_outbox_exact:
  assumes "spi_lawful (redis_backend ns) redis_may_add redis_may_end ops empty_redis" and "list_all with_event ops"
    and "spi_trace (redis_backend ns) ops empty_redis = (tr, s)"
  shows "length (filter (\<lambda>e. e_job e = k) (r_events s)) =
    (case redis_get k s of None \<Rightarrow> 0 | Some j \<Rightarrow> if spi_terminal (j_status j) then 1 else 0)"
proof -
  have run: "spec_run (redis_abs empty_redis) tr (redis_abs s)" "map fst tr = ops"
    using redis.run_refines[OF empty_inv(1) assms(1,3)] by simp_all
  have "list_all (\<lambda>(op, out). with_event op) tr" using assms(2) run(2) by (force simp: list_all_iff)
  with spec_run_outbox[OF run(1) empty_outbox(1)] empty_outbox(2)
  have "outbox_ok (redis_abs s)" "outbox_full (redis_abs s)" by simp_all
  then have "length (events_of k (redis_abs s)) \<le> (if terminal_in (redis_abs s) k then 1 else 0)"
      "terminal_in (redis_abs s) k \<longrightarrow> events_of k (redis_abs s) \<noteq> []"
    by (simp_all add: outbox_ok_def outbox_full_def)
  then show ?thesis
    by (auto simp: events_of_def terminal_in_def redis_abs_def Suc_le_eq le_Suc_eq split: option.splits if_splits)
qed

text \<open>In the session above the job that was ended twice has one event.\<close>

theorem redis_outbox_exact_witness:
  "length (filter (\<lambda>e. e_job e = ''b'') (r_events (snd (spi_trace (redis_backend ''t'') demo_ops empty_redis)))) =
    (case redis_get ''b'' (snd (spi_trace (redis_backend ''t'') demo_ops empty_redis)) of None \<Rightarrow> 0
     | Some j \<Rightarrow> if spi_terminal (j_status j) then 1 else 0)"
  by (rule redis_outbox_exact[OF demo_lawful _ prod.collapse[symmetric]]) (simp add: demo_ops_def)

section \<open>Tenants\<close>

lemma pg_abs_other:
  assumes "\<And>j. j \<in> set (pg_jobs s) \<Longrightarrow> P j \<Longrightarrow> j_namespace j \<noteq> ns'"
    and "\<And>j. P j \<Longrightarrow> j_id (f j) = j_id j \<and> j_namespace (f j) = j_namespace j"
  shows "pg_abs ns' (s\<lparr>pg_jobs := sql_update P f (pg_jobs s)\<rparr>) = pg_abs ns' s"
proof -
  have "pg_get ns' k (s\<lparr>pg_jobs := sql_update P f (pg_jobs s)\<rparr>) = pg_get ns' k s" for k
    using pg_get_update[of P f ns' k s, OF assms(2)] assms(1) pg_get_SomeD[of ns' k s]
    by (cases "pg_get ns' k s") auto
  then show ?thesis by (simp add: pg_abs_def)
qed

lemma pg_update_other:
  assumes "pg_update P f s = (rows, s')" and "\<And>j. j \<in> set (pg_jobs s) \<Longrightarrow> P j \<Longrightarrow> j_namespace j \<noteq> ns'"
    and "\<And>j. j_id (f j) = j_id j \<and> j_namespace (f j) = j_namespace j"
  shows "pg_abs ns' s' = pg_abs ns' s"
  using assms(1) pg_abs_other[of s P ns' f] assms(2,3) by (auto simp: pg_update_def)

lemma pg_claim_other:
  assumes "pg_inv s" and "pg_claim ns q w l s = (r, s')" and "ns' \<noteq> ns"
  shows "pg_abs ns' s' = pg_abs ns' s"
proof (cases "first_by (\<lambda>j. (- j_priority j, j_created j, j_id j))
    (sql_select (\<lambda>j. j_namespace j = ns \<and> j_queue j = q \<and> j_status j = Queued) (pg_jobs s))")
  case None
  then show ?thesis using assms(2) by (simp add: pg_claim_def)
next
  case (Some c)
  have c: "c \<in> set (pg_jobs s)" "j_namespace c = ns" using first_by_mem[OF Some] by (auto simp: sql_select_def)
  have dist: "distinct (map j_id (pg_jobs s))" using assms(1) by (simp add: pg_inv_def)
  obtain rows where run: "pg_update (\<lambda>j. j_id j = j_id c) (claim_stamp (Some w) l (pg_now s)) s = (rows, s')"
    using assms(2) Some by (auto simp: pg_claim_def split: prod.splits)
  show ?thesis
    by (rule pg_update_other[OF run]) (use distinct_map_filter_eq[OF dist _ c(1)] c(2) assms(3) in auto)
qed

lemma pg_exec_other:
  assumes inv: "pg_inv s" and ex: "spi_exec (pg_backend ns) op s = (out, s')" and ne: "ns' \<noteq> ns"
  shows "pg_abs ns' s' = pg_abs ns' s"
proof (cases op)
  case (Enqueue q p k pri)
  have "pg_get ns' i (s\<lparr>pg_jobs := pg_jobs s @ [queued_job k ns q p pri (pg_now s)]\<rparr>) = pg_get ns' i s" for i
    using ne by (simp add: pg_get_def sql_select_def queued_job_def)
  then show ?thesis using ex Enqueue by (auto simp: pg_backend_def pg_enqueue_def pg_abs_def split: if_splits)
next
  case (Claim_next q w l)
  then show ?thesis using pg_claim_other[OF inv _ ne] ex by (auto simp: pg_backend_def split: prod.splits)
next
  case (Renew k w l)
  then show ?thesis using ex ne by (auto simp: pg_backend_def pg_renew_def split: prod.splits intro!: pg_update_other)
next
  case (Reclaim_expired qo)
  then show ?thesis using ex ne by (auto simp: pg_backend_def pg_reclaim_def split: prod.splits intro!: pg_update_other)
next
  case (Requeue k)
  then show ?thesis using ex ne by (auto simp: pg_backend_def pg_requeue_def split: prod.splits intro!: pg_update_other)
next
  case (Terminate k en ev)
  obtain rows t where run: "pg_update (\<lambda>j. j_id j = k \<and> j_namespace j = ns \<and> \<not> spi_terminal (j_status j))
      (end_job (ending_status en) (ending_result en) (ending_error en) (pg_now s)) s = (rows, t)" by fastforce
  have "pg_abs ns' t = pg_abs ns' s" by (rule pg_update_other[OF run]) (use ne in auto)
  then show ?thesis using ex Terminate run ne
    by (auto simp: pg_backend_def pg_terminal_def pg_abs_def split: option.splits prod.splits)
next
  case (Wait n)
  then show ?thesis using ex by (auto simp: pg_backend_def pg_wait_def pg_abs_def)
qed

text \<open>
  Tenants on one PostgreSQL database are isolated: no session of one namespace changes a job or
  an event that another namespace sees, although they share the tables and the claim's update names
  its row by id alone.
\<close>

theorem pg_tenants_isolated:
  assumes "pg_inv s" and "spi_trace (pg_backend ns) ops s = (tr, s')" and "ns' \<noteq> ns"
  shows "pg_abs ns' s' = pg_abs ns' s"
  using assms(1,2)
proof (induction ops arbitrary: s tr)
  case (Cons op ops)
  obtain out s1 where ex: "spi_exec (pg_backend ns) op s = (out, s1)" by fastforce
  have "pg_inv s1" using pg_exec_step[OF Cons.prems(1) ex] by simp
  moreover obtain tr1 where "spi_trace (pg_backend ns) ops s1 = (tr1, s')" using Cons.prems(2) ex by (auto split: prod.splits)
  ultimately show ?case using Cons.IH pg_exec_other[OF Cons.prems(1) ex assms(3)] by simp
qed simp

text \<open>The session of tenant t on a database that holds a job of tenant u.\<close>

theorem pg_tenants_isolated_witness:
  "pg_abs ''u'' (snd (spi_trace (pg_backend ''t'') demo_ops (snd (pg_enqueue ''u'' ''q'' (JObj []) ''c'' 9 empty_pg)))) =
   pg_abs ''u'' (snd (pg_enqueue ''u'' ''q'' (JObj []) ''c'' 9 empty_pg))"
proof -
  have "pg_inv (snd (pg_enqueue ''u'' ''q'' (JObj []) ''c'' 9 empty_pg))"
    by (simp add: pg_enqueue_def empty_pg_def pg_inv_def queued_job_def job_status_ok_def log_ok_def)
  from pg_tenants_isolated[OF this prod.collapse[symmetric], of "''u''" "''t''"] show ?thesis by simp
qed

section \<open>The GPU pool\<close>

text \<open>
  C10. A submitted GPU task reaches its submitter. A task is submitted under a fresh id to the Redis
  pool; after any session of the fleet a worker claims it, and after any further session in which it
  is still running that worker executes it. Then the execution reports what the handler did, and every
  later poll of \<^verbatim>\<open>await_pool_result\<close>, after whatever lawful session, returns the handler's result on the
  submitted inputs, or raises its error, or the unknown-handler error: never a silent vanish.
\<close>

theorem pool_task_delivered:
  assumes "redis_inv s0" and "redis_may_add s0 tid"
    and "submit_pool_task (redis_backend ns) q h m i d p pri tid s0 = (Inr tid', s1)"
    and "spi_lawful (redis_backend ns) redis_may_add redis_may_end ops1 s1" and "spi_trace (redis_backend ns) ops1 s1 = (tr1, s2)"
    and "claim_pool_task (redis_backend ns) qs w l s2 = (Some job, s3)" and "j_id job = tid"
    and "spi_lawful (redis_backend ns) redis_may_add redis_may_end ops2 s3" and "spi_trace (redis_backend ns) ops2 s3 = (tr2, s4)"
    and "redis_get tid s4 = Some j" and "j_status j = Running"
    and "execute_pool_task (redis_backend ns) cfg job s4 = (out, s5)"
    and "spi_lawful (redis_backend ns) redis_may_add redis_may_end ops3 s5" and "spi_trace (redis_backend ns) ops3 s5 = (tr3, s6)"
  shows "tid' = tid \<and> out = Inr (ending_outcome (pool_ending cfg h i d p)) \<and>
    await_pool_result (redis_backend ns) tid deadline ((clock, s6) # polls) = Some (ending_seen (pool_ending cfg h i d p))"
proof -
  have "be_get (redis_backend ns) tid s4 = Some j" using assms(10) by (simp add: redis_backend_def)
  moreover have "redis_may_end s4 tid"
    using assms(10,11) by (auto simp: redis_may_end_def redis_get_def split: option.splits)
  ultimately show ?thesis by (intro redis.pool_end_to_end[OF assms(1-9) _ assms(11) _ assms(12-14)])
qed

definition demo_pool :: pool_config where
  "demo_pool = \<lparr>gp_handlers = (\<lambda>h. if h = ''echo'' then Some (\<lambda>i d p. Inr i) else None),
     gp_exc_type = (\<lambda>_. ''E''), gp_exc_text = (\<lambda>_. [])\<rparr>"

text \<open>An echo task through the pool, step by step.\<close>

definition pool_s1 :: redis_db where
  "pool_s1 = snd (submit_pool_task (redis_backend ''t'') ''gpu:a'' ''echo'' JNull (JObj [(''x'', JInt 1)]) JNull JNull 0 ''k'' empty_redis)"

definition pool_claim :: "spi_job option \<times> redis_db" where
  "pool_claim = claim_pool_task (redis_backend ''t'') [''warm'', ''gpu:a''] ''w'' 300 pool_s1"

definition pool_s5 :: redis_db where
  "pool_s5 = snd (execute_pool_task (redis_backend ''t'') demo_pool (the (fst pool_claim)) (snd pool_claim))"

text \<open>The submitter reads the echoed inputs.\<close>

theorem pool_task_delivered_witness:
  "await_pool_result (redis_backend ''t'') ''k'' 100 [(1, pool_s5)] = Some (Awaited (JObj [(''x'', JInt 1)]))"
proof -
  have sub: "submit_pool_task (redis_backend ''t'') ''gpu:a'' ''echo'' JNull (JObj [(''x'', JInt 1)]) JNull JNull 0 ''k'' empty_redis
      = (Inr ''k'', pool_s1)"
    by (simp add: pool_s1_def submit_pool_task_def redis_backend_def redis_enqueue_def Let_def)
  have some: "fst pool_claim \<noteq> None" by code_simp
  then have cl: "claim_pool_task (redis_backend ''t'') [''warm'', ''gpu:a''] ''w'' 300 pool_s1 = (Some (the (fst pool_claim)), snd pool_claim)"
    by (simp add: pool_claim_def)
  have k: "j_id (the (fst pool_claim)) = ''k''" by code_simp
  have get: "redis_get ''k'' (snd pool_claim) = Some (the (redis_get ''k'' (snd pool_claim)))"
      "j_status (the (redis_get ''k'' (snd pool_claim))) = Running" by code_simp+
  have ex: "execute_pool_task (redis_backend ''t'') demo_pool (the (fst pool_claim)) (snd pool_claim) =
      (fst (execute_pool_task (redis_backend ''t'') demo_pool (the (fst pool_claim)) (snd pool_claim)), pool_s5)"
    by (simp add: pool_s5_def)
  have may: "redis_may_add empty_redis ''k''" by code_simp
  have seen: "ending_seen (pool_ending demo_pool ''echo'' (JObj [(''x'', JInt 1)]) JNull JNull) = Awaited (JObj [(''x'', JInt 1)])"
    by code_simp
  from pool_task_delivered[OF empty_inv(1) may sub _ _ cl k _ _ get ex, of "[]" "[]" "[]" "[]" "[]" "[]" pool_s5 100 1 "[]"]
  show ?thesis by (simp add: seen)
qed

text \<open>
  Capability routing by queue order: a pooled worker is served from the first queue of its list
  that has a queued task, with a task of the highest priority there; it gets nothing exactly when all
  its queues are empty, and the store is then untouched.
\<close>

theorem pool_claim_order:
  assumes "redis_inv s" and "claim_pool_task (redis_backend ns) qs w l s = (r, s')"
  shows "case r of
      None \<Rightarrow> s' = s \<and> list_all (empty_on (redis_abs s)) qs
    | Some job \<Rightarrow> redis_inv s' \<and> redis_get (j_id job) s' = Some job \<and> j_status job = Running \<and>
        served_from (redis_abs s) qs (j_id job)"
proof (cases r)
  case None
  then show ?thesis using redis.claim_pool_task_None[OF assms(1)] assms(2) by simp
next
  case (Some job)
  then show ?thesis using redis.claim_pool_task_Some[OF assms(1)] assms(2) by (simp add: redis_backend_def)
qed

text \<open>The worker above, whose warm queue is empty.\<close>

theorem pool_claim_order_witness:
  "served_from (redis_abs pool_s1) [''warm'', ''gpu:a''] ''k''"
proof -
  have sub: "spi_exec (redis_backend ''t'') (Enqueue ''gpu:a'' (pool_payload ''echo'' JNull (JObj [(''x'', JInt 1)]) JNull JNull) ''k'' 0)
      empty_redis = (Enqueued ''k'', pool_s1)"
    by (simp add: pool_s1_def submit_pool_task_def redis_backend_def redis_enqueue_def Let_def)
  have may: "spi_may redis_may_add redis_may_end empty_redis
      (Enqueue ''gpu:a'' (pool_payload ''echo'' JNull (JObj [(''x'', JInt 1)]) JNull JNull) ''k'' 0)" by code_simp
  have inv: "redis_inv pool_s1" using redis_exec_step[OF empty_inv(1) may sub] by simp
  have some: "fst pool_claim \<noteq> None" and k: "j_id (the (fst pool_claim)) = ''k''" by code_simp+
  then have cl: "claim_pool_task (redis_backend ''t'') [''warm'', ''gpu:a''] ''w'' 300 pool_s1 = (Some (the (fst pool_claim)), snd pool_claim)"
    by (simp add: pool_claim_def)
  from pool_claim_order[OF inv cl] k show ?thesis by (simp del: served_from.simps)
qed

section \<open>The ingest seam\<close>

text \<open>
  On a storage backend an ingest job is read back as it was enqueued: the task, queue, reason,
  arguments and the priority (stored negated, un-negated on read), queued, under the drawn id; the
  relational tables are not touched.
\<close>

theorem ingest_seam_roundtrip:
  assumes "redis_inv (is_spi st)" and "redis_may_add (is_spi st) uuid"
    and "store_enqueue ''redis'' cfg (redis_backend ns) a uuid st = (Inr i, st')"
  shows "i = Inr uuid \<and> is_db st' = is_db st \<and> redis_inv (is_spi st') \<and>
    (\<exists>v. store_get (redis_backend ns) i st' = Some (Inr v) \<and> iv_id v = uuid \<and> iv_task v = JStr (ia_task a) \<and>
       iv_queue v = ia_queue a \<and> iv_reason v = JStr (ia_reason a) \<and> iv_args v = JObj (ia_args a) \<and>
       iv_priority v = ia_priority a \<and> iv_status v = Queued \<and> iv_claimed v = None)"
proof -
  obtain k s' where run: "be_enqueue (redis_backend ns) (ia_queue a) (ingest_payload a) uuid (- ia_priority a) (is_spi st) = (Inr k, s')"
      and i: "i = Inr k" "st' = st\<lparr>is_spi := s'\<rparr>"
    using assms(3) by (auto simp: store_enqueue_def use_spi_def on_spi_def split: option.splits prod.splits sum.splits)
  from redis.store_enqueue_reads_back[OF assms(1,2) run] obtain n t where k: "k = uuid" "redis_inv s'"
      "be_get (redis_backend ns) uuid s' = Some (queued_job uuid n (ia_queue a) (ingest_payload a) (- ia_priority a) t)" by blast
  then show ?thesis using i
    by (simp add: store_get_def job_to_ingest_row_def queued_job_def payload_fields_def ingest_payload_def
        payload_get_def jget_def or_empty_def)
qed

text \<open>One job through the seam.\<close>

definition seam_cfg :: config where
  "seam_cfg = \<lparr>cfg_project = ''p'', cfg_ingest_queues = [''ingest''], cfg_ingest_tasks = [''scan''], cfg_video_models = [],
     cfg_ingest_budget = 1, cfg_vlm_pool_modules = [], cfg_gpu_self_load_modules = [], cfg_cancel_orphans = False\<rparr>"

definition seam_args :: ingest_args where
  "seam_args = \<lparr>ia_task = ''scan'', ia_queue = ''ingest'', ia_reason = ''tick'', ia_priority = 100, ia_args = [], ia_project = None\<rparr>"

text \<open>A priority of 100 is stored as -100 and read back as 100.\<close>

theorem ingest_seam_roundtrip_witness:
  "\<exists>st' v. store_enqueue ''redis'' seam_cfg (redis_backend ''t'') seam_args ''u1'' \<lparr>is_db = demo_db, is_spi = empty_redis\<rparr> = (Inr (Inr ''u1''), st') \<and>
     store_get (redis_backend ''t'') (Inr ''u1'') st' = Some (Inr v) \<and> iv_priority v = 100 \<and>
     map_option j_priority (redis_get ''u1'' (is_spi st')) = Some (-100)"
proof -
  let ?st = "\<lparr>is_db = demo_db, is_spi = empty_redis\<rparr>"
  let ?run = "store_enqueue ''redis'' seam_cfg (redis_backend ''t'') seam_args ''u1'' ?st"
  have fst: "fst ?run = Inr (Inr ''u1'')" and raw: "map_option j_priority (redis_get ''u1'' (is_spi (snd ?run))) = Some (-100)"
    by (simp_all add: store_enqueue_def use_spi_def validate_ingest_def seam_cfg_def seam_args_def on_spi_def redis_backend_def
        redis_enqueue_def Let_def sql_upsert_def empty_redis_def redis_get_def hget_def redis_hash_new_def job_from_dict_def)
  then have run: "?run = (Inr (Inr ''u1''), snd ?run)" by (metis prod.collapse)
  have inv: "redis_inv (is_spi ?st)" and may: "redis_may_add (is_spi ?st) ''u1''"
    using empty_inv(1) by (simp_all add: redis_may_add_def hget_def empty_redis_def)
  from ingest_seam_roundtrip[OF inv may run] obtain v where "store_get (redis_backend ''t'') (Inr ''u1'') (snd ?run) = Some (Inr v)"
      "iv_priority v = ia_priority seam_args" by blast
  then show ?thesis using run raw by (intro exI[of _ "snd ?run"] exI[of _ v]) (simp add: seam_args_def)
qed


text \<open>Two jobs enqueued through the seam with priorities 100 and 10: the second is served.\<close>

definition seam_store :: "mongo_db ingest_store" where
  "seam_store = \<lparr>is_db = demo_db, is_spi = snd (spi_trace (mongo_backend ''t'')
     [Enqueue ''ingest'' (ingest_payload seam_args) ''u1'' (-100), Enqueue ''ingest'' (ingest_payload seam_args) ''u2'' (-10)] empty_mongo)\<rparr>"


section \<open>Where Redis leaves the contract\<close>

text \<open>
  A job that is ended while it still waits keeps its member in the queue's sorted set, and the claim
  does not look at the status: the completed job is delivered again.
\<close>

lemma redis_completed_job_delivered_again:
  "map (\<lambda>(op, out). case out of Job_out (Some j) \<Rightarrow> Some (j_id j, j_status j) | _ \<Rightarrow> None)
     (fst (spi_trace (redis_backend ''t'')
        [Enqueue ''q'' (JObj []) ''a'' 0, Terminate ''a'' (Ends_completed None) None, Claim_next ''q'' ''w'' 10] empty_redis)) =
   [None, Some (''a'', Completed), Some (''a'', Running)]"
  by code_simp

text \<open>A waiting job that is sent back gets a second member, and is delivered twice.\<close>

lemma redis_requeued_twice_delivered_twice:
  "map (\<lambda>(op, out). case out of Job_out (Some j) \<Rightarrow> Some (j_id j) | _ \<Rightarrow> None)
     (fst (spi_trace (redis_backend ''t'')
        [Enqueue ''q'' (JObj []) ''a'' 0, Requeue ''a'', Claim_next ''q'' ''w1'' 10, Claim_next ''q'' ''w2'' 10] empty_redis)) =
   [None, Some ''a'', Some ''a'', Some ''a'']"
  by code_simp

text \<open>The same calls on PostgreSQL deliver the job once, and the completed one never.\<close>

lemma pg_delivers_once:
  "map (\<lambda>(op, out). case out of Job_out (Some j) \<Rightarrow> Some (j_id j) | _ \<Rightarrow> None)
     (fst (spi_trace (pg_backend ''t'')
        [Enqueue ''q'' (JObj []) ''a'' 0, Requeue ''a'', Claim_next ''q'' ''w1'' 10, Claim_next ''q'' ''w2'' 10] empty_pg)) =
   [None, Some ''a'', Some ''a'', None]"
  by code_simp

text \<open>The heartbeats of queue \<^verbatim>\<open>gpu:box-a\<close> are listed as live workers of queue \<^verbatim>\<open>gpu\<close>.\<close>

lemma redis_workers_of_other_queue:
  "map qw_queue (redis_workers ''gpu'' (redis_heartbeat ''t'' ''h1'' ''gpu:box-a'' None 30 empty_redis)) = [''gpu:box-a'']"
  by code_simp

text \<open>Two namespaces that differ in a punctuation character share one MongoDB database.\<close>

lemma mongo_namespaces_collide: "mongo_db_name ''team-a'' = mongo_db_name ''team_a''"
  by code_simp

end
