(* ===== verification/Polling.thy ===== *)
theory Polling
  imports Prelude
begin

text \<open>
  The wait loop that \<^verbatim>\<open>VLLMBackend._await_health\<close> and \<^verbatim>\<open>db.wait_for_schema\<close> share: probe, give up when the
  monotonic clock has reached the deadline, otherwise sleep and probe again. A clock that does not move
  makes it run for ever, and its value is \<open>None\<close> then; with a clock that moves by a fixed amount at every
  pause it returns.
\<close>

partial_function (option) poll_until ::
  "('w, 'a option) act \<Rightarrow> ('w \<Rightarrow> real) \<Rightarrow> ('w \<Rightarrow> 'w) \<Rightarrow> py_error \<Rightarrow> real \<Rightarrow> 'w \<Rightarrow> ('a result \<times> 'w) option" where
  "poll_until probe clock pause late deadline w =
     (case probe w of (r, w') \<Rightarrow>
        (case r of
           Inl e \<Rightarrow> Some (Inl e, w')
         | Inr found \<Rightarrow>
             (case found of
                Some x \<Rightarrow> Some (Inr x, w')
              | None \<Rightarrow>
                  if clock w' \<ge> deadline then Some (Inl late, w')
                  else poll_until probe clock pause late deadline (pause w'))))"

lemma poll_until_returns:
  assumes probe: "\<And>w. clock w \<le> clock (snd (probe w))"
    and pause: "\<And>w. clock w + d \<le> clock (pause w)" and "0 < d"
  shows "\<exists>x. poll_until probe clock pause late deadline w = Some x"
proof -
  obtain n where "deadline - clock w < real n * d" using \<open>0 < d\<close> by (rule reals_Archimedean3[THEN spec, THEN exE])
  then have "deadline \<le> clock w + real n * d" by simp
  then show ?thesis
  proof (induction n arbitrary: w)
    case 0
    obtain r w' where "probe w = (r, w')" by fastforce
    with probe[of w] 0 show ?case by (subst poll_until.simps) (auto split: sum.splits option.splits)
  next
    case (Suc n)
    obtain r w' where p: "probe w = (r, w')" by fastforce
    with probe[of w] pause[of w'] Suc.prems have "deadline \<le> clock (pause w') + real n * d"
      by (simp add: algebra_simps)
    from Suc.IH[OF this] p show ?case by (subst poll_until.simps) (auto split: sum.splits option.splits)
  qed
qed

text \<open>What a returned loop has seen last.\<close>

lemma poll_until_result:
  assumes "poll_until probe clock pause late deadline w = Some y"
  shows "case y of (Inr x, w') \<Rightarrow> \<exists>w0. probe w0 = (Inr (Some x), w')
    | (Inl e, w') \<Rightarrow> (\<exists>w0. probe w0 = (Inl e, w')) \<or>
        e = late \<and> deadline \<le> clock w' \<and> (\<exists>w0. probe w0 = (Inr None, w'))"
  using assms
proof (rule poll_until.raw_induct[rotated], goal_cases)
  case (1 f probe clock pause late deadline w y)
  obtain r w' where p: "probe w = (r, w')" by fastforce
  consider (raised) e where "r = Inl e" | (found) x where "r = Inr (Some x)"
    | (late) "r = Inr None" "deadline \<le> clock w'" | (again) "r = Inr None" "\<not> deadline \<le> clock w'"
    using that by (metis option.exhaust sum.exhaust)
  then show ?case
  proof cases
    case again
    with 1(2) p have "f probe clock pause late deadline (pause w') = Some y" by simp
    from 1(1)[OF this] show ?thesis .
  qed (use 1(2) p in auto)
qed

text \<open>A probe that succeeds at once costs nothing but itself.\<close>

lemma poll_until_found [simp]:
  "probe w = (Inr (Some x), w') \<Longrightarrow> poll_until probe clock pause late deadline w = Some (Inr x, w')"
  by (subst poll_until.simps) simp

end
