(* ===== verification/Llm_Backend.thy ===== *)
theory Llm_Backend
  imports Polling
begin

text \<open>
  \<^verbatim>\<open>llm_backends/base.py\<close>, \<^verbatim>\<open>ollama.py\<close>, \<^verbatim>\<open>vllm.py\<close> and \<^verbatim>\<open>supervisor.py\<close>: the handle a GPU worker keeps
  on the LLM server of its machine. The request accounting (in-flight count and idle clock) is shared;
  ollama has no lifecycle, vLLM is a sidecar the library starts, switches between models and stops; the
  supervisor stops an idle vLLM sidecar to give its memory back. The injected seams of
  \<^verbatim>\<open>VLLMBackend\<close> (clock, sleep, kill, bring-up, the two HTTP probes) act on a world of an arbitrary
  type: they are host code and are parameters, and each may raise.

  A backend object is a record, the subclass an extension of it. An operation of the lifecycle is an
  action on the pair of the object and the world.
\<close>

named_theorems llm_defs \<open>definitions of the backend operations, for unfolding\<close>

section \<open>Request accounting\<close>

record llm_base =
  lb_base_url :: string
  lb_parallelism :: int
  lb_idle_ttl :: real
  lb_inflight :: int
  lb_last_used :: real
  lb_current_model :: "string option"

definition new_llm_base :: "string \<Rightarrow> int \<Rightarrow> real \<Rightarrow> real \<Rightarrow> llm_base" where
  "new_llm_base base_url parallelism idle_ttl clock =
     \<lparr>lb_base_url = rstrip (CHR ''/'') base_url, lb_parallelism = parallelism, lb_idle_ttl = idle_ttl,
      lb_inflight = 0, lb_last_used = clock, lb_current_model = None\<rparr>"

definition mark_request_start :: "string \<Rightarrow> real \<Rightarrow> 'a llm_base_scheme \<Rightarrow> 'a llm_base_scheme" where
  "mark_request_start model_id clock b =
     b\<lparr>lb_inflight := lb_inflight b + 1, lb_last_used := clock, lb_current_model := Some model_id\<rparr>"

definition mark_request_end :: "real \<Rightarrow> 'a llm_base_scheme \<Rightarrow> 'a llm_base_scheme" where
  "mark_request_end clock b =
     b\<lparr>lb_inflight := max 0 (lb_inflight b - 1), lb_last_used := clock\<rparr>"

definition idle_seconds :: "real \<Rightarrow> 'a llm_base_scheme \<Rightarrow> real" where
  "idle_seconds clock b =
     (if lb_inflight b > 0 then 0 else max 0 (clock - lb_last_used b))"

section \<open>The vLLM sidecar\<close>

datatype vllm_state = DEAD | LOADING | SERVING | SLEEPING_L2 | RELOADING | UNSUPPORTED_SLEEP

record vllm_backend = llm_base +
  vb_served :: "string option"
  vb_state :: vllm_state
  vb_sleep_unsupported :: bool

text \<open>The injected seams. A clock reading changes nothing; everything else may change the world.\<close>

record 'w sidecar_io =
  io_now :: "'w \<Rightarrow> real"
  io_sleep :: "real \<Rightarrow> 'w \<Rightarrow> 'w"
  io_kill :: "('w, bool) act"
  io_up :: "string \<Rightarrow> ('w, unit) act"
  io_health :: "('w, bool) act"
  io_served :: "('w, string option) act"

definition new_vllm :: "string \<Rightarrow> int \<Rightarrow> real \<Rightarrow> string option \<Rightarrow> real \<Rightarrow> vllm_backend" where
  "new_vllm base_url parallelism idle_ttl served clock =
     llm_base.extend (new_llm_base base_url parallelism idle_ttl clock)
       \<lparr>vb_served = served, vb_state = (if served \<noteq> None then SERVING else DEAD),
        vb_sleep_unsupported = False\<rparr>"

definition vllm_chat_url :: "vllm_backend \<Rightarrow> string" where
  "vllm_chat_url b = lb_base_url b @ ''/v1/chat/completions''"

definition vllm_health_url :: "vllm_backend \<Rightarrow> string" where
  "vllm_health_url b = lb_base_url b @ ''/health''"

definition health_poll_interval :: real where
  "health_poll_interval = 1"

definition timeout_error :: py_error where
  "timeout_error = OtherError ''TimeoutError''"

definition not_implemented :: py_error where
  "not_implemented = OtherError ''NotImplementedError''"

text \<open>\<^verbatim>\<open>is_running\<close>: any error of the probe reads as down.\<close>

definition vllm_is_running :: "'w sidecar_io \<Rightarrow> 'w \<Rightarrow> bool \<times> 'w" where
  "vllm_is_running io w =
     (case io_health io w of (Inl _, w') \<Rightarrow> (False, w') | (Inr up, w') \<Rightarrow> (up, w'))"

definition do_stop_locked :: "'w sidecar_io \<Rightarrow> (vllm_backend \<times> 'w, bool) act" where
  "do_stop_locked io s =
     (case s of (b, w) \<Rightarrow>
        (case io_kill io w of
           (Inl e, w') \<Rightarrow> (Inl e, (b, w'))
         | (Inr result, w') \<Rightarrow> (Inr result, (b\<lparr>vb_state := DEAD, vb_served := None\<rparr>, w'))))"

definition vllm_stop_server :: "'w sidecar_io \<Rightarrow> (vllm_backend \<times> 'w, bool) act" where
  "vllm_stop_server io s =
     (case s of (b, w) \<Rightarrow>
        if vb_state b = DEAD
        then (case vllm_is_running io w of
                (False, w') \<Rightarrow> (Inr False, (b, w'))
              | (True, w') \<Rightarrow> do_stop_locked io (b, w'))
        else do_stop_locked io (b, w))"

definition sleep_l2_reload :: "string \<Rightarrow> ('s, unit) act" where
  "sleep_l2_reload model_id = raise not_implemented"

text \<open>
  The part of \<^verbatim>\<open>ensure_ready\<close> under the lock. The answer is whether the server is ready already; otherwise
  the caller goes on to the bring-up.
\<close>

definition ensure_locked :: "'w sidecar_io \<Rightarrow> string \<Rightarrow> (vllm_backend \<times> 'w, bool) act" where
  "ensure_locked io model_id s =
     (case s of (b, w) \<Rightarrow>
        (case vllm_is_running io w of
           (False, w') \<Rightarrow> (Inr False, (b\<lparr>vb_state := LOADING\<rparr>, w'))
         | (True, w') \<Rightarrow>
             if vb_served b = Some model_id then (Inr True, (b\<lparr>vb_state := SERVING\<rparr>, w'))
             else
               let b1 = b\<lparr>vb_state := RELOADING\<rparr>;
                   slow = (\<lambda>b. case do_stop_locked io (b, w') of
                                 (Inl e, s') \<Rightarrow> (Inl e, s')
                               | (Inr _, (b', w'')) \<Rightarrow> (Inr False, (b'\<lparr>vb_state := LOADING\<rparr>, w'')))
               in if vb_sleep_unsupported b1 then slow b1
                  else case sleep_l2_reload model_id (b1, w') of
                         (Inr _, (b2, w2)) \<Rightarrow>
                           (Inr True, (b2\<lparr>vb_served := Some model_id, vb_state := SERVING\<rparr>, w2))
                       | (Inl e, s2) \<Rightarrow>
                           if e = not_implemented
                           then slow (b1\<lparr>vb_sleep_unsupported := True, vb_state := UNSUPPORTED_SLEEP\<rparr>)
                           else (Inl e, s2)))"

text \<open>\<^verbatim>\<open>_await_health\<close>: an error of the probe is "not ready yet".\<close>

definition health_probe :: "'w sidecar_io \<Rightarrow> ('w, unit option) act" where
  "health_probe io w = (case vllm_is_running io w of (up, w') \<Rightarrow> (Inr (if up then Some () else None), w'))"

definition await_health :: "'w sidecar_io \<Rightarrow> real \<Rightarrow> 'w \<Rightarrow> (unit result \<times> 'w) option" where
  "await_health io deadline =
     poll_until (health_probe io) (io_now io) (io_sleep io health_poll_interval) timeout_error deadline"

text \<open>\<^verbatim>\<open>probed or model_id\<close>, a raising probe counting as blank.\<close>

definition observed_model :: "'w sidecar_io \<Rightarrow> string \<Rightarrow> 'w \<Rightarrow> string \<times> 'w" where
  "observed_model io model_id w =
     (case io_served io w of
        (Inr (Some p), w') \<Rightarrow> (if p = [] then model_id else p, w')
      | (_, w') \<Rightarrow> (model_id, w'))"

definition commit_serving :: "string \<Rightarrow> vllm_backend \<Rightarrow> vllm_backend" where
  "commit_serving observed b = b\<lparr>vb_served := Some observed, vb_state := SERVING\<rparr>"

definition vllm_bring_up ::
  "'w sidecar_io \<Rightarrow> string \<Rightarrow> real \<Rightarrow> vllm_backend \<times> 'w \<Rightarrow> (unit result \<times> vllm_backend \<times> 'w) option" where
  "vllm_bring_up io model_id timeout s =
     (case s of (b, w) \<Rightarrow>
        (case io_up io model_id w of
           (Inl e, w1) \<Rightarrow> Some (Inl e, (b, w1))
         | (Inr _, w1) \<Rightarrow>
             (case await_health io (io_now io w1 + timeout) w1 of
                None \<Rightarrow> None
              | Some (Inl e, w2) \<Rightarrow> Some (Inl e, (b, w2))
              | Some (Inr _, w2) \<Rightarrow>
                  (case observed_model io model_id w2 of
                     (observed, w3) \<Rightarrow>
                       Some (if observed \<noteq> model_id then Inl (RuntimeError ''vLLM came up serving another model'')
                             else Inr (), (commit_serving observed b, w3))))))"

definition vllm_ensure_ready ::
  "'w sidecar_io \<Rightarrow> string \<Rightarrow> real \<Rightarrow> vllm_backend \<times> 'w \<Rightarrow> (unit result \<times> vllm_backend \<times> 'w) option" where
  "vllm_ensure_ready io model_id timeout s =
     (case ensure_locked io model_id s of
        (Inl e, s') \<Rightarrow> Some (Inl e, s')
      | (Inr True, s') \<Rightarrow> Some (Inr (), s')
      | (Inr False, s') \<Rightarrow> vllm_bring_up io model_id timeout s')"

section \<open>Either backend\<close>

datatype llm_backend = OllamaBackend llm_base | VLLMBackend vllm_backend

fun server_type :: "llm_backend \<Rightarrow> string" where
  "server_type (OllamaBackend _) = ''ollama''"
| "server_type (VLLMBackend _) = ''vllm''"

fun base_of :: "llm_backend \<Rightarrow> llm_base" where
  "base_of (OllamaBackend b) = b"
| "base_of (VLLMBackend b) = llm_base.truncate b"

fun chat_url :: "llm_backend \<Rightarrow> string" where
  "chat_url (OllamaBackend b) = lb_base_url b @ ''/api/chat''"
| "chat_url (VLLMBackend b) = vllm_chat_url b"

fun health_url :: "llm_backend \<Rightarrow> string" where
  "health_url (OllamaBackend b) = lb_base_url b @ ''/api/tags''"
| "health_url (VLLMBackend b) = vllm_health_url b"

fun ensure_ready ::
  "'w sidecar_io \<Rightarrow> string \<Rightarrow> real \<Rightarrow> llm_backend \<times> 'w \<Rightarrow> (unit result \<times> llm_backend \<times> 'w) option" where
  "ensure_ready io model_id timeout (OllamaBackend b, w) = Some (Inr (), (OllamaBackend b, w))"
| "ensure_ready io model_id timeout (VLLMBackend b, w) =
     map_option (\<lambda>(r, b', w'). (r, VLLMBackend b', w')) (vllm_ensure_ready io model_id timeout (b, w))"

fun server_is_running :: "'w sidecar_io \<Rightarrow> llm_backend \<times> 'w \<Rightarrow> bool \<times> 'w" where
  "server_is_running io (OllamaBackend b, w) = (True, w)"
| "server_is_running io (VLLMBackend b, w) = vllm_is_running io w"

fun stop_server :: "'w sidecar_io \<Rightarrow> (llm_backend \<times> 'w, bool) act" where
  "stop_server io (OllamaBackend b, w) = (Inr False, (OllamaBackend b, w))"
| "stop_server io (VLLMBackend b, w) =
     (case vllm_stop_server io (b, w) of (r, (b', w')) \<Rightarrow> (r, (VLLMBackend b', w')))"

definition shutdown :: "'w sidecar_io \<Rightarrow> (llm_backend \<times> 'w, unit) act" where
  "shutdown io s = (case stop_server io s of (Inl e, s') \<Rightarrow> (Inl e, s') | (Inr _, s') \<Rightarrow> (Inr (), s'))"

fun request_start :: "string \<Rightarrow> real \<Rightarrow> llm_backend \<Rightarrow> llm_backend" where
  "request_start m clock (OllamaBackend b) = OllamaBackend (mark_request_start m clock b)"
| "request_start m clock (VLLMBackend b) = VLLMBackend (mark_request_start m clock b)"

fun request_end :: "real \<Rightarrow> llm_backend \<Rightarrow> llm_backend" where
  "request_end clock (OllamaBackend b) = OllamaBackend (mark_request_end clock b)"
| "request_end clock (VLLMBackend b) = VLLMBackend (mark_request_end clock b)"

section \<open>The idle supervisor\<close>

definition vllm_should_stop :: "bool \<Rightarrow> int \<Rightarrow> real \<Rightarrow> real \<Rightarrow> bool" where
  "vllm_should_stop running inflight idle ttl =
     (if ttl \<le> 0 then False else running \<and> inflight \<le> 0 \<and> idle \<ge> ttl)"

text \<open>The two halves of a tick: what it reads, and the stop it then issues.\<close>

definition reap_decides :: "'w sidecar_io \<Rightarrow> llm_backend \<times> 'w \<Rightarrow> bool \<times> 'w" where
  "reap_decides io s =
     (case s of (b, w) \<Rightarrow>
        if server_type b \<noteq> ''vllm'' then (False, w)
        else case server_is_running io (b, w) of
               (running, w') \<Rightarrow>
                 (vllm_should_stop running (lb_inflight (base_of b))
                    (idle_seconds (io_now io w') (base_of b)) (lb_idle_ttl (base_of b)), w'))"

definition llm_reap_idle_once :: "'w sidecar_io \<Rightarrow> llm_backend \<times> 'w \<Rightarrow> bool \<times> llm_backend \<times> 'w" where
  "llm_reap_idle_once io s =
     (case s of (b, w) \<Rightarrow>
        (case reap_decides io (b, w) of
           (False, w') \<Rightarrow> (False, (b, w'))
         | (True, w') \<Rightarrow>
             (case stop_server io (b, w') of
                (Inl _, s') \<Rightarrow> (False, s')
              | (Inr stopped, s') \<Rightarrow> (stopped, s'))))"

definition supervisor_enabled :: "bool \<Rightarrow> llm_backend \<Rightarrow> bool" where
  "supervisor_enabled disabled b \<longleftrightarrow>
     (if disabled then False
      else if server_type b \<noteq> ''vllm'' then False
      else lb_idle_ttl (base_of b) > 0)"

definition poll_interval :: "real option \<Rightarrow> llm_backend \<Rightarrow> real" where
  "poll_interval poll_s b =
     (case poll_s of Some p \<Rightarrow> p | None \<Rightarrow> max 5 (min 60 (lb_idle_ttl (base_of b) / 5)))"

text \<open>\<^verbatim>\<open>_loop\<close>, as the number of rounds it makes before the stop event is set.\<close>

fun supervisor_loop :: "'w sidecar_io \<Rightarrow> real \<Rightarrow> nat \<Rightarrow> llm_backend \<times> 'w \<Rightarrow> llm_backend \<times> 'w" where
  "supervisor_loop io poll 0 s = s"
| "supervisor_loop io poll (Suc n) (b, w) =
     supervisor_loop io poll n (snd (llm_reap_idle_once io (b, io_sleep io poll w)))"

declare new_llm_base_def [llm_defs] mark_request_start_def [llm_defs] mark_request_end_def [llm_defs]
  idle_seconds_def [llm_defs] new_vllm_def [llm_defs] vllm_is_running_def [llm_defs]
  do_stop_locked_def [llm_defs] vllm_stop_server_def [llm_defs] sleep_l2_reload_def [llm_defs]
  ensure_locked_def [llm_defs] observed_model_def [llm_defs] commit_serving_def [llm_defs]
  vllm_bring_up_def [llm_defs] vllm_ensure_ready_def [llm_defs] vllm_should_stop_def [llm_defs]
  reap_decides_def [llm_defs] llm_reap_idle_once_def [llm_defs] supervisor_enabled_def [llm_defs]
  poll_interval_def [llm_defs] shutdown_def [llm_defs]

end
