(* ===== verification/Llm_Laws.thy ===== *)
theory Llm_Laws
  imports Llm_Backend
begin

text \<open>
  What the LLM backends promise: the outcome of \<^verbatim>\<open>ensure_ready\<close> on every branch and that it returns, the
  lifecycle invariant of the vLLM handle under every interleaving of the request thread and the supervisor,
  the request accounting both vendors share, and when the supervisor stops an idle sidecar.
\<close>

section \<open>The lifecycle invariant\<close>

definition vllm_ok :: "vllm_backend \<Rightarrow> bool" where
  "vllm_ok b \<longleftrightarrow> vb_state b \<noteq> SLEEPING_L2 \<and> (vb_state b = SERVING \<longrightarrow> vb_served b \<noteq> None) \<and>
     (vb_state b = DEAD \<longrightarrow> vb_served b = None) \<and>
     (vb_state b \<in> {RELOADING, UNSUPPORTED_SLEEP} \<longrightarrow> vb_sleep_unsupported b) \<and> 0 \<le> lb_inflight b"

text \<open>The accounting half of a handle, which no lifecycle operation writes.\<close>

abbreviation accounting :: "vllm_backend \<Rightarrow> llm_base" where
  "accounting b \<equiv> llm_base.truncate b"

lemma accounting_eq_iff: "accounting b' = accounting b \<longleftrightarrow>
    lb_base_url b' = lb_base_url b \<and> lb_parallelism b' = lb_parallelism b \<and> lb_idle_ttl b' = lb_idle_ttl b \<and>
    lb_inflight b' = lb_inflight b \<and> lb_last_used b' = lb_last_used b \<and> lb_current_model b' = lb_current_model b"
  by (simp add: llm_base.truncate_def)

lemma new_vllm_ok [simp]: "vllm_ok (new_vllm u p ttl served clock)"
  by (simp add: vllm_ok_def llm_defs llm_base.extend_def)

lemma stop_locked_frame:
  assumes "do_stop_locked io (b, w) = (r, (b', w'))"
  shows "accounting b' = accounting b" and "vb_sleep_unsupported b' = vb_sleep_unsupported b"
    and "vllm_ok b \<Longrightarrow> vllm_ok b'"
    and "case r of Inl _ \<Rightarrow> b' = b | Inr _ \<Rightarrow> vb_state b' = DEAD \<and> vb_served b' = None"
  using assms by (auto simp: do_stop_locked_def accounting_eq_iff vllm_ok_def split: prod.splits sum.splits)

lemma stop_server_frame:
  assumes "vllm_stop_server io (b, w) = (r, (b', w'))"
  shows "accounting b' = accounting b" and "vb_sleep_unsupported b' = vb_sleep_unsupported b"
    and "vllm_ok b \<Longrightarrow> vllm_ok b'"
  using assms by (auto simp: vllm_stop_server_def split: if_splits prod.splits bool.splits dest: stop_locked_frame)

text \<open>The three ways out of the locked part of \<open>vllm_ensure_ready\<close>.\<close>

lemma ensure_locked_cases:
  assumes "ensure_locked io m (b, w) = (r, (b', w'))"
  obtains (warm) "r = Inr True" "vllm_is_running io w = (True, w')" "vb_served b = Some m"
      "b' = b\<lparr>vb_state := SERVING\<rparr>"
  | (cold) "r = Inr False" "vllm_is_running io w = (False, w')" "b' = b\<lparr>vb_state := LOADING\<rparr>"
  | (switch) w1 k where "r = Inr False" "vllm_is_running io w = (True, w1)" "vb_served b \<noteq> Some m"
      "io_kill io w1 = (Inr k, w')"
      "b' = b\<lparr>vb_state := LOADING, vb_served := None, vb_sleep_unsupported := True\<rparr>"
  | (stuck) w1 e where "r = Inl e" "vllm_is_running io w = (True, w1)" "vb_served b \<noteq> Some m"
      "io_kill io w1 = (Inl e, w')"
      "b' = b\<lparr>vb_state := (if vb_sleep_unsupported b then RELOADING else UNSUPPORTED_SLEEP),
               vb_sleep_unsupported := True\<rparr>"
  using assms
  by (cases "vb_sleep_unsupported b")
     (auto simp: ensure_locked_def do_stop_locked_def sleep_l2_reload_def Let_def not_implemented_def
           split: prod.splits bool.splits if_splits sum.splits)

lemma ensure_locked_frame:
  assumes "ensure_locked io m (b, w) = (r, (b', w'))"
  shows "accounting b' = accounting b" and "vb_sleep_unsupported b \<longrightarrow> vb_sleep_unsupported b'"
    and "vllm_ok b \<Longrightarrow> vllm_ok b'"
  by (rule ensure_locked_cases[OF assms]; simp add: accounting_eq_iff vllm_ok_def)+

section \<open>The health wait\<close>

text \<open>
  What the wait relies on: \<^verbatim>\<open>time.sleep(d)\<close> takes at least \<open>d\<close> seconds of the monotonic clock, and a probe
  does not turn the clock back.
\<close>

definition clock_ok :: "'w sidecar_io \<Rightarrow> bool" where
  "clock_ok io \<longleftrightarrow> (\<forall>w d. 0 \<le> d \<longrightarrow> io_now io w + d \<le> io_now io (io_sleep io d w)) \<and>
     (\<forall>w. io_now io w \<le> io_now io (snd (io_health io w)))"

lemma clock_sleep: "clock_ok io \<Longrightarrow> 0 \<le> d \<Longrightarrow> io_now io w + d \<le> io_now io (io_sleep io d w)"
  and clock_probe: "clock_ok io \<Longrightarrow> io_now io w \<le> io_now io (snd (vllm_is_running io w))"
proof -
  show "clock_ok io \<Longrightarrow> 0 \<le> d \<Longrightarrow> io_now io w + d \<le> io_now io (io_sleep io d w)"
    by (simp add: clock_ok_def)
  assume "clock_ok io"
  then have "io_now io w \<le> io_now io (snd (io_health io w))" by (simp add: clock_ok_def)
  then show "io_now io w \<le> io_now io (snd (vllm_is_running io w))"
    by (auto simp: vllm_is_running_def split: prod.splits sum.splits)
qed

lemma await_health_returns: "clock_ok io \<Longrightarrow> \<exists>x. await_health io deadline w = Some x"
  unfolding await_health_def
  by (rule poll_until_returns[where d = 1])
     (use clock_probe[of io] clock_sleep[of io 1] in
      \<open>simp_all add: health_probe_def health_poll_interval_def case_prod_unfold\<close>)

lemma await_health_result:
  assumes "await_health io deadline w = Some x"
  shows "case x of (Inr _, w') \<Rightarrow> (\<exists>w0. vllm_is_running io w0 = (True, w'))
    | (Inl e, w') \<Rightarrow> e = timeout_error \<and> deadline \<le> io_now io w'"
proof -
  have probe: "health_probe io w0 = (Inr found, w1) \<longleftrightarrow> vllm_is_running io w0 = (found \<noteq> None, w1)"
      "health_probe io w0 \<noteq> (Inl e, w1)" for w0 w1 found e
    by (cases found; auto simp: health_probe_def split: prod.splits)+
  obtain r w' where x: "x = (r, w')" by fastforce
  show ?thesis
    using poll_until_result[OF assms[unfolded await_health_def]] by (cases r) (auto simp: x probe)
qed

section \<open>The outcome of \<open>vllm_ensure_ready\<close>\<close>

text \<open>The four ways a bring-up ends.\<close>

lemma bring_up_cases:
  assumes "vllm_bring_up io m timeout (b, w) = Some (r, (b', w'))"
  obtains (refused) e where "r = Inl e" "io_up io m w = (Inl e, w')" "b' = b"
  | (late) w1 where "r = Inl timeout_error" "io_up io m w = (Inr (), w1)"
      "io_now io w1 + timeout \<le> io_now io w'" "b' = b"
  | (ready) "r = Inr ()" "b' = commit_serving m b"
  | (mismatch) got where "r = Inl (RuntimeError ''vLLM came up serving another model'')" "got \<noteq> m"
      "b' = commit_serving got b"
proof -
  obtain u w1 where u: "io_up io m w = (u, w1)" by fastforce
  show ?thesis
  proof (cases u)
    case (Inl e)
    with u assms show ?thesis by (intro refused[of e]) (auto simp: vllm_bring_up_def)
  next
    case (Inr _)
    with u assms obtain a w2 where a: "await_health io (io_now io w1 + timeout) w1 = Some (a, w2)"
      by (auto simp: vllm_bring_up_def split: option.splits)
    note fin = await_health_result[OF a]
    obtain got w3 where ob: "observed_model io m w2 = (got, w3)" by fastforce
    show ?thesis
    proof (cases a)
      case (Inl e)
      with assms u \<open>u = Inr _\<close> a fin show ?thesis
        by (intro late[of w1]) (auto simp: vllm_bring_up_def)
    next
      case Inr2: (Inr _)
      with assms u Inr a ob show ?thesis
        by (cases "got = m") (auto simp: vllm_bring_up_def intro: ready mismatch)
    qed
  qed
qed

lemma ensure_ready_frame:
  assumes "vllm_ensure_ready io m timeout (b, w) = Some (r, (b', w'))"
  shows "accounting b' = accounting b" and "vb_sleep_unsupported b \<longrightarrow> vb_sleep_unsupported b'"
    and "vllm_ok b \<Longrightarrow> vllm_ok b'"
proof -
  obtain q b1 w1 where q: "ensure_locked io m (b, w) = (q, (b1, w1))" by (metis prod_cases3)
  have "b' = b1 \<or> (\<exists>got. b' = commit_serving got b1)"
  proof (cases "q = Inr False")
    case True
    with assms q have "vllm_bring_up io m timeout (b1, w1) = Some (r, (b', w'))"
      by (simp add: vllm_ensure_ready_def)
    then show ?thesis by (rule bring_up_cases) blast+
  next
    case False
    with assms q show ?thesis by (auto simp: vllm_ensure_ready_def split: sum.splits bool.splits)
  qed
  then have "accounting b' = accounting b1" "vb_sleep_unsupported b' = vb_sleep_unsupported b1"
      "vllm_ok b1 \<Longrightarrow> vllm_ok b'"
    by (elim disjE exE; simp add: commit_serving_def accounting_eq_iff vllm_ok_def)+
  with ensure_locked_frame[OF q]
  show "accounting b' = accounting b" "vb_sleep_unsupported b \<longrightarrow> vb_sleep_unsupported b'"
      "vllm_ok b \<Longrightarrow> vllm_ok b'" by simp_all
qed

lemma bring_up_returns:
  assumes "clock_ok io"
  shows "\<exists>x. vllm_bring_up io m timeout s = Some x"
proof -
  obtain b w where s: "s = (b, w)" by fastforce
  obtain u w1 where u: "io_up io m w = (u, w1)" by fastforce
  from await_health_returns[OF assms, of "io_now io w1 + timeout" w1] s u show ?thesis
    by (auto simp: vllm_bring_up_def split: sum.splits prod.splits)
qed

section \<open>Interleavings\<close>

text \<open>
  One handle shared by the request thread, any number of callers inside \<^verbatim>\<open>ensure_ready\<close> and the supervisor.
  A caller that leaves the lock is pending until its health wait ends; a supervisor tick that decided to
  stop is pending until it takes the lock. Between any two steps the world may change on its own.
\<close>

record 'w llm_sys =
  sy_backend :: vllm_backend
  sy_world :: 'w
  sy_pending :: "string list"
  sy_reaping :: bool

inductive llm_step :: "'w sidecar_io \<Rightarrow> 'w llm_sys \<Rightarrow> 'w llm_sys \<Rightarrow> bool" for io where
  enter: "ensure_locked io m (sy_backend s, sy_world s) = (r, (b, w)) \<Longrightarrow>
    llm_step io s (s\<lparr>sy_backend := b, sy_world := w,
      sy_pending := (if r = Inr False then m # sy_pending s else sy_pending s)\<rparr>)"
| healthy: "m \<in> set (sy_pending s) \<Longrightarrow> observed_model io m (sy_world s) = (got, w) \<Longrightarrow>
    llm_step io s (s\<lparr>sy_backend := commit_serving got (sy_backend s), sy_world := w,
      sy_pending := remove1 m (sy_pending s)\<rparr>)"
| late: "llm_step io s (s\<lparr>sy_pending := remove1 m (sy_pending s)\<rparr>)"
| request: "llm_step io s (s\<lparr>sy_backend := mark_request_start m (io_now io (sy_world s)) (sy_backend s)\<rparr>)"
| response: "llm_step io s (s\<lparr>sy_backend := mark_request_end (io_now io (sy_world s)) (sy_backend s)\<rparr>)"
| decide: "reap_decides io (VLLMBackend (sy_backend s), sy_world s) = (d, w) \<Longrightarrow>
    llm_step io s (s\<lparr>sy_world := w, sy_reaping := d\<rparr>)"
| reap: "sy_reaping s \<Longrightarrow> vllm_stop_server io (sy_backend s, sy_world s) = (r, (b, w)) \<Longrightarrow>
    llm_step io s (s\<lparr>sy_backend := b, sy_world := w, sy_reaping := False\<rparr>)"
| release: "vllm_stop_server io (sy_backend s, sy_world s) = (r, (b, w)) \<Longrightarrow>
    llm_step io s (s\<lparr>sy_backend := b, sy_world := w\<rparr>)"
| world: "llm_step io s (s\<lparr>sy_world := w\<rparr>)"

abbreviation llm_run :: "'w sidecar_io \<Rightarrow> 'w llm_sys \<Rightarrow> 'w llm_sys \<Rightarrow> bool" where
  "llm_run io \<equiv> (llm_step io)\<^sup>*\<^sup>*"

lemma llm_step_kept:
  assumes "llm_step io s t"
  shows "(vllm_ok (sy_backend s) \<longrightarrow> vllm_ok (sy_backend t)) \<and>
    (vb_sleep_unsupported (sy_backend s) \<longrightarrow> vb_sleep_unsupported (sy_backend t)) \<and>
    lb_base_url (sy_backend t) = lb_base_url (sy_backend s) \<and>
    lb_parallelism (sy_backend t) = lb_parallelism (sy_backend s) \<and>
    lb_idle_ttl (sy_backend t) = lb_idle_ttl (sy_backend s)"
  using assms
proof cases
  case (enter m r b w)
  from ensure_locked_frame[OF enter(2)] enter(1) show ?thesis by (simp add: accounting_eq_iff)
next
  case (reap r b w)
  from stop_server_frame[OF reap(3)] reap(1) show ?thesis by (simp add: accounting_eq_iff)
next
  case (release r b w)
  from stop_server_frame[OF release(2)] release(1) show ?thesis by (simp add: accounting_eq_iff)
qed (simp_all add: vllm_ok_def commit_serving_def mark_request_start_def mark_request_end_def)

section \<open>The port\<close>

text \<open>
  A session of a worker with its handle: requests opened and closed at given times, and lifecycle calls
  in between. \<open>None\<close> is a call that does not return.
\<close>

datatype llm_call = Begin string real | Finish real | Ready string real | Stop

fun llm_session :: "(string \<Rightarrow> real \<Rightarrow> 'b \<Rightarrow> 'b) \<Rightarrow> (real \<Rightarrow> 'b \<Rightarrow> 'b) \<Rightarrow>
    (string \<Rightarrow> real \<Rightarrow> 'b \<times> 'w \<Rightarrow> (unit result \<times> 'b \<times> 'w) option) \<Rightarrow> ('b \<times> 'w, bool) act \<Rightarrow>
    llm_call list \<Rightarrow> 'b \<times> 'w \<Rightarrow> ('b \<times> 'w) option" where
  "llm_session start finish ready stop [] s = Some s"
| "llm_session start finish ready stop (Begin m t # cs) (b, w) =
     llm_session start finish ready stop cs (start m t b, w)"
| "llm_session start finish ready stop (Finish t # cs) (b, w) =
     llm_session start finish ready stop cs (finish t b, w)"
| "llm_session start finish ready stop (Ready m timeout # cs) s =
     (case ready m timeout s of None \<Rightarrow> None | Some (_, s') \<Rightarrow> llm_session start finish ready stop cs s')"
| "llm_session start finish ready stop (Stop # cs) s =
     llm_session start finish ready stop cs (snd (stop s))"

text \<open>What the session does to the accounting alone.\<close>

fun replay :: "llm_call list \<Rightarrow> llm_base \<Rightarrow> llm_base" where
  "replay [] a = a"
| "replay (Begin m t # cs) a = replay cs (mark_request_start m t a)"
| "replay (Finish t # cs) a = replay cs (mark_request_end t a)"
| "replay (_ # cs) a = replay cs a"

fun begins :: "llm_call list \<Rightarrow> int" where
  "begins [] = 0"
| "begins (Begin _ _ # cs) = 1 + begins cs"
| "begins (_ # cs) = begins cs"

fun finishes :: "llm_call list \<Rightarrow> int" where
  "finishes [] = 0"
| "finishes (Finish _ # cs) = 1 + finishes cs"
| "finishes (_ # cs) = finishes cs"

text \<open>Every end closes a request that is open.\<close>

fun bracketed :: "int \<Rightarrow> llm_call list \<Rightarrow> bool" where
  "bracketed n [] \<longleftrightarrow> True"
| "bracketed n (Begin _ _ # cs) \<longleftrightarrow> bracketed (n + 1) cs"
| "bracketed n (Finish _ # cs) \<longleftrightarrow> 0 < n \<and> bracketed (n - 1) cs"
| "bracketed n (_ # cs) \<longleftrightarrow> bracketed n cs"

lemma replay_inflight:
  "bracketed (lb_inflight a) cs \<Longrightarrow> lb_inflight (replay cs a) = lb_inflight a + begins cs - finishes cs"
proof (induction cs arbitrary: a)
  case (Cons c cs)
  then show ?case by (cases c) (auto simp: mark_request_start_def mark_request_end_def)
qed simp

locale llm_port =
  fixes acct :: "'b \<Rightarrow> llm_base"
    and start :: "string \<Rightarrow> real \<Rightarrow> 'b \<Rightarrow> 'b"
    and finish :: "real \<Rightarrow> 'b \<Rightarrow> 'b"
    and ready :: "string \<Rightarrow> real \<Rightarrow> 'b \<times> 'w \<Rightarrow> (unit result \<times> 'b \<times> 'w) option"
    and stop :: "('b \<times> 'w, bool) act"
  assumes start_acct: "acct (start m t b) = mark_request_start m t (acct b)"
    and finish_acct: "acct (finish t b) = mark_request_end t (acct b)"
    and ready_acct: "ready m timeout (b, w) = Some (r, (b', w')) \<Longrightarrow> acct b' = acct b"
    and stop_acct: "stop (b, w) = (q, (b', w')) \<Longrightarrow> acct b' = acct b"
begin

lemma session_accounting:
  "llm_session start finish ready stop cs (b, w) = Some (b', w') \<Longrightarrow> acct b' = replay cs (acct b)"
proof (induction cs arbitrary: b w)
  case (Cons c cs)
  show ?case
  proof (cases c)
    case (Ready m timeout)
    with Cons.prems obtain r b1 w1 where "ready m timeout (b, w) = Some (r, (b1, w1))"
      by (auto split: option.splits)
    with Ready Cons ready_acct[OF this] show ?thesis by simp
  next
    case Stop
    obtain q b1 w1 where "stop (b, w) = (q, (b1, w1))" using prod_cases3 by blast
    with Stop Cons stop_acct[OF this] show ?thesis by simp
  qed (use Cons in \<open>simp_all add: start_acct finish_acct\<close>)
qed simp

end

interpretation vllm: llm_port llm_base.truncate mark_request_start mark_request_end
  "vllm_ensure_ready io" "vllm_stop_server io"
  by unfold_locales
    (auto simp: llm_base.truncate_def mark_request_start_def mark_request_end_def
      dest: ensure_ready_frame(1) stop_server_frame(1))

interpretation server: llm_port base_of request_start request_end "ensure_ready io" "stop_server io"
proof
  show "base_of (request_start m t b) = mark_request_start m t (base_of b)" for m t b
    by (cases b) (simp_all add: vllm.start_acct)
  show "base_of (request_end t b) = mark_request_end t (base_of b)" for t b
    by (cases b) (simp_all add: vllm.finish_acct)
  show "base_of b' = base_of b" if "ensure_ready io m timeout (b, w) = Some (r, (b', w'))" for m timeout b w r b' w'
    using that by (cases b) (auto dest: vllm.ready_acct)
  show "base_of b' = base_of b" if "stop_server io (b, w) = (q, (b', w'))" for b w q b' w'
    using that by (cases b) (auto split: prod.splits dest: vllm.stop_acct)
qed

abbreviation server_session :: "'w sidecar_io \<Rightarrow> llm_call list \<Rightarrow> llm_backend \<times> 'w \<Rightarrow> (llm_backend \<times> 'w) option" where
  "server_session io \<equiv> llm_session request_start request_end (ensure_ready io) (stop_server io)"

section \<open>The supervisor\<close>

lemma busy_not_reaped: "lb_inflight (base_of b) > 0 \<Longrightarrow> \<not> fst (reap_decides io (b, w))"
  by (auto simp: reap_decides_def vllm_should_stop_def split: prod.splits)

lemma poll_interval_bounds: "5 \<le> poll_interval None b \<and> poll_interval None b \<le> 60"
  by (simp add: poll_interval_def)

text \<open>A sidecar that answers its probe and is signalled without error.\<close>

definition sidecar_up :: "'w sidecar_io \<Rightarrow> ('w \<Rightarrow> bool) \<Rightarrow> bool" where
  "sidecar_up io up \<longleftrightarrow> (\<forall>w. up w \<longrightarrow> io_health io w = (Inr True, w) \<and> (\<forall>d. up (io_sleep io d w)) \<and>
     (\<exists>k. fst (io_kill io w) = Inr k))"

abbreviation slept :: "'w sidecar_io \<Rightarrow> real \<Rightarrow> nat \<Rightarrow> 'w \<Rightarrow> 'w" where
  "slept io poll n w \<equiv> (io_sleep io poll ^^ n) w"

lemma tick_waits:
  assumes "sidecar_up io up" and "up w" and "lb_inflight b = 0"
    and "\<not> (0 < lb_idle_ttl b \<and> lb_idle_ttl b \<le> io_now io w - lb_last_used b)"
  shows "llm_reap_idle_once io (VLLMBackend b, w) = (False, (VLLMBackend b, w))"
  using assms
  by (auto simp: llm_reap_idle_once_def reap_decides_def vllm_is_running_def sidecar_up_def
      vllm_should_stop_def idle_seconds_def llm_base.truncate_def max_def split: bool.splits if_splits)

lemma tick_stops:
  assumes "sidecar_up io up" and "up w" and "lb_inflight b = 0"
    and "0 < lb_idle_ttl b" and "lb_idle_ttl b \<le> io_now io w - lb_last_used b"
  shows "snd (llm_reap_idle_once io (VLLMBackend b, w)) =
    (VLLMBackend (b\<lparr>vb_state := DEAD, vb_served := None\<rparr>), snd (io_kill io w))"
proof -
  from assms(1,2) obtain k w' where "io_kill io w = (Inr k, w')" "io_health io w = (Inr True, w)"
    by (auto simp: sidecar_up_def) (metis prod.collapse)
  with assms(3-) show ?thesis
    by (auto simp: llm_reap_idle_once_def reap_decides_def vllm_is_running_def vllm_stop_server_def
        do_stop_locked_def vllm_should_stop_def idle_seconds_def llm_base.truncate_def)
qed

lemma slept_clock: "clock_ok io \<Longrightarrow> 0 \<le> poll \<Longrightarrow> io_now io w + real n * poll \<le> io_now io (slept io poll n w)"
proof (induction n)
  case (Suc n)
  with clock_sleep[of io poll "slept io poll n w"] show ?case by (simp add: algebra_simps)
qed simp

lemma slept_up: "sidecar_up io up \<Longrightarrow> up w \<Longrightarrow> up (slept io poll n w)"
  by (induction n) (simp_all add: sidecar_up_def)

lemma supervisor_loop_Suc:
  "supervisor_loop io poll (Suc n) s =
    (case supervisor_loop io poll n s of (b, w) \<Rightarrow> snd (llm_reap_idle_once io (b, io_sleep io poll w)))"
proof (induction n arbitrary: s)
  case 0
  then show ?case by (cases s) simp
next
  case (Suc n)
  obtain b w where "s = (b, w)" by fastforce
  with Suc[of "snd (llm_reap_idle_once io (b, io_sleep io poll w))"] show ?case by simp
qed

lemma supervisor_waits:
  assumes "sidecar_up io up" and "up w" and "lb_inflight b = 0"
    and "\<And>j. 1 \<le> j \<Longrightarrow> j \<le> n \<Longrightarrow>
      \<not> (0 < lb_idle_ttl b \<and> lb_idle_ttl b \<le> io_now io (slept io poll j w) - lb_last_used b)"
  shows "supervisor_loop io poll n (VLLMBackend b, w) = (VLLMBackend b, slept io poll n w)"
  using assms(4)
proof (induction n)
  case (Suc n)
  then have "supervisor_loop io poll n (VLLMBackend b, w) = (VLLMBackend b, slept io poll n w)" by simp
  with tick_waits[OF assms(1) _ assms(3), of "slept io poll (Suc n) w"] slept_up[OF assms(1,2), of "Suc n" poll]
    Suc.prems[of "Suc n"] show ?case
    by (simp add: supervisor_loop_Suc del: supervisor_loop.simps(2))
qed simp

section \<open>A concrete host\<close>

text \<open>A sidecar that comes up at once with the model it is asked for, and a count of the signals it got.\<close>

record demo_sidecar =
  dh_clock :: real
  dh_model :: "string option"
  dh_kills :: nat

definition demo_io :: "demo_sidecar sidecar_io" where
  "demo_io = \<lparr>io_now = dh_clock, io_sleep = (\<lambda>d w. w\<lparr>dh_clock := dh_clock w + d\<rparr>),
     io_kill = (\<lambda>w. (Inr (dh_model w \<noteq> None), w\<lparr>dh_model := None, dh_kills := dh_kills w + 1\<rparr>)),
     io_up = (\<lambda>m w. (Inr (), w\<lparr>dh_model := Some m\<rparr>)),
     io_health = (\<lambda>w. (Inr (dh_model w \<noteq> None), w)),
     io_served = (\<lambda>w. (Inr (dh_model w), w))\<rparr>"

abbreviation demo_at :: "real \<Rightarrow> string option \<Rightarrow> demo_sidecar" where
  "demo_at t m \<equiv> \<lparr>dh_clock = t, dh_model = m, dh_kills = 0\<rparr>"

abbreviation demo_vllm :: "string option \<Rightarrow> vllm_backend" where
  "demo_vllm served \<equiv> new_vllm ''http://h:8000/'' 1 60 served 0"

lemma demo_clock_ok: "clock_ok demo_io"
  by (simp add: clock_ok_def demo_io_def)

lemma demo_sidecar_up: "sidecar_up demo_io (\<lambda>w. dh_model w \<noteq> None)"
  by (auto simp: sidecar_up_def demo_io_def)

lemmas demo_eval = demo_io_def llm_defs Let_def not_implemented_def await_health_def health_probe_def llm_base.extend_def
  llm_base.truncate_def rstrip_def

section \<open>Properties\<close>



text \<open>
  Under every interleaving of requests, \<^verbatim>\<open>ensure_ready\<close> calls, supervisor ticks, teardown and changes
  of the sidecar behind the handle's back, the handle stays well formed: serving names a model, dead names
  none, the reserved sleeping state is never entered, a half-done switch has the sticky flag set, the
  in-flight count is never negative; the flag once set stays set and the settings never change.
\<close>

theorem vllm_lifecycle_invariant:
  assumes "llm_run io s t" and "vllm_ok (sy_backend s)"
  shows "vllm_ok (sy_backend t) \<and>
    (vb_sleep_unsupported (sy_backend s) \<longrightarrow> vb_sleep_unsupported (sy_backend t)) \<and>
    lb_base_url (sy_backend t) = lb_base_url (sy_backend s) \<and>
    lb_parallelism (sy_backend t) = lb_parallelism (sy_backend s) \<and>
    lb_idle_ttl (sy_backend t) = lb_idle_ttl (sy_backend s)"
  using assms
proof (induction rule: rtranclp_induct)
  case (step t u)
  with llm_step_kept[OF step.hyps(2)] show ?case by simp
qed simp

text \<open>
  For either vendor and any session of requests and lifecycle calls in which every end closes an open
  request, the in-flight count is the number of requests that are open, and while one is open no tick of
  the supervisor decides to stop the server.
\<close>

theorem llm_inflight_exact:
  assumes "server_session io cs (b, w) = Some (b', w')" and "bracketed (lb_inflight (base_of b)) cs"
  shows "lb_inflight (base_of b') = lb_inflight (base_of b) + begins cs - finishes cs \<and>
    (lb_inflight (base_of b) + begins cs > finishes cs \<longrightarrow> \<not> fst (reap_decides io (b', w'')))"
proof -
  from server.session_accounting[OF assms(1)] replay_inflight[OF assms(2)]
  have "lb_inflight (base_of b') = lb_inflight (base_of b) + begins cs - finishes cs" by simp
  with busy_not_reaped[of b' io w''] show ?thesis by simp
qed

text \<open>
  An idle vLLM sidecar is given back: with no request in flight and a positive TTL, the supervisor's loop
  does nothing until the first round at which the server has been idle for the TTL and sends the signal
  in that round, which is one of the first \<open>n\<close> as soon as \<open>n\<close> polling intervals span the TTL.
\<close>

theorem idle_sidecar_reclaimed:
  assumes "clock_ok io" and "sidecar_up io up" and "up w" and "lb_inflight b = 0" and "0 < lb_idle_ttl b"
    and "lb_last_used b \<le> io_now io w" and "0 \<le> poll" and "lb_idle_ttl b \<le> real n * poll"
  shows "\<exists>k\<ge>1. k \<le> n \<and>
    (\<forall>j<k. supervisor_loop io poll j (VLLMBackend b, w) = (VLLMBackend b, slept io poll j w)) \<and>
    lb_idle_ttl b \<le> io_now io (slept io poll k w) - lb_last_used b \<and>
    supervisor_loop io poll k (VLLMBackend b, w) =
      (VLLMBackend (b\<lparr>vb_state := DEAD, vb_served := None\<rparr>), snd (io_kill io (slept io poll k w)))"
proof -
  let ?due = "\<lambda>k. 1 \<le> k \<and> lb_idle_ttl b \<le> io_now io (slept io poll k w) - lb_last_used b"
  have "n \<noteq> 0" using assms(5,8) by (cases n) auto
  moreover have "lb_idle_ttl b \<le> io_now io (slept io poll n w) - lb_last_used b"
    using slept_clock[OF assms(1,7), of w n] assms(6,8) by linarith
  ultimately have due: "?due n" by simp
  define k where "k = (LEAST k. ?due k)"
  from due have k: "?due k" and "k \<le> n" unfolding k_def by (rule LeastI, rule Least_le)
  have early: "\<not> ?due j" if "j < k" for j
    using that unfolding k_def by (rule not_less_Least)
  have wait: "supervisor_loop io poll j (VLLMBackend b, w) = (VLLMBackend b, slept io poll j w)" if "j < k" for j
    using that early by (intro supervisor_waits[OF assms(2-4)]) auto
  from k obtain k' where "k = Suc k'" by (cases k) auto
  with wait[of k'] tick_stops[OF assms(2) slept_up[OF assms(2,3), of k poll] assms(4,5)] k
  have "supervisor_loop io poll k (VLLMBackend b, w) =
      (VLLMBackend (b\<lparr>vb_state := DEAD, vb_served := None\<rparr>), snd (io_kill io (slept io poll k w)))"
    by (simp add: supervisor_loop_Suc del: supervisor_loop.simps(2))
  with k \<open>k \<le> n\<close> wait show ?thesis by blast
qed

text \<open>Concrete instances of the four properties.\<close>

theorem vllm_lifecycle_invariant_witness:
  "let s = \<lparr>sy_backend = demo_vllm None, sy_world = demo_at 0 None, sy_pending = [], sy_reaping = False\<rparr>;
       t = s\<lparr>sy_backend := mark_request_start ''q'' 0 (demo_vllm None)\<rparr>
   in vllm_ok (sy_backend s) \<and> vllm_ok (sy_backend t) \<and> lb_inflight (sy_backend t) = 1"
proof -
  let ?s = "\<lparr>sy_backend = demo_vllm None, sy_world = demo_at 0 None, sy_pending = [], sy_reaping = False\<rparr>"
  let ?t = "?s\<lparr>sy_backend := mark_request_start ''q'' 0 (demo_vllm None)\<rparr>"
  have "llm_run demo_io ?s ?t"
    using llm_step.request[of demo_io ?s "''q''"] by (simp add: demo_io_def)
  from vllm_lifecycle_invariant[OF this] show ?thesis
    by (simp add: Let_def) (simp add: llm_defs llm_base.extend_def)
qed

theorem llm_inflight_exact_witness:
  "let b = VLLMBackend (demo_vllm (Some ''q'')); w = demo_at 5 (Some ''q'');
       cs = [Ready ''q'' 90, Begin ''q'' 6, Begin ''q'' 7, Finish 8]
   in server_session demo_io cs (b, w) \<noteq> None \<and> bracketed (lb_inflight (base_of b)) cs \<and>
      lb_inflight (base_of (fst (the (server_session demo_io cs (b, w))))) = 1"
proof -
  let ?b = "VLLMBackend (demo_vllm (Some ''q''))" and ?w = "demo_at 5 (Some ''q'')"
  let ?cs = "[Ready ''q'' 90, Begin ''q'' 6, Begin ''q'' 7, Finish 8]"
  obtain b' w' where s: "server_session demo_io ?cs (?b, ?w) = Some (b', w')"
    by (simp add: demo_eval)
  moreover have "bracketed (lb_inflight (base_of ?b)) ?cs" "lb_inflight (base_of ?b) = 0"
    by (simp_all add: demo_eval)
  ultimately show ?thesis using llm_inflight_exact[OF s] by (simp add: Let_def)
qed

theorem idle_sidecar_reclaimed_witness:
  "let b = demo_vllm (Some ''q''); w = demo_at 0 (Some ''q'')
   in clock_ok demo_io \<and> sidecar_up demo_io (\<lambda>w. dh_model w \<noteq> None) \<and> lb_inflight b = 0 \<and> lb_idle_ttl b = 60 \<and>
      (\<exists>k\<ge>1. k \<le> 5 \<and> supervisor_loop demo_io 12 k (VLLMBackend b, w) =
        (VLLMBackend (b\<lparr>vb_state := DEAD, vb_served := None\<rparr>), snd (io_kill demo_io (slept demo_io 12 k w))))"
proof -
  let ?b = "demo_vllm (Some ''q'')" and ?w = "demo_at 0 (Some ''q'')"
  have "lb_inflight ?b = 0" "lb_idle_ttl ?b = 60" "lb_last_used ?b = 0" "io_now demo_io ?w = 0"
    by (simp_all add: llm_defs llm_base.extend_def demo_io_def)
  with idle_sidecar_reclaimed[OF demo_clock_ok demo_sidecar_up, of ?w ?b 12 5] demo_clock_ok demo_sidecar_up
  show ?thesis by (auto simp: Let_def)
qed

section \<open>What the code does not promise\<close>

text \<open>
  A handle built over a sidecar that already serves the requested model signals it and brings it up
  again: a new handle believes that nothing is served, and the warm hit asks that belief.
\<close>

lemma fresh_handle_restarts_live_sidecar:
  "vllm_ensure_ready demo_io ''q'' 90 (demo_vllm None, demo_at 5 (Some ''q'')) =
     Some (Inr (), (demo_vllm None)\<lparr>vb_served := Some ''q'', vb_state := SERVING, vb_sleep_unsupported := True\<rparr>,
       \<lparr>dh_clock = 5, dh_model = Some ''q'', dh_kills = 1\<rparr>)"
  by (simp add: demo_eval)

text \<open>
  \<^verbatim>\<open>ensure_ready\<close> does not restart the idle clock, so the tick after a cold start that follows a quiet
  period stops the sidecar before the request it was started for begins.
\<close>

lemma cold_start_reaped:
  "case vllm_ensure_ready demo_io ''q'' 90 (demo_vllm None, demo_at 500 None) of
     Some (Inr _, b, w) \<Rightarrow> dh_model w = Some ''q'' \<and>
       dh_model (snd (snd (llm_reap_idle_once demo_io (VLLMBackend b, w)))) = None
   | _ \<Rightarrow> False"
  by (simp add: demo_eval)

text \<open>
  A tick reads the accounting and stops the server without holding the lock in between: a request that
  starts after the decision is killed.
\<close>

lemma tick_kills_late_request:
  "\<exists>t. llm_run demo_io \<lparr>sy_backend = demo_vllm (Some ''q''), sy_world = demo_at 100 (Some ''q''),
      sy_pending = [], sy_reaping = False\<rparr> t \<and>
    lb_inflight (sy_backend t) = 1 \<and> dh_model (sy_world t) = None \<and> dh_kills (sy_world t) = 1"
proof -
  let ?b = "demo_vllm (Some ''q'')" and ?w = "demo_at 100 (Some ''q'')"
  let ?s = "\<lparr>sy_backend = ?b, sy_world = ?w, sy_pending = [], sy_reaping = False\<rparr>"
  let ?b1 = "mark_request_start ''q'' 100 ?b"
  let ?b2 = "?b1\<lparr>vb_state := DEAD, vb_served := None\<rparr>"
  let ?w2 = "\<lparr>dh_clock = 100, dh_model = None, dh_kills = 1\<rparr>"
  let ?s1 = "?s\<lparr>sy_reaping := True\<rparr>"
  let ?s2 = "?s1\<lparr>sy_backend := ?b1\<rparr>"
  let ?s3 = "?s2\<lparr>sy_backend := ?b2, sy_world := ?w2, sy_reaping := False\<rparr>"
  have "llm_step demo_io ?s ?s1"
    using llm_step.decide[of demo_io ?s True ?w] by (simp add: demo_eval)
  moreover have "llm_step demo_io ?s1 ?s2"
    using llm_step.request[of demo_io ?s1 "''q''"] by (simp add: demo_io_def)
  moreover have "llm_step demo_io ?s2 ?s3"
    using llm_step.reap[of ?s2 demo_io "Inr True" ?b2 ?w2] by (simp add: demo_eval)
  ultimately have "llm_run demo_io ?s ?s3" by (meson converse_rtranclp_into_rtranclp rtranclp.rtrancl_refl)
  then show ?thesis by (intro exI[of _ ?s3]) (simp add: llm_defs llm_base.extend_def)
qed

end
