(* ===== verification/Llm_Factory.thy ===== *)
theory Llm_Factory
  imports Llm_Laws Worker_Control "HOL-Library.AList"
begin

text \<open>
  \<^verbatim>\<open>llm_backends/factory.py\<close>: the owner of the live LLM backend per (host, queue) and of its idle supervisor.
  Backend objects live in a store and are named by their index, so that handing back the same object is
  a statement about names. The cache is the dictionary of the factory in its insertion order; the
  supervisors that run are the names of the objects they watch. The operator's settings are read from the
  database of \<open>Worker_Control\<close>; the URLs come from the process environment.
\<close>

section \<open>State\<close>

record config_snapshot =
  sn_server_type :: string
  sn_parallelism :: int
  sn_idle_ttl :: int

definition from_config :: "llm_config \<Rightarrow> config_snapshot" where
  "from_config c = \<lparr>sn_server_type = lc_server_type c, sn_parallelism = lc_parallelism c,
     sn_idle_ttl = lc_idle_ttl c\<rparr>"

record factory_entry =
  fe_snapshot :: config_snapshot
  fe_backend :: nat
  fe_supervisor :: bool
  fe_last_check :: real
  fe_invalid :: bool

record 'w factory =
  fa_cache :: "((string \<times> string) \<times> factory_entry) list"
  fa_objects :: "llm_backend list"
  fa_supervised :: "nat list"
  fa_world :: 'w
  fa_listening :: bool

record 'w factory_env =
  fv_io :: "'w sidecar_io"
  fv_ttl :: real
  fv_ollama_url :: "string option"
  fv_vllm_url :: "string option"
  fv_ollama_env :: string
  fv_vllm_env :: string
  fv_environ :: "string \<Rightarrow> string option"

definition new_factory :: "'w \<Rightarrow> 'w factory" where
  "new_factory w = \<lparr>fa_cache = [], fa_objects = [], fa_supervised = [], fa_world = w, fa_listening = False\<rparr>"

text \<open>\<^verbatim>\<open>os.environ.get(name)\<close> used as a condition.\<close>

definition env_flag :: "'w factory_env \<Rightarrow> string \<Rightarrow> bool" where
  "env_flag env name \<longleftrightarrow> (case fv_environ env name of None \<Rightarrow> False | Some v \<Rightarrow> v \<noteq> [])"

abbreviation supervisor_disabled :: "'w factory_env \<Rightarrow> bool" where
  "supervisor_disabled env \<equiv> env_flag env ''AI_LEADS_DISABLE_LLM_SUPERVISOR''"

section \<open>URLs\<close>

definition normalize_ollama :: "string \<Rightarrow> string" where
  "normalize_ollama url = rstrip (CHR ''/'') url"

definition normalize_vllm :: "string \<Rightarrow> string" where
  "normalize_vllm url =
     (let u = rstrip (CHR ''/'') url
      in rstrip (CHR ''/'') (if suffix ''/v1'' u then take (length u - length ''/v1'') u else u))"

definition url_setting :: "'w factory_env \<Rightarrow> string \<Rightarrow> string \<Rightarrow> string" where
  "url_setting env name fallback =
     (let raw = (case fv_environ env name of None \<Rightarrow> [] | Some v \<Rightarrow> py_strip v)
      in if raw = [] then fallback else raw)"

definition ollama_base_url :: "'w factory_env \<Rightarrow> string" where
  "ollama_base_url env =
     (case fv_ollama_url env of
        Some u \<Rightarrow> normalize_ollama u
      | None \<Rightarrow> normalize_ollama (url_setting env (fv_ollama_env env) ''http://host.docker.internal:11434''))"

definition vllm_base_url :: "'w factory_env \<Rightarrow> string" where
  "vllm_base_url env =
     (case fv_vllm_url env of
        Some u \<Rightarrow> normalize_vllm u
      | None \<Rightarrow> normalize_vllm (url_setting env (fv_vllm_env env) ''http://host.docker.internal:8000''))"

definition base_url_for :: "'w factory_env \<Rightarrow> string \<Rightarrow> string" where
  "base_url_for env kind = (if kind = ''vllm'' then vllm_base_url env else ollama_base_url env)"

section \<open>Operations\<close>

definition default_build_backend :: "string \<Rightarrow> string \<Rightarrow> int \<Rightarrow> real \<Rightarrow> real \<Rightarrow> llm_backend" where
  "default_build_backend kind base_url parallelism idle_ttl clock =
     (if kind = ''vllm'' then VLLMBackend (new_vllm base_url parallelism idle_ttl None clock)
      else OllamaBackend (new_llm_base base_url parallelism idle_ttl clock))"

text \<open>\<^verbatim>\<open>_build_entry\<close>: the new object and, for vLLM, its supervisor, which may stay inert.\<close>

definition build_entry :: "'w factory_env \<Rightarrow> config_snapshot \<Rightarrow> real \<Rightarrow> 'w factory \<Rightarrow> factory_entry \<times> 'w factory" where
  "build_entry env sn clock f =
     (let is_vllm = (sn_server_type sn = ''vllm'');
          ttl = (if is_vllm then real_of_int (sn_idle_ttl sn) else 0);
          b = default_build_backend (sn_server_type sn) (base_url_for env (sn_server_type sn))
                (sn_parallelism sn) ttl (io_now (fv_io env) (fa_world f));
          i = length (fa_objects f)
      in (\<lparr>fe_snapshot = sn, fe_backend = i, fe_supervisor = is_vllm, fe_last_check = clock, fe_invalid = False\<rparr>,
          f\<lparr>fa_objects := fa_objects f @ [b],
            fa_supervised := fa_supervised f @
              (if is_vllm \<and> supervisor_enabled (supervisor_disabled env) b then [i] else [])\<rparr>))"

text \<open>\<^verbatim>\<open>_teardown_entry\<close>: an exception of the shutdown is logged and ignored.\<close>

definition teardown_entry :: "'w factory_env \<Rightarrow> factory_entry \<Rightarrow> 'w factory \<Rightarrow> 'w factory" where
  "teardown_entry env e f =
     (let i = fe_backend e in
      case shutdown (fv_io env) (fa_objects f ! i, fa_world f) of
        (_, (b, w)) \<Rightarrow>
          f\<lparr>fa_supervised := (if fe_supervisor e then removeAll i (fa_supervised f) else fa_supervised f),
            fa_objects := (fa_objects f)[i := b], fa_world := w\<rparr>)"

definition llm_get_backend :: "'w factory_env \<Rightarrow> string \<Rightarrow> string \<Rightarrow> db \<Rightarrow> 'w factory \<Rightarrow> nat \<times> 'w factory" where
  "llm_get_backend env host queue d f =
     (let key = (host, queue);
          clock = io_now (fv_io env) (fa_world f);
          sn = from_config (llm_config_for host queue d);
          rebuild = (\<lambda>f. case build_entry env sn clock f of
                        (e, f') \<Rightarrow> (fe_backend e, f'\<lparr>fa_cache := AList.update key e (fa_cache f')\<rparr>))
      in case map_of (fa_cache f) key of
           None \<Rightarrow> rebuild f
         | Some e \<Rightarrow>
             if \<not> fe_invalid e \<and> clock - fe_last_check e < fv_ttl env then (fe_backend e, f)
             else if fe_snapshot e = sn
             then (fe_backend e, f\<lparr>fa_cache := AList.update key (e\<lparr>fe_last_check := clock, fe_invalid := False\<rparr>)
                                     (fa_cache f)\<rparr>)
             else rebuild (teardown_entry env e f))"

definition invalidate :: "string \<Rightarrow> string \<Rightarrow> 'w factory \<Rightarrow> 'w factory" where
  "invalidate host queue f =
     (case map_of (fa_cache f) (host, queue) of
        None \<Rightarrow> f
      | Some e \<Rightarrow> f\<lparr>fa_cache := AList.update (host, queue) (e\<lparr>fe_invalid := True\<rparr>) (fa_cache f)\<rparr>)"

definition handle_notify :: "string option \<Rightarrow> 'w factory \<Rightarrow> 'w factory" where
  "handle_notify payload f =
     (case payload of
        None \<Rightarrow> f
      | Some p \<Rightarrow>
          if CHR ''|'' \<notin> set p then f
          else case partition_at (CHR ''|'') p of
                 (host, queue) \<Rightarrow> if host \<noteq> [] \<and> queue \<noteq> [] then invalidate host queue f else f)"

definition start_listener :: "'w factory_env \<Rightarrow> 'w factory \<Rightarrow> 'w factory" where
  "start_listener env f =
     (if env_flag env ''AI_LEADS_DISABLE_LLM_CONFIG_LISTENER'' \<or> fa_listening f then f
      else f\<lparr>fa_listening := True\<rparr>)"

definition stop_factory :: "'w factory_env \<Rightarrow> 'w factory \<Rightarrow> 'w factory" where
  "stop_factory env f =
     (fold (teardown_entry env) (map snd (fa_cache f)) (f\<lparr>fa_listening := False\<rparr>))\<lparr>fa_cache := []\<rparr>"

text \<open>What the holder of a handle and the supervisor do to the object and the sidecar.\<close>

definition with_backend :: "nat \<Rightarrow> (llm_backend \<times> 'w \<Rightarrow> llm_backend \<times> 'w) \<Rightarrow> 'w factory \<Rightarrow> 'w factory" where
  "with_backend i op f =
     (if i < length (fa_objects f)
      then case op (fa_objects f ! i, fa_world f) of
             (b, w) \<Rightarrow> f\<lparr>fa_objects := (fa_objects f)[i := b], fa_world := w\<rparr>
      else f)"

section \<open>The invariant\<close>

text \<open>The object is the one the settings ask for.\<close>

definition built_for :: "'w factory_env \<Rightarrow> config_snapshot \<Rightarrow> llm_backend \<Rightarrow> bool" where
  "built_for env sn b \<longleftrightarrow>
     server_type b = (if sn_server_type sn = ''vllm'' then ''vllm'' else ''ollama'') \<and>
     lb_base_url (base_of b) = base_url_for env (sn_server_type sn) \<and>
     lb_parallelism (base_of b) = sn_parallelism sn \<and>
     lb_idle_ttl (base_of b) = (if sn_server_type sn = ''vllm'' then real_of_int (sn_idle_ttl sn) else 0)"

text \<open>What a cache slot fixes: the settings it was built for, the object, whether it has a supervisor.\<close>

definition slot :: "'w factory \<Rightarrow> string \<times> string \<Rightarrow> (config_snapshot \<times> nat \<times> bool) option" where
  "slot f k = map_option (\<lambda>e. (fe_snapshot e, fe_backend e, fe_supervisor e)) (map_of (fa_cache f) k)"

definition watched :: "'w factory_env \<Rightarrow> 'w factory \<Rightarrow> nat \<Rightarrow> bool" where
  "watched env f i \<longleftrightarrow> (\<exists>k sn s. slot f k = Some (sn, i, s)) \<and>
     supervisor_enabled (supervisor_disabled env) (fa_objects f ! i)"

definition factory_inv :: "'w factory_env \<Rightarrow> 'w factory \<Rightarrow> bool" where
  "factory_inv env f \<longleftrightarrow> distinct (map fst (fa_cache f)) \<and>
     (\<forall>k sn i s. slot f k = Some (sn, i, s) \<longrightarrow> i < length (fa_objects f) \<and>
        built_for env sn (fa_objects f ! i) \<and> s = (sn_server_type sn = ''vllm'')) \<and>
     (\<forall>k k' sn sn' i s s'. slot f k = Some (sn, i, s) \<longrightarrow> slot f k' = Some (sn', i, s') \<longrightarrow> k = k') \<and>
     (\<forall>i. i \<in> set (fa_supervised f) \<longleftrightarrow> watched env f i)"

lemma factory_invI:
  assumes "distinct (map fst (fa_cache f))"
    and "\<And>k sn i s. slot f k = Some (sn, i, s) \<Longrightarrow> i < length (fa_objects f)"
    and "\<And>k sn i s. slot f k = Some (sn, i, s) \<Longrightarrow> built_for env sn (fa_objects f ! i)"
    and "\<And>k sn i s. slot f k = Some (sn, i, s) \<Longrightarrow> s = (sn_server_type sn = ''vllm'')"
    and "\<And>k k' sn sn' i s s'. slot f k = Some (sn, i, s) \<Longrightarrow> slot f k' = Some (sn', i, s') \<Longrightarrow> k = k'"
    and "\<And>i. i \<in> set (fa_supervised f) \<longleftrightarrow> watched env f i"
  shows "factory_inv env f"
  unfolding factory_inv_def using assms by blast

lemma factory_invD:
  assumes "factory_inv env f"
  shows "distinct (map fst (fa_cache f))"
    and "slot f k = Some (sn, i, s) \<Longrightarrow> i < length (fa_objects f)"
    and "slot f k = Some (sn, i, s) \<Longrightarrow> built_for env sn (fa_objects f ! i)"
    and "slot f k = Some (sn, i, s) \<Longrightarrow> s = (sn_server_type sn = ''vllm'')"
    and "slot f k = Some (sn, i, s) \<Longrightarrow> slot f k' = Some (sn', i, s') \<Longrightarrow> k = k'"
    and "i \<in> set (fa_supervised f) \<longleftrightarrow> watched env f i"
  using assms unfolding factory_inv_def by blast+

lemma new_factory_inv: "factory_inv env (new_factory w)"
  by (rule factory_invI) (simp_all add: new_factory_def slot_def watched_def)

lemma slot_update [simp]:
  "slot (f\<lparr>fa_cache := AList.update k e (fa_cache f)\<rparr>) =
    (slot f)(k \<mapsto> (fe_snapshot e, fe_backend e, fe_supervisor e))"
  by (auto simp: slot_def update_conv')

lemma slot_frame [simp]:
  "slot (f\<lparr>fa_objects := x\<rparr>) = slot f" "slot (f\<lparr>fa_supervised := y\<rparr>) = slot f"
  "slot (f\<lparr>fa_world := w\<rparr>) = slot f" "slot (f\<lparr>fa_listening := l\<rparr>) = slot f"
  by (simp_all add: slot_def fun_eq_iff)

text \<open>Settings of an object: what its operations leave alone.\<close>

definition settings :: "llm_backend \<Rightarrow> string \<times> string \<times> int \<times> real" where
  "settings b = (server_type b, lb_base_url (base_of b), lb_parallelism (base_of b), lb_idle_ttl (base_of b))"

lemma settings_decide:
  assumes "settings b' = settings b"
  shows "built_for env sn b' = built_for env sn b" and "supervisor_enabled x b' = supervisor_enabled x b"
  using assms by (auto simp: settings_def built_for_def supervisor_enabled_def)

lemma vllm_stop_settings: "vllm_stop_server io (v, w) = (r, (v', w')) \<Longrightarrow> settings (VLLMBackend v') = settings (VLLMBackend v)"
  using stop_server_frame(1)[of io v w r v' w'] by (simp add: settings_def)

lemma stop_settings: "settings (fst (snd (stop_server io (b, w)))) = settings b"
  by (cases b) (auto split: prod.splits dest: vllm_stop_settings)

lemma shutdown_settings: "settings (fst (snd (shutdown io (b, w)))) = settings b"
  using stop_settings[of io b w] by (auto simp: shutdown_def split: prod.splits sum.splits)

lemma reap_settings: "settings (fst (snd (llm_reap_idle_once io (b, w)))) = settings b"
  using stop_settings[of io b]
  by (auto simp: llm_reap_idle_once_def split: prod.splits sum.splits bool.splits)
     (metis fst_conv snd_conv)+

lemma ready_settings: "ensure_ready io m timeout (b, w) = Some (r, (b', w')) \<Longrightarrow> settings b' = settings b"
  by (cases b) (auto simp: settings_def dest!: ensure_ready_frame(1))

lemma request_settings [simp]:
  "settings (request_start m t b) = settings b" "settings (request_end t b) = settings b"
  by (cases b; simp add: settings_def mark_request_start_def mark_request_end_def llm_base.truncate_def)+

lemma with_backend_inv:
  assumes "factory_inv env f" and "\<And>b w. settings (fst (op (b, w))) = settings b"
  shows "factory_inv env (with_backend i op f)"
proof (cases "i < length (fa_objects f)")
  case True
  obtain b w where o: "op (fa_objects f ! i, fa_world f) = (b, w)" by fastforce
  with assms(2)[of "fa_objects f ! i" "fa_world f"] have "settings b = settings (fa_objects f ! i)" by simp
  then have same: "settings ((fa_objects f)[i := b] ! j) = settings (fa_objects f ! j)" for j
    using True by (cases "i = j") simp_all
  show ?thesis
    by (rule factory_invI)
       (simp_all add: with_backend_def watched_def True o settings_decide[OF same] factory_invD[OF assms(1)])
next
  case False
  with assms(1) show ?thesis by (simp add: with_backend_def)
qed

text \<open>The same slots, objects and supervisors: bookkeeping of the cache clock and the invalid mark.\<close>

lemma touch_entry_inv:
  assumes "factory_inv env f" and "map_of (fa_cache f) k = Some e" and "fe_snapshot e' = fe_snapshot e"
    and "fe_backend e' = fe_backend e" and "fe_supervisor e' = fe_supervisor e"
  shows "factory_inv env (f\<lparr>fa_cache := AList.update k e' (fa_cache f)\<rparr>)"
proof -
  have "slot (f\<lparr>fa_cache := AList.update k e' (fa_cache f)\<rparr>) = slot f"
    using assms(2-) by (auto simp: slot_def)
  then show ?thesis
    using assms(1) by (simp add: factory_inv_def watched_def distinct_update del: slot_update)
qed

lemma base_url_stripped: "rstrip (CHR ''/'') (base_url_for env kind) = base_url_for env kind"
  by (simp add: base_url_for_def vllm_base_url_def ollama_base_url_def normalize_vllm_def normalize_ollama_def Let_def
      split: option.split)

lemma build_backend_fits:
  "built_for env sn (default_build_backend (sn_server_type sn) (base_url_for env (sn_server_type sn)) (sn_parallelism sn)
     (if sn_server_type sn = ''vllm'' then real_of_int (sn_idle_ttl sn) else 0) clock)"
  by (simp add: built_for_def default_build_backend_def new_vllm_def new_llm_base_def llm_base.extend_def
      llm_base.truncate_def base_url_stripped)

text \<open>
  Rebuilding a slot: \<open>g\<close> is the factory with the previous object of the slot, if any, released.
\<close>

lemma install_inv:
  assumes inv: "factory_inv env f" and "fa_cache g = fa_cache f"
    and len: "length (fa_objects g) = length (fa_objects f)"
    and same: "\<And>j. settings (fa_objects g ! j) = settings (fa_objects f ! j)"
    and sup: "\<And>j. j \<in> set (fa_supervised g) \<longleftrightarrow> j \<in> set (fa_supervised f) \<and> (\<forall>sn s. slot f k \<noteq> Some (sn, j, s))"
    and built: "build_entry env sn clock g = (e, g')"
  shows "factory_inv env (g'\<lparr>fa_cache := AList.update k e (fa_cache g')\<rparr>)"
    and "built_for env sn (fa_objects g' ! fe_backend e)" and "fe_backend e < length (fa_objects g')"
proof -
  let ?n = "length (fa_objects f)" and ?v = "sn_server_type sn = ''vllm''"
  let ?h = "g'\<lparr>fa_cache := AList.update k e (fa_cache g')\<rparr>"
  note inv' = factory_invD[OF inv]
  obtain b where e: "fe_snapshot e = sn" "fe_backend e = ?n" "fe_supervisor e = ?v"
    and g': "fa_objects g' = fa_objects g @ [b]" "fa_cache g' = fa_cache f"
      "set (fa_supervised g') = set (fa_supervised g) \<union> {i. i = ?n \<and> ?v \<and> supervisor_enabled (supervisor_disabled env) b}"
    and b: "built_for env sn b"
    using built assms(2) by (auto simp: build_entry_def Let_def len build_backend_fits)
  have "slot g' = slot f" by (simp add: slot_def g' fun_eq_iff)
  then have slot: "slot ?h = (slot f)(k \<mapsto> (sn, ?n, ?v))" by (simp add: e)
  have old: "fa_objects g' ! i = fa_objects g ! i" if "i < ?n" for i
    using that by (simp add: g' len nth_append)
  have new: "fa_objects g' ! ?n = b" by (simp add: g' flip: len)
  note same' = settings_decide[OF same]
  show "built_for env sn (fa_objects g' ! fe_backend e)" "fe_backend e < length (fa_objects g')"
    using b new by (simp_all add: e g' len)
  show "factory_inv env ?h"
  proof (rule factory_invI)
    show "distinct (map fst (fa_cache ?h))" using inv'(1) by (simp add: g' distinct_update)
    fix k1 sn1 i s
    assume "slot ?h k1 = Some (sn1, i, s)"
    note i = this[unfolded slot]
    show "i < length (fa_objects ?h)" "s = (sn_server_type sn1 = ''vllm'')"
      using i inv'(2,4)[of k1 sn1 i s] by (auto simp: g' len split: if_splits)
    show "built_for env sn1 (fa_objects ?h ! i)"
      using i inv'(2,3)[of k1 sn1 i s] b by (auto simp: old new same' split: if_splits)
    show "k1 = k2" if "slot ?h k2 = Some (sn2, i, s2)" for k2 sn2 s2
      using i that[unfolded slot] inv'(2)[of k1 sn1 i s] inv'(2)[of k2 sn2 i s2] inv'(5)[of k1 sn1 i s k2 sn2 s2]
      by (auto split: if_splits)
  next
    fix i
    have "i \<in> set (fa_supervised ?h) \<longleftrightarrow>
        watched env f i \<and> (\<forall>sn s. slot f k \<noteq> Some (sn, i, s)) \<or> i = ?n \<and> supervisor_enabled (supervisor_disabled env) b"
      using b by (auto simp: g' sup inv'(6) built_for_def supervisor_enabled_def split: if_splits)
    also have "\<dots> \<longleftrightarrow> watched env ?h i"
    proof (cases "i = ?n")
      case True
      have "\<not> watched env f i" using True inv'(2) by (force simp: watched_def)
      moreover have "slot ?h k = Some (sn, i, ?v)" unfolding slot by (simp add: True)
      then have "\<exists>k1 sn1 s1. slot ?h k1 = Some (sn1, i, s1)" by blast
      then have "watched env ?h i \<longleftrightarrow> supervisor_enabled (supervisor_disabled env) b"
        using new True by (simp add: watched_def del: slot_update split_paired_Ex)
      ultimately show ?thesis using True by simp
    next
      case False
      have "watched env ?h i \<longleftrightarrow> (\<exists>k1 sn1 s1. k1 \<noteq> k \<and> slot f k1 = Some (sn1, i, s1)) \<and>
          supervisor_enabled (supervisor_disabled env) (fa_objects f ! i)"
        using False inv'(2) old same'(2) unfolding watched_def slot by (auto simp: fun_upd_def)
      moreover have "(\<exists>k1 sn1 s1. k1 \<noteq> k \<and> slot f k1 = Some (sn1, i, s1)) \<longleftrightarrow>
          (\<exists>k1 sn1 s1. slot f k1 = Some (sn1, i, s1)) \<and> (\<forall>sn s. slot f k \<noteq> Some (sn, i, s))"
        using inv'(5) by metis
      ultimately show ?thesis using False by (auto simp: watched_def)
    qed
    finally show "i \<in> set (fa_supervised ?h) \<longleftrightarrow> watched env ?h i" .
  qed
qed

section \<open>What each operation does\<close>

lemma teardown_frame:
  "fa_cache (teardown_entry env e f) = fa_cache f"
  "length (fa_objects (teardown_entry env e f)) = length (fa_objects f)"
  "settings (fa_objects (teardown_entry env e f) ! j) = settings (fa_objects f ! j)"
  "set (fa_supervised (teardown_entry env e f)) = set (fa_supervised f) - {i. i = fe_backend e \<and> fe_supervisor e}"
  "fa_listening (teardown_entry env e f) = fa_listening f"
  using shutdown_settings[of "fv_io env" "fa_objects f ! fe_backend e" "fa_world f"]
  by (cases "fe_backend e < length (fa_objects f)";
      auto simp: teardown_entry_def Let_def nth_list_update list_update_beyond split: prod.splits)+

lemma slot_of_entry: "map_of (fa_cache f) k = Some e \<Longrightarrow> slot f k = Some (fe_snapshot e, fe_backend e, fe_supervisor e)"
  by (simp add: slot_def)

lemma watched_supervised:
  assumes "factory_inv env f" and "slot f k = Some (sn, i, s)" and "i \<in> set (fa_supervised f)"
  shows "s"
  using factory_invD(3,4)[OF assms(1,2)] factory_invD(6)[OF assms(1), of i] assms(3)
  by (auto simp: watched_def built_for_def supervisor_enabled_def split: if_splits)

text \<open>The three ways \<open>llm_get_backend\<close> goes: the throttle, the confirmed snapshot, the (re)build.\<close>

lemma get_backend_cases:
  assumes "llm_get_backend env h q d f = (i, f')" and "factory_inv env f"
  obtains (throttled) e where "map_of (fa_cache f) (h, q) = Some e" "\<not> fe_invalid e"
      "io_now (fv_io env) (fa_world f) - fe_last_check e < fv_ttl env" "i = fe_backend e" "f' = f"
  | (confirmed) e where "map_of (fa_cache f) (h, q) = Some e"
      "fe_snapshot e = from_config (llm_config_for h q d)" "i = fe_backend e"
      "f' = f\<lparr>fa_cache := AList.update (h, q)
         (e\<lparr>fe_last_check := io_now (fv_io env) (fa_world f), fe_invalid := False\<rparr>) (fa_cache f)\<rparr>"
  | (rebuilt) "\<And>e. map_of (fa_cache f) (h, q) = Some e \<Longrightarrow> fe_snapshot e \<noteq> from_config (llm_config_for h q d)"
      "factory_inv env f'" "i = length (fa_objects f)" "i < length (fa_objects f')"
      "built_for env (from_config (llm_config_for h q d)) (fa_objects f' ! i)"
      "slot f' (h, q) = Some (from_config (llm_config_for h q d), i, lc_server_type (llm_config_for h q d) = ''vllm'')"
proof -
  let ?sn = "from_config (llm_config_for h q d)" and ?t = "io_now (fv_io env) (fa_world f)"
  have build: thesis
    if g: "fa_cache g = fa_cache f" "length (fa_objects g) = length (fa_objects f)"
        "\<And>j. settings (fa_objects g ! j) = settings (fa_objects f ! j)"
        "\<And>j. j \<in> set (fa_supervised g) \<longleftrightarrow> j \<in> set (fa_supervised f) \<and> (\<forall>sn s. slot f (h, q) \<noteq> Some (sn, j, s))"
      and r: "(i, f') = (case build_entry env ?sn ?t g of
          (e, g') \<Rightarrow> (fe_backend e, g'\<lparr>fa_cache := AList.update (h, q) e (fa_cache g')\<rparr>))"
      and differs: "\<And>e. map_of (fa_cache f) (h, q) = Some e \<Longrightarrow> fe_snapshot e \<noteq> ?sn" for g
  proof -
    obtain e g' where b: "build_entry env ?sn ?t g = (e, g')" by fastforce
    note inst = install_inv[OF assms(2) g b]
    have e: "fe_snapshot e = ?sn" "fe_backend e = length (fa_objects f)"
        "fe_supervisor e = (lc_server_type (llm_config_for h q d) = ''vllm'')"
      using b g(2) by (auto simp: build_entry_def Let_def from_config_def)
    show thesis by (rule rebuilt) (use differs inst r b e in auto)
  qed
  show thesis
  proof (cases "map_of (fa_cache f) (h, q)")
    case None
    then have "slot f (h, q) = None" by (simp add: slot_def)
    with None assms(1) show thesis by (intro build[of f]) (auto simp: llm_get_backend_def Let_def)
  next
    case (Some e)
    let ?fresh = "\<not> fe_invalid e \<and> ?t - fe_last_check e < fv_ttl env"
    consider ?fresh | "\<not> ?fresh" "fe_snapshot e = ?sn" | "\<not> ?fresh" "fe_snapshot e \<noteq> ?sn" by blast
    then show thesis
    proof cases
      case 1
      with Some assms(1) show thesis by (intro throttled[of e]) (auto simp: llm_get_backend_def Let_def)
    next
      case 2
      with Some assms(1) show thesis by (intro confirmed[of e]) (auto simp: llm_get_backend_def Let_def)
    next
      case 3
      have "j \<in> set (fa_supervised (teardown_entry env e f)) \<longleftrightarrow>
          j \<in> set (fa_supervised f) \<and> (\<forall>sn s. slot f (h, q) \<noteq> Some (sn, j, s))" for j
        using watched_supervised[OF assms(2) slot_of_entry[OF Some]] slot_of_entry[OF Some]
        by (auto simp: teardown_frame)
      with 3 Some assms(1) show thesis
        by (intro build[of "teardown_entry env e f"]) (auto simp: teardown_frame llm_get_backend_def Let_def)
    qed
  qed
qed

lemma get_backend_inv:
  assumes "factory_inv env f"
  shows "factory_inv env (snd (llm_get_backend env h q d f))"
proof -
  obtain i f' where g: "llm_get_backend env h q d f = (i, f')" by fastforce
  then have "factory_inv env f'"
    using assms
  proof (cases rule: get_backend_cases)
    case (confirmed e)
    with touch_entry_inv[OF assms confirmed(1)] show ?thesis by simp
  qed (use assms in simp_all)
  with g show ?thesis by simp
qed

lemma invalidate_inv: "factory_inv env f \<Longrightarrow> factory_inv env (invalidate h q f)"
  by (auto simp: invalidate_def split: option.split intro: touch_entry_inv)

lemma handle_notify_inv: "factory_inv env f \<Longrightarrow> factory_inv env (handle_notify p f)"
  by (auto simp: handle_notify_def invalidate_inv split: option.split prod.split)

lemma teardown_all_frame:
  "fa_cache (fold (teardown_entry env) es f) = fa_cache f"
  "set (fa_supervised (fold (teardown_entry env) es f)) =
     set (fa_supervised f) - fe_backend ` {e \<in> set es. fe_supervisor e}"
  "fa_listening (fold (teardown_entry env) es f) = fa_listening f"
  by (induction es arbitrary: f) (auto simp: teardown_frame)

lemma stop_factory_effect:
  assumes "factory_inv env f"
  shows "fa_cache (stop_factory env f) = []" and "fa_supervised (stop_factory env f) = []"
    and "\<not> fa_listening (stop_factory env f)"
proof -
  have "i \<in> fe_backend ` {e \<in> snd ` set (fa_cache f). fe_supervisor e}" if i: "i \<in> set (fa_supervised f)" for i
  proof -
    from i factory_invD(6)[OF assms] obtain k e where e: "map_of (fa_cache f) k = Some e" "fe_backend e = i"
      by (auto simp: watched_def slot_def)
    with watched_supervised[OF assms slot_of_entry[OF e(1)]] i have "fe_supervisor e" by simp
    moreover have "(k, e) \<in> set (fa_cache f)" using e(1) by (rule map_of_SomeD)
    ultimately show ?thesis using e(2) by force
  qed
  then have "set (fa_supervised (stop_factory env f)) = {}"
    by (auto simp: stop_factory_def teardown_all_frame)
  then show "fa_supervised (stop_factory env f) = []" by simp
  show "fa_cache (stop_factory env f) = []" "\<not> fa_listening (stop_factory env f)"
    by (simp_all add: stop_factory_def teardown_all_frame)
qed

lemma stop_factory_inv:
  assumes "factory_inv env f"
  shows "factory_inv env (stop_factory env f)"
  by (rule factory_invI) (simp_all add: slot_def watched_def stop_factory_effect[OF assms])

section \<open>Histories\<close>

text \<open>
  The request thread, the listener, the supervisors and teardown, in any order; the database may be a
  different one at every read and the world may change on its own.
\<close>

inductive factory_step :: "'w factory_env \<Rightarrow> 'w factory \<Rightarrow> 'w factory \<Rightarrow> bool" for env where
  get: "factory_step env f (snd (llm_get_backend env h q d f))"
| notify: "factory_step env f (handle_notify p f)"
| listen: "factory_step env f (start_listener env f)"
| stop: "factory_step env f (stop_factory env f)"
| request: "factory_step env f (with_backend i (\<lambda>(b, w). (request_start m (io_now (fv_io env) w) b, w)) f)"
| response: "factory_step env f (with_backend i (\<lambda>(b, w). (request_end (io_now (fv_io env) w) b, w)) f)"
| ready: "factory_step env f (with_backend i
     (\<lambda>s. case ensure_ready (fv_io env) m timeout s of None \<Rightarrow> s | Some (_, s') \<Rightarrow> s') f)"
| tick: "i \<in> set (fa_supervised f) \<Longrightarrow>
    factory_step env f (with_backend i (\<lambda>s. snd (llm_reap_idle_once (fv_io env) s)) f)"
| world: "factory_step env f (f\<lparr>fa_world := w\<rparr>)"

lemma factory_step_inv:
  assumes "factory_step env f g" and inv: "factory_inv env f"
  shows "factory_inv env g"
  using assms(1)
proof cases
  case (ready i m timeout)
  show ?thesis unfolding ready
    by (rule with_backend_inv[OF inv]) (auto split: option.split dest: ready_settings)
next
  case (listen)
  have "factory_inv env (f\<lparr>fa_listening := True\<rparr>)"
    using inv by (simp add: factory_inv_def watched_def)
  with inv listen show ?thesis by (simp add: start_listener_def)
next
  case (world w)
  with inv show ?thesis by (simp add: factory_inv_def watched_def)
qed (use inv in \<open>auto intro!: with_backend_inv get_backend_inv handle_notify_inv stop_factory_inv simp: reap_settings\<close>)

abbreviation factory_run :: "'w factory_env \<Rightarrow> 'w factory \<Rightarrow> 'w factory \<Rightarrow> bool" where
  "factory_run env \<equiv> (factory_step env)\<^sup>*\<^sup>*"

lemma factory_run_inv: "factory_run env f g \<Longrightarrow> factory_inv env f \<Longrightarrow> factory_inv env g"
  by (induction rule: rtranclp_induct) (auto intro: factory_step_inv)

lemma built_for_given:
  assumes "set_llm_config h q ty par ttl d = (Inr (), d')" and "built_for env (from_config (llm_config_for h q d')) b"
  shows "(\<forall>t. ty = Some t \<longrightarrow> server_type b = t) \<and> (\<forall>p. par = Some p \<longrightarrow> lb_parallelism (base_of b) = p) \<and>
    (\<forall>x. ty = Some ''vllm'' \<longrightarrow> ttl = Some x \<longrightarrow> lb_idle_ttl (base_of b) = real_of_int x)"
proof -
  have "llm_config_for h q d' = \<lparr>lc_server_type = given ty (lc_server_type (llm_config_for h q d)),
      lc_parallelism = given par (lc_parallelism (llm_config_for h q d)),
      lc_idle_ttl = given ttl (lc_idle_ttl (llm_config_for h q d))\<rparr>"
    using assms(1)
    by (auto simp: set_llm_config_def Let_def llm_config_for_def control_after_upsert default_control_def
        default_llm_config_def split: if_splits option.splits)
  moreover have "ty = Some t \<Longrightarrow> t = ''ollama'' \<or> t = ''vllm''" for t
    using assms(1) by (auto simp: set_llm_config_def valid_server_types_def split: if_splits)
  ultimately show ?thesis
    using assms(2) by (auto simp: built_for_def from_config_def given_def)
qed

lemma notify_invalidates:
  assumes "CHR ''|'' \<notin> set h" and "h \<noteq> []" and "q \<noteq> []"
  shows "handle_notify (Some (h @ ''|'' @ q)) f = invalidate h q f"
  using assms partition_at_found[of "CHR ''|''" h q] by (simp add: handle_notify_def)

lemma invalidated_entry:
  "map_of (fa_cache (invalidate h q f)) (h, q) = map_option (\<lambda>e. e\<lparr>fe_invalid := True\<rparr>) (map_of (fa_cache f) (h, q))"
  by (auto simp: invalidate_def update_conv' split: option.split)

section \<open>Properties\<close>


text \<open>
  Identity and freshness of \<^verbatim>\<open>get_backend\<close>: while the settings are those the cached handle was built for
  the caller gets the same object and no object, supervisor or sidecar is touched; otherwise it gets an
  object built for the current settings, unless the handle was checked less than the TTL ago and has not
  been invalidated, in which case nothing changes.
\<close>

theorem get_backend_identity_freshness:
  assumes "factory_run env (new_factory w) f" and "llm_get_backend env h q d f = (i, f')"
  shows "(\<forall>e. map_of (fa_cache f) (h, q) = Some e \<and> fe_snapshot e = from_config (llm_config_for h q d) \<longrightarrow>
      i = fe_backend e \<and> fa_objects f' = fa_objects f \<and> fa_supervised f' = fa_supervised f \<and> fa_world f' = fa_world f) \<and>
    (built_for env (from_config (llm_config_for h q d)) (fa_objects f' ! i) \<or>
     f' = f \<and> (\<exists>e. map_of (fa_cache f) (h, q) = Some e \<and> i = fe_backend e \<and> \<not> fe_invalid e \<and>
        io_now (fv_io env) (fa_world f) - fe_last_check e < fv_ttl env))"
proof -
  have inv: "factory_inv env f" by (rule factory_run_inv[OF assms(1) new_factory_inv])
  from assms(2) inv show ?thesis
  proof (cases rule: get_backend_cases)
    case (confirmed e)
    with factory_invD(3)[OF inv slot_of_entry[OF confirmed(1)]] show ?thesis by simp
  qed auto
qed

text \<open>
  C18. An operator's change reaches the next request: once \<^verbatim>\<open>set_llm_config\<close> has committed and its
  notification \<^verbatim>\<open>host|queue\<close> has been handled, \<^verbatim>\<open>get_backend\<close> hands out a backend of the type, with the
  parallelism and the idle TTL that were set, whatever the TTL of the cache.
\<close>

theorem llm_config_change_observed:
  assumes "factory_run env (new_factory w) f" and "set_llm_config h q ty par ttl d = (Inr (), d')"
    and "CHR ''|'' \<notin> set h" and "h \<noteq> []" and "q \<noteq> []"
    and "llm_get_backend env h q d' (handle_notify (Some (h @ ''|'' @ q)) f) = (i, f')"
  shows "built_for env (from_config (llm_config_for h q d')) (fa_objects f' ! i) \<and>
    (\<forall>t. ty = Some t \<longrightarrow> server_type (fa_objects f' ! i) = t) \<and>
    (\<forall>p. par = Some p \<longrightarrow> lb_parallelism (base_of (fa_objects f' ! i)) = p) \<and>
    (\<forall>x. ty = Some ''vllm'' \<longrightarrow> ttl = Some x \<longrightarrow> lb_idle_ttl (base_of (fa_objects f' ! i)) = real_of_int x)"
proof -
  have "factory_inv env f" by (rule factory_run_inv[OF assms(1) new_factory_inv])
  then have inv: "factory_inv env (invalidate h q f)" by (rule invalidate_inv)
  from assms(6) have "llm_get_backend env h q d' (invalidate h q f) = (i, f')"
    by (simp add: notify_invalidates[OF assms(3-5), simplified])
  then have "built_for env (from_config (llm_config_for h q d')) (fa_objects f' ! i)"
    using inv
  proof (cases rule: get_backend_cases)
    case (throttled e)
    then show ?thesis by (auto simp: invalidated_entry)
  next
    case (confirmed e)
    with factory_invD(3)[OF inv slot_of_entry[OF confirmed(1)]] show ?thesis by simp
  qed auto
  with built_for_given[OF assms(2)] show ?thesis by blast
qed

text \<open>
  The two spellings of the vLLM URL that operators use, with or without \<^verbatim>\<open>/v1\<close> and any trailing slashes,
  give the same chat endpoint.
\<close>

lemma vllm_chat_endpoint:
  assumes "r \<noteq> []" and "last r \<noteq> CHR ''/''" and "\<not> suffix ''/v1'' r"
    and "fv_vllm_url env = Some (r @ (if v1 then ''/v1'' else []) @ replicate n (CHR ''/''))"
  shows "chat_url (default_build_backend ''vllm'' (base_url_for env ''vllm'') p t c) = r @ ''/v1/chat/completions''"
proof -
  have "rstrip (CHR ''/'') (r @ (if v1 then ''/v1'' else [])) = r @ (if v1 then ''/v1'' else [])"
    using assms(1,2) by (intro rstrip_id) (auto simp: last_append)
  then have "rstrip (CHR ''/'') (r @ (if v1 then ''/v1'' else []) @ replicate n (CHR ''/'')) =
      r @ (if v1 then ''/v1'' else [])"
    using rstrip_append_replicate[of "CHR ''/''" "r @ (if v1 then ''/v1'' else [])" n] by simp
  moreover have "rstrip (CHR ''/'') r = r" using assms(2) by (intro rstrip_id) simp
  ultimately have "base_url_for env ''vllm'' = r"
    using assms(3,4) by (auto simp: base_url_for_def vllm_base_url_def normalize_vllm_def Let_def suffix_def)
  with \<open>rstrip (CHR ''/'') r = r\<close> show ?thesis
    by (simp add: default_build_backend_def vllm_chat_url_def new_vllm_def new_llm_base_def llm_base.extend_def)
qed

section \<open>Concrete instances\<close>

definition demo_factory_env :: "demo_sidecar factory_env" where
  "demo_factory_env = \<lparr>fv_io = demo_io, fv_ttl = 10, fv_ollama_url = None, fv_vllm_url = Some ''http://h:8000/v1/'',
     fv_ollama_env = ''AI_LEADS_OLLAMA_URL'', fv_vllm_env = ''AI_LEADS_VLLM_URL'', fv_environ = (\<lambda>_. None)\<rparr>"

abbreviation demo_first :: "nat \<times> demo_sidecar factory" where
  "demo_first \<equiv> llm_get_backend demo_factory_env ''h1'' ''gpu'' empty_db (new_factory (demo_at 0 None))"

lemma demo_factory_run: "factory_run demo_factory_env (new_factory (demo_at 0 None)) (snd demo_first)"
  using factory_step.get[of demo_factory_env "new_factory (demo_at 0 None)" "''h1''" "''gpu''" empty_db] by simp

lemma demo_default_config: "llm_config_for ''h1'' ''gpu'' empty_db = default_llm_config"
  by code_simp

lemmas demo_factory_eval = llm_get_backend_def build_entry_def new_factory_def demo_default_config default_llm_config_def
  from_config_def Let_def


theorem get_backend_identity_freshness_witness:
  "fst (llm_get_backend demo_factory_env ''h1'' ''gpu'' empty_db (snd demo_first)) = 0 \<and>
   fa_objects (snd (llm_get_backend demo_factory_env ''h1'' ''gpu'' empty_db (snd demo_first))) = fa_objects (snd demo_first)"
proof -
  obtain i f' where g: "llm_get_backend demo_factory_env ''h1'' ''gpu'' empty_db (snd demo_first) = (i, f')" by fastforce
  have "map_of (fa_cache (snd demo_first)) (''h1'', ''gpu'') =
      Some \<lparr>fe_snapshot = from_config default_llm_config, fe_backend = 0, fe_supervisor = False,
        fe_last_check = 0, fe_invalid = False\<rparr>"
    by (simp add: demo_factory_eval demo_factory_env_def demo_io_def)
  with get_backend_identity_freshness[OF demo_factory_run g] show ?thesis
    by (simp add: g demo_default_config)
qed

theorem llm_config_change_observed_witness:
  "let d' = snd (set_llm_config ''h1'' ''gpu'' (Some ''vllm'') (Some 4) (Some 90) empty_db);
       r = llm_get_backend demo_factory_env ''h1'' ''gpu'' d' (handle_notify (Some ''h1|gpu'') (snd demo_first))
   in server_type (fa_objects (snd r) ! fst r) = ''vllm'' \<and>
      lb_parallelism (base_of (fa_objects (snd r) ! fst r)) = 4 \<and>
      lb_idle_ttl (base_of (fa_objects (snd r) ! fst r)) = 90"
proof -
  let ?d = "snd (set_llm_config ''h1'' ''gpu'' (Some ''vllm'') (Some 4) (Some 90) empty_db)"
  obtain i f' where g: "llm_get_backend demo_factory_env ''h1'' ''gpu'' ?d
      (handle_notify (Some (''h1'' @ ''|'' @ ''gpu'')) (snd demo_first)) = (i, f')" by fastforce
  have "set_llm_config ''h1'' ''gpu'' (Some ''vllm'') (Some 4) (Some 90) empty_db = (Inr (), ?d)"
    by (simp add: set_llm_config_def valid_server_types_def Let_def)
  from llm_config_change_observed[OF demo_factory_run this _ _ _ g] g show ?thesis by (simp add: Let_def)
qed

end
