(* ===== verification/Web_Text.thy ===== *)
theory Web_Text
  imports Prelude
begin

text \<open>
  The standard-library text functions the conductor's web page relies on: \<^verbatim>\<open>html.escape\<close>,
  \<^verbatim>\<open>urllib.parse.quote\<close>, \<^verbatim>\<open>unquote\<close>, \<^verbatim>\<open>urlparse\<close> and \<^verbatim>\<open>parse_qs\<close>, and the number formats
  \<^verbatim>\<open>.0f\<close>, \<^verbatim>\<open>.1f\<close>, \<^verbatim>\<open>.2f\<close> and \<^verbatim>\<open>%02x\<close>. A string is the list of its UTF-8 bytes, so quoting works on
  it directly and the decoding step of \<^verbatim>\<open>unquote\<close> is the identity. The laws are the round trips of
  the two encodings and that neither lets a delimiter through.
\<close>

section \<open>HTML\<close>

text \<open>\<^verbatim>\<open>str.replace\<close> of one character, and the five replacements of \<^verbatim>\<open>html.escape\<close> in their order.\<close>

definition replace_char :: "char \<Rightarrow> string \<Rightarrow> string \<Rightarrow> string" where
  "replace_char c r s = concat (map (\<lambda>x. if x = c then r else [x]) s)"

definition dquote :: char where
  "dquote = CHR 0x22"

definition squote :: char where
  "squote = CHR 0x27"

definition html_escape :: "string \<Rightarrow> string" where
  "html_escape s = replace_char squote ''&#x27;'' (replace_char dquote ''&quot;''
     (replace_char CHR ''>'' ''&gt;'' (replace_char CHR ''<'' ''&lt;'' (replace_char CHR ''&'' ''&amp;'' s))))"

definition escape_char :: "char \<Rightarrow> string" where
  "escape_char c =
     (if c = CHR ''&'' then ''&amp;'' else if c = CHR ''<'' then ''&lt;'' else if c = CHR ''>'' then ''&gt;''
      else if c = dquote then ''&quot;'' else if c = squote then ''&#x27;'' else [c])"

lemma replace_char_Nil [simp]: "replace_char c r [] = []"
  by (simp add: replace_char_def)

lemma replace_char_Cons [simp]: "replace_char c r (x # s) = (if x = c then r else [x]) @ replace_char c r s"
  by (simp add: replace_char_def)

lemma replace_char_append [simp]: "replace_char c r (s @ t) = replace_char c r s @ replace_char c r t"
  by (simp add: replace_char_def)

lemma html_escape_chars: "html_escape s = concat (map escape_char s)"
  by (induction s) (simp_all add: html_escape_def escape_char_def dquote_def squote_def)

lemma html_escape_simps [simp]:
  "html_escape [] = []" "html_escape (c # s) = escape_char c @ html_escape s"
  "html_escape (s @ t) = html_escape s @ html_escape t"
  by (simp_all add: html_escape_chars)

text \<open>
  What a browser reads out of an escaped value: the five entities stand for their characters. The
  longest entity has six characters.
\<close>

definition entities :: "(string \<times> char) list" where
  "entities = [(''&amp;'', CHR ''&''), (''&lt;'', CHR ''<''), (''&gt;'', CHR ''>''), (''&quot;'', dquote),
     (''&#x27;'', squote)]"

definition entity_at :: "string \<Rightarrow> (string \<times> char) option" where
  "entity_at s = find (\<lambda>e. starts_with s (fst e)) entities"

lemma entity_at_pos: "entity_at s = Some (e, c) \<Longrightarrow> 0 < length e"
  unfolding entity_at_def entities_def by (auto split: if_splits)

function html_unescape :: "string \<Rightarrow> string" where
  "html_unescape [] = []"
| "html_unescape (x # s) =
     (case entity_at (x # s) of
        Some (e, c) \<Rightarrow> c # html_unescape (drop (length e) (x # s))
      | None \<Rightarrow> x # html_unescape s)"
  by pat_completeness auto
termination
  by (relation "measure length") (auto dest!: entity_at_pos)

lemma html_unescape_escape_char: "html_unescape (escape_char c @ t) = c # html_unescape t"
  by (simp add: escape_char_def entity_at_def entities_def starts_with_def dquote_def squote_def)

theorem html_unescape_escape [simp]: "html_unescape (html_escape s) = s"
  by (induction s) (simp_all add: html_unescape_escape_char)

text \<open>
  The characters that delimit tags and attribute values. The markup of a text is what is left when
  everything else is dropped: two texts with the same markup have their tags and attributes
  at corresponding places.
\<close>

definition is_markup :: "char \<Rightarrow> bool" where
  "is_markup c \<longleftrightarrow> c = CHR ''<'' \<or> c = CHR ''>'' \<or> c = dquote \<or> c = squote"

definition markup :: "string \<Rightarrow> string" where
  "markup s = filter is_markup s"

lemma markup_Nil [simp]: "markup [] = []"
  by (simp add: markup_def)

lemma markup_append [simp]: "markup (s @ t) = markup s @ markup t"
  by (simp add: markup_def)

lemma markup_concat [simp]: "markup (concat ss) = concat (map markup ss)"
  by (induction ss) (simp_all add: markup_def)

lemma markup_html_escape [simp]: "markup (html_escape s) = []"
proof -
  have "markup (escape_char c) = []" for c
    by (simp add: escape_char_def markup_def is_markup_def dquote_def squote_def)
  then show ?thesis by (simp add: html_escape_chars concat_eq_Nil_conv)
qed

section \<open>Percent encoding\<close>

definition hex_digit :: "nat \<Rightarrow> char" where
  "hex_digit n = (if n < 10 then char_of (48 + n) else char_of (55 + n))"

definition hex_val :: "char \<Rightarrow> nat option" where
  "hex_val c =
     (let n = of_char c in
      if 48 \<le> n \<and> n \<le> 57 then Some (n - 48) else if 65 \<le> n \<and> n \<le> 70 then Some (n - 55)
      else if 97 \<le> n \<and> n \<le> 102 then Some (n - 87) else None)"

text \<open>\<^verbatim>\<open>quote\<close> keeps letters, digits, \<^verbatim>\<open>_.-~\<close> and the safe slash.\<close>

definition unreserved :: "char \<Rightarrow> bool" where
  "unreserved c \<longleftrightarrow>
     (let n = of_char c :: nat in 65 \<le> n \<and> n \<le> 90 \<or> 97 \<le> n \<and> n \<le> 122 \<or> 48 \<le> n \<and> n \<le> 57 \<or>
        n \<in> {95, 46, 45, 126, 47})"

definition quote_char :: "char \<Rightarrow> string" where
  "quote_char c =
     (if unreserved c then [c]
      else let n = of_char c in [CHR ''%'', hex_digit (n div 16), hex_digit (n mod 16)])"

definition quote :: "string \<Rightarrow> string" where
  "quote s = concat (map quote_char s)"

fun unquote :: "string \<Rightarrow> string" where
  "unquote [] = []"
| "unquote [x] = [x]"
| "unquote [x, y] = x # unquote [y]"
| "unquote (x # y # z # s) =
     (if x = CHR ''%'' then
        (case (hex_val y, hex_val z) of
           (Some a, Some b) \<Rightarrow> char_of (16 * a + b) # unquote s
         | _ \<Rightarrow> x # unquote (y # z # s))
      else x # unquote (y # z # s))"

text \<open>\<^verbatim>\<open>parse_qs\<close> reads a plus sign as a blank.\<close>

definition unquote_plus :: "string \<Rightarrow> string" where
  "unquote_plus s = unquote (map (\<lambda>c. if c = CHR ''+'' then CHR '' '' else c) s)"

lemma hex_val_digit: "n < 16 \<Longrightarrow> hex_val (hex_digit n) = Some n"
  by (auto simp: hex_digit_def hex_val_def Let_def)

lemma unquote_Cons: "c \<noteq> CHR ''%'' \<Longrightarrow> unquote (c # s) = c # unquote s"
  by (cases s rule: unquote.cases) simp_all

lemma unreserved_not:
  assumes "unreserved c"
  shows "c \<noteq> CHR ''%''" "c \<noteq> CHR ''+''" "c \<noteq> CHR ''&''" "c \<noteq> CHR ''=''" "c \<noteq> CHR ''#''" "c \<noteq> CHR ''?''"
    "\<not> is_markup c"
  using assms by (auto simp: unreserved_def is_markup_def dquote_def squote_def)

lemma nibble_less: "of_char c div 16 < (16 :: nat)" "of_char c mod 16 < (16 :: nat)"
  using nat_of_char_less_256[of c] by (simp_all add: less_mult_imp_div_less)

lemma unquote_quote_char: "unquote (quote_char c @ t) = c # unquote t"
proof (cases "unreserved c")
  case True
  then show ?thesis by (simp add: quote_char_def unquote_Cons unreserved_not)
next
  case False
  have "hex_val (hex_digit (of_char c div 16)) = Some (of_char c div 16)"
    and "hex_val (hex_digit (of_char c mod 16)) = Some (of_char c mod 16)"
    using nibble_less[of c] by (auto intro!: hex_val_digit)
  with False show ?thesis by (simp add: quote_char_def Let_def)
qed

theorem unquote_quote [simp]: "unquote (quote s) = s"
  by (induction s) (simp_all add: quote_def unquote_quote_char)

lemma quote_char_chars: "x \<in> set (quote_char c) \<Longrightarrow> x = CHR ''%'' \<or> unreserved x"
proof -
  assume "x \<in> set (quote_char c)"
  moreover have "unreserved (hex_digit n)" if "n < 16" for n
    using that by (auto simp: hex_digit_def unreserved_def)
  ultimately show ?thesis using nibble_less[of c] by (auto simp: quote_char_def Let_def split: if_splits)
qed

lemma quote_delimiters: "x \<in> set (quote s) \<Longrightarrow> x \<notin> {CHR ''&'', CHR ''='', CHR ''#'', CHR ''?'', CHR ''+''} \<and> \<not> is_markup x"
proof -
  assume "x \<in> set (quote s)"
  then have "x = CHR ''%'' \<or> unreserved x" by (auto simp: quote_def dest: quote_char_chars)
  then show ?thesis
    by (auto dest: unreserved_not simp: is_markup_def dquote_def squote_def)
qed

lemma unquote_plus_quote [simp]: "unquote_plus (quote s) = s"
proof -
  have "map (\<lambda>c. if c = CHR ''+'' then CHR '' '' else c) (quote s) = quote s"
    by (rule map_idI) (use quote_delimiters in auto)
  then show ?thesis by (simp add: unquote_plus_def)
qed

section \<open>URLs\<close>

text \<open>
  \<^verbatim>\<open>urlparse\<close>: leading blanks and control characters and every tab or line break are dropped, then
  the scheme, the network location, the fragment, the query and the parameters of the last path
  segment are cut off in that order. The checks of a network location (brackets, address
  literals, normal form) are an argument: a location they refuse raises \<^verbatim>\<open>ValueError\<close>.
\<close>

record url_parts =
  up_scheme :: string
  up_netloc :: string
  up_path :: string
  up_query :: string

definition clean_url :: "string \<Rightarrow> string" where
  "clean_url s = filter (\<lambda>c. (of_char c :: nat) \<notin> {9, 10, 13}) (dropWhile (\<lambda>c. (of_char c :: nat) \<le> 32) s)"

definition is_alpha :: "char \<Rightarrow> bool" where
  "is_alpha c \<longleftrightarrow> (let n = of_char c :: nat in 65 \<le> n \<and> n \<le> 90 \<or> 97 \<le> n \<and> n \<le> 122)"

definition scheme_char :: "char \<Rightarrow> bool" where
  "scheme_char c \<longleftrightarrow> is_alpha c \<or> is_digit c \<or> c \<in> set ''+-.''"

definition split_scheme :: "string \<Rightarrow> string \<times> string" where
  "split_scheme u =
     (let s = takeWhile (\<lambda>c. c \<noteq> CHR '':'') u
      in if CHR '':'' \<in> set u \<and> s \<noteq> [] \<and> is_alpha (hd u) \<and> list_all scheme_char s
         then (map to_lower s, drop (length s + 1) u) else ([], u))"

definition split_netloc :: "string \<Rightarrow> string \<times> string" where
  "split_netloc u =
     (if starts_with u ''//''
      then let in_loc = (\<lambda>c. c \<notin> set ''/?#'') in (takeWhile in_loc (drop 2 u), dropWhile in_loc (drop 2 u))
      else ([], u))"

definition uses_params :: "string list" where
  "uses_params = [[], ''ftp'', ''hdl'', ''prospero'', ''http'', ''imap'', ''https'', ''shttp'', ''rtsp'', ''rtsps'',
     ''sip'', ''sips'', ''mms'', ''sftp'', ''tel'']"

definition drop_params :: "string \<Rightarrow> string" where
  "drop_params p =
     (let seg = rev (takeWhile (\<lambda>c. c \<noteq> CHR ''/'') (rev p))
      in take (length p - length seg) p @ takeWhile (\<lambda>c. c \<noteq> CHR '';'') seg)"

definition urlparse :: "(string \<Rightarrow> bool) \<Rightarrow> string \<Rightarrow> url_parts result" where
  "urlparse netloc_ok s =
     (case split_scheme (clean_url s) of
        (scheme, u) \<Rightarrow>
          (case split_netloc u of
             (netloc, v) \<Rightarrow>
               (let w = fst (partition_at CHR ''#'' v); (path, query) = partition_at CHR ''?'' w
                in if \<not> netloc_ok netloc then Inl (ValueError ''netloc'')
                   else Inr \<lparr>up_scheme = scheme, up_netloc = netloc,
                             up_path = (if scheme \<in> set uses_params then drop_params path else path),
                             up_query = query\<rparr>)))"

text \<open>\<^verbatim>\<open>parse_qs\<close> with \<^verbatim>\<open>keep_blank_values\<close>.\<close>

definition parse_qs :: "string \<Rightarrow> (string \<times> string) list" where
  "parse_qs q = map (\<lambda>nv. map_prod unquote_plus unquote_plus (partition_at CHR ''='' nv))
     (filter (\<lambda>nv. nv \<noteq> []) (split_on CHR ''&'' q))"

definition q_first :: "(string \<times> string) list \<Rightarrow> string \<Rightarrow> string \<Rightarrow> string" where
  "q_first q k dflt = (case map_of q k of Some v \<Rightarrow> v | None \<Rightarrow> dflt)"

lemma takeWhile_all: "(\<And>x. x \<in> set s \<Longrightarrow> P x) \<Longrightarrow> takeWhile P s = s"
  by (simp add: takeWhile_eq_all_conv)

text \<open>An address inside the site, as the links of the page have them, is taken apart where it was put together.\<close>

lemma drop_params_root [simp]: "drop_params ''/'' = ''/''"
  by (simp add: drop_params_def)

lemma urlparse_local:
  assumes "netloc_ok []" and "set q \<inter> {CHR ''#'', CHR 0x09, CHR 0x0A, CHR 0x0D} = {}"
  shows "urlparse netloc_ok (''/?'' @ q) = Inr \<lparr>up_scheme = [], up_netloc = [], up_path = ''/'', up_query = q\<rparr>"
proof -
  have "(of_char c :: nat) \<notin> {9, 10, 13}" if "c \<in> set q" for c
  proof -
    have "c \<noteq> CHR 0x09" "c \<noteq> CHR 0x0A" "c \<noteq> CHR 0x0D" using assms(2) that by auto
    then show ?thesis by (simp flip: of_char_eq_iff[where 'a = nat])
  qed
  then have "filter (\<lambda>c. (of_char c :: nat) \<notin> {9, 10, 13}) q = q" by (simp add: filter_id_conv)
  then have "clean_url (''/?'' @ q) = ''/?'' @ q" by (simp add: clean_url_def)
  moreover have "split_scheme (''/?'' @ q) = ([], ''/?'' @ q)"
    by (simp add: split_scheme_def is_alpha_def Let_def)
  moreover have "split_netloc (''/?'' @ q) = ([], ''/?'' @ q)"
    by (simp add: split_netloc_def starts_with_def)
  moreover have "fst (partition_at CHR ''#'' (''/?'' @ q)) = ''/?'' @ q"
  proof -
    have "takeWhile (\<lambda>x. x \<noteq> CHR ''#'') q = q" using assms(2) by (intro takeWhile_all) auto
    then show ?thesis by (simp add: partition_at_def)
  qed
  moreover have "partition_at CHR ''?'' (''/?'' @ q) = (''/'', q)" by (simp add: partition_at_def)
  ultimately show ?thesis using assms(1) by (simp add: urlparse_def uses_params_def)
qed

section \<open>Number formats\<close>

text \<open>Python's \<^verbatim>\<open>round\<close>: to the nearest integer, halves to the even one.\<close>

definition round_half_even :: "rat \<Rightarrow> int" where
  "round_half_even x =
     (let f = \<lfloor>x\<rfloor>; d = x - of_int f
      in if d < 1 / 2 then f else if 1 / 2 < d then f + 1 else if even f then f else f + 1)"

definition pad_zero :: "nat \<Rightarrow> string \<Rightarrow> string" where
  "pad_zero k s = replicate (k - length s) CHR ''0'' @ s"

text \<open>The format \<^verbatim>\<open>.kf\<close>.\<close>

definition fmt_fixed :: "nat \<Rightarrow> rat \<Rightarrow> string" where
  "fmt_fixed k x =
     (let n = nat (round_half_even (\<bar>x\<bar> * 10 ^ k))
      in (if x < 0 then ''-'' else []) @ show_nat (n div 10 ^ k) @
         (if k = 0 then [] else ''.'' @ pad_zero k (show_nat (n mod 10 ^ k))))"

definition hex_low :: "nat \<Rightarrow> char" where
  "hex_low n = (if n < 10 then char_of (48 + n) else char_of (87 + n))"

text \<open>The format \<^verbatim>\<open>%02x\<close> of a byte.\<close>

definition fmt_hex2 :: "nat \<Rightarrow> string" where
  "fmt_hex2 n = [hex_low (n div 16), hex_low (n mod 16)]"

lemma round_half_even_bounds: "of_int (round_half_even x) \<le> x + 1 / 2 \<and> x - 1 / 2 \<le> of_int (round_half_even x)"
proof -
  have "of_int \<lfloor>x\<rfloor> \<le> x" "x < of_int \<lfloor>x\<rfloor> + 1" by linarith+
  then show ?thesis by (simp add: round_half_even_def Let_def; linarith)
qed

lemma round_half_even_of_int [simp]: "round_half_even (of_int i) = i"
  by (simp add: round_half_even_def Let_def)

lemma round_half_even_numeral [simp]: "round_half_even (numeral n) = numeral n"
  using round_half_even_of_int[of "numeral n"] by simp

lemma round_half_even_mono:
  assumes "x \<le> y" shows "round_half_even x \<le> round_half_even y"
proof (rule ccontr)
  assume "\<not> ?thesis"
  then have less: "round_half_even y + 1 \<le> round_half_even x" by simp
  then have "(of_int (round_half_even y) :: rat) + 1 \<le> of_int (round_half_even x)"
    by (metis of_int_1 of_int_add of_int_le_iff)
  with round_half_even_bounds[of x] round_half_even_bounds[of y] assms have "x = y" by linarith
  with less show False by simp
qed

lemma show_nat_digits: "c \<in> set (show_nat n) \<Longrightarrow> is_digit c"
proof (induction n rule: show_nat.induct)
  case (1 n)
  then show ?case
    by (subst (asm) show_nat.simps) (auto simp: is_digit_def split: if_splits)
qed

lemma is_markup_code: "is_markup c \<longleftrightarrow> (of_char c :: nat) \<in> {60, 62, 34, 39}"
  by (simp add: is_markup_def dquote_def squote_def flip: of_char_eq_iff[where 'a = nat])

lemma markup_free: "(\<And>c. c \<in> set s \<Longrightarrow> \<not> is_markup c) \<Longrightarrow> markup s = []"
  by (simp add: markup_def filter_empty_conv)

lemma markup_show_nat [simp]: "markup (show_nat n) = []"
  by (rule markup_free) (auto dest!: show_nat_digits simp: is_digit_def is_markup_def dquote_def squote_def)

lemma markup_show_int [simp]: "markup (show_int i) = []"
  using markup_show_nat[of "nat (- i)"] markup_show_nat[of "nat i"]
  by (simp add: show_int_def markup_def is_markup_def dquote_def squote_def)

lemma markup_fmt_fixed [simp]: "markup (fmt_fixed k x) = []"
proof -
  have "markup (pad_zero k s) = markup s" for k s
    by (simp add: pad_zero_def markup_def is_markup_def dquote_def squote_def)
  then have "markup (''.'' @ pad_zero k (show_nat n)) = []" for n
    using markup_show_nat[of n] by (simp add: markup_def is_markup_def dquote_def squote_def)
  moreover have "markup ''-'' = []" by (simp add: markup_def is_markup_def dquote_def squote_def)
  ultimately show ?thesis by (simp add: fmt_fixed_def Let_def del: append.simps)
qed

lemma markup_quote [simp]: "markup (quote s) = []"
  by (rule markup_free) (use quote_delimiters in blast)

lemma markup_fmt_hex2 [simp]: "n < 256 \<Longrightarrow> markup (fmt_hex2 n) = []"
proof -
  assume "n < 256"
  then have "n div 16 < 16" "n mod 16 < 16" by (simp_all add: less_mult_imp_div_less)
  moreover have "\<not> is_markup (hex_low k)" if "k < 16" for k
    using that by (simp add: hex_low_def is_markup_code)
  ultimately show ?thesis by (simp add: fmt_hex2_def markup_def)
qed

end
