(* ===== verification/Html_View.thy ===== *)
theory Html_View
  imports Run_Store Web_Text
begin

text \<open>
  The pages of the conductor, \<^verbatim>\<open>conductor/queue_workflows_conductor/web.py\<close>: every render function
  as a function from the read models of the queue to the text of the page. The style sheet and
  Python's \<^verbatim>\<open>str\<close> of timestamps, numbers, dictionaries, exceptions and row ids are arguments; the
  line breaks and indentation between the elements of a template are left out. The laws say that stored values never contribute markup, what the numbers on the page count, and the
  bounds of the dot charts.
\<close>

section \<open>Arguments and characters\<close>

record web_rt =
  wr_css :: string
  wr_time :: "int \<Rightarrow> string"
  wr_num :: "int \<Rightarrow> string"
  wr_dict :: "jdict \<Rightarrow> string"
  wr_exc :: "py_error \<Rightarrow> string"
  wr_id :: "nat \<Rightarrow> string"
  wr_id_of :: "string \<Rightarrow> nat result"
  wr_netloc_ok :: "string \<Rightarrow> bool"
  wr_utf8_ok :: "string \<Rightarrow> bool"

definition middle_dot :: string where
  "middle_dot = [CHR 0xC2, CHR 0xB7]"

definition times_sign :: string where
  "times_sign = [CHR 0xC3, CHR 0x97]"

definition left_arrow :: string where
  "left_arrow = [CHR 0xE2, CHR 0x86, CHR 0x90]"

definition apostrophe :: string where
  "apostrophe = [CHR 0xE2, CHR 0x80, CHR 0x99]"

definition refresh_s :: nat where
  "refresh_s = 5"

definition esc :: "string option \<Rightarrow> string" where
  "esc v = html_escape (case v of None \<Rightarrow> [] | Some s \<Rightarrow> s)"

text \<open>Python's \<^verbatim>\<open>v or dash\<close> on an optional string.\<close>

definition or_dash :: "string option \<Rightarrow> string" where
  "or_dash v = (case v of None \<Rightarrow> em_dash | Some s \<Rightarrow> if s = [] then em_dash else s)"

definition proj_label :: "string \<Rightarrow> string" where
  "proj_label p = (if p = [] then ''(default)'' else p)"

section \<open>Filters and queue cards\<close>

definition project_link :: "string option \<Rightarrow> string \<Rightarrow> string" where
  \<open>project_link active p = concat [''<a class="'', if active = Some p then ''f active'' else ''f'',
     ''" href="'', esc (Some (''/?project='' @ quote p)), ''">'', esc (Some (proj_label p)), ''</a>'']\<close>

definition project_filter_bar :: "string option \<Rightarrow> string list \<Rightarrow> string" where
  \<open>project_filter_bar active projects = concat [''<div class="filters">'',
     ''<a class="'', if active = None then ''f active'' else ''f'', ''" href="/">All projects</a>'',
     concat (map (project_link active) projects), ''</div>'']\<close>

text \<open>The \<^verbatim>\<open>counts\<close> dictionary of a snapshot, keyed by queue and status joined with an underscore.\<close>

definition counts_of :: "queue_snapshot \<Rightarrow> (string \<times> nat) list" where
  "counts_of snap = map (\<lambda>((q, st), n). (q @ ''_'' @ status_text st, n)) (qs_counts snap)"

definition stat_cell :: "string \<Rightarrow> nat \<Rightarrow> string" where
  \<open>stat_cell s n = concat [''<div class="stat '', s, ''"><b>'', show_nat n, ''</b><span>'', s, ''</span></div>'']\<close>

definition card_stats :: "string list" where
  "card_stats = [''queued'', ''running'', ''completed'', ''failed'', ''cancelled'']"

definition queue_card :: "string \<Rightarrow> (string \<times> nat) list \<Rightarrow> string" where
  \<open>queue_card name counts = concat [''<div class="card"><h3>'', esc (Some name),
     '' <em>shared queue</em></h3><div class="stats">'',
     concat (map (\<lambda>s. stat_cell s (case map_of counts (name @ ''_'' @ s) of Some n \<Rightarrow> n | None \<Rightarrow> 0)) card_stats),
     ''</div></div>'']\<close>

definition dag_queue :: "string \<Rightarrow> bool" where
  "dag_queue q \<longleftrightarrow> q = ''cpu'' \<or> q = ''gpu''"

definition shown_ingest :: "(string \<times> ingest_depth) list \<Rightarrow> (string \<times> ingest_depth) list" where
  "shown_ingest ing = sort_key fst (filter (\<lambda>(q, _). \<not> dag_queue q) ing)"

definition ingest_card :: "string \<times> ingest_depth \<Rightarrow> string" where
  \<open>ingest_card c = (case c of (q, st) \<Rightarrow> concat [''<div class="card"><h3>'', esc (Some q),
     '' <em>ingest</em></h3><div class="stats">'', stat_cell ''queued'' (id_queued st),
     stat_cell ''running'' (id_running st), stat_cell ''completed'' (id_completed st),
     stat_cell ''failed'' (id_failed st), stat_cell ''workers'' (id_workers st), ''</div></div>''])\<close>

definition ingest_cards :: "(string \<times> ingest_depth) list \<Rightarrow> string" where
  \<open>ingest_cards ing =
     (if shown_ingest ing = [] then ''<div class="card muted">no ingest queues</div>''
      else concat (map ingest_card (shown_ingest ing)))\<close>

section \<open>The fleet table\<close>

definition control_cell :: "string \<Rightarrow> string \<Rightarrow> control_row option \<Rightarrow> string" where
  \<open>control_cell host queue control =
     (let off = (case control of None \<Rightarrow> False | Some c \<Rightarrow> wc_desired c = ''off'')
      in concat [''<form method="post" action="/control" class="ctl">'',
           ''<input type="hidden" name="host" value="'', esc (Some host), ''">'',
           ''<input type="hidden" name="queue" value="'', esc (Some queue), ''">'',
           ''<input type="hidden" name="desired_state" value="'', if off then ''on'' else ''off'', ''">'',
           ''<span class="state '', if off then ''toggle off'' else ''toggle on'', ''">'',
           if off then ''OFF'' else ''ON'', ''</span>'',
           ''<button type="submit">'', if off then ''turn on'' else ''turn off'', ''</button></form>''])\<close>

text \<open>The status of a worker and its style class: dead outranks stale, stale outranks ok.\<close>

definition worker_status :: "bool \<Rightarrow> bool \<Rightarrow> string \<times> string" where
  "worker_status fresh flagged_dead =
     (if flagged_dead then (''DEAD'', ''dead'') else if \<not> fresh then (''stale'', ''stale'') else (''ok'', ''ok''))"

definition fleet_row :: "bool \<Rightarrow> (string \<Rightarrow> string \<Rightarrow> control_row option) \<Rightarrow> heartbeat \<times> bool \<times> bool \<Rightarrow> string" where
  \<open>fleet_row writes_enabled ctl_of w =
     (case w of (h, fresh, dead) \<Rightarrow> case worker_status fresh dead of (status, scls) \<Rightarrow>
        concat [''<tr><td>'', esc (Some (hb_host h)), ''</td><td>'', esc (Some (hb_queue h)), ''</td><td>'',
          esc (Some (proj_label (hb_project h))), ''</td><td>'', esc (Some (show_int (hb_concurrency h))),
          ''</td><td>'', esc (Some (or_dash (hb_model h))), ''</td><td class="st '', scls, ''">'', status, ''</td>'',
          if writes_enabled
          then concat [''<td>'', control_cell (hb_host h) (hb_queue h) (ctl_of (hb_host h) (hb_queue h)), ''</td>'']
          else [], ''</tr>''])\<close>

definition fleet_table ::
  "bool \<Rightarrow> (string \<Rightarrow> string \<Rightarrow> control_row option) \<Rightarrow> (heartbeat \<times> bool \<times> bool) list \<Rightarrow> string" where
  \<open>fleet_table writes_enabled ctl_of fleet =
     (if fleet = [] then ''<p class="muted">no workers reporting</p>''
      else concat [''<table class="fleet"><thead><tr>'',
        ''<th>host</th><th>queue</th><th>project</th><th>conc</th><th>model</th><th>status</th>'',
        if writes_enabled then ''<th>control</th>'' else [], ''</tr></thead><tbody>'',
        concat (map (fleet_row writes_enabled ctl_of) fleet), ''</tbody></table>''])\<close>

section \<open>The hardware panel\<close>

text \<open>A sample of the feed; a field that is missing, null or no number is absent.\<close>

record hw_gpu =
  hg_use :: "rat option"
  hg_used_mb :: "int option"
  hg_total_mb :: "int option"

record hw_sample =
  hs_cpu :: "rat option"
  hs_ram_used :: "rat option"
  hs_ram_total :: "rat option"
  hs_gpus :: "hw_gpu list"
  hs_stale :: bool

definition fmt_pct :: "rat option \<Rightarrow> string" where
  "fmt_pct p = (case p of None \<Rightarrow> em_dash | Some x \<Rightarrow> fmt_fixed 0 x @ ''%'')"

definition gb :: "rat option \<Rightarrow> string" where
  "gb mb = (case mb of None \<Rightarrow> em_dash | Some x \<Rightarrow> fmt_fixed 0 (x / 1024))"

definition clamp100 :: "rat \<Rightarrow> rat" where
  "clamp100 v = max 0 (min 100 v)"

definition c_green :: "rat list" where
  "c_green = [0x32, 0xD7, 0x4B]"

definition c_yellow :: "rat list" where
  "c_yellow = [0xFF, 0x9F, 0x0A]"

definition c_red :: "rat list" where
  "c_red = [0xFF, 0x45, 0x3A]"

definition blend :: "rat list \<Rightarrow> rat list \<Rightarrow> rat \<Rightarrow> nat list" where
  "blend a b t = map2 (\<lambda>x y. nat (round_half_even (x + (y - x) * t))) a b"

definition color_for_value :: "rat \<Rightarrow> string" where
  "color_for_value v0 =
     (let v = clamp100 v0
      in ''#'' @ concat (map fmt_hex2
           (if v \<le> 50 then blend c_green c_yellow (v / 50) else blend c_yellow c_red ((v - 50) / 50))))"

definition row_color :: "nat \<Rightarrow> nat \<Rightarrow> string" where
  "row_color row_idx rows =
     color_for_value (if rows \<le> 1 then 100 else of_nat row_idx / (of_nat rows - 1) * 100)"

definition lit_rows :: "rat option \<Rightarrow> nat \<Rightarrow> nat" where
  "lit_rows value rows =
     (case value of
        None \<Rightarrow> 0
      | Some v \<Rightarrow> let c = clamp100 v
          in if c = 0 then 0 else max 1 (min rows (nat (round_half_even (c * of_nat rows / 100)))))"

definition no_data :: string where
  "no_data = ''rgba(27,31,36,.18)''"

definition circle :: "rat \<Rightarrow> rat \<Rightarrow> rat \<Rightarrow> string \<Rightarrow> string" where
  \<open>circle cx cy r fill = concat [''<circle cx="'', fmt_fixed 1 cx, ''" cy="'', fmt_fixed 1 cy, ''" r="'',
     fmt_fixed 2 r, ''" fill="'', fill, ''"/>'']\<close>

text \<open>The geometry of a chart, and the dots (centre and colour) of one column.\<close>

record chart =
  ch_rows :: nat
  ch_width :: rat
  ch_height :: rat
  ch_capacity :: nat

definition default_chart :: chart where
  "default_chart = \<lparr>ch_rows = 4, ch_width = 120, ch_height = 24, ch_capacity = 46\<rparr>"

definition col_step :: "chart \<Rightarrow> rat" where
  "col_step c = (if ch_capacity c > 1 then ch_width c / (of_nat (ch_capacity c) - 1) else 0)"

definition row_step :: "chart \<Rightarrow> rat" where
  "row_step c = (if ch_rows c > 0 then ch_height c / of_nat (ch_rows c) else ch_height c)"

definition dot_radius :: "chart \<Rightarrow> rat" where
  "dot_radius c = max 1 (min 2 (min (col_step c) (row_step c) / (24 / 10)))"

definition column_dots :: "chart \<Rightarrow> rat \<Rightarrow> rat option \<Rightarrow> (rat \<times> rat \<times> string) list" where
  "column_dots c cx v =
     (case v of
        None \<Rightarrow> [(cx, ch_height c - row_step c / 2, no_data)]
      | Some _ \<Rightarrow> map (\<lambda>row_idx. (cx, ch_height c - (of_nat row_idx + 1 / 2) * row_step c,
            row_color row_idx (ch_rows c))) [0 ..< lit_rows v (ch_rows c)])"

definition last_n :: "nat \<Rightarrow> 'a list \<Rightarrow> 'a list" where
  "last_n n xs = (if n = 0 then xs else drop (length xs - n) xs)"

definition spark_dots :: "chart \<Rightarrow> rat option list \<Rightarrow> (rat \<times> rat \<times> string) list" where
  "spark_dots c values =
     (let vals = last_n (ch_capacity c) values; first = int (ch_capacity c) - int (length vals)
      in concat (map (\<lambda>(i, v). column_dots c (of_int (first + int i) * col_step c) v) (enumerate 0 vals)))"

definition spark :: "rat option list \<Rightarrow> string" where
  \<open>spark values =
     concat [''<svg class="spark" width="120" height="24" viewBox="0 0 120 24">'',
       concat (map (\<lambda>(cx, cy, fill). circle cx cy (dot_radius default_chart) fill)
         (spark_dots default_chart values)), ''</svg>'']\<close>

definition ram_pct :: "hw_sample \<Rightarrow> rat option" where
  "ram_pct s =
     (case (hs_ram_used s, hs_ram_total s) of
        (Some u, Some t) \<Rightarrow> if u \<noteq> 0 \<and> t \<noteq> 0 then Some (100 * u / t) else None
      | _ \<Rightarrow> None)"

definition gpu_max :: "hw_sample \<Rightarrow> rat option" where
  "gpu_max s =
     (case List.map_filter hg_use (hs_gpus s) of [] \<Rightarrow> None | u # us \<Rightarrow> Some (foldl max u us))"

definition hw_row :: "string \<Rightarrow> rat option list \<Rightarrow> rat option \<Rightarrow> string \<Rightarrow> string" where
  \<open>hw_row label series cur sub = concat [''<div class="hwrow"><span class="hwk">'', esc (Some label), ''</span>'',
     spark series, ''<span class="hwv">'', fmt_pct cur,
     if sub \<noteq> [] then concat ['' <em>'', esc (Some sub), ''</em>''] else [], ''</span></div>'']\<close>

definition sum_mb :: "(hw_gpu \<Rightarrow> int option) \<Rightarrow> hw_gpu list \<Rightarrow> rat option" where
  "sum_mb f gpus =
     (let n = sum_list (map (\<lambda>g. case f g of None \<Rightarrow> 0 | Some v \<Rightarrow> v) gpus) in if n = 0 then None else Some (of_int n))"

definition gpu_sub :: "hw_gpu list \<Rightarrow> string" where
  "gpu_sub gpus =
     (case (sum_mb hg_used_mb gpus, sum_mb hg_total_mb gpus) of
        (Some vu, Some vt) \<Rightarrow> concat [gb (Some vu), ''/'', gb (Some vt), '' GB'']
      | _ \<Rightarrow> if gpus = [] then ''none'' else [])"

definition gpu_label :: "hw_gpu list \<Rightarrow> string" where
  "gpu_label gpus = (if length gpus > 1 then concat [''GPU'', times_sign, show_nat (length gpus)] else ''GPU'')"

definition hw_card :: "string \<times> hw_sample list \<Rightarrow> string" where
  \<open>hw_card e =
     (case e of (host, samples) \<Rightarrow>
        if samples = [] then []
        else let latest = last samples
          in concat [''<div class="card hw'', if hs_stale latest then '' stale'' else [], ''"><h3>'', esc (Some host), '' '',
               if hs_stale latest then ''<em class="stale">stale</em>'' else ''<em class="live">live</em>'', ''</h3>'',
               hw_row ''CPU'' (map hs_cpu samples) (hs_cpu latest) [],
               hw_row (gpu_label (hs_gpus latest)) (map gpu_max samples) (gpu_max latest) (gpu_sub (hs_gpus latest)),
               hw_row ''RAM'' (map ram_pct samples) (ram_pct latest)
                 (concat [gb (hs_ram_used latest), ''/'', gb (hs_ram_total latest), '' GB'']),
               ''</div>''])\<close>

definition hw_panel :: "(string \<times> hw_sample list) list option \<Rightarrow> string" where
  \<open>hw_panel history =
     (case history of
        Some (e # es) \<Rightarrow> concat [''<div class="cards">'', concat (map hw_card (sort_key fst (e # es))), ''</div>'']
      | _ \<Rightarrow> concat [''<p class="muted">no hardware telemetry yet '', em_dash, '' the conductor reads the broker'',
          apostrophe, ''s <code>hw_metrics</code> stream (a Postgres broker whose gpu workers publish per-host cpu/gpu/ram).</p>''])\<close>

section \<open>Ages, badges and totals\<close>

text \<open>
  A value shown as a relative age: absent, a point in time (in microseconds), or something that is
  not a timestamp.
\<close>

datatype moment = No_time | At_time int | Not_time string

definition ago :: "int \<Rightarrow> moment \<Rightarrow> string" where
  "ago t m =
     (case m of
        No_time \<Rightarrow> em_dash
      | Not_time s \<Rightarrow> esc (Some s)
      | At_time dt \<Rightarrow> let s = t - dt
          in if s < secs 1 then ''now''
             else if s < secs 60 then show_int (s div secs 1) @ ''s ago''
             else if s < secs 3600 then show_int (s div secs 60) @ ''m ago''
             else if s < secs 86400 then show_int (s div secs 3600) @ ''h ago''
             else show_int (s div secs 86400) @ ''d ago'')"

definition badge_cls :: "(string \<times> string) list" where
  "badge_cls = [(''queued'', ''q''), (''running'', ''r''), (''completed'', ''c''), (''failed'', ''x''),
     (''cancelled'', ''n''), (''awaiting_input'', ''a'')]"

definition cls_of :: "(string \<times> string) list \<Rightarrow> string \<Rightarrow> string" where
  "cls_of table k = (case map_of table k of Some c \<Rightarrow> c | None \<Rightarrow> ''n'')"

definition badge :: "string \<Rightarrow> string" where
  \<open>badge status = concat [''<span class="badge b-'', cls_of badge_cls status, ''">'', esc (Some status), ''</span>'']\<close>

definition ends_with :: "string \<Rightarrow> string \<Rightarrow> bool" where
  "ends_with s p \<longleftrightarrow> starts_with (rev s) (rev p)"

definition depth_of :: "string \<Rightarrow> ingest_depth \<Rightarrow> nat" where
  "depth_of s st =
     (if s = ''running'' then id_running st else if s = ''queued'' then id_queued st
      else if s = ''completed'' then id_completed st else id_failed st)"

text \<open>The total of one state over the node-job counts and the ingest queues that are not \<^verbatim>\<open>cpu\<close> or \<^verbatim>\<open>gpu\<close>.\<close>

definition kpi_total :: "(string \<times> nat) list \<Rightarrow> (string \<times> ingest_depth) list \<Rightarrow> string \<Rightarrow> nat" where
  "kpi_total counts ing s =
     sum_list (map snd (filter (\<lambda>(k, _). ends_with k (CHR ''_'' # s)) counts)) +
     sum_list (map (\<lambda>(_, st). depth_of s st) (filter (\<lambda>(q, _). \<not> dag_queue q) ing))"

definition kpi_cell :: "string \<times> nat \<times> string \<Rightarrow> string" where
  \<open>kpi_cell c = (case c of (label, v, cls) \<Rightarrow>
     concat [''<div class="kpi '', cls, ''"><b>'', show_nat v, ''</b><span>'', label, ''</span></div>''])\<close>

definition kpi_items ::
  "(string \<times> nat) list \<Rightarrow> (string \<times> ingest_depth) list \<Rightarrow> nat \<Rightarrow> nat \<Rightarrow> (string \<times> nat \<times> string) list" where
  "kpi_items counts ing workers projects =
     [(''Busy'', kpi_total counts ing ''running'', ''running''),
      (''Enqueued'', kpi_total counts ing ''queued'', ''queued''),
      (''Processed'', kpi_total counts ing ''completed'', ''completed''),
      (''Failed'', kpi_total counts ing ''failed'', ''failed''),
      (''Workers'', workers, ''workers''), (''Projects'', projects, ''proj'')]"

definition stat_strip :: "(string \<times> nat) list \<Rightarrow> (string \<times> ingest_depth) list \<Rightarrow> nat \<Rightarrow> nat \<Rightarrow> string" where
  \<open>stat_strip counts ing workers projects =
     concat [''<div class="kpis">'', concat (map kpi_cell (kpi_items counts ing workers projects)), ''</div>'']\<close>

section \<open>The activity feed\<close>

definition feed_kind :: "feed_row \<Rightarrow> string" where
  "feed_kind r = (case r of Node_row _ \<Rightarrow> ''node'' | Ingest_row_of _ \<Rightarrow> ''ingest'')"

definition recent_row :: "web_rt \<Rightarrow> int \<Rightarrow> feed_row \<Rightarrow> string" where
  \<open>recent_row rt t r =
     (case (case r of
              Node_row j \<Rightarrow> (nj_id j, nj_node j, nj_queue j, nj_project j, nj_status j, nj_retries j, nj_claimed j)
            | Ingest_row_of j \<Rightarrow> (ij_id j, ij_task j, ij_queue j, ij_project j, ij_status j, 0, ij_claimed j)) of
        (i, name, queue, project, status, retries, worker) \<Rightarrow>
          concat [''<tr><td><span class="kind k-'', esc (Some (feed_kind r)), ''">'', esc (Some (feed_kind r)), ''</span></td>'',
            ''<td class="mono"><a href="/job/'', esc (Some (wr_id rt i)), ''?kind='', esc (Some (feed_kind r)), ''">'',
            esc (Some (or_dash (Some name))), ''</a></td><td>'', esc (Some queue), ''</td><td>'',
            esc (Some (proj_label project)), ''</td><td>'', badge (status_text status), ''</td><td class="'',
            if retries \<noteq> 0 then ''warn'' else [], ''">'', if retries \<noteq> 0 then show_nat retries else em_dash,
            ''</td><td class="mono">'', esc (Some (or_dash worker)), ''</td><td class="muted">'',
            ago t (At_time (feed_recency r)), ''</td></tr>''])\<close>

definition recent_table :: "web_rt \<Rightarrow> int \<Rightarrow> feed_row list \<Rightarrow> string" where
  \<open>recent_table rt t jobs =
     (if jobs = [] then ''<p class="muted">no recent jobs</p>''
      else concat [''<table class="fleet"><thead><tr><th>kind</th><th>job</th><th>queue</th><th>project</th>'',
        ''<th>status</th><th>retries</th><th>worker</th><th>when</th></tr></thead><tbody>'',
        concat (map (recent_row rt t) jobs), ''</tbody></table>''])\<close>

definition recent_tab :: "string \<Rightarrow> string option \<Rightarrow> string \<times> string \<Rightarrow> string" where
  \<open>recent_tab view project kl =
     (case kl of (key, label) \<Rightarrow>
        concat [''<a class="'', if view = key then ''tab active'' else ''tab'', ''" href="'',
          esc (Some (''/?view='' @ key @ (case project of None \<Rightarrow> [] | Some p \<Rightarrow> ''&project='' @ quote p))), ''">'',
          label, ''</a>''])\<close>

definition recent_tabs :: "string \<Rightarrow> string option \<Rightarrow> string" where
  \<open>recent_tabs view project = concat [''<span class="tabs">'',
     concat (map (recent_tab view project) [(''all'', ''All''), (''retries'', ''Retries''), (''dead'', ''Dead'')]),
     ''</span>'']\<close>

section \<open>The dashboard\<close>

definition dashboard_view :: "string \<Rightarrow> string" where
  "dashboard_view view = (if view = ''retries'' \<or> view = ''dead'' then view else ''all'')"

definition dashboard_recent :: "string option \<Rightarrow> string \<Rightarrow> db \<Rightarrow> feed_row list" where
  "dashboard_recent project view d =
     (if view = ''retries'' then recent_jobs project None 1 50 d
      else if view = ''dead'' then recent_jobs project (Some Failed) 0 50 d
      else recent_jobs project None 0 25 d)"

definition render_dashboard ::
  "web_rt \<Rightarrow> string option \<Rightarrow> int \<Rightarrow> string \<Rightarrow> bool \<Rightarrow> (string \<times> hw_sample list) list option \<Rightarrow> db \<Rightarrow> string" where
  \<open>render_dashboard rt project stale_after_s view writes_enabled hw d =
     (let counts = counts_of (snapshot project d);
          ingest = ingest_snapshot project d;
          fleet = fleet_snapshot stale_after_s project d;
          recent = dashboard_recent project view d;
          projects = list_projects d
      in concat [''<!doctype html><html lang="en"><head>'', ''<meta charset="utf-8">'',
           ''<meta name="viewport" content="width=device-width,initial-scale=1">'',
           ''<meta http-equiv="refresh" content="'', show_nat refresh_s, ''">'',
           ''<title>broker_parrot '', em_dash, '' fleet + queue</title><style>'', wr_css rt, ''</style></head><body><header>'',
           ''<h1>broker_parrot <small>fleet + queue '', middle_dot, '' '',
           esc (Some (case project of None \<Rightarrow> ''all projects'' | Some p \<Rightarrow> ''project = '' @ proj_label p)),
           ''</small></h1><div class="muted" style="margin-top:6px;font-size:12px">'',
           ''one shared <b>cpu</b> + <b>gpu</b> queue across all projects '', em_dash,
           '' tagged by project, filter below</div>'', project_filter_bar project projects, ''</header><main><h2>Overview</h2>'',
           stat_strip counts ingest (length fleet) (length projects),
           ''<h2>Hardware '', em_dash, '' live fleet (cpu '', middle_dot, '' gpu '', middle_dot, '' ram)</h2>'', hw_panel hw,
           ''<h2>Queues '', em_dash, '' shared cpu / gpu</h2><div class="cards">'', queue_card ''cpu'' counts,
           queue_card ''gpu'' counts, ''</div><h2>Ingest queues</h2><div class="cards">'', ingest_cards ingest,
           ''</div><h2>Recent activity '', recent_tabs (dashboard_view view) project, ''</h2>'', recent_table rt (now d) recent,
           ''<h2>Fleet '', em_dash, '' workers</h2>'',
           fleet_table writes_enabled (\<lambda>h q. get_worker_control h q d) fleet,
           ''</main><footer>read-only '', middle_dot, '' single-DB '', middle_dot, '' auto-refresh '', show_nat refresh_s, ''s '',
           middle_dot, '' queue-conductor-web</footer></body></html>''])\<close>

section \<open>The job page\<close>

text \<open>The columns of a node or ingest row the page reads; an ingest row has no run and no retry counter.\<close>

record job_view =
  jv_id :: nat
  jv_name :: string
  jv_status :: job_status
  jv_queue :: string
  jv_project :: string
  jv_claimed :: "string option"
  jv_run :: "string option"
  jv_retries :: "nat option"
  jv_seconds :: "int option"
  jv_created :: int
  jv_finished :: "int option"
  jv_error :: "string option"

definition node_job_view :: "node_job \<Rightarrow> job_view" where
  "node_job_view j = \<lparr>jv_id = nj_id j, jv_name = nj_node j, jv_status = nj_status j, jv_queue = nj_queue j,
     jv_project = nj_project j, jv_claimed = nj_claimed j, jv_run = Some (nj_run j), jv_retries = Some (nj_retries j),
     jv_seconds = nj_seconds j, jv_created = nj_created j, jv_finished = nj_finished j, jv_error = nj_error j\<rparr>"

definition ingest_job_view :: "ingest_row \<Rightarrow> job_view" where
  "ingest_job_view j = \<lparr>jv_id = ij_id j, jv_name = ij_task j, jv_status = ij_status j, jv_queue = ij_queue j,
     jv_project = ij_project j, jv_claimed = ij_claimed j, jv_run = None, jv_retries = None,
     jv_seconds = ij_seconds j, jv_created = ij_created j, jv_finished = ij_finished j, jv_error = ij_error j\<rparr>"

definition meta_cell :: "string \<times> string \<Rightarrow> string" where
  \<open>meta_cell kv = concat [''<div class="meta"><span>'', fst kv, ''</span><b>'', snd kv, ''</b></div>'']\<close>

definition job_meta :: "web_rt \<Rightarrow> job_view \<Rightarrow> string" where
  \<open>job_meta rt v = concat [''<div class="metas">'', concat (map meta_cell
     [(''status'', badge (status_text (jv_status v))), (''queue'', esc (Some (jv_queue v))),
      (''project'', esc (Some (proj_label (jv_project v)))), (''worker'', esc (Some (or_dash (jv_claimed v)))),
      (''run'', esc (Some (or_dash (jv_run v)))),
      (''retries'', esc (Some (case jv_retries v of None \<Rightarrow> em_dash | Some n \<Rightarrow> show_nat n))),
      (''seconds'', esc (Some (case jv_seconds v of None \<Rightarrow> em_dash | Some n \<Rightarrow> wr_num rt n))),
      (''created'', esc (Some (wr_time rt (jv_created v)))),
      (''finished'', esc (Some (case jv_finished v of None \<Rightarrow> em_dash | Some n \<Rightarrow> wr_time rt n)))]), ''</div>'']\<close>

definition ev_cls :: "(string \<times> string) list" where
  "ev_cls = [(''claimed'', ''r''), (''completed'', ''c''), (''failed'', ''x''), (''cancelled'', ''n''), (''requeued'', ''q''),
     (''reassigned'', ''q''), (''gpu_health_trip'', ''x''), (''stall_trip'', ''x''), (''budget_trip'', ''x'')]"

definition event_row :: "web_rt \<Rightarrow> int \<Rightarrow> node_event \<Rightarrow> string" where
  \<open>event_row rt t e = concat [''<tr><td>'', esc (Some (show_nat (ne_attempt e))), ''</td><td><span class="badge b-'',
     cls_of ev_cls (ne_type e), ''">'', esc (Some (ne_type e)), ''</span></td><td class="mono">'',
     esc (Some (or_dash (ne_host e))), ''</td><td>'',
     esc (Some (case ne_elapsed e of None \<Rightarrow> em_dash | Some n \<Rightarrow> wr_num rt n)), ''</td><td class="muted">'',
     esc (if ne_detail e \<noteq> [] then Some (wr_dict rt (ne_detail e)) else ne_error e), ''</td><td class="muted">'',
     ago t (At_time (ne_created e)), ''</td></tr>'']\<close>

definition job_timeline :: "web_rt \<Rightarrow> int \<Rightarrow> string \<Rightarrow> node_event list \<Rightarrow> string" where
  \<open>job_timeline rt t kind events =
     (if events \<noteq> []
      then concat [''<table class="fleet"><thead><tr><th>try</th><th>event</th><th>host</th><th>elapsed</th>'',
             ''<th>detail</th><th>when</th></tr></thead><tbody>'', concat (map (event_row rt t) events), ''</tbody></table>'']
      else if kind = ''node'' then ''<p class="muted">no events recorded for this node-job yet</p>''
      else ''<p class="muted">ingest jobs have no per-attempt event log</p>'')\<close>

definition requeue_form :: "web_rt \<Rightarrow> job_view \<Rightarrow> string" where
  \<open>requeue_form rt v = concat [''<form method="post" action="/requeue" class="ctl" style="margin-top:10px">'',
     ''<input type="hidden" name="job_id" value="'', esc (Some (wr_id rt (jv_id v))), ''">'',
     ''<button type="submit">re-queue (retry on a fresh worker)</button></form>'']\<close>

definition shows_requeue :: "bool \<Rightarrow> string \<Rightarrow> job_view \<Rightarrow> bool" where
  "shows_requeue writes_enabled kind v \<longleftrightarrow> writes_enabled \<and> kind = ''node'' \<and> jv_status v = Running"

definition render_job :: "web_rt \<Rightarrow> int \<Rightarrow> job_view \<Rightarrow> node_event list \<Rightarrow> string \<Rightarrow> bool \<Rightarrow> string" where
  \<open>render_job rt t v events kind writes_enabled =
     concat [''<!doctype html><html lang="en"><head><meta charset="utf-8">'',
       ''<meta name="viewport" content="width=device-width,initial-scale=1"><title>broker_parrot '', em_dash,
       '' job</title><style>'', wr_css rt, ''</style></head><body><header><h1>broker_parrot <small>job '', middle_dot, '' '',
       esc (Some (if jv_name v = [] then wr_id rt (jv_id v) else jv_name v)), '' '', middle_dot, '' '', esc (Some kind),
       ''</small></h1><div style="margin-top:8px"><a class="f" href="/">'', left_arrow, '' dashboard</a></div></header><main>'',
       ''<h2>Job <em style="text-transform:none;font-weight:400;color:#848d97">'', middle_dot, '' '',
       esc (Some (wr_id rt (jv_id v))), ''</em></h2>'', job_meta rt v,
       if shows_requeue writes_enabled kind v then requeue_form rt v else [],
       case jv_error v of
         None \<Rightarrow> []
       | Some e \<Rightarrow> if e = [] then [] else concat [''<h2>Error</h2><pre class="err">'', esc (Some e), ''</pre>''],
       ''<h2>Event timeline <em style="text-transform:none;font-weight:400;color:#848d97">'', middle_dot,
       '' workflow_node_events (per attempt)</em></h2>'', job_timeline rt t kind events,
       ''</main><footer>read-only '', middle_dot, '' single-DB '', middle_dot, '' queue-conductor-web</footer></body></html>'']\<close>

definition render_error :: "web_rt \<Rightarrow> py_error \<Rightarrow> string" where
  \<open>render_error rt e = concat [''<!doctype html><html><head><meta charset='utf-8'>'',
     ''<title>conductor error</title><style>'', wr_css rt, ''</style></head><body><header><h1>broker_parrot <small>conductor '',
     em_dash, '' error</small></h1></header><main><p class='st dead'>could not read the queue database:</p>'',
     ''<pre class='muted'>'', esc (Some (wr_exc rt e)), ''</pre></main></body></html>'']\<close>

section \<open>Stored values contribute no markup\<close>

named_theorems plain_text \<open>texts without markup characters\<close>

lemma markup_esc [plain_text]: "markup (esc v) = []"
  by (simp add: esc_def)

lemma markup_dashes [plain_text]:
  "markup em_dash = []" "markup middle_dot = []" "markup times_sign = []" "markup apostrophe = []" "markup left_arrow = []"
  by (simp_all add: em_dash_def middle_dot_def times_sign_def apostrophe_def left_arrow_def markup_def is_markup_code)

lemma markup_words [plain_text]:
  "markup ''f'' = []" "markup ''f active'' = []" "markup ''tab'' = []" "markup ''tab active'' = []"
  "markup ''on'' = []" "markup ''off'' = []" "markup ''ON'' = []" "markup ''OFF'' = []"
  "markup ''toggle on'' = []" "markup ''toggle off'' = []" "markup ''turn on'' = []" "markup ''turn off'' = []"
  "markup ''warn'' = []" "markup '' stale'' = []" "markup ''%'' = []" "markup ''now'' = []"
  "markup ''s ago'' = []" "markup ''m ago'' = []" "markup ''h ago'' = []" "markup ''d ago'' = []"
  by (simp_all add: markup_def is_markup_code)

lemmas [plain_text] = markup_show_nat markup_show_int markup_fmt_fixed markup_quote markup_html_escape

lemma markup_ago [plain_text]: "markup (ago t m) = []"
  by (simp add: ago_def plain_text Let_def split: moment.split del: append.simps)

lemma markup_fmt_pct [plain_text]: "markup (fmt_pct p) = []"
  by (simp add: fmt_pct_def plain_text split: option.split del: append.simps)

lemma markup_worker_status [plain_text]:
  "markup (fst (worker_status f dd)) = []" "markup (snd (worker_status f dd)) = []"
  by (simp_all add: worker_status_def markup_def is_markup_code)

lemma markup_cls_of [plain_text]: "markup (cls_of badge_cls k) = []" "markup (cls_of ev_cls k) = []"
  by (simp_all add: cls_of_def badge_cls_def ev_cls_def markup_def is_markup_code)

lemma blend_byte:
  assumes "\<forall>x\<in>set a. 0 \<le> x \<and> x \<le> 255" and "\<forall>x\<in>set b. 0 \<le> x \<and> x \<le> 255" and "0 \<le> t" and "t \<le> 1"
    and "n \<in> set (blend a b t)"
  shows "n < 256"
proof -
  from assms(5) obtain x y where xy: "x \<in> set a" "y \<in> set b" and n: "n = nat (round_half_even (x + (y - x) * t))"
    by (auto simp: blend_def dest: set_zip_leftD set_zip_rightD)
  have "x + (y - x) * t = (1 - t) * x + t * y" by (simp add: algebra_simps)
  also have "\<dots> \<le> (1 - t) * 255 + t * 255" using assms xy by (intro add_mono mult_left_mono) auto
  finally have "round_half_even (x + (y - x) * t) \<le> round_half_even (of_int 255)"
    by (intro round_half_even_mono) (simp add: algebra_simps)
  then show ?thesis by (simp add: n)
qed

lemma color_bytes:
  "\<exists>bs. color_for_value v = ''#'' @ concat (map fmt_hex2 bs) \<and> length bs = 3 \<and> (\<forall>n\<in>set bs. n < 256)"
proof -
  have range: "0 \<le> clamp100 v" "clamp100 v \<le> 100" by (simp_all add: clamp100_def)
  have cols: "\<forall>x\<in>set c. 0 \<le> x \<and> x \<le> 255" if "c \<in> {c_green, c_yellow, c_red}" for c
    using that by (auto simp: c_green_def c_yellow_def c_red_def)
  have len: "length (blend a b t) = 3" if "a \<in> {c_green, c_yellow, c_red}" "b \<in> {c_green, c_yellow, c_red}" for a b t
    using that by (auto simp: blend_def c_green_def c_yellow_def c_red_def)
  show ?thesis
  proof (cases "clamp100 v \<le> 50")
    case True
    have "\<forall>n\<in>set (blend c_green c_yellow (clamp100 v / 50)). n < 256"
      using True range cols by (intro ballI, elim blend_byte[rotated -1]) auto
    with True show ?thesis by (intro exI[of _ "blend c_green c_yellow (clamp100 v / 50)"]) (simp add: color_for_value_def len)
  next
    case False
    have "\<forall>n\<in>set (blend c_yellow c_red ((clamp100 v - 50) / 50)). n < 256"
      using False range cols by (intro ballI, elim blend_byte[rotated -1]) auto
    with False show ?thesis by (intro exI[of _ "blend c_yellow c_red ((clamp100 v - 50) / 50)"]) (simp add: color_for_value_def len)
  qed
qed

lemma markup_color [plain_text]: "markup (color_for_value v) = []"
proof -
  from color_bytes obtain bs where "color_for_value v = ''#'' @ concat (map fmt_hex2 bs)" "\<forall>n\<in>set bs. n < 256" by blast
  moreover have "markup ''#'' = []" by (simp add: markup_def is_markup_code)
  ultimately show ?thesis by (simp add: concat_eq_Nil_conv del: append.simps)
qed

lemma markup_if: "markup (if b then s else t) = (if b then markup s else markup t)"
  by simp

lemmas markup_step = markup_append markup_concat list.map concat.simps append_Nil append_Nil2 if_cancel markup_if markup_Nil plain_text

lemma project_link_markup: "markup (project_link a p) = markup (project_link a' p')"
  unfolding project_link_def by (simp only: markup_step)

lemma stat_cell_markup: "markup (stat_cell s n) = markup (stat_cell s n')"
  unfolding stat_cell_def by (simp only: markup_step)

lemma card_markup:
  "markup (queue_card q counts) = markup (queue_card q counts')"
  "markup (ingest_card c) = markup (ingest_card c')"
  unfolding queue_card_def ingest_card_def case_prod_beta stat_cell_def card_stats_def
  by (simp_all only: markup_step)

lemma fleet_row_markup: "markup (fleet_row wr f w) = markup (fleet_row wr f' w')"
  unfolding fleet_row_def control_cell_def case_prod_beta Let_def by (simp only: markup_step)

lemma recent_row_markup: "markup (recent_row rt t r) = markup (recent_row rt t' r')"
  unfolding recent_row_def case_prod_beta badge_def by (simp only: markup_step)

lemma event_row_markup: "markup (event_row rt t e) = markup (event_row rt t' e')"
  unfolding event_row_def by (simp only: markup_step)

lemma recent_tab_markup: "markup (recent_tab v p (k, l)) = markup (recent_tab v' p' (k', l))"
  unfolding recent_tab_def by (simp only: markup_step prod.case)

lemma kpi_cell_markup: "markup (kpi_cell (l, n, c)) = markup (kpi_cell (l, n', c))"
  unfolding kpi_cell_def by (simp only: markup_step prod.case)

lemma circle_markup: "markup fill = [] \<Longrightarrow> markup fill' = [] \<Longrightarrow> markup (circle x y r fill) = markup (circle x' y' r' fill')"
  unfolding circle_def by (simp only: markup_step)

text \<open>Rows that all have the same markup make tables whose markup is a matter of their number.\<close>

lemma markup_rows:
  assumes "\<And>x y. markup (f x) = markup (g y)" and "length xs = length ys"
  shows "markup (concat (map f xs)) = markup (concat (map g ys))"
  using assms(2)
proof (induction xs ys rule: list_induct2)
  case Nil
  then show ?case by simp
next
  case (Cons x xs y ys)
  then show ?case using assms(1)[of x y] by simp
qed

lemma project_filter_bar_markup:
  "length ps = length ps' \<Longrightarrow> markup (project_filter_bar a ps) = markup (project_filter_bar a' ps')"
  using markup_rows[of "project_link a" "project_link a'", OF project_link_markup]
  unfolding project_filter_bar_def by (simp only: markup_step)

lemma stat_strip_markup: "markup (stat_strip c i w p) = markup (stat_strip c' i' w' p')"
  unfolding stat_strip_def kpi_items_def kpi_cell_def by (simp only: markup_step prod.case)

lemma ingest_cards_markup:
  assumes "length (shown_ingest i) = length (shown_ingest i')"
  shows "markup (ingest_cards i) = markup (ingest_cards i')"
proof -
  have "shown_ingest i = [] \<longleftrightarrow> shown_ingest i' = []" using assms by (metis length_0_conv)
  then show ?thesis
    using markup_rows[of ingest_card ingest_card, OF card_markup(2) assms] unfolding ingest_cards_def
    by (simp only: markup_if)
qed

lemma recent_tabs_markup: "markup (recent_tabs v p) = markup (recent_tabs v' p')"
  unfolding recent_tabs_def recent_tab_def by (simp only: markup_step prod.case)

lemma recent_table_markup:
  assumes "length js = length js'"
  shows "markup (recent_table rt t js) = markup (recent_table rt t' js')"
proof -
  have "js = [] \<longleftrightarrow> js' = []" using assms by (metis length_0_conv)
  then show ?thesis
    using markup_rows[of "recent_row rt t" "recent_row rt t'", OF recent_row_markup assms] unfolding recent_table_def
    by (simp only: markup_step)
qed

lemma fleet_table_markup:
  assumes "length ws = length ws'"
  shows "markup (fleet_table wr f ws) = markup (fleet_table wr f' ws')"
proof -
  have "ws = [] \<longleftrightarrow> ws' = []" using assms by (metis length_0_conv)
  then show ?thesis
    using markup_rows[of "fleet_row wr f" "fleet_row wr f'", OF fleet_row_markup assms] unfolding fleet_table_def
    by (simp only: markup_step)
qed

definition hw_series :: "(string \<times> hw_sample list) list option \<Rightarrow> hw_sample list list" where
  "hw_series hw = (case hw of None \<Rightarrow> [] | Some h \<Rightarrow> map snd (sort_key fst h))"

lemma hw_card_markup: "markup (hw_card (h, ss)) = markup (hw_card (h', ss))"
  unfolding hw_card_def prod.case Let_def by (simp only: markup_step)

lemma hw_cards_markup:
  "map snd es = map snd es' \<Longrightarrow> markup (concat (map hw_card es)) = markup (concat (map hw_card es'))"
proof (induction es arbitrary: es')
  case Nil
  then show ?case by simp
next
  case (Cons e es)
  then obtain e' es1 where "es' = e' # es1" "snd e = snd e'" "map snd es = map snd es1" by (cases es') auto
  with Cons.IH[of es1] hw_card_markup[of "fst e" "snd e" "fst e'"] show ?case by (cases e; cases e') simp
qed

lemma hw_panel_markup:
  assumes "hw_series hw = hw_series hw'"
  shows "markup (hw_panel hw) = markup (hw_panel hw')"
proof -
  have none: "hw_series h = [] \<longleftrightarrow> h = None \<or> h = Some []" for h
    by (auto simp: hw_series_def split: option.split) (metis length_0_conv length_sort)+
  show ?thesis
  proof (cases "hw_series hw = []")
    case True
    with assms have "hw_series hw' = []" by simp
    with True show ?thesis by (auto simp: none hw_panel_def)
  next
    case False
    with assms none[of hw] none[of hw'] obtain e es e' es' where hw: "hw = Some (e # es)" "hw' = Some (e' # es')"
      by (metis list.exhaust option.exhaust)
    with assms hw_cards_markup[of "sort_key fst (e # es)" "sort_key fst (e' # es')"] show ?thesis
      unfolding hw_panel_def hw option.case list.case hw_series_def by (simp only: markup_step)
  qed
qed

text \<open>What the tags of a dashboard may depend on: how many rows each of its tables has, and the measured series.\<close>

definition page_shape where
  "page_shape project view stale_after_s hw d =
     (length (list_projects d), length (shown_ingest (ingest_snapshot project d)),
      length (dashboard_recent project view d), length (fleet_snapshot stale_after_s project d), hw_series hw)"

text \<open>
  C15. No stored or requested text reaches the markup of the dashboard: the tag and quote characters of the page are
  the same for any two databases, project filters, tabs and host names for which the tables have as many rows and the
  charts show the same series. Nothing a tenant writes into a row (names, errors, hosts, projects) and nothing in the
  address can open a tag, close one or leave an attribute value.
\<close>

theorem dashboard_markup_fixed:
  assumes "page_shape project view stale hw d = page_shape project' view' stale' hw' d'"
  shows "markup (render_dashboard rt project stale view writes hw d) =
    markup (render_dashboard rt project' stale' view' writes hw' d')"
proof -
  from assms have shape: "length (list_projects d) = length (list_projects d')"
      "length (shown_ingest (ingest_snapshot project d)) = length (shown_ingest (ingest_snapshot project' d'))"
      "length (dashboard_recent project view d) = length (dashboard_recent project' view' d')"
      "length (fleet_snapshot stale project d) = length (fleet_snapshot stale' project' d')" "hw_series hw = hw_series hw'"
    by (simp_all add: page_shape_def)
  note parts = project_filter_bar_markup[OF shape(1), of project project'] ingest_cards_markup[OF shape(2)]
    recent_table_markup[OF shape(3), of rt "now d" "now d'"]
    fleet_table_markup[OF shape(4), of writes "\<lambda>h q. get_worker_control h q d" "\<lambda>h q. get_worker_control h q d'"]
    hw_panel_markup[OF shape(5)] recent_tabs_markup[of "dashboard_view view" project "dashboard_view view'" project']
    stat_strip_markup[of "counts_of (snapshot project d)" "ingest_snapshot project d" "length (fleet_snapshot stale project d)"
      "length (list_projects d)" "counts_of (snapshot project' d')" "ingest_snapshot project' d'"
      "length (fleet_snapshot stale' project' d')" "length (list_projects d')"]
    card_markup(1)[of _ "counts_of (snapshot project d)" "counts_of (snapshot project' d')"]
  show ?thesis
    unfolding render_dashboard_def Let_def
    by (simp only: markup_step parts)
qed

text \<open>A job whose name is a script element, seen under another address.\<close>

definition hostile_db :: db where
  "hostile_db = demo_db\<lparr>node_jobs := sql_update (\<lambda>j. nj_id j = 0) (\<lambda>j. j\<lparr>nj_node := ''<script>''\<rparr>) (node_jobs demo_db)\<rparr>"

theorem dashboard_markup_fixed_witness:
  "page_shape None ''all'' 30 None demo_db = page_shape (Some []) ''<b>'' 30 (Some []) hostile_db \<and>
   (\<forall>rt. markup (render_dashboard rt None 30 ''all'' True None demo_db) =
     markup (render_dashboard rt (Some []) 30 ''<b>'' True (Some []) hostile_db))"
proof -
  have shape: "page_shape None ''all'' 30 None demo_db = page_shape (Some []) ''<b>'' 30 (Some []) hostile_db"
    by code_simp
  from dashboard_markup_fixed[OF shape] shape show ?thesis by blast
qed

section \<open>What the numbers count\<close>

lemma length_filter_by_key:
  assumes "finite A" and "k ` set rows \<subseteq> A"
  shows "length (filter (\<lambda>r. P (k r)) rows) = (\<Sum>x\<in>A. if P x then length (filter (\<lambda>r. k r = x) rows) else 0)"
  using assms(2)
proof (induction rows)
  case Nil
  then show ?case by (simp add: sum.neutral)
next
  case (Cons a rows)
  have "(\<Sum>x\<in>A. if P x then length (filter (\<lambda>r. k r = x) (a # rows)) else 0) =
      (\<Sum>x\<in>A. (if x = k a then if P x then 1 else 0 else 0) + (if P x then length (filter (\<lambda>r. k r = x) rows) else 0))"
    by (intro sum.cong) auto
  also have "\<dots> = (if P (k a) then 1 else 0) + length (filter (\<lambda>r. P (k r)) rows)"
    using Cons assms(1) by (simp add: sum.distrib sum.delta)
  finally show ?case by simp
qed

lemma sum_distinct_filter:
  assumes "distinct xs"
  shows "sum_list (map f (filter P xs)) = (\<Sum>x\<in>set xs. if P x then f x else (0 :: nat))"
  using assms by (simp add: sum_list_distinct_conv_sum_set sum.inter_filter)

lemma group_count_sum:
  "sum_list (map snd (filter (\<lambda>(x, _). P x) (group_count k rows))) = length (filter (\<lambda>r. P (k r)) rows)"
proof -
  let ?n = "\<lambda>x. length (filter (\<lambda>r. k r = x) rows)"
  have "sum_list (map snd (filter (\<lambda>(x, _). P x) (group_count k rows))) =
      sum_list (map ?n (filter P (remdups (map k rows))))"
    by (simp add: group_count_def filter_map comp_def)
  also have "\<dots> = (\<Sum>x\<in>k ` set rows. if P x then ?n x else 0)"
    by (subst sum_distinct_filter) simp_all
  finally show ?thesis using length_filter_by_key[of "k ` set rows" k rows P] by simp
qed

definition kpi_states :: "job_status list" where
  "kpi_states = [Running, Queued, Completed, Failed]"

lemma ends_with_status:
  "st \<in> set kpi_states \<Longrightarrow> ends_with (q @ ''_'' @ status_text st') (CHR ''_'' # status_text st) \<longleftrightarrow> st' = st"
  by (cases st'; auto simp: kpi_states_def ends_with_def starts_with_def)

lemma depth_of_status:
  "st \<in> set kpi_states \<Longrightarrow> depth_of (status_text st)
     \<lparr>id_queued = n Queued, id_running = n Running, id_completed = n Completed, id_failed = n Failed, id_workers = w\<rparr> = n st"
  by (auto simp: kpi_states_def depth_of_def)

lemma kpi_node_part:
  assumes "st \<in> set kpi_states"
  shows "sum_list (map snd (filter (\<lambda>(k, _). ends_with k (CHR ''_'' # status_text st)) (counts_of (snapshot project d)))) =
    length (filter (\<lambda>j. in_project project (nj_project j) \<and> nj_status j = st) (node_jobs d))"
proof -
  let ?rows = "sql_select (\<lambda>j. in_project project (nj_project j)) (node_jobs d)"
  have "map snd (filter (\<lambda>(k, _). ends_with k (CHR ''_'' # status_text st)) (counts_of (snapshot project d))) =
      map snd (filter (\<lambda>(x, _). snd x = st) (group_count (\<lambda>j. (nj_queue j, nj_status j)) ?rows))"
    by (simp add: counts_of_def snapshot_def filter_map comp_def case_prod_unfold ends_with_status[OF assms] del: append.simps)
  then have "sum_list (map snd (filter (\<lambda>(k, _). ends_with k (CHR ''_'' # status_text st)) (counts_of (snapshot project d)))) =
      length (filter (\<lambda>j. nj_status j = st) ?rows)"
    using group_count_sum[of "\<lambda>x. snd x = st" "\<lambda>j. (nj_queue j, nj_status j)" ?rows] by simp
  then show ?thesis by (simp add: sql_select_def conj_commute)
qed

lemma kpi_ingest_part:
  assumes "st \<in> set kpi_states"
  shows "sum_list (map (\<lambda>(_, x). depth_of (status_text st) x) (filter (\<lambda>(q, _). \<not> dag_queue q) (ingest_snapshot project d))) =
    length (filter (\<lambda>j. in_project project (ij_project j) \<and> ij_status j = st \<and> \<not> dag_queue (ij_queue j)) (ingest_jobs d))"
proof -
  let ?jobs = "sql_select (\<lambda>j. in_project project (ij_project j)) (ingest_jobs d)"
  let ?beats = "sql_select (\<lambda>h. fresh_beat d 30 h \<and> in_project project (hb_project h)) (heartbeats d)"
  let ?qs = "remdups (map ij_queue ?jobs @ map hb_queue ?beats)"
  let ?sel = "filter (\<lambda>j. ij_status j = st) ?jobs"
  note dep = depth_of_status[OF assms, of "\<lambda>x. length (filter (\<lambda>j. ij_queue j = q \<and> ij_status j = x) ?jobs)" for q]
  have "sum_list (map (\<lambda>(_, x). depth_of (status_text st) x) (filter (\<lambda>(q, _). \<not> dag_queue q) (ingest_snapshot project d))) =
      sum_list (map (\<lambda>q. length (filter (\<lambda>j. ij_queue j = q) ?sel)) (filter (\<lambda>q. \<not> dag_queue q) ?qs))"
    by (simp add: ingest_snapshot_def Let_def filter_map comp_def dep filter_filter conj_commute)
  also have "\<dots> = (\<Sum>q\<in>set ?qs. if \<not> dag_queue q then length (filter (\<lambda>j. ij_queue j = q) ?sel) else 0)"
    by (rule sum_distinct_filter) simp
  also have "\<dots> = length (filter (\<lambda>j. \<not> dag_queue (ij_queue j)) ?sel)"
    by (rule length_filter_by_key[symmetric]) auto
  finally show ?thesis by (simp add: sql_select_def conj_ac)
qed

text \<open>
  C39. The four totals of the overview are exact: each counts the node jobs in that state, of every queue, together with
  the ingest jobs in that state whose queue is not one of the two DAG queues, all within the selected project.
\<close>

theorem kpi_totals_exact:
  assumes "st \<in> set kpi_states"
  shows "kpi_total (counts_of (snapshot project d)) (ingest_snapshot project d) (status_text st) =
    length (filter (\<lambda>j. in_project project (nj_project j) \<and> nj_status j = st) (node_jobs d)) +
    length (filter (\<lambda>j. in_project project (ij_project j) \<and> ij_status j = st \<and> \<not> dag_queue (ij_queue j)) (ingest_jobs d))"
  unfolding kpi_total_def by (simp only: kpi_node_part[OF assms] kpi_ingest_part[OF assms])

theorem kpi_totals_exact_witness:
  "kpi_total (counts_of (snapshot None demo_claimed)) (ingest_snapshot None demo_claimed) (status_text Running) = 1"
proof -
  have "Running \<in> set kpi_states" by (simp add: kpi_states_def)
  moreover have "length (filter (\<lambda>j. in_project None (nj_project j) \<and> nj_status j = Running) (node_jobs demo_claimed)) = 1"
    "length (filter (\<lambda>j. in_project None (ij_project j) \<and> ij_status j = Running \<and> \<not> dag_queue (ij_queue j))
      (ingest_jobs demo_claimed)) = 0"
    by code_simp+
  ultimately show ?thesis using kpi_totals_exact[of Running None demo_claimed] by simp
qed

section \<open>The charts\<close>

text \<open>
  An absent or zero reading lights nothing, any other between one dot and the full column, more for a higher reading,
  and the full column exactly where the reading rounds to it.
\<close>

lemma lit_rows_bounds: "0 < rows \<Longrightarrow> lit_rows v rows \<le> rows"
  by (auto simp: lit_rows_def Let_def split: option.split)

lemma lit_rows_zero_iff: "lit_rows v rows = 0 \<longleftrightarrow> (case v of None \<Rightarrow> True | Some x \<Rightarrow> x \<le> 0)"
  by (auto simp: lit_rows_def Let_def clamp100_def split: option.split)

lemma lit_rows_mono: "x \<le> y \<Longrightarrow> lit_rows (Some x) rows \<le> lit_rows (Some y) rows"
proof -
  assume "x \<le> y"
  then have c: "clamp100 x \<le> clamp100 y" "0 \<le> clamp100 x" by (auto simp: clamp100_def)
  then have "nat (round_half_even (clamp100 x * of_nat rows / 100)) \<le> nat (round_half_even (clamp100 y * of_nat rows / 100))"
    by (intro nat_mono round_half_even_mono divide_right_mono mult_right_mono) simp_all
  with c show ?thesis by (auto simp: lit_rows_def Let_def)
qed

lemma lit_rows_full: "0 < rows \<Longrightarrow> lit_rows (Some x) rows = rows" if "100 \<le> x"
proof -
  assume "0 < rows"
  moreover have "clamp100 x = 100" using that by (simp add: clamp100_def)
  moreover have "round_half_even (of_nat rows) = int rows" by (metis of_int_of_nat_eq round_half_even_of_int)
  ultimately show ?thesis by (simp add: lit_rows_def)
qed

lemma last_n_length: "0 < n \<Longrightarrow> length (last_n n xs) \<le> n"
  by (simp add: last_n_def)

text \<open>Every dot of a chart lies within its width and height.\<close>

definition chart_ok :: "chart \<Rightarrow> bool" where
  "chart_ok c \<longleftrightarrow> 1 < ch_capacity c \<and> 0 < ch_rows c \<and> 0 \<le> ch_width c \<and> 0 \<le> ch_height c"

lemma column_dots_inside:
  assumes "chart_ok c" and "(x, y, f) \<in> set (column_dots c cx v)"
  shows "x = cx \<and> 0 \<le> y \<and> y \<le> ch_height c"
proof -
  have rows: "0 < ch_rows c" "0 \<le> ch_height c" and step: "row_step c = ch_height c / of_nat (ch_rows c)"
    using assms(1) by (simp_all add: chart_ok_def row_step_def)
  have below: "(of_nat i + 1 / 2) * row_step c \<le> ch_height c" if "i < ch_rows c" for i
  proof -
    have "of_nat (Suc i) \<le> (of_nat (ch_rows c) :: rat)" using that by (simp only: of_nat_le_iff Suc_le_eq)
    then have "(of_nat i + 1 / 2 :: rat) \<le> of_nat (ch_rows c)" by simp
    then have "(of_nat i + 1 / 2) * row_step c \<le> of_nat (ch_rows c) * row_step c"
      using rows step by (intro mult_right_mono) simp_all
    with rows step show ?thesis by simp
  qed
  from step rows have "0 \<le> row_step c" by simp
  with assms(2) below lit_rows_bounds[OF rows(1), of v] below[of 0] rows show ?thesis
    by (auto simp: column_dots_def split: option.splits)
qed

lemma spark_inside:
  assumes "chart_ok c" and "(x, y, f) \<in> set (spark_dots c values)"
  shows "0 \<le> x \<and> x \<le> ch_width c \<and> 0 \<le> y \<and> y \<le> ch_height c"
proof -
  let ?vals = "last_n (ch_capacity c) values"
  have cap: "1 < ch_capacity c" "0 \<le> ch_width c" using assms(1) by (simp_all add: chart_ok_def)
  have len: "length ?vals \<le> ch_capacity c" using cap by (intro last_n_length) simp
  from assms(2) obtain i v where i: "i < length ?vals"
    and dot: "(x, y, f) \<in> set (column_dots c (of_int (int (ch_capacity c) - int (length ?vals) + int i) * col_step c) v)"
    by (auto simp: spark_dots_def Let_def in_set_enumerate_eq)
  let ?k = "ch_capacity c - length ?vals + i"
  from len have "int (ch_capacity c) - int (length ?vals) + int i = int ?k" by simp
  with column_dots_inside[OF assms(1) dot] have x: "x = of_nat ?k * col_step c" and y: "0 \<le> y" "y \<le> ch_height c"
    by (simp_all only: of_int_of_nat_eq)
  have step: "0 \<le> col_step c" "of_nat (ch_capacity c - 1) * col_step c = ch_width c"
    using cap by (simp_all add: col_step_def of_nat_diff)
  have "(of_nat ?k :: rat) \<le> of_nat (ch_capacity c - 1)" using i len by (simp only: of_nat_le_iff)
  then have "x \<le> of_nat (ch_capacity c - 1) * col_step c" unfolding x using step by (intro mult_right_mono)
  with step x y show ?thesis by simp
qed

lemma default_chart_ok: "chart_ok default_chart"
  by (simp add: chart_ok_def default_chart_def)

end
