(* ===== verification/Engine_Config.thy ===== *)
theory Engine_Config
  imports Ingest_Store Worker_Control
begin

text \<open>
  The process-wide configuration, \<^verbatim>\<open>config.py\<close> and the host entry points of \<^verbatim>\<open>__init__.py\<close>: the
  record of settings with its defaults, the two environment knobs, \<^verbatim>\<open>configure\<close> (which writes one
  argument after another and may raise in between), the setters and the registration of tasks and
  pool handlers. Callables a host injects are values of a type parameter. Sets of names are lists
  that are only searched. The laws: what \<^verbatim>\<open>configure\<close> does on success and on each refusal, an
  invariant no call can break, and what that invariant means for the queues.
\<close>

section \<open>The settings\<close>

record 'h engine_config =
  ec_db_url_env :: string
  ec_metrics_db_url_env :: "string option"
  ec_host_label_env :: string
  ec_host_priority_env :: string
  ec_ollama_url_env :: string
  ec_vllm_url_env :: string
  ec_redis_url_env :: string
  ec_mongo_url_env :: string
  ec_video_model_ids :: "string list"
  ec_vlm_pool_node_modules :: "string list"
  ec_gpu_self_load_node_modules :: "string list"
  ec_node_module_package :: string
  ec_container_prefix :: string
  ec_project :: string
  ec_llm_servers_available :: "string list"
  ec_db_backend :: string
  ec_db_namespace :: string
  ec_gpu_pool_backend :: string
  ec_gpu_pool_url_env :: string
  ec_gpu_pool_namespace :: string
  ec_gpu_pool_handlers :: "(string \<times> 'h) list"
  ec_node_resolver :: "'h option"
  ec_builtin_model_registrar :: "'h option"
  ec_workflow_loader :: "'h option"
  ec_pipeline_schema_loader :: "'h option"
  ec_resolve_ref :: "'h option"
  ec_invoke_context :: "'h option"
  ec_vllm_stop_fn :: "'h option"
  ec_vllm_start_fn :: "'h option"
  ec_cancel_orphan_queued_jobs :: bool
  ec_ingest_queues :: "string list"
  ec_ingest_default_budget_s :: int
  ec_ingest_task_map :: "(string \<times> 'h) list"
  ec_ingest_schedule :: "'h list"

text \<open>The environment knobs; a value the alias table does not list refuses to start.\<close>

definition db_backend_aliases :: "(string \<times> string) list" where
  "db_backend_aliases = [(''sqlite'', ''sqlite''), (''pg'', ''pg''), (''postgres'', ''pg''), (''postgresql'', ''pg''),
     (''redis'', ''redis''), (''mongo'', ''mongodb''), (''mongodb'', ''mongodb'')]"

definition default_db_backend :: "string option \<Rightarrow> string result" where
  "default_db_backend env =
     (case env of
        None \<Rightarrow> Inr ''sqlite''
      | Some raw \<Rightarrow>
          if raw = [] then Inr ''sqlite''
          else (case map_of db_backend_aliases raw of
                  None \<Rightarrow> Inl (ValueError ''QUEUE_WORKFLOWS_DB_BACKEND'') | Some known \<Rightarrow> Inr known))"

definition default_project :: "string option \<Rightarrow> string" where
  "default_project env = (case env of None \<Rightarrow> [] | Some p \<Rightarrow> p)"

text \<open>\<^verbatim>\<open>EngineConfig()\<close> from the two environment variables.\<close>

definition new_config :: "string option \<Rightarrow> string option \<Rightarrow> 'h engine_config result" where
  "new_config backend_env project_env =
     (case default_db_backend backend_env of
        Inl e \<Rightarrow> Inl e
      | Inr backend \<Rightarrow> Inr
          \<lparr>ec_db_url_env = ''AI_LEADS_DB_URL'', ec_metrics_db_url_env = None, ec_host_label_env = ''AI_LEADS_HOST_LABEL'',
           ec_host_priority_env = ''AI_LEADS_GPU_CONSUMER_PRIORITY'', ec_ollama_url_env = ''AI_LEADS_OLLAMA_URL'',
           ec_vllm_url_env = ''AI_LEADS_VLLM_URL'', ec_redis_url_env = ''QUEUE_WORKFLOWS_REDIS_URL'',
           ec_mongo_url_env = ''QUEUE_WORKFLOWS_MONGO_URL'', ec_video_model_ids = [], ec_vlm_pool_node_modules = [],
           ec_gpu_self_load_node_modules = [], ec_node_module_package = [], ec_container_prefix = ''ai_leads-'',
           ec_project = default_project project_env, ec_llm_servers_available = [''ollama''], ec_db_backend = backend,
           ec_db_namespace = [], ec_gpu_pool_backend = ''redis'', ec_gpu_pool_url_env = ''QUEUE_WORKFLOWS_GPU_POOL_URL'',
           ec_gpu_pool_namespace = ''gpu_pool'', ec_gpu_pool_handlers = [], ec_node_resolver = None,
           ec_builtin_model_registrar = None, ec_workflow_loader = None, ec_pipeline_schema_loader = None,
           ec_resolve_ref = None, ec_invoke_context = None, ec_vllm_stop_fn = None, ec_vllm_start_fn = None,
           ec_cancel_orphan_queued_jobs = False, ec_ingest_queues = [''fetch'', ''load''],
           ec_ingest_default_budget_s = 3600, ec_ingest_task_map = [], ec_ingest_schedule = []\<rparr>)"

section \<open>Derived accessors\<close>

text \<open>Where a node module comes from: the injected resolver, or an import of a dotted name.\<close>

datatype 'h node_source = From_resolver 'h string | Import_of string

definition resolve_node_module :: "'h engine_config \<Rightarrow> string \<Rightarrow> 'h node_source" where
  "resolve_node_module c node_module =
     (case ec_node_resolver c of
        Some h \<Rightarrow> From_resolver h node_module
      | None \<Rightarrow> Import_of (if ec_node_module_package c \<noteq> [] then ec_node_module_package c @ ''.'' @ node_module else node_module))"

definition get_resolve_ref :: "'h \<Rightarrow> 'h engine_config \<Rightarrow> 'h" where
  "get_resolve_ref builtin c = (case ec_resolve_ref c of Some h \<Rightarrow> h | None \<Rightarrow> builtin)"

section \<open>configure\<close>

record configure_args =
  ka_db_url_env :: "string option"
  ka_metrics_db_url_env :: "string option"
  ka_video_model_ids :: "string list option"
  ka_node_module_package :: "string option"
  ka_host_label_env :: "string option"
  ka_host_priority_env :: "string option"
  ka_container_prefix :: "string option"
  ka_project :: "string option"
  ka_ingest_queues :: "string list option"
  ka_ingest_default_budget_s :: "int option"
  ka_db_backend :: "string option"
  ka_db_namespace :: "string option"
  ka_cancel_orphan_queued_jobs :: "bool option"
  ka_vlm_pool_node_modules :: "string list option"
  ka_gpu_self_load_node_modules :: "string list option"
  ka_gpu_pool_backend :: "string option"
  ka_gpu_pool_url_env :: "string option"
  ka_gpu_pool_namespace :: "string option"

definition no_args :: configure_args where
  "no_args = \<lparr>ka_db_url_env = None, ka_metrics_db_url_env = None, ka_video_model_ids = None, ka_node_module_package = None,
     ka_host_label_env = None, ka_host_priority_env = None, ka_container_prefix = None, ka_project = None,
     ka_ingest_queues = None, ka_ingest_default_budget_s = None, ka_db_backend = None, ka_db_namespace = None,
     ka_cancel_orphan_queued_jobs = None, ka_vlm_pool_node_modules = None, ka_gpu_self_load_node_modules = None,
     ka_gpu_pool_backend = None, ka_gpu_pool_url_env = None, ka_gpu_pool_namespace = None\<rparr>"

text \<open>\<^verbatim>\<open>if arg is not None: cfg.field = arg\<close>, where reading the argument may raise.\<close>

definition assign :: "'a option \<Rightarrow> ('a \<Rightarrow> 'b result) \<Rightarrow> ('b \<Rightarrow> 's \<Rightarrow> 's) \<Rightarrow> ('s, unit) act" where
  "assign arg check upd s =
     (case arg of
        None \<Rightarrow> (Inr (), s)
      | Some x \<Rightarrow> (case check x of Inl e \<Rightarrow> (Inl e, s) | Inr v \<Rightarrow> (Inr (), upd v s)))"

abbreviation assign_as :: "'a option \<Rightarrow> ('a \<Rightarrow> 's \<Rightarrow> 's) \<Rightarrow> ('s, unit) act" where
  "assign_as arg upd \<equiv> assign arg Inr upd"

fun in_order :: "('s, unit) act list \<Rightarrow> ('s, unit) act" where
  "in_order [] s = (Inr (), s)"
| "in_order (m # ms) s = (case m s of (Inl e, s') \<Rightarrow> (Inl e, s') | (Inr _, s') \<Rightarrow> in_order ms s')"

definition reserved_queues :: "string list" where
  "reserved_queues = [''cpu'', ''gpu'']"

definition check_ingest_queues :: "string list \<Rightarrow> string list result" where
  "check_ingest_queues iq =
     (if list_ex (\<lambda>q. q \<in> set reserved_queues) iq then Inl (ValueError ''ingest_queues'') else Inr iq)"

definition check_db_backend :: "string \<Rightarrow> string result" where
  "check_db_backend b = (if b = ''sqlite'' then Inr ''sqlite'' else canonical_backend_name b)"

definition configure :: "configure_args \<Rightarrow> ('h engine_config, unit) act" where
  "configure a = in_order
     [assign_as (ka_db_url_env a) (\<lambda>v c. c\<lparr>ec_db_url_env := v\<rparr>),
      assign_as (ka_metrics_db_url_env a) (\<lambda>v c. c\<lparr>ec_metrics_db_url_env := Some v\<rparr>),
      assign_as (ka_video_model_ids a) (\<lambda>v c. c\<lparr>ec_video_model_ids := v\<rparr>),
      assign_as (ka_node_module_package a) (\<lambda>v c. c\<lparr>ec_node_module_package := v\<rparr>),
      assign_as (ka_host_label_env a) (\<lambda>v c. c\<lparr>ec_host_label_env := v\<rparr>),
      assign_as (ka_host_priority_env a) (\<lambda>v c. c\<lparr>ec_host_priority_env := v\<rparr>),
      assign_as (ka_container_prefix a) (\<lambda>v c. c\<lparr>ec_container_prefix := v\<rparr>),
      assign_as (ka_project a) (\<lambda>v c. c\<lparr>ec_project := v\<rparr>),
      assign (ka_ingest_queues a) check_ingest_queues (\<lambda>v c. c\<lparr>ec_ingest_queues := v\<rparr>),
      assign_as (ka_ingest_default_budget_s a) (\<lambda>v c. c\<lparr>ec_ingest_default_budget_s := v\<rparr>),
      assign (ka_db_backend a) check_db_backend (\<lambda>v c. c\<lparr>ec_db_backend := v\<rparr>),
      assign_as (ka_db_namespace a) (\<lambda>v c. c\<lparr>ec_db_namespace := v\<rparr>),
      assign_as (ka_cancel_orphan_queued_jobs a) (\<lambda>v c. c\<lparr>ec_cancel_orphan_queued_jobs := v\<rparr>),
      assign_as (ka_vlm_pool_node_modules a) (\<lambda>v c. c\<lparr>ec_vlm_pool_node_modules := v\<rparr>),
      assign_as (ka_gpu_self_load_node_modules a) (\<lambda>v c. c\<lparr>ec_gpu_self_load_node_modules := v\<rparr>),
      assign (ka_gpu_pool_backend a) canonical_backend_name (\<lambda>v c. c\<lparr>ec_gpu_pool_backend := v\<rparr>),
      assign_as (ka_gpu_pool_url_env a) (\<lambda>v c. c\<lparr>ec_gpu_pool_url_env := v\<rparr>),
      assign_as (ka_gpu_pool_namespace a) (\<lambda>v c. c\<lparr>ec_gpu_pool_namespace := v\<rparr>)]"

section \<open>Setters and registration\<close>

definition set_node_module_package :: "string \<Rightarrow> 'h engine_config \<Rightarrow> 'h engine_config" where
  "set_node_module_package package c = c\<lparr>ec_node_module_package := package\<rparr>"

definition set_node_resolver :: "'h \<Rightarrow> 'h engine_config \<Rightarrow> 'h engine_config" where
  "set_node_resolver resolver c = c\<lparr>ec_node_resolver := Some resolver\<rparr>"

definition set_builtin_model_registrar :: "'h \<Rightarrow> 'h engine_config \<Rightarrow> 'h engine_config" where
  "set_builtin_model_registrar registrar c = c\<lparr>ec_builtin_model_registrar := Some registrar\<rparr>"

definition set_workflow_provider :: "'h \<Rightarrow> 'h \<Rightarrow> 'h option \<Rightarrow> 'h engine_config \<Rightarrow> 'h engine_config" where
  "set_workflow_provider load_workflow pipeline_schema resolver c =
     (let c' = c\<lparr>ec_workflow_loader := Some load_workflow, ec_pipeline_schema_loader := Some pipeline_schema\<rparr>
      in case resolver of None \<Rightarrow> c' | Some r \<Rightarrow> c'\<lparr>ec_resolve_ref := Some r\<rparr>)"

definition set_invoke_context :: "'h \<Rightarrow> 'h engine_config \<Rightarrow> 'h engine_config" where
  "set_invoke_context factory c = c\<lparr>ec_invoke_context := Some factory\<rparr>"

definition set_llm_servers_available :: "string list \<Rightarrow> 'h engine_config \<Rightarrow> 'h engine_config" where
  "set_llm_servers_available servers c = c\<lparr>ec_llm_servers_available := servers\<rparr>"

definition set_vllm_lifecycle :: "'h \<Rightarrow> 'h \<Rightarrow> 'h engine_config \<Rightarrow> 'h engine_config" where
  "set_vllm_lifecycle stop_fn start_fn c = c\<lparr>ec_vllm_stop_fn := Some stop_fn, ec_vllm_start_fn := Some start_fn\<rparr>"

definition register_ingest_task :: "string \<Rightarrow> 'h \<Rightarrow> 'h engine_config \<Rightarrow> 'h engine_config" where
  "register_ingest_task name callable c = c\<lparr>ec_ingest_task_map := jset name callable (ec_ingest_task_map c)\<rparr>"

definition set_ingest_schedule :: "'h list \<Rightarrow> 'h engine_config \<Rightarrow> 'h engine_config" where
  "set_ingest_schedule schedule c = c\<lparr>ec_ingest_schedule := schedule\<rparr>"

definition register_pool_handler :: "string \<Rightarrow> 'h \<Rightarrow> 'h engine_config \<Rightarrow> 'h engine_config" where
  "register_pool_handler name callable c = c\<lparr>ec_gpu_pool_handlers := jset name callable (ec_gpu_pool_handlers c)\<rparr>"

text \<open>The part of the settings the queue operations read.\<close>

definition queue_settings :: "'h engine_config \<Rightarrow> config" where
  "queue_settings c =
     \<lparr>cfg_project = ec_project c, cfg_ingest_queues = ec_ingest_queues c, cfg_ingest_tasks = map fst (ec_ingest_task_map c),
      cfg_video_models = ec_video_model_ids c, cfg_ingest_budget = ec_ingest_default_budget_s c,
      cfg_vlm_pool_modules = ec_vlm_pool_node_modules c, cfg_gpu_self_load_modules = ec_gpu_self_load_node_modules c,
      cfg_cancel_orphans = ec_cancel_orphan_queued_jobs c\<rparr>"

section \<open>What configure does\<close>

lemma put_engine:
  "assign_as x1 (\<lambda>v c. c\<lparr>ec_db_url_env := v\<rparr>) c = (Inr (), c\<lparr>ec_db_url_env := given x1 (ec_db_url_env c)\<rparr>)"
  "assign_as x2 (\<lambda>v c. c\<lparr>ec_metrics_db_url_env := Some v\<rparr>) c =
     (Inr (), c\<lparr>ec_metrics_db_url_env := given (map_option Some x2) (ec_metrics_db_url_env c)\<rparr>)"
  "assign_as x3 (\<lambda>v c. c\<lparr>ec_video_model_ids := v\<rparr>) c = (Inr (), c\<lparr>ec_video_model_ids := given x3 (ec_video_model_ids c)\<rparr>)"
  "assign_as x1 (\<lambda>v c. c\<lparr>ec_node_module_package := v\<rparr>) c = (Inr (), c\<lparr>ec_node_module_package := given x1 (ec_node_module_package c)\<rparr>)"
  "assign_as x1 (\<lambda>v c. c\<lparr>ec_host_label_env := v\<rparr>) c = (Inr (), c\<lparr>ec_host_label_env := given x1 (ec_host_label_env c)\<rparr>)"
  "assign_as x1 (\<lambda>v c. c\<lparr>ec_host_priority_env := v\<rparr>) c = (Inr (), c\<lparr>ec_host_priority_env := given x1 (ec_host_priority_env c)\<rparr>)"
  "assign_as x1 (\<lambda>v c. c\<lparr>ec_container_prefix := v\<rparr>) c = (Inr (), c\<lparr>ec_container_prefix := given x1 (ec_container_prefix c)\<rparr>)"
  "assign_as x1 (\<lambda>v c. c\<lparr>ec_project := v\<rparr>) c = (Inr (), c\<lparr>ec_project := given x1 (ec_project c)\<rparr>)"
  "assign_as x4 (\<lambda>v c. c\<lparr>ec_ingest_default_budget_s := v\<rparr>) c =
     (Inr (), c\<lparr>ec_ingest_default_budget_s := given x4 (ec_ingest_default_budget_s c)\<rparr>)"
  "assign_as x1 (\<lambda>v c. c\<lparr>ec_db_namespace := v\<rparr>) c = (Inr (), c\<lparr>ec_db_namespace := given x1 (ec_db_namespace c)\<rparr>)"
  "assign_as x5 (\<lambda>v c. c\<lparr>ec_cancel_orphan_queued_jobs := v\<rparr>) c =
     (Inr (), c\<lparr>ec_cancel_orphan_queued_jobs := given x5 (ec_cancel_orphan_queued_jobs c)\<rparr>)"
  "assign_as x3 (\<lambda>v c. c\<lparr>ec_vlm_pool_node_modules := v\<rparr>) c =
     (Inr (), c\<lparr>ec_vlm_pool_node_modules := given x3 (ec_vlm_pool_node_modules c)\<rparr>)"
  "assign_as x3 (\<lambda>v c. c\<lparr>ec_gpu_self_load_node_modules := v\<rparr>) c =
     (Inr (), c\<lparr>ec_gpu_self_load_node_modules := given x3 (ec_gpu_self_load_node_modules c)\<rparr>)"
  "assign_as x1 (\<lambda>v c. c\<lparr>ec_gpu_pool_url_env := v\<rparr>) c = (Inr (), c\<lparr>ec_gpu_pool_url_env := given x1 (ec_gpu_pool_url_env c)\<rparr>)"
  "assign_as x1 (\<lambda>v c. c\<lparr>ec_gpu_pool_namespace := v\<rparr>) c = (Inr (), c\<lparr>ec_gpu_pool_namespace := given x1 (ec_gpu_pool_namespace c)\<rparr>)"
  by (simp_all add: assign_def given_def split: option.split)

text \<open>The value a checked argument asks for, or the refusal.\<close>

definition checked :: "'a option \<Rightarrow> ('a \<Rightarrow> 'b result) \<Rightarrow> 'b \<Rightarrow> 'b result" where
  "checked arg check old = (case arg of None \<Rightarrow> Inr old | Some x \<Rightarrow> check x)"

lemma assign_engine:
  "assign x check (\<lambda>v c. c\<lparr>ec_ingest_queues := v\<rparr>) c =
     (case checked x check (ec_ingest_queues c) of Inl e \<Rightarrow> (Inl e, c) | Inr v \<Rightarrow> (Inr (), c\<lparr>ec_ingest_queues := v\<rparr>))"
  "assign y check' (\<lambda>v c. c\<lparr>ec_db_backend := v\<rparr>) c =
     (case checked y check' (ec_db_backend c) of Inl e \<Rightarrow> (Inl e, c) | Inr v \<Rightarrow> (Inr (), c\<lparr>ec_db_backend := v\<rparr>))"
  "assign y check' (\<lambda>v c. c\<lparr>ec_gpu_pool_backend := v\<rparr>) c =
     (case checked y check' (ec_gpu_pool_backend c) of Inl e \<Rightarrow> (Inl e, c) | Inr v \<Rightarrow> (Inr (), c\<lparr>ec_gpu_pool_backend := v\<rparr>))"
  by (simp_all add: assign_def checked_def split: option.split)

text \<open>
  The settings after a call, all arguments written at once, in three groups that end where the code checks an
  argument: the groups before the first refusal are written, the later ones are not.
\<close>

definition put_names :: "configure_args \<Rightarrow> 'h engine_config \<Rightarrow> 'h engine_config" where
  "put_names a c = c\<lparr>ec_db_url_env := given (ka_db_url_env a) (ec_db_url_env c),
     ec_metrics_db_url_env := given (map_option Some (ka_metrics_db_url_env a)) (ec_metrics_db_url_env c),
     ec_video_model_ids := given (ka_video_model_ids a) (ec_video_model_ids c),
     ec_node_module_package := given (ka_node_module_package a) (ec_node_module_package c),
     ec_host_label_env := given (ka_host_label_env a) (ec_host_label_env c),
     ec_host_priority_env := given (ka_host_priority_env a) (ec_host_priority_env c),
     ec_container_prefix := given (ka_container_prefix a) (ec_container_prefix c),
     ec_project := given (ka_project a) (ec_project c)\<rparr>"

definition put_ingest :: "configure_args \<Rightarrow> string list \<Rightarrow> 'h engine_config \<Rightarrow> 'h engine_config" where
  "put_ingest a iq c = c\<lparr>ec_ingest_queues := iq,
     ec_ingest_default_budget_s := given (ka_ingest_default_budget_s a) (ec_ingest_default_budget_s c)\<rparr>"

definition put_store :: "configure_args \<Rightarrow> string \<Rightarrow> 'h engine_config \<Rightarrow> 'h engine_config" where
  "put_store a b c = c\<lparr>ec_db_backend := b, ec_db_namespace := given (ka_db_namespace a) (ec_db_namespace c),
     ec_cancel_orphan_queued_jobs := given (ka_cancel_orphan_queued_jobs a) (ec_cancel_orphan_queued_jobs c),
     ec_vlm_pool_node_modules := given (ka_vlm_pool_node_modules a) (ec_vlm_pool_node_modules c),
     ec_gpu_self_load_node_modules := given (ka_gpu_self_load_node_modules a) (ec_gpu_self_load_node_modules c)\<rparr>"

definition put_pool :: "configure_args \<Rightarrow> string \<Rightarrow> 'h engine_config \<Rightarrow> 'h engine_config" where
  "put_pool a b c = c\<lparr>ec_gpu_pool_backend := b, ec_gpu_pool_url_env := given (ka_gpu_pool_url_env a) (ec_gpu_pool_url_env c),
     ec_gpu_pool_namespace := given (ka_gpu_pool_namespace a) (ec_gpu_pool_namespace c)\<rparr>"

lemmas put_defs = put_names_def put_ingest_def put_store_def put_pool_def

lemma configure_groups:
  "configure a c =
     (case checked (ka_ingest_queues a) check_ingest_queues (ec_ingest_queues c) of
        Inl e \<Rightarrow> (Inl e, put_names a c)
      | Inr iq \<Rightarrow>
          (case checked (ka_db_backend a) check_db_backend (ec_db_backend c) of
             Inl e \<Rightarrow> (Inl e, put_ingest a iq (put_names a c))
           | Inr b \<Rightarrow>
               (case checked (ka_gpu_pool_backend a) canonical_backend_name (ec_gpu_pool_backend c) of
                  Inl e \<Rightarrow> (Inl e, put_store a b (put_ingest a iq (put_names a c)))
                | Inr g \<Rightarrow> (Inr (), put_pool a g (put_store a b (put_ingest a iq (put_names a c)))))))"
  by (simp add: configure_def put_engine assign_engine put_defs split: sum.split)

lemma given_given [simp]: "given x (given x y) = given x y"
  by (simp add: given_def split: option.split)

lemma checked_again: "checked x check old = Inr v \<Longrightarrow> checked x check v = Inr v"
  by (simp add: checked_def split: option.splits)

lemma checked_error: "checked x check old = Inl e \<Longrightarrow> checked x check old' = Inl e"
  by (simp add: checked_def split: option.splits)

text \<open>
  C?. \<^verbatim>\<open>configure\<close> is idempotent on every outcome: repeating a call, accepted or refused, gives the same answer and changes
  nothing more; and it changes only what it was given: an argument that is absent leaves its setting alone, so the empty
  call is the identity.
\<close>

theorem configure_idempotent:
  "configure a (snd (configure a c)) = configure a c \<and> configure no_args c = (Inr (), c)"
proof
  show "configure a (snd (configure a c)) = configure a c"
  proof (cases "checked (ka_ingest_queues a) check_ingest_queues (ec_ingest_queues c)")
    case (Inl e)
    then show ?thesis by (simp add: configure_groups put_defs)
  next
    case iq: (Inr iq)
    note iq' = checked_again[OF iq]
    show ?thesis
    proof (cases "checked (ka_db_backend a) check_db_backend (ec_db_backend c)")
      case (Inl e)
      with iq iq' show ?thesis by (simp add: configure_groups put_defs)
    next
      case b: (Inr b)
      note b' = checked_again[OF b]
      show ?thesis
      proof (cases "checked (ka_gpu_pool_backend a) canonical_backend_name (ec_gpu_pool_backend c)")
        case (Inl e)
        with iq iq' b b' show ?thesis by (simp add: configure_groups put_defs)
      next
        case (Inr g)
        with checked_again[OF Inr] iq iq' b b' show ?thesis by (simp add: configure_groups put_defs)
      qed
    qed
  qed
  show "configure no_args c = (Inr (), c)"
    by (simp add: configure_groups put_defs checked_def no_args_def given_def)
qed

text \<open>The knob and the argument agree: what the environment variable may say, \<^verbatim>\<open>configure\<close> reads the same way.\<close>

lemma env_knob_agrees:
  assumes "default_db_backend (Some raw) = Inr b" and "raw \<noteq> []"
  shows "check_db_backend raw = Inr b"
proof -
  from assms have "map_of db_backend_aliases raw = Some b"
    by (auto simp: default_db_backend_def split: option.splits)
  then have "(raw, b) \<in> set db_backend_aliases" by (rule map_of_SomeD)
  moreover have "\<forall>(r, x)\<in>set db_backend_aliases. check_db_backend r = Inr x" by code_simp
  ultimately show ?thesis by auto
qed

section \<open>What no call can break\<close>

definition config_ok :: "'h engine_config \<Rightarrow> bool" where
  "config_ok c \<longleftrightarrow> ec_db_backend c \<in> set (''sqlite'' # known_backends) \<and> ec_gpu_pool_backend c \<in> set known_backends \<and>
     (\<forall>q\<in>set (ec_ingest_queues c). q \<notin> set reserved_queues)"

lemma new_config_ok: "new_config be pe = Inr c \<Longrightarrow> config_ok c"
proof -
  assume "new_config be pe = Inr c"
  moreover from this obtain b where b: "default_db_backend be = Inr b" by (auto simp: new_config_def split: sum.splits)
  moreover have "b \<in> set (''sqlite'' # known_backends)"
  proof -
    have all: "\<forall>(r, x)\<in>set db_backend_aliases. x \<in> set (''sqlite'' # known_backends)" by code_simp
    show ?thesis
    proof (cases be)
      case (Some raw)
      with b all map_of_SomeD[of db_backend_aliases raw b] show ?thesis
        by (cases "raw = []"; cases "map_of db_backend_aliases raw") (auto simp: default_db_backend_def)
    qed (use b in \<open>simp add: default_db_backend_def\<close>)
  qed
  ultimately show ?thesis
    by (auto simp: new_config_def config_ok_def reserved_queues_def known_backends_def)
qed

lemma put_ok:
  "config_ok (put_names a c) \<longleftrightarrow> config_ok c"
  "config_ok c \<Longrightarrow> \<forall>q\<in>set iq. q \<notin> set reserved_queues \<Longrightarrow> config_ok (put_ingest a iq c)"
  "config_ok c \<Longrightarrow> b \<in> set (''sqlite'' # known_backends) \<Longrightarrow> config_ok (put_store a b c)"
  "config_ok c \<Longrightarrow> g \<in> set known_backends \<Longrightarrow> config_ok (put_pool a g c)"
  by (simp_all add: config_ok_def put_defs)

lemma configure_ok:
  assumes "config_ok c" shows "config_ok (snd (configure a c))"
proof -
  have iq: "\<forall>q\<in>set v. q \<notin> set reserved_queues"
    if "checked (ka_ingest_queues a) check_ingest_queues (ec_ingest_queues c) = Inr v" for v
    using that assms
    by (auto simp: checked_def check_ingest_queues_def config_ok_def list_ex_iff split: option.splits if_splits)
  have b: "v \<in> set (''sqlite'' # known_backends)" if "checked (ka_db_backend a) check_db_backend (ec_db_backend c) = Inr v" for v
    using that assms
    by (auto simp: checked_def check_db_backend_def config_ok_def dest: conjunct2[OF canonical_idem] split: option.splits if_splits)
  have g: "v \<in> set known_backends" if "checked (ka_gpu_pool_backend a) canonical_backend_name (ec_gpu_pool_backend c) = Inr v" for v
    using that assms by (auto simp: checked_def config_ok_def dest: conjunct2[OF canonical_idem] split: option.splits)
  have names: "config_ok (put_names a c)" using assms by (simp only: put_ok)
  show ?thesis
  proof (cases "checked (ka_ingest_queues a) check_ingest_queues (ec_ingest_queues c)")
    case (Inl e)
    with names show ?thesis by (simp add: configure_groups)
  next
    case v: (Inr v)
    note ingest = put_ok(2)[OF names iq[OF v], of a]
    show ?thesis
    proof (cases "checked (ka_db_backend a) check_db_backend (ec_db_backend c)")
      case (Inl e)
      with v ingest show ?thesis by (simp add: configure_groups)
    next
      case w: (Inr w)
      note store = put_ok(3)[OF ingest b[OF w], of a]
      show ?thesis
      proof (cases "checked (ka_gpu_pool_backend a) canonical_backend_name (ec_gpu_pool_backend c)")
        case (Inl e)
        with v w store show ?thesis by (simp add: configure_groups)
      next
        case (Inr u)
        with v w put_ok(4)[OF store g[OF Inr], of a] show ?thesis by (simp add: configure_groups)
      qed
    qed
  qed
qed

text \<open>Every entry point a host has, as one step.\<close>

datatype 'h config_op =
    Configure configure_args
  | Node_package string
  | Node_resolver 'h
  | Model_registrar 'h
  | Workflow_provider 'h 'h "'h option"
  | Invoke_context 'h
  | Llm_servers "string list"
  | Vllm_lifecycle 'h 'h
  | Ingest_task string 'h
  | Ingest_schedule "'h list"
  | Pool_handler string 'h

fun config_step :: "'h config_op \<Rightarrow> 'h engine_config \<Rightarrow> 'h engine_config" where
  "config_step (Configure a) c = snd (configure a c)"
| "config_step (Node_package p) c = set_node_module_package p c"
| "config_step (Node_resolver h) c = set_node_resolver h c"
| "config_step (Model_registrar h) c = set_builtin_model_registrar h c"
| "config_step (Workflow_provider l p r) c = set_workflow_provider l p r c"
| "config_step (Invoke_context h) c = set_invoke_context h c"
| "config_step (Llm_servers xs) c = set_llm_servers_available xs c"
| "config_step (Vllm_lifecycle f g) c = set_vllm_lifecycle f g c"
| "config_step (Ingest_task n h) c = register_ingest_task n h c"
| "config_step (Ingest_schedule xs) c = set_ingest_schedule xs c"
| "config_step (Pool_handler n h) c = register_pool_handler n h c"

lemmas setter_defs = set_node_module_package_def set_node_resolver_def set_builtin_model_registrar_def
  set_workflow_provider_def set_invoke_context_def set_llm_servers_available_def set_vllm_lifecycle_def
  register_ingest_task_def set_ingest_schedule_def register_pool_handler_def

lemma config_step_ok: "config_ok c \<Longrightarrow> config_ok (config_step op c)"
  by (cases op) (simp_all add: configure_ok, simp_all add: config_ok_def setter_defs Let_def split: option.split)

lemma config_steps_ok: "config_ok c \<Longrightarrow> config_ok (fold config_step ops c)"
  by (induction ops arbitrary: c) (simp_all add: config_step_ok)

text \<open>
  C16. The two DAG queues are closed to ingest work for good: whatever a host does with the configuration after start-up,
  with refused calls along the way, an ingest job addressed to \<^verbatim>\<open>cpu\<close> or \<^verbatim>\<open>gpu\<close> is refused and writes nothing, in the
  relational store and through every backend alike; and the store the process talks to is always one that exists.
\<close>

theorem dag_queues_closed_to_ingest:
  assumes "new_config backend_env project_env = Inr c0" and "c = fold config_step ops c0" and "ia_queue a \<in> set reserved_queues"
  shows "enqueue_ingest_job (queue_settings c) a d = (Inl (ValueError ''ingest queue''), d) \<and>
    store_enqueue (ec_db_backend c) (queue_settings c) be a uuid st = (Inl (ValueError ''ingest queue''), st) \<and>
    ec_db_backend c \<in> set (''sqlite'' # known_backends)"
proof -
  from assms have ok: "config_ok c" by (simp add: new_config_ok config_steps_ok)
  with assms(3) have no: "ia_queue a \<notin> set (cfg_ingest_queues (queue_settings c))"
    by (auto simp: config_ok_def queue_settings_def)
  then have "enqueue_ingest_job (queue_settings c) a d' = (Inl (ValueError ''ingest queue''), d')" for d'
    by (simp add: enqueue_ingest_job_def)
  with no ok show ?thesis
    by (auto simp: store_enqueue_def on_db_def validate_ingest_def config_ok_def)
qed

definition demo_config :: "nat engine_config" where
  "demo_config = (case new_config (Some ''postgres'') None of Inr c \<Rightarrow> c)"

definition demo_refused_call :: "nat config_op" where
  "demo_refused_call = Configure (no_args\<lparr>ka_project := Some ''p'', ka_ingest_queues := Some [''cpu'', ''fetch'']\<rparr>)"

definition demo_cpu_ingest :: ingest_args where
  "demo_cpu_ingest = \<lparr>ia_task = ''sync'', ia_queue = ''cpu'', ia_reason = ''tick'', ia_priority = 0, ia_args = [], ia_project = None\<rparr>"

theorem dag_queues_closed_to_ingest_witness:
  "\<exists>c. c = fold config_step [Ingest_task ''sync'' 1, demo_refused_call] demo_config \<and> ec_project c = ''p'' \<and>
     enqueue_ingest_job (queue_settings c) demo_cpu_ingest empty_db = (Inl (ValueError ''ingest queue''), empty_db)"
proof -
  let ?c = "fold config_step [Ingest_task ''sync'' 1, demo_refused_call] demo_config"
  have "new_config (Some ''postgres'') None = Inr demo_config"
    by (simp add: demo_config_def new_config_def default_db_backend_def db_backend_aliases_def)
  moreover have "ia_queue demo_cpu_ingest \<in> set reserved_queues" by (simp add: demo_cpu_ingest_def reserved_queues_def)
  ultimately have "enqueue_ingest_job (queue_settings ?c) demo_cpu_ingest empty_db = (Inl (ValueError ''ingest queue''), empty_db)"
    using dag_queues_closed_to_ingest[of "Some ''postgres''" None demo_config ?c] by blast
  moreover have "ec_project ?c = ''p''" by code_simp
  ultimately show ?thesis by blast
qed

end
