(* ===== verification/Migrations.thy ===== *)
theory Migrations
  imports Polling "HOL-Library.Multiset"
begin

text \<open>
  \<^verbatim>\<open>db.py\<close>: the migration runner (\<^verbatim>\<open>bootstrap\<close>, \<^verbatim>\<open>downgrade\<close>, the version ledger), the wait for a schema that
  another process applies, the reconnecting LISTEN loop, the literal splitter of the SQLite translator and
  the SQLite path of a DSN. A migration directory is the list of its files with their text; what a script
  does to the schema is the database's business and is a parameter that may raise, leaving what it did so far.

  On PostgreSQL the whole chain is one transaction. On SQLite \<^verbatim>\<open>executescript\<close> commits the open transaction
  first, so the scripts and the ledger rows after it are committed one by one and nothing is undone.
\<close>

section \<open>Migration files\<close>

type_synonym migration_dir = "(string \<times> string) list"

text \<open>\<^verbatim>\<open>path.stem.split("_", 1)[0]\<close> of a file that ends in \<^verbatim>\<open>.sql\<close>, and its \<^verbatim>\<open>int\<close>.\<close>

definition file_version :: "string \<Rightarrow> int result" where
  "file_version name =
     (case py_int (takeWhile (\<lambda>c. c \<noteq> CHR ''_'') (take (length name - length ''.sql'') name)) of
        None \<Rightarrow> Inl (ValueError ''int'') | Some n \<Rightarrow> Inr n)"

fun with_versions :: "migration_dir \<Rightarrow> (int \<times> string) list result" where
  "with_versions [] = Inr []"
| "with_versions ((name, sql) # fs) =
     (case file_version name of
        Inl e \<Rightarrow> Inl e
      | Inr n \<Rightarrow> (case with_versions fs of Inl e \<Rightarrow> Inl e | Inr ms \<Rightarrow> Inr ((n, sql) # ms)))"

definition forward_migrations :: "migration_dir \<Rightarrow> (int \<times> string) list result" where
  "forward_migrations dir =
     with_versions (filter (\<lambda>(name, _). \<not> suffix ''.down.sql'' name \<and> name \<noteq> ''schema.sql'')
       (sort_key fst (filter (\<lambda>(name, _). suffix ''.sql'' name) dir)))"

definition down_migration :: "migration_dir \<Rightarrow> int \<Rightarrow> string option result" where
  "down_migration dir version =
     (case with_versions (filter (\<lambda>(name, _). suffix ''.down.sql'' name) dir) of
        Inl e \<Rightarrow> Inl e
      | Inr ms \<Rightarrow>
          (case filter (\<lambda>(n, _). n = version) ms of
             [] \<Rightarrow> Inr None
           | [(_, sql)] \<Rightarrow> Inr (Some sql)
           | _ \<Rightarrow> Inl (RuntimeError ''multiple down files'')))"

definition is_letter :: "char \<Rightarrow> bool" where
  "is_letter c \<longleftrightarrow> (let n = of_char c :: nat in 65 \<le> n \<and> n \<le> 90 \<or> 97 \<le> n \<and> n \<le> 122)"

text \<open>\<^verbatim>\<open>^[A-Za-z_][A-Za-z0-9_]*$\<close>: \<^verbatim>\<open>$\<close> also matches before a final newline.\<close>

definition ident_re :: "string \<Rightarrow> bool" where
  "ident_re name \<longleftrightarrow>
     (let s = (if name \<noteq> [] \<and> last name = CHR 0x0A then butlast name else name)
      in s \<noteq> [] \<and> (is_letter (hd s) \<or> hd s = CHR ''_'') \<and>
         list_all (\<lambda>c. is_letter c \<or> is_digit c \<or> c = CHR ''_'') s)"

definition check_identifier :: "string \<Rightarrow> string result" where
  "check_identifier name = (if ident_re name then Inr name else Inl (ValueError ''version_table''))"

section \<open>The ledger\<close>

record 's schema_db =
  sd_ledgers :: "string \<Rightarrow> int list option"
  sd_schema :: 's

definition ledger :: "'s schema_db \<Rightarrow> string \<Rightarrow> int list" where
  "ledger d tbl = (case sd_ledgers d tbl of None \<Rightarrow> [] | Some vs \<Rightarrow> vs)"

definition applied_versions :: "string \<Rightarrow> 's schema_db \<Rightarrow> int list" where
  "applied_versions tbl d = sort (ledger d tbl)"

definition create_ledger :: "string \<Rightarrow> 's schema_db \<Rightarrow> 's schema_db" where
  "create_ledger tbl d = d\<lparr>sd_ledgers := (sd_ledgers d)(tbl \<mapsto> ledger d tbl)\<rparr>"

definition current_schema_version :: "string \<Rightarrow> 's schema_db \<Rightarrow> int result" where
  "current_schema_version tbl d =
     (case check_identifier tbl of
        Inl e \<Rightarrow> Inl e
      | Inr _ \<Rightarrow> Inr (case sd_ledgers d tbl of
                        None \<Rightarrow> 0 | Some vs \<Rightarrow> if vs = [] then 0 else Max (set vs)))"

section \<open>Forward and back\<close>

definition apply_migration :: "(string \<Rightarrow> ('s, unit) act) \<Rightarrow> string \<Rightarrow> int \<times> string \<Rightarrow> ('s schema_db, unit) act" where
  "apply_migration run tbl m d =
     (case m of (n, sql) \<Rightarrow>
        (case run sql (sd_schema d) of
           (Inl e, s) \<Rightarrow> (Inl e, d\<lparr>sd_schema := s\<rparr>)
         | (Inr _, s) \<Rightarrow>
             if n \<in> set (ledger d tbl) then (Inl UniqueViolation, d\<lparr>sd_schema := s\<rparr>)
             else (Inr (), d\<lparr>sd_schema := s, sd_ledgers := (sd_ledgers d)(tbl \<mapsto> ledger d tbl @ [n])\<rparr>)))"

definition bootstrap ::
  "bool \<Rightarrow> (string \<Rightarrow> ('s, unit) act) \<Rightarrow> migration_dir \<Rightarrow> string \<Rightarrow> ('s schema_db, unit) act" where
  "bootstrap sqlite run dir tbl d =
     (case check_identifier tbl of
        Inl e \<Rightarrow> (Inl e, d)
      | Inr _ \<Rightarrow>
          (case forward_migrations dir of
             Inl e \<Rightarrow> (Inl e, d)
           | Inr ms \<Rightarrow>
               let d1 = create_ledger tbl d;
                   applied = set (applied_versions tbl d1)
               in case for_each (apply_migration run tbl) (filter (\<lambda>(n, _). n \<notin> applied) ms) d1 of
                    (Inl e, d2) \<Rightarrow> (Inl e, if sqlite then d2 else d)
                  | (Inr _, d2) \<Rightarrow> (Inr (), d2)))"

definition revert_migration ::
  "(string \<Rightarrow> ('s, unit) act) \<Rightarrow> migration_dir \<Rightarrow> string \<Rightarrow> int \<Rightarrow> ('s schema_db, unit) act" where
  "revert_migration run dir tbl version d =
     (case down_migration dir version of
        Inl e \<Rightarrow> (Inl e, d)
      | Inr None \<Rightarrow> (Inl (RuntimeError ''cannot revert''), d)
      | Inr (Some sql) \<Rightarrow>
          (case run sql (sd_schema d) of
             (Inl e, s) \<Rightarrow> (Inl e, d\<lparr>sd_schema := s\<rparr>)
           | (Inr _, s) \<Rightarrow>
               (Inr (), d\<lparr>sd_schema := s,
                  sd_ledgers := (sd_ledgers d)(tbl \<mapsto> filter (\<lambda>v. v \<noteq> version) (ledger d tbl))\<rparr>)))"

definition downgrade ::
  "bool \<Rightarrow> (string \<Rightarrow> ('s, unit) act) \<Rightarrow> migration_dir \<Rightarrow> string \<Rightarrow> int \<Rightarrow> ('s schema_db, int list) act" where
  "downgrade sqlite run dir tbl to_version d =
     (case check_identifier tbl of
        Inl e \<Rightarrow> (Inl e, d)
      | Inr _ \<Rightarrow>
          (case sd_ledgers d tbl of
             None \<Rightarrow> (Inr [], d)
           | Some _ \<Rightarrow>
               let reverted = takeWhile (\<lambda>v. \<not> v \<le> to_version) (rev (applied_versions tbl d))
               in case for_each (revert_migration run dir tbl) reverted d of
                    (Inl e, d2) \<Rightarrow> (Inl e, if sqlite then d2 else d)
                  | (Inr _, d2) \<Rightarrow> (Inr reverted, d2)))"

section \<open>Waiting and listening\<close>

definition schema_probe :: "('w, int) act \<Rightarrow> int \<Rightarrow> ('w, int option) act" where
  "schema_probe current min_version w =
     (case current w of
        (Inl e, w') \<Rightarrow> (Inl e, w')
      | (Inr v, w') \<Rightarrow> (Inr (if v \<ge> min_version then Some v else None), w'))"

definition wait_for_schema ::
  "('w, int) act \<Rightarrow> ('w \<Rightarrow> real) \<Rightarrow> (real \<Rightarrow> 'w \<Rightarrow> 'w) \<Rightarrow> int \<Rightarrow> real \<Rightarrow> real \<Rightarrow> 'w \<Rightarrow> (int result \<times> 'w) option" where
  "wait_for_schema current clock sleep min_version timeout poll w =
     poll_until (schema_probe current min_version) clock (sleep poll) (OtherError ''TimeoutError'')
       (clock w + timeout) w"

text \<open>
  One round of \<^verbatim>\<open>listen_with_reconnect\<close>, as the environment decides it: whether the stop event is set at
  the head of the loop, how the connection ends, and whether the event is set during the backoff.
  \<open>Refused\<close> is an \<^verbatim>\<open>OperationalError\<close> before the \<^verbatim>\<open>LISTEN\<close>, \<open>Severed\<close> one out of the body.
\<close>

datatype attempt = Refused | Severed | Returned | Crashed py_error

record listen_round =
  lr_stopped :: bool
  lr_attempt :: attempt
  lr_stop_in_wait :: bool

datatype listen_end = Ended | Raised py_error | Still_running real

fun listen_with_reconnect :: "real \<Rightarrow> real \<Rightarrow> real \<Rightarrow> listen_round list \<Rightarrow> real list \<times> listen_end" where
  "listen_with_reconnect base_s max_s backoff [] = ([], Still_running backoff)"
| "listen_with_reconnect base_s max_s backoff (r # rs) =
     (if lr_stopped r then ([], Ended)
      else case lr_attempt r of
             Returned \<Rightarrow> ([], Ended)
           | Crashed e \<Rightarrow> ([], Raised e)
           | failed \<Rightarrow>
               let b = (if failed = Severed then base_s else backoff)
               in if lr_stop_in_wait r then ([b], Ended)
                  else case listen_with_reconnect base_s max_s (min (b * 2) max_s) rs of
                         (waits, res) \<Rightarrow> (b # waits, res))"

section \<open>SQLite\<close>

definition sqlite_prefix :: string where
  "sqlite_prefix = ''sqlite://''"

definition lstrip_slash :: "string \<Rightarrow> string" where
  "lstrip_slash s = dropWhile (\<lambda>c. c = CHR ''/'') s"

definition sqlite_path :: "string option \<Rightarrow> string result" where
  "sqlite_path dsn =
     (let raw = (case dsn of None \<Rightarrow> [] | Some s \<Rightarrow> py_strip s)
      in if raw = [] then Inl (RuntimeError ''DSN is not set'')
         else if raw = '':memory:'' then Inr raw
         else if starts_with raw sqlite_prefix
         then let rest = drop (length sqlite_prefix) raw
              in Inr (if starts_with rest ''///'' then drop 1 rest
                      else if starts_with rest ''//'' then lstrip_slash rest
                      else if rest = [] then '':memory:'' else rest)
         else Inr raw)"

text \<open>
  \<^verbatim>\<open>_split_sql_literals\<close>: the scanner with its buffer (reversed) and its flag. A doubled quote inside a
  literal is an escaped quote.
\<close>

definition flush :: "bool \<Rightarrow> string \<Rightarrow> (bool \<times> string) list" where
  "flush lit buf = (if buf = [] then [] else [(lit, rev buf)])"

fun split_from :: "bool \<Rightarrow> string \<Rightarrow> string \<Rightarrow> (bool \<times> string) list" where
  "split_from in_str buf [] = flush in_str buf"
| "split_from False buf (c # cs) =
     (if c = CHR 0x27 then flush False buf @ split_from True [c] cs
      else split_from False (c # buf) cs)"
| "split_from True buf (c # cs) =
     (if c = CHR 0x27
      then (case cs of
              c' # cs' \<Rightarrow>
                if c' = CHR 0x27 then split_from True (c' # c # buf) cs'
                else (True, rev (c # buf)) # split_from False [] cs
            | [] \<Rightarrow> [(True, rev (c # buf))])
      else split_from True (c # buf) cs)"

definition split_sql_literals :: "string \<Rightarrow> (bool \<times> string) list" where
  "split_sql_literals sql = split_from False [] sql"

text \<open>
  \<^verbatim>\<open>_sqlite_connection\<close>: one shared connection. The outermost block begins, commits and rolls back;
  a nested block joins the transaction.
\<close>

record 'd sqlite_conn =
  sc_depth :: nat
  sc_committed :: 'd
  sc_current :: 'd

definition sqlite_connection :: "('d sqlite_conn, 'a) act \<Rightarrow> ('d sqlite_conn, 'a) act" where
  "sqlite_connection body s =
     (let outer = (sc_depth s = 0)
      in case body (s\<lparr>sc_depth := sc_depth s + 1\<rparr>) of
           (Inl e, s') \<Rightarrow>
             (Inl e, (if outer then s'\<lparr>sc_current := sc_committed s'\<rparr> else s')\<lparr>sc_depth := sc_depth s' - 1\<rparr>)
         | (Inr x, s') \<Rightarrow>
             (Inr x, (if outer then s'\<lparr>sc_committed := sc_current s'\<rparr> else s')\<lparr>sc_depth := sc_depth s' - 1\<rparr>))"

section \<open>The runner\<close>

lemma ledger_simps [simp]:
  "ledger (d\<lparr>sd_schema := s\<rparr>) t = ledger d t"
  "ledger (d\<lparr>sd_ledgers := (sd_ledgers d)(tbl \<mapsto> vs)\<rparr>) t = (if t = tbl then vs else ledger d t)"
  "ledger (d\<lparr>sd_schema := s, sd_ledgers := (sd_ledgers d)(tbl \<mapsto> vs)\<rparr>) t = (if t = tbl then vs else ledger d t)"
  by (simp_all add: ledger_def)

lemma set_ledger_id: "sd_ledgers d tbl \<noteq> None \<Longrightarrow> d\<lparr>sd_ledgers := (sd_ledgers d)(tbl \<mapsto> ledger d tbl)\<rparr> = d"
  by (cases d) (auto simp: ledger_def fun_upd_triv)

lemma ledger_create [simp]: "ledger (create_ledger tbl d) t = ledger d t" "sd_schema (create_ledger tbl d) = sd_schema d"
  "t \<noteq> tbl \<Longrightarrow> sd_ledgers (create_ledger tbl d) t = sd_ledgers d t" "sd_ledgers (create_ledger tbl d) tbl \<noteq> None"
  by (simp_all add: create_ledger_def)

lemma create_ledger_id: "sd_ledgers d tbl \<noteq> None \<Longrightarrow> create_ledger tbl d = d"
  unfolding create_ledger_def by (rule set_ledger_id)

text \<open>A chain that goes through: the scripts ran in order and every version is recorded.\<close>

lemma apply_chain:
  assumes "for_each (apply_migration run tbl) ms d = (Inr (), d')"
  shows "ledger d' tbl = ledger d tbl @ map fst ms" and "distinct (ledger d tbl) \<Longrightarrow> distinct (ledger d' tbl)"
    and "for_each (\<lambda>m. run (snd m)) ms (sd_schema d) = (Inr (), sd_schema d')"
    and "t \<noteq> tbl \<Longrightarrow> sd_ledgers d' t = sd_ledgers d t"
    and "sd_ledgers d tbl \<noteq> None \<Longrightarrow> sd_ledgers d' tbl \<noteq> None"
proof -
  have "ledger d' tbl = ledger d tbl @ map fst ms \<and> (distinct (ledger d tbl) \<longrightarrow> distinct (ledger d' tbl)) \<and>
    for_each (\<lambda>m. run (snd m)) ms (sd_schema d) = (Inr (), sd_schema d') \<and>
    (\<forall>t. t \<noteq> tbl \<longrightarrow> sd_ledgers d' t = sd_ledgers d t) \<and> (sd_ledgers d tbl \<noteq> None \<longrightarrow> sd_ledgers d' tbl \<noteq> None)"
    using assms
  proof (induction ms arbitrary: d)
    case (Cons m ms)
    obtain n sql where m: "m = (n, sql)" by fastforce
    from Cons.prems m obtain u s where r: "run sql (sd_schema d) = (Inr u, s)" and n: "n \<notin> set (ledger d tbl)"
      by (auto simp: apply_migration_def split: prod.splits sum.splits if_splits)
    let ?d = "d\<lparr>sd_schema := s, sd_ledgers := (sd_ledgers d)(tbl \<mapsto> ledger d tbl @ [n])\<rparr>"
    have "for_each (apply_migration run tbl) ms ?d = (Inr (), d')"
      using Cons.prems by (simp add: m r n apply_migration_def[of run tbl "(n, sql)"])
    note ih = Cons.IH[OF this]
    have "distinct (ledger d tbl) \<longrightarrow> distinct (ledger d' tbl)"
      using conjunct1[OF conjunct2[OF ih]] n by simp
    with ih show ?case by (simp add: m r)
  qed simp
  then show "ledger d' tbl = ledger d tbl @ map fst ms" "distinct (ledger d tbl) \<Longrightarrow> distinct (ledger d' tbl)"
    "for_each (\<lambda>m. run (snd m)) ms (sd_schema d) = (Inr (), sd_schema d')"
    "t \<noteq> tbl \<Longrightarrow> sd_ledgers d' t = sd_ledgers d t"
    "sd_ledgers d tbl \<noteq> None \<Longrightarrow> sd_ledgers d' tbl \<noteq> None" by blast+
qed

lemma bootstrap_ok:
  assumes "bootstrap sqlite run dir tbl d = (Inr (), d')"
  obtains ms where "ident_re tbl" and "forward_migrations dir = Inr ms"
    and "for_each (apply_migration run tbl) (filter (\<lambda>(n, _). n \<notin> set (ledger d tbl)) ms) (create_ledger tbl d) = (Inr (), d')"
  using assms
  by (auto simp: bootstrap_def Let_def check_identifier_def applied_versions_def split: if_splits sum.splits prod.splits)

lemma bootstrap_nothing_pending:
  assumes "ident_re tbl" and "forward_migrations dir = Inr ms" and "fst ` set ms \<subseteq> set (ledger d tbl)"
    and "sd_ledgers d tbl \<noteq> None"
  shows "bootstrap sqlite run dir tbl d = (Inr (), d)"
proof -
  have "filter (\<lambda>(n, _). n \<notin> set (ledger d tbl)) ms = []"
    using assms(3) by (force simp: filter_empty_conv)
  with assms show ?thesis
    by (simp add: bootstrap_def check_identifier_def applied_versions_def Let_def create_ledger_id)
qed

text \<open>Scripts that undo each other, run back to back.\<close>

definition undoes :: "(string \<Rightarrow> ('s, unit) act) \<Rightarrow> string \<Rightarrow> string \<Rightarrow> bool" where
  "undoes run down up \<longleftrightarrow> (\<forall>s s'. run up s = (Inr (), s') \<longrightarrow> run down s' = (Inr (), s))"

lemma for_each_append: "for_each f (xs @ ys) s =
    (case for_each f xs s of (Inl e, s') \<Rightarrow> (Inl e, s') | (Inr _, s') \<Rightarrow> for_each f ys s')"
  by (induction xs arbitrary: s) (auto split: prod.splits sum.splits)

lemma revert_chain:
  assumes "for_each (apply_migration run tbl) ms d = (Inr (), d')" and "sd_ledgers d tbl = Some vs"
    and "\<And>n up. (n, up) \<in> set ms \<Longrightarrow> \<exists>down. down_migration dir n = Inr (Some down) \<and> undoes run down up"
  shows "for_each (revert_migration run dir tbl) (rev (map fst ms)) d' = (Inr (), d)"
  using assms
proof (induction ms arbitrary: d' rule: rev_induct)
  case (snoc m ms)
  obtain n sql where m: "m = (n, sql)" by fastforce
  from snoc.prems(1) obtain d1 where d1: "for_each (apply_migration run tbl) ms d = (Inr (), d1)"
    and one: "apply_migration run tbl m d1 = (Inr (), d')"
    by (auto simp: for_each_append split: prod.splits sum.splits)
  from one m obtain s where s: "run sql (sd_schema d1) = (Inr (), s)" and n: "n \<notin> set (ledger d1 tbl)"
    and d': "d' = d1\<lparr>sd_schema := s, sd_ledgers := (sd_ledgers d1)(tbl \<mapsto> ledger d1 tbl @ [n])\<rparr>"
    by (auto simp: apply_migration_def split: prod.splits sum.splits if_splits)
  from snoc.prems(3)[of n sql] m obtain down where down: "down_migration dir n = Inr (Some down)" "undoes run down sql"
    by auto
  have "sd_ledgers d1 tbl \<noteq> None" using apply_chain(5)[OF d1] snoc.prems(2) by simp
  moreover have "filter (\<lambda>v. v \<noteq> n) (ledger d1 tbl) = ledger d1 tbl" using n by (auto simp: filter_id_conv)
  ultimately have "revert_migration run dir tbl n d' = (Inr (), d1\<lparr>sd_ledgers := (sd_ledgers d1)(tbl \<mapsto> ledger d1 tbl)\<rparr>)"
    using s n d' down by (simp add: revert_migration_def undoes_def)
  also have "\<dots> = (Inr (), d1)" using \<open>sd_ledgers d1 tbl \<noteq> None\<close> by (simp add: set_ledger_id)
  finally have "revert_migration run dir tbl n d' = (Inr (), d1)" .
  with snoc.IH[OF d1 snoc.prems(2)] snoc.prems(3) m show ?case by auto
qed simp

section \<open>Listening\<close>

text \<open>The backoff stays between its bounds; a run of refusals doubles it up to the ceiling.\<close>

lemma backoff_bounds:
  assumes "0 < base_s" and "base_s \<le> max_s" and "base_s \<le> backoff" and "backoff \<le> max_s"
  shows "\<forall>b \<in> set (fst (listen_with_reconnect base_s max_s backoff rs)). base_s \<le> b \<and> b \<le> max_s"
  using assms(3,4)
proof (induction rs arbitrary: backoff)
  case (Cons r rs)
  have next_ok: "\<forall>b \<in> set (fst (listen_with_reconnect base_s max_s (min (x * 2) max_s) rs)). base_s \<le> b \<and> b \<le> max_s"
    if "base_s \<le> x" for x
    using that assms(1,2) by (intro Cons.IH) simp_all
  show ?case
  proof (cases "lr_attempt r")
    case Refused
    then show ?thesis using next_ok[of backoff] Cons.prems by (simp add: case_prod_unfold)
  next
    case Severed
    then show ?thesis using next_ok[of base_s] assms(2) by (simp add: case_prod_unfold)
  qed simp_all
qed simp

lemma backoff_doubles:
  assumes "0 < backoff" and "backoff \<le> max_s"
  shows "fst (listen_with_reconnect base_s max_s backoff
      (replicate n \<lparr>lr_stopped = False, lr_attempt = Refused, lr_stop_in_wait = False\<rparr>)) =
    map (\<lambda>i. min (backoff * 2 ^ i) max_s) [0..<n]"
  using assms
proof (induction n arbitrary: backoff)
  case (Suc n)
  have "min (min (backoff * 2) max_s * 2 ^ i) max_s = min (backoff * 2 ^ Suc i) max_s" for i
  proof (cases "backoff * 2 \<le> max_s")
    case False
    have "max_s * 1 \<le> max_s * 2 ^ i" using Suc.prems by (intro mult_left_mono) simp_all
    moreover have "max_s * 2 ^ i \<le> backoff * 2 * 2 ^ i" using False by (intro mult_right_mono) simp_all
    ultimately have "max_s \<le> backoff * 2 * 2 ^ i" by linarith
    then have "max_s \<le> backoff * 2 ^ Suc i" by (simp add: mult.assoc)
    with False \<open>max_s * 1 \<le> max_s * 2 ^ i\<close> show ?thesis by simp
  qed (simp add: mult.assoc)
  with Suc.IH[of "min (backoff * 2) max_s"] Suc.prems show ?case
    by (simp add: upt_conv_Cons map_Suc_upt[symmetric] case_prod_unfold del: upt_Suc map_Suc_upt)
qed simp

section \<open>The wait for a schema\<close>

lemma schema_probe_found:
  "schema_probe current min_version w = (Inr (Some v), w') \<longleftrightarrow> current w = (Inr v, w') \<and> min_version \<le> v"
  by (cases "current w"; cases "fst (current w)") (auto simp: schema_probe_def)

lemma schema_probe_world [simp]: "snd (schema_probe current min_version w) = snd (current w)"
  by (simp add: schema_probe_def split: prod.split sum.split)

lemma wait_for_schema_result:
  assumes "wait_for_schema current clock sleep min_version timeout poll w = Some (Inr v, w')"
  shows "min_version \<le> v \<and> (\<exists>w0. current w0 = (Inr v, w'))"
  using poll_until_result[OF assms[unfolded wait_for_schema_def]] by (auto simp: schema_probe_found)

lemma wait_for_schema_returns:
  assumes "\<And>w. clock w \<le> clock (snd (current w))" and "\<And>w. clock w + poll \<le> clock (sleep poll w)" and "0 < poll"
  shows "\<exists>x. wait_for_schema current clock sleep min_version timeout poll w = Some x"
  unfolding wait_for_schema_def
  by (rule poll_until_returns[where d = poll]) (simp_all add: assms)

section \<open>Nested SQLite blocks\<close>

text \<open>A body that leaves the transaction alone: nested blocks are such bodies again.\<close>

definition joins :: "('d sqlite_conn, 'a) act \<Rightarrow> bool" where
  "joins body \<longleftrightarrow> (\<forall>s r t. body s = (r, t) \<longrightarrow> sc_depth s > 0 \<longrightarrow>
     sc_depth t = sc_depth s \<and> sc_committed t = sc_committed s)"

lemma joinsD: "joins body \<Longrightarrow> body s = (r, t) \<Longrightarrow> sc_depth s > 0 \<Longrightarrow>
    sc_depth t = sc_depth s \<and> sc_committed t = sc_committed s"
  unfolding joins_def by blast

lemma joins_nested:
  assumes "joins body"
  shows "joins (sqlite_connection body)"
  unfolding joins_def
proof (intro allI impI)
  fix s :: "'a sqlite_conn" and r t
  assume c: "sqlite_connection body s = (r, t)" and d: "sc_depth s > 0"
  obtain q u where b: "body (s\<lparr>sc_depth := sc_depth s + 1\<rparr>) = (q, u)" by fastforce
  from joinsD[OF assms b] have "sc_depth u = sc_depth s + 1" "sc_committed u = sc_committed s" by simp_all
  with c b d show "sc_depth t = sc_depth s \<and> sc_committed t = sc_committed s"
    by (cases q) (auto simp: sqlite_connection_def)
qed

text \<open>The outermost block is all or nothing, whatever it nests.\<close>

lemma sqlite_block_atomic:
  assumes "joins body" and "sc_depth s = 0" and "sc_current s = sc_committed s"
    and "sqlite_connection body s = (r, s')"
  shows "sc_depth s' = 0 \<and> sc_current s' = sc_committed s' \<and>
    (\<forall>e. r = Inl e \<longrightarrow> sc_committed s' = sc_committed s)"
proof -
  obtain q t where b: "body (s\<lparr>sc_depth := sc_depth s + 1\<rparr>) = (q, t)" by fastforce
  from joinsD[OF assms(1) b] assms(2) have "sc_depth t = 1" "sc_committed t = sc_committed s" by simp_all
  with assms(2-4) b show ?thesis by (cases q) (auto simp: sqlite_connection_def)
qed

section \<open>The literal splitter\<close>

lemma flush_concat [simp]: "concat (map snd (flush lit buf)) = rev buf"
  by (simp add: flush_def)

lemma split_from_concat: "concat (map snd (split_from in_str buf cs)) = rev buf @ cs"
  by (induction in_str buf cs rule: split_from.induct) (auto split: list.splits)

lemma split_from_shape:
  assumes "if in_str then buf \<noteq> [] \<and> last buf = CHR 0x27 else CHR 0x27 \<notin> set buf"
    and "(lit, ch) \<in> set (split_from in_str buf cs)"
  shows "if lit then hd ch = CHR 0x27 else CHR 0x27 \<notin> set ch"
  using assms
  by (induction in_str buf cs rule: split_from.induct)
     (auto simp: flush_def hd_rev split: list.splits if_splits)

text \<open>
  Nothing is lost by splitting, a plain chunk holds no quote and a literal chunk starts with one, so a
  rewriting of the plain chunks cannot reach into a literal.
\<close>

lemma split_sql_literals_roundtrip:
  "concat (map snd (split_sql_literals sql)) = sql \<and>
   (\<forall>(lit, ch) \<in> set (split_sql_literals sql). if lit then hd ch = CHR 0x27 else CHR 0x27 \<notin> set ch)"
  using split_from_concat[of False "[]" sql] split_from_shape[of False "[]" _ _ sql]
  by (auto simp: split_sql_literals_def)

section \<open>Properties\<close>

lemma sort_append_above:
  assumes "sorted ns" and "\<And>v n. v \<in> set vs \<Longrightarrow> n \<in> set ns \<Longrightarrow> v \<le> (n :: 'a :: linorder)"
  shows "sort (vs @ ns) = sort vs @ ns"
  using assms by (intro properties_for_sort) (auto simp: sorted_append)

text \<open>
  C19. \<^verbatim>\<open>bootstrap\<close> is exact and idempotent. When it succeeds the ledger has gained precisely the versions of
  the forward files it did not have, in file order, their scripts have run in that order on the schema,
  no other ledger has changed, and a second call changes nothing. When it fails on PostgreSQL nothing has
  changed at all.
\<close>

theorem bootstrap_exact:
  assumes "bootstrap sqlite run dir tbl d = (r, d')" and "forward_migrations dir = Inr ms"
  shows "case r of
      Inr _ \<Rightarrow>
        (let pending = filter (\<lambda>(n, _). n \<notin> set (ledger d tbl)) ms
         in ledger d' tbl = ledger d tbl @ map fst pending \<and>
            for_each (\<lambda>m. run (snd m)) pending (sd_schema d) = (Inr (), sd_schema d') \<and>
            (\<forall>t. t \<noteq> tbl \<longrightarrow> sd_ledgers d' t = sd_ledgers d t) \<and>
            bootstrap sqlite run dir tbl d' = (Inr (), d'))
    | Inl _ \<Rightarrow> sqlite \<or> d' = d"
proof (cases r)
  case (Inl e)
  with assms show ?thesis
    by (auto simp: bootstrap_def Let_def split: sum.splits prod.splits if_splits)
next
  case (Inr u)
  let ?p = "filter (\<lambda>(n, _). n \<notin> set (ledger d tbl)) ms"
  from assms Inr have id: "ident_re tbl"
    and ran: "for_each (apply_migration run tbl) ?p (create_ledger tbl d) = (Inr (), d')"
    by (auto elim!: bootstrap_ok)
  note chain = apply_chain[OF ran]
  have "fst ` set ms \<subseteq> set (ledger d' tbl)" using chain(1) by force
  then have "bootstrap sqlite run dir tbl d' = (Inr (), d')"
    by (intro bootstrap_nothing_pending[OF id assms(2)]) (use chain(5) in simp_all)
  with Inr chain(1,3) chain(4)[unfolded ledger_create] show ?thesis by (simp add: Let_def)
qed

text \<open>
  \<^verbatim>\<open>downgrade\<close> takes back what \<^verbatim>\<open>bootstrap\<close> did: if the pending files are above the version the database
  was at, and each has one down file whose script undoes it, then downgrading to that version after a
  bootstrap reverts exactly those versions, highest first, and the database is as it was.
\<close>

theorem downgrade_undoes_bootstrap:
  assumes "bootstrap sqlite run dir tbl d = (Inr (), d')" and "forward_migrations dir = Inr ms"
    and "sd_ledgers d tbl = Some vs" and "\<And>v. v \<in> set vs \<Longrightarrow> v \<le> to_version"
    and "sorted (map fst ms)"
    and "\<And>n up. (n, up) \<in> set ms \<Longrightarrow> n \<notin> set vs \<Longrightarrow>
      to_version < n \<and> (\<exists>down. down_migration dir n = Inr (Some down) \<and> undoes run down up)"
  shows "downgrade sqlite run dir tbl to_version d' =
    (Inr (rev (map fst (filter (\<lambda>(n, _). n \<notin> set vs) ms))), d)"
proof -
  let ?p = "filter (\<lambda>(n, _). n \<notin> set vs) ms" and ?ns = "map fst (filter (\<lambda>(n, _). n \<notin> set vs) ms)"
  have vs: "ledger d tbl = vs" using assms(3) by (simp add: ledger_def)
  from assms(1,2) have id: "ident_re tbl" and "for_each (apply_migration run tbl) ?p (create_ledger tbl d) = (Inr (), d')"
    by (auto elim!: bootstrap_ok simp: vs)
  then have ran: "for_each (apply_migration run tbl) ?p d = (Inr (), d')"
    using assms(3) by (simp add: create_ledger_id)
  have pending: "\<not> n \<le> to_version" if "(n, up) \<in> set ms" "n \<notin> set vs" for n up
    using assms(6)[OF that] by simp
  then have above: "to_version < n" if "n \<in> set ?ns" for n using that by fastforce
  have "sorted ?ns" using assms(5) by (rule sorted_filter)
  then have "sort (vs @ ?ns) = sort vs @ ?ns"
    using assms(4) above by (intro sort_append_above) fastforce+
  then have "rev (applied_versions tbl d') = rev ?ns @ rev (sort vs)"
    using apply_chain(1)[OF ran] by (simp add: applied_versions_def vs)
  then have reverted: "takeWhile (\<lambda>v. \<not> v \<le> to_version) (rev (applied_versions tbl d')) = rev ?ns"
    using pending assms(4) last_in_set[of "sort vs"]
    by (auto simp: takeWhile_append takeWhile_eq_Nil_iff hd_rev)
  have "for_each (revert_migration run dir tbl) (rev ?ns) d' = (Inr (), d)"
    by (rule revert_chain[OF ran assms(3)]) (use assms(6) in auto)
  moreover have "sd_ledgers d' tbl \<noteq> None" using apply_chain(5)[OF ran] assms(3) by simp
  ultimately show ?thesis
    using id by (auto simp: downgrade_def check_identifier_def reverted Let_def)
qed

section \<open>Concrete instances\<close>

text \<open>A schema that is a stack of names; \<^verbatim>\<open>+x\<close> puts a name on it, \<^verbatim>\<open>-x\<close> takes that name off.\<close>

definition demo_sql :: "string \<Rightarrow> (string list, unit) act" where
  "demo_sql sql s =
     (if starts_with sql ''+'' then (Inr (), drop 1 sql # s)
      else if s \<noteq> [] \<and> hd s = drop 1 sql then (Inr (), tl s)
      else (Inl (OtherError ''SyntaxError''), s))"

definition demo_dir :: migration_dir where
  "demo_dir = [(''0002_b.sql'', ''+b''), (''0001_a.sql'', ''+a''), (''0001_a.down.sql'', ''-a''),
     (''0002_b.down.sql'', ''-b''), (''schema.sql'', ''+all'')]"

abbreviation demo_schema :: "int list \<Rightarrow> string list \<Rightarrow> string list schema_db" where
  "demo_schema vs s \<equiv> \<lparr>sd_ledgers = [''queue_schema_version'' \<mapsto> vs], sd_schema = s\<rparr>"

lemma demo_forward: "forward_migrations demo_dir = Inr [(1, ''+a''), (2, ''+b'')]"
  by code_simp

lemma demo_down: "down_migration demo_dir 2 = Inr (Some ''-b'')"
  by code_simp

lemma demo_ident: "ident_re ''queue_schema_version''"
  by code_simp

lemma demo_bootstrap:
  "bootstrap False demo_sql demo_dir ''queue_schema_version'' (demo_schema [1] [''a'']) =
     (Inr (), demo_schema [1, 2] [''b'', ''a''])"
  by (simp add: bootstrap_def check_identifier_def demo_ident demo_forward Let_def applied_versions_def create_ledger_def
      ledger_def apply_migration_def demo_sql_def starts_with_def)

theorem bootstrap_exact_witness:
  "bootstrap False demo_sql demo_dir ''queue_schema_version'' (demo_schema [1, 2] [''b'', ''a'']) =
     (Inr (), demo_schema [1, 2] [''b'', ''a''])"
  using bootstrap_exact[OF demo_bootstrap demo_forward] by (simp add: Let_def)

theorem downgrade_undoes_bootstrap_witness:
  "downgrade False demo_sql demo_dir ''queue_schema_version'' 1 (demo_schema [1, 2] [''b'', ''a'']) =
     (Inr [2], demo_schema [1] [''a''])"
proof -
  have "undoes demo_sql ''-b'' ''+b''" by (auto simp: undoes_def demo_sql_def starts_with_def)
  then show ?thesis
    using downgrade_undoes_bootstrap[OF demo_bootstrap demo_forward, of "[1]" 1] demo_down by simp
qed

section \<open>What the code does not promise\<close>

text \<open>
  The DSN forms the documentation gives, three slashes for a relative path and four for an absolute one,
  come out the other way round.
\<close>

lemma sqlite_url_paths:
  "sqlite_path (Some ''sqlite:////abs/path.db'') = Inr ''abs/path.db''"
  "sqlite_path (Some ''sqlite:///rel.db'') = Inr ''/rel.db''"
  by code_simp+

text \<open>The identifier guard lets a final newline through.\<close>

lemma identifier_with_newline: "check_identifier (''queue_schema_version'' @ [CHR 0x0A]) = Inr (''queue_schema_version'' @ [CHR 0x0A])"
  by code_simp

text \<open>A version without a down file is not skipped: the downgrade raises.\<close>

lemma downgrade_needs_down_file:
  assumes "ident_re tbl" and "sd_ledgers d tbl = Some [v]" and "\<not> v \<le> to_version" and "down_migration dir v = Inr None"
  shows "downgrade sqlite run dir tbl to_version d = (Inl (RuntimeError ''cannot revert''), d)"
  using assms by (simp add: downgrade_def check_identifier_def applied_versions_def ledger_def revert_migration_def Let_def)

text \<open>On SQLite a script that fails half way leaves its first half behind, unrecorded.\<close>

lemma sqlite_bootstrap_partial:
  assumes "ident_re tbl" and "forward_migrations dir = Inr [(n, sql)]" and "sd_ledgers d tbl = Some []"
    and "run sql (sd_schema d) = (Inl e, s)"
  shows "bootstrap True run dir tbl d = (Inl e, d\<lparr>sd_schema := s\<rparr>)"
  using assms
  by (simp add: bootstrap_def check_identifier_def applied_versions_def Let_def create_ledger_id apply_migration_def ledger_def)

end
