(* ===== verification/Conductor.thy ===== *)
theory Conductor
  imports Html_View Engine_Config Migrations
begin

text \<open>
  The operator's entry points: the request handler of the web view
  (\<^verbatim>\<open>conductor/queue_workflows_conductor/web.py\<close>), the terminal fleet table (\<^verbatim>\<open>conductor.py\<close>) and
  the broker console (\<^verbatim>\<open>broker.py\<close>). A handler returns a response or the exception that ends the
  connection without one. The laws: the links of a page lead back to what they name, a request
  can change nothing but the two gated actions, and where a redirect may point.
\<close>

section \<open>Requests and responses\<close>

record request =
  rq_path :: string
  rq_origin :: "string option"
  rq_host :: "string option"
  rq_referer :: "string option"
  rq_content_length :: "string option"
  rq_body :: string

datatype response = Page nat string | Redirect string

text \<open>The page of one job; a store that fails is the left side of \<open>store\<close>.\<close>

definition job_page :: "web_rt \<Rightarrow> bool \<Rightarrow> db result \<Rightarrow> string \<Rightarrow> string \<Rightarrow> response" where
  "job_page rt writes_enabled store job_text kind =
     (case store of
        Inl e \<Rightarrow> Page 500 (render_error rt e)
      | Inr d \<Rightarrow>
          (case wr_id_of rt job_text of
             Inl e \<Rightarrow> Page 500 (render_error rt e)
           | Inr i \<Rightarrow>
               (case (if kind = ''ingest'' then map_option (\<lambda>j. (ingest_job_view j, [])) (get_ingest_job i d)
                      else map_option (\<lambda>j. (node_job_view j, list_node_events i 200 d)) (get_node_job i d)) of
                  None \<Rightarrow> Page 404 (''<h1>404 '' @ em_dash @ '' no such job</h1>'')
                | Some (v, events) \<Rightarrow> Page 200 (render_job rt (now d) v events kind writes_enabled))))"

definition do_GET ::
  "web_rt \<Rightarrow> bool \<Rightarrow> int \<Rightarrow> (string \<times> hw_sample list) list option \<Rightarrow> db result \<Rightarrow> string \<Rightarrow> response result" where
  "do_GET rt writes_enabled stale_after_s hw store path =
     (case urlparse (wr_netloc_ok rt) path of
        Inl e \<Rightarrow> Inl e
      | Inr u \<Rightarrow>
          let q = parse_qs (up_query u)
          in if starts_with (up_path u) ''/job/''
             then Inr (job_page rt writes_enabled store (unquote (drop 5 (up_path u))) (q_first q ''kind'' ''node''))
             else if up_path u \<noteq> ''/'' \<and> up_path u \<noteq> ''/index.html'' then Inr (Page 404 ''<h1>404</h1>'')
             else Inr (case store of
                         Inl e \<Rightarrow> Page 500 (render_error rt e)
                       | Inr d \<Rightarrow> Page 200 (render_dashboard rt (map_of q ''project'') stale_after_s
                                   (q_first q ''view'' ''all'') writes_enabled hw d)))"

section \<open>Writes\<close>

text \<open>A browser's cross-site form carries an origin that is not the host the request came to.\<close>

definition cross_origin :: "web_rt \<Rightarrow> request \<Rightarrow> bool result" where
  "cross_origin rt r =
     (case rq_origin r of
        None \<Rightarrow> Inr False
      | Some origin \<Rightarrow>
          if origin = [] then Inr False
          else (case urlparse (wr_netloc_ok rt) origin of
                  Inl e \<Rightarrow> Inl e
                | Inr u \<Rightarrow> Inr (up_netloc u \<noteq> (case rq_host r of None \<Rightarrow> [] | Some h \<Rightarrow> h))))"

text \<open>\<^verbatim>\<open>rfile.read(length)\<close> (a negative length reads to the end), decoded and parsed as a form.\<close>

definition read_form :: "web_rt \<Rightarrow> request \<Rightarrow> (string \<times> string) list result" where
  "read_form rt r =
     (case (case rq_content_length r of
              None \<Rightarrow> Some 0 | Some s \<Rightarrow> if s = [] then Some 0 else py_int s) of
        None \<Rightarrow> Inl (ValueError ''Content-Length'')
      | Some n \<Rightarrow>
          let body = (if n = 0 then [] else if n < 0 then rq_body r else take (nat n) (rq_body r))
          in if wr_utf8_ok rt body then Inr (parse_qs body) else Inl (ValueError ''utf-8''))"

text \<open>The two actions; \<open>fault\<close> is an exception of the store, raised by the statement itself.\<close>

definition stored :: "py_error option \<Rightarrow> (db, 'a) act \<Rightarrow> (db, 'a) act" where
  "stored fault m d =
     (case m d of (Inl e, d') \<Rightarrow> (Inl e, d')
      | (Inr x, d') \<Rightarrow> (case fault of Some e \<Rightarrow> (Inl e, d) | None \<Rightarrow> (Inr x, d')))"

definition control_action :: "(string \<times> string) list \<Rightarrow> (db, unit) act" where
  "control_action form =
     set_worker_control (q_first form ''host'' []) (q_first form ''queue'' []) (q_first form ''desired_state'' []) ''hard''
       (Some ''conductor-web'')"

definition requeue_action :: "web_rt \<Rightarrow> (string \<times> string) list \<Rightarrow> (db, unit) act" where
  "requeue_action rt form d =
     (case wr_id_of rt (q_first form ''job_id'' []) of
        Inl e \<Rightarrow> (Inl e, d)
      | Inr i \<Rightarrow> (case requeue_job_for_retry i d of (_, d') \<Rightarrow> (Inr (), d')))"

definition redirect_target :: "url_parts \<Rightarrow> string" where
  "redirect_target u =
     (let dest = up_path u @ (if up_query u \<noteq> [] then ''?'' @ up_query u else [])
      in if starts_with dest ''/'' then dest else ''/'')"

definition redirect_back :: "web_rt \<Rightarrow> request \<Rightarrow> response result" where
  "redirect_back rt r =
     (case urlparse (wr_netloc_ok rt) (case rq_referer r of None \<Rightarrow> ''/'' | Some s \<Rightarrow> if s = [] then ''/'' else s) of
        Inl e \<Rightarrow> Inl e
      | Inr u \<Rightarrow> Inr (Redirect (redirect_target u)))"

definition do_POST :: "web_rt \<Rightarrow> bool \<Rightarrow> py_error option \<Rightarrow> request \<Rightarrow> (db, response) act" where
  "do_POST rt writes_enabled fault r d =
     (if \<not> writes_enabled
      then (Inr (Page 403 (''<h1>403 '' @ em_dash @ '' writes disabled (start with --enable-writes)</h1>'')), d)
      else case cross_origin rt r of
        Inl e \<Rightarrow> (Inl e, d)
      | Inr True \<Rightarrow> (Inr (Page 403 (''<h1>403 '' @ em_dash @ '' cross-origin POST rejected</h1>'')), d)
      | Inr False \<Rightarrow>
          (case urlparse (wr_netloc_ok rt) (rq_path r) of
             Inl e \<Rightarrow> (Inl e, d)
           | Inr u \<Rightarrow>
               (case read_form rt r of
                  Inl e \<Rightarrow> (Inl e, d)
                | Inr form \<Rightarrow>
                    if up_path u \<noteq> ''/control'' \<and> up_path u \<noteq> ''/requeue'' then (Inr (Page 404 ''<h1>404</h1>''), d)
                    else (case stored fault (if up_path u = ''/control'' then control_action form else requeue_action rt form) d of
                            (Inl e, d') \<Rightarrow> (Inr (Page 500 (render_error rt e)), d')
                          | (Inr _, d') \<Rightarrow> (redirect_back rt r, d')))))"

section \<open>The terminal view\<close>

text \<open>The formats \<open><n\<close> and \<open>>n\<close>.\<close>

definition pad_right :: "nat \<Rightarrow> string \<Rightarrow> string" where
  "pad_right n s = s @ replicate (n - length s) CHR '' ''"

definition pad_left :: "nat \<Rightarrow> string \<Rightarrow> string" where
  "pad_left n s = replicate (n - length s) CHR '' '' @ s"

definition fleet_line :: "heartbeat \<times> bool \<times> bool \<Rightarrow> string" where
  "fleet_line w =
     (case w of (h, fresh, dead) \<Rightarrow>
        concat [pad_right 6 (hb_queue h), '' '', pad_right 24 (hb_host h), '' '',
          pad_right 18 (case hb_model h of None \<Rightarrow> ''-'' | Some m \<Rightarrow> if m = [] then ''-'' else m), '' '',
          pad_right 6 (fst (worker_status fresh dead)), '' '',
          pad_left 8 (case hb_vram h of None \<Rightarrow> ''-'' | Some v \<Rightarrow> show_int v), ''  '', join_with '','' (hb_llm h)])"

definition fleet_header :: string where
  "fleet_header = concat [pad_right 6 ''QUEUE'', '' '', pad_right 24 ''HOST'', '' '', pad_right 18 ''MODEL'', '' '',
     pad_right 6 ''STATUS'', '' '', pad_left 8 ''VRAM_MB'', ''  SERVERS'']"

definition render_fleet :: "(heartbeat \<times> bool \<times> bool) list \<Rightarrow> string" where
  "render_fleet rows =
     (if rows = [] then ''fleet: no workers reporting'' else join_with [CHR 0x0A] (fleet_header # map fleet_line rows))"

text \<open>\<^verbatim>\<open>_configure_backend\<close>: an absent or empty option selects nothing.\<close>

definition or_none :: "string option \<Rightarrow> string option" where
  "or_none s = (case s of None \<Rightarrow> None | Some x \<Rightarrow> if x = [] then None else Some x)"

definition configure_backend :: "string option \<Rightarrow> string option \<Rightarrow> ('h engine_config, unit) act" where
  "configure_backend db_backend db_url_env c =
     (if or_none db_backend = None \<and> or_none db_url_env = None then (Inr (), c)
      else configure (no_args\<lparr>ka_db_backend := or_none db_backend, ka_db_url_env := or_none db_url_env\<rparr>) c)"

text \<open>\<^verbatim>\<open>queue-conductor\<close> without \<^verbatim>\<open>--json\<close>: what is printed, and the exit code.\<close>

definition conductor_main ::
  "string option \<Rightarrow> string option \<Rightarrow> string option \<Rightarrow> int \<Rightarrow> db result \<Rightarrow> ('h engine_config, string \<times> int) act" where
  "conductor_main db_backend db_url_env queue stale_after_s store c =
     (case configure_backend db_backend db_url_env c of
        (Inl e, c') \<Rightarrow> (Inl e, c')
      | (Inr _, c') \<Rightarrow>
          (case store of
             Inl e \<Rightarrow> (Inl e, c')
           | Inr d \<Rightarrow>
               let rows = fleet_snapshot stale_after_s None d;
                   shown = (case or_none queue of None \<Rightarrow> rows | Some q \<Rightarrow> filter (\<lambda>(h, _). hb_queue h = q) rows)
               in (Inr (render_fleet shown, 0), c')))"

section \<open>The broker console\<close>

definition count_of :: "(string \<times> nat) list \<Rightarrow> string \<Rightarrow> string \<Rightarrow> string" where
  "count_of c q s = show_nat (case map_of c (q @ ''_'' @ s) of Some n \<Rightarrow> n | None \<Rightarrow> 0)"

definition broker_line :: "db \<Rightarrow> string \<Rightarrow> string" where
  "broker_line d p =
     (let c = counts_of (snapshot (Some p) d)
      in concat [''  '', pad_right 24 (proj_label p), ''  cpu[q'', count_of c ''cpu'' ''queued'', '' r'', count_of c ''cpu'' ''running'',
           '']  gpu[q'', count_of c ''gpu'' ''queued'', '' r'', count_of c ''gpu'' ''running'', '']''])"

text \<open>\<^verbatim>\<open>_status\<close>: the printed lines and the exit code, which is 1 exactly when no migration is recorded.\<close>

definition broker_status :: "int \<Rightarrow> db \<Rightarrow> string list \<times> int" where
  "broker_status version d =
     (if version = 0
      then ([''broker schema NOT bootstrapped (version 0) '' @ em_dash @ '' run `queue-broker`''], 1)
      else let projects = list_projects d
        in ([''broker schema version: '' @ show_int version, ''projects on this broker ('' @ show_nat (length projects) @ ''):''] @
            (if projects = [] then [''  (none '' @ em_dash @ '' no queue records yet)''] else []) @ map (broker_line d) projects, 0))"

definition engine_version_table :: string where
  "engine_version_table = ''queue_schema_version''"

text \<open>
  \<^verbatim>\<open>main\<close> after the configuration: the schema and the queue records are the two parts of the database
  the console touches. The pool is closed on every path.
\<close>

record 's console =
  co_schema :: "'s schema_db"
  co_queue :: db
  co_pool_open :: bool

definition broker_run ::
  "bool \<Rightarrow> (string \<Rightarrow> ('s, unit) act) \<Rightarrow> migration_dir \<Rightarrow> bool \<Rightarrow> ('s console, string list \<times> int) act" where
  "broker_run sqlite run dir status k =
     (let shown = (\<lambda>k. case current_schema_version engine_version_table (co_schema k) of
                         Inl e \<Rightarrow> Inl e | Inr v \<Rightarrow> Inr (v, broker_status v (co_queue k)))
      in if status then (case shown k of Inl e \<Rightarrow> Inl e | Inr (_, out) \<Rightarrow> Inr out, k\<lparr>co_pool_open := False\<rparr>)
         else (case bootstrap sqlite run dir engine_version_table (co_schema k) of
                 (Inl e, s) \<Rightarrow> (Inl e, k\<lparr>co_schema := s, co_pool_open := False\<rparr>)
               | (Inr _, s) \<Rightarrow>
                   let k' = k\<lparr>co_schema := s\<rparr>
                   in (case shown k' of
                         Inl e \<Rightarrow> Inl e
                       | Inr (v, lines, code) \<Rightarrow>
                           Inr ((''broker bootstrapped '' @ em_dash @ '' schema version '' @ show_int v) # lines, code),
                       k'\<lparr>co_pool_open := False\<rparr>)))"

definition broker_main ::
  "string option \<Rightarrow> string option \<Rightarrow> (string \<Rightarrow> ('s, unit) act) \<Rightarrow> migration_dir \<Rightarrow> bool \<Rightarrow>
    ('h engine_config \<times> 's console, string list \<times> int) act" where
  "broker_main db_backend db_url_env run dir status w =
     (case w of (c, k) \<Rightarrow>
        (case configure_backend db_backend db_url_env c of
           (Inl e, c') \<Rightarrow> (Inl e, (c', k))
         | (Inr _, c') \<Rightarrow> (case broker_run (ec_db_backend c' = ''sqlite'') run dir status k of (r, k') \<Rightarrow> (r, (c', k')))))"

section \<open>The links lead where they say\<close>

lemma parse_qs_pair:
  assumes "CHR ''&'' \<notin> set n" and "CHR ''='' \<notin> set n" and "CHR ''&'' \<notin> set v"
  shows "parse_qs (n @ ''='' @ v) = [(unquote_plus n, unquote_plus v)]"
  using assms by (simp add: parse_qs_def split_on_nosep partition_at_found)

lemma parse_qs_pairs:
  assumes "CHR ''&'' \<notin> set n" and "CHR ''='' \<notin> set n" and "CHR ''&'' \<notin> set v"
  shows "parse_qs (n @ ''='' @ v @ ''&'' @ rest) = (unquote_plus n, unquote_plus v) # parse_qs rest"
proof -
  have "split_on CHR ''&'' ((n @ ''='' @ v) @ CHR ''&'' # rest) = (n @ ''='' @ v) # split_on CHR ''&'' rest"
    using assms split_on_append[of "CHR ''&''" "n @ ''='' @ v" rest] by (simp add: split_on_nosep)
  then show ?thesis using assms by (simp add: parse_qs_def partition_at_found)
qed

lemma quote_plain: "CHR ''&'' \<notin> set (quote p)" "CHR ''#'' \<notin> set (quote p)"
  using quote_delimiters by blast+

lemma quote_no_break: "set (quote p) \<inter> {CHR ''#'', CHR 0x09, CHR 0x0A, CHR 0x0D} = {}"
proof -
  have "x = CHR ''%'' \<or> unreserved x" if "x \<in> set (quote p)" for x
    using that by (auto simp: quote_def dest: quote_char_chars)
  moreover have "\<not> unreserved CHR ''#''" "\<not> unreserved CHR 0x09" "\<not> unreserved CHR 0x0A" "\<not> unreserved CHR 0x0D"
    by (simp_all add: unreserved_def)
  ultimately show ?thesis by fastforce
qed

definition tab_keys :: "string list" where
  "tab_keys = [''all'', ''retries'', ''dead'']"

lemma unquote_plus_words:
  "unquote_plus ''project'' = ''project''" "unquote_plus ''view'' = ''view''" "k \<in> set tab_keys \<Longrightarrow> unquote_plus k = k"
  by (auto simp: unquote_plus_def tab_keys_def)

lemma project_query:
  "parse_qs (''project='' @ quote p) = [(''project'', p)]"
  using parse_qs_pair[of "''project''" "quote p"] quote_plain[of p] by (simp add: unquote_plus_words)

lemma view_query:
  assumes "k \<in> set tab_keys"
  shows "parse_qs (''view='' @ k @ (case project of None \<Rightarrow> [] | Some p \<Rightarrow> ''&project='' @ quote p)) =
    (''view'', k) # (case project of None \<Rightarrow> [] | Some p \<Rightarrow> [(''project'', p)])"
proof -
  have k: "CHR ''&'' \<notin> set k" using assms by (auto simp: tab_keys_def)
  show ?thesis
    using parse_qs_pair[of "''view''" k] parse_qs_pairs[of "''view''" k "''project='' @ quote p" for p] k project_query
    by (simp add: unquote_plus_words assms split: option.split)
qed


section \<open>What a request can change\<close>

lemma control_action_effect:
  assumes "control_action form d = (Inr (), d')"
  shows "d' = d\<lparr>controls := controls d'\<rparr> \<and>
    (\<exists>h q v. v \<in> {''on'', ''off''} \<and> h = q_first form ''host'' [] \<and> q = q_first form ''queue'' [] \<and>
      v = q_first form ''desired_state'' [] \<and>
      (\<forall>h' q'. desired_state_for h' q' d' = (if (h', q') = (h, q) then v else desired_state_for h' q' d) \<and>
        llm_config_for h' q' d' = llm_config_for h' q' d))"
proof
  let ?h = "q_first form ''host'' []" and ?q = "q_first form ''queue'' []" and ?v = "q_first form ''desired_state'' []"
  show "d' = d\<lparr>controls := controls d'\<rparr>"
    using assms by (auto simp: control_action_def set_worker_control_def Let_def split: if_splits)
  have "?v \<in> {''on'', ''off''}"
    using assms by (auto simp: control_action_def set_worker_control_def Let_def split: if_splits)
  then show "\<exists>h q v. v \<in> {''on'', ''off''} \<and> h = ?h \<and> q = ?q \<and> v = ?v \<and>
      (\<forall>h' q'. desired_state_for h' q' d' = (if (h', q') = (h, q) then v else desired_state_for h' q' d) \<and>
        llm_config_for h' q' d' = llm_config_for h' q' d)"
    using switch_and_llm_independent[of ?h ?q ?v "''hard''" "Some ''conductor-web''" d d'] assms
    by (simp add: control_action_def)
qed

lemma requeue_action_effect:
  assumes "jobs_inv d" and "requeue_action rt form d = (Inr (), d')"
  shows "d' = d \<or> (\<exists>i j. wr_id_of rt (q_first form ''job_id'' []) = Inr i \<and> job_of d i = Some j \<and> nj_status j = Running \<and>
      d' = d\<lparr>node_jobs := node_jobs d'\<rparr> \<and>
      (\<forall>k. job_of d' k = (if k = i then Some ((back_to_queue j)\<lparr>nj_retries := nj_retries j + 1\<rparr>) else job_of d k)))"
proof -
  let ?f = "\<lambda>j. (back_to_queue j)\<lparr>nj_retries := nj_retries j + 1\<rparr>"
  from assms(2) obtain i where i: "wr_id_of rt (q_first form ''job_id'' []) = Inr i"
    and d': "d' = snd (requeue_job_for_retry i d)"
    by (auto simp: requeue_action_def split: sum.splits prod.splits)
  have id: "nj_id (?f j) = nj_id j" for j by (simp add: back_to_queue_def)
  show ?thesis
  proof (cases "\<exists>j. job_of d i = Some j \<and> nj_status j = Running")
    case True
    then obtain j where j: "job_of d i = Some j" "nj_status j = Running" by blast
    have "job_of d' k = (if k = i then Some (?f j) else job_of d k)" for k
      using job_lookup_row[of ?f k i "\<lambda>j. nj_status j = Running" d] id j by (simp add: d' requeue_job_for_retry_def del: snd_update_job)
    moreover have "d' = d\<lparr>node_jobs := node_jobs d'\<rparr>" by (simp add: d' requeue_job_for_retry_def)
    ultimately show ?thesis using i j by blast
  next
    case False
    then have "requeue_job_for_retry i d = (None, d)"
      unfolding requeue_job_for_retry_def using assms(1) by (intro job_update_none) auto
    with d' show ?thesis by simp
  qed
qed

lemma do_POST_changes:
  assumes "do_POST rt writes fault r d = (res, d')" and "d' \<noteq> d"
  obtains u form where "writes" "cross_origin rt r = Inr False" "fault = None"
    "urlparse (wr_netloc_ok rt) (rq_path r) = Inr u" "read_form rt r = Inr form"
    "up_path u = ''/control'' \<and> control_action form d = (Inr (), d') \<or>
     up_path u = ''/requeue'' \<and> requeue_action rt form d = (Inr (), d')"
proof -
  have control: "control_action form d = (Inl e, x) \<Longrightarrow> x = d" for form e x
    by (auto simp: control_action_def set_worker_control_def Let_def split: if_splits)
  have requeue: "requeue_action rt form d = (Inl e, x) \<Longrightarrow> x = d" for form e x
    by (auto simp: requeue_action_def split: sum.splits prod.splits)
  from assms obtain u form where *: "writes" "cross_origin rt r = Inr False"
      "urlparse (wr_netloc_ok rt) (rq_path r) = Inr u" "read_form rt r = Inr form"
      "up_path u = ''/control'' \<or> up_path u = ''/requeue''"
      "snd (stored fault (if up_path u = ''/control'' then control_action form else requeue_action rt form) d) = d'"
    by (auto simp: do_POST_def split: if_splits sum.splits bool.splits prod.splits)
  from *(5) show ?thesis
  proof
    assume c: "up_path u = ''/control''"
    with *(6) assms(2) control have "fault = None" "control_action form d = (Inr (), d')"
      by (auto simp: stored_def split: prod.splits sum.splits option.splits)
    with * c that show ?thesis by blast
  next
    assume c: "up_path u = ''/requeue''"
    with *(6) assms(2) requeue have "fault = None" "requeue_action rt form d = (Inr (), d')"
      by (auto simp: stored_def split: prod.splits sum.splits option.splits)
    with * c that show ?thesis by blast
  qed
qed

text \<open>
  C14. The web view can change nothing but its two actions. If a POST leaves the database different, writes were enabled at
  start-up, the request was not cross-origin and the store did not fail; and then either one worker's desired state is
  now the on or off of the form and every other switch, every LLM setting and every other table is as it was, or one job that was
  running is back in the queue with its retry counted and every other job and every other table is as it was.
\<close>

theorem conductor_write_effect:
  assumes "jobs_inv d" and "do_POST rt writes fault r d = (res, d')" and "d' \<noteq> d"
  shows "writes \<and> cross_origin rt r = Inr False \<and> fault = None \<and>
    ((\<exists>h q v. v \<in> {''on'', ''off''} \<and> d' = d\<lparr>controls := controls d'\<rparr> \<and>
        (\<forall>h' q'. desired_state_for h' q' d' = (if (h', q') = (h, q) then v else desired_state_for h' q' d) \<and>
          llm_config_for h' q' d' = llm_config_for h' q' d)) \<or>
     (\<exists>i j. job_of d i = Some j \<and> nj_status j = Running \<and> d' = d\<lparr>node_jobs := node_jobs d'\<rparr> \<and>
        (\<forall>k. job_of d' k = (if k = i then Some ((back_to_queue j)\<lparr>nj_retries := nj_retries j + 1\<rparr>) else job_of d k))))"
proof (cases rule: do_POST_changes[OF assms(2,3)])
  case (1 u form)
  from 1(6) show ?thesis
  proof (elim disjE conjE)
    assume "control_action form d = (Inr (), d')"
    from control_action_effect[OF this] 1(1-3) show ?thesis by blast
  next
    assume "requeue_action rt form d = (Inr (), d')"
    from requeue_action_effect[OF assms(1) this] assms(3) 1(1-3) show ?thesis by blast
  qed
qed

section \<open>Where a redirect points\<close>

lemma clean_url_no_break: "x \<in> set (clean_url s) \<Longrightarrow> (of_char x :: nat) \<notin> {9, 10, 13}"
  by (auto simp: clean_url_def)

lemma urlparse_chars:
  assumes "urlparse ok s = Inr u"
  shows "set (up_path u) \<subseteq> set (clean_url s) \<and> set (up_query u) \<subseteq> set (clean_url s)"
proof -
  have scheme: "set (snd (split_scheme v)) \<subseteq> set v" for v
    by (auto simp: split_scheme_def Let_def dest: in_set_dropD)
  have netloc: "set (snd (split_netloc v)) \<subseteq> set v" for v
    by (auto simp: split_netloc_def Let_def dest!: set_dropWhileD dest: in_set_dropD)
  have part: "set (fst (partition_at c v)) \<subseteq> set v" "set (snd (partition_at c v)) \<subseteq> set v" for c v
    using set_drop_subset[of 1 "dropWhile (\<lambda>x. x \<noteq> c) v"]
    by (auto simp: partition_at_def drop_Suc dest: set_takeWhileD set_dropWhileD)
  have params: "set (drop_params v) \<subseteq> set v" for v
    by (auto simp: drop_params_def Let_def dest!: set_takeWhileD dest: in_set_takeD)
  obtain sch w where sw: "split_scheme (clean_url s) = (sch, w)" by (cases "split_scheme (clean_url s)")
  obtain nl v where nv: "split_netloc w = (nl, v)" by (cases "split_netloc w")
  obtain p q where pq: "partition_at CHR ''?'' (fst (partition_at CHR ''#'' v)) = (p, q)"
    by (cases "partition_at CHR ''?'' (fst (partition_at CHR ''#'' v))")
  have "set v \<subseteq> set (clean_url s)" using scheme[of "clean_url s"] netloc[of w] sw nv by auto
  moreover have "set p \<subseteq> set v" "set q \<subseteq> set v"
    using part(1)[of "CHR ''#''" v] part[of "CHR ''?''" "fst (partition_at CHR ''#'' v)"] pq by auto
  moreover have "up_path u = (if sch \<in> set uses_params then drop_params p else p)" "up_query u = q"
    using assms sw nv pq by (auto simp: urlparse_def Let_def split: if_splits)
  ultimately show ?thesis using params[of p] by auto
qed

text \<open>
  C40. The redirect after an action never carries a scheme, never splits the response header (it has no line break, whatever
  the Referer header held), and starts with a slash. It stays on this site unless the Referer's path itself starts with two
  slashes, and then it does not: a location with two leading slashes names another host.
\<close>

theorem redirect_stays_local:
  assumes "redirect_back rt r = Inr resp"
  shows "\<exists>dest. resp = Redirect dest \<and> starts_with dest ''/'' \<and> (\<forall>c\<in>set dest. (of_char c :: nat) \<notin> {9, 10, 13}) \<and>
    (starts_with dest ''//'' \<longrightarrow>
      (\<exists>s u. rq_referer r = Some s \<and> urlparse (wr_netloc_ok rt) s = Inr u \<and> starts_with (up_path u) ''//''))"
proof -
  let ?s = "case rq_referer r of None \<Rightarrow> ''/'' | Some s \<Rightarrow> if s = [] then ''/'' else s"
  from assms obtain u where u: "urlparse (wr_netloc_ok rt) ?s = Inr u" and resp: "resp = Redirect (redirect_target u)"
    by (auto simp: redirect_back_def split: sum.splits)
  have slash: "starts_with (redirect_target u) ''/''" by (simp add: redirect_target_def Let_def starts_with_def)
  have "(of_char c :: nat) \<notin> {9, 10, 13}" if "c \<in> set (redirect_target u)" for c
    using that urlparse_chars[OF u] clean_url_no_break[of c ?s]
    by (auto simp: redirect_target_def Let_def split: if_splits)
  moreover have "\<exists>s u'. rq_referer r = Some s \<and> urlparse (wr_netloc_ok rt) s = Inr u' \<and> starts_with (up_path u') ''//''"
    if "starts_with (redirect_target u) ''//''"
  proof -
    from that have path: "starts_with (up_path u) ''//''"
      by (cases "up_path u"; cases "tl (up_path u)")
        (auto simp: redirect_target_def Let_def starts_with_def split: if_splits)
    show ?thesis
    proof (cases "rq_referer r = None \<or> rq_referer r = Some []")
      case True
      then have "?s = ''/''" by auto
      moreover have "up_path v = ''/''" if "urlparse ok ''/'' = Inr v" for ok v
        using that by (auto simp: urlparse_def clean_url_def split_scheme_def split_netloc_def starts_with_def
            partition_at_def uses_params_def Let_def split: if_splits)
      ultimately have "up_path u = ''/''" using u by simp
      with path show ?thesis by (simp add: starts_with_def)
    next
      case False
      then obtain s where "rq_referer r = Some s" "?s = s" by auto
      with u path show ?thesis by auto
    qed
  qed
  ultimately show ?thesis using slash resp by blast
qed

section \<open>The consoles\<close>

text \<open>Asking for the status changes neither the schema nor the queue; and every path closes the pool.\<close>

lemma broker_status_reads:
  "snd (broker_run sqlite run dir True k) = k\<lparr>co_pool_open := False\<rparr>"
  by (simp add: broker_run_def Let_def)

lemma broker_closes_pool: "\<not> co_pool_open (snd (broker_run sqlite run dir status k)) \<and>
    co_queue (snd (broker_run sqlite run dir status k)) = co_queue k"
  by (auto simp: broker_run_def Let_def split: prod.split sum.split)

text \<open>
  After a bootstrap that went through the console reports success: with at least one migration of positive version
  the version read back is that of the newest, so the exit code is 0.
\<close>

lemma broker_bootstrap_exit:
  assumes "broker_run sqlite run dir False k = (Inr (lines, code), k')" and "forward_migrations dir = Inr ms"
    and "(n, sql) \<in> set ms" and "0 < n"
  shows "code = 0"
proof -
  from assms(1) obtain s v where boot: "bootstrap sqlite run dir engine_version_table (co_schema k) = (Inr (), s)"
    and v: "current_schema_version engine_version_table s = Inr v" and code: "code = snd (broker_status v (co_queue k))"
    by (auto simp: broker_run_def Let_def split: prod.splits sum.splits)
  from boot assms(2) have ran: "for_each (apply_migration run engine_version_table)
      (filter (\<lambda>(n, _). n \<notin> set (ledger (co_schema k) engine_version_table)) ms) (create_ledger engine_version_table (co_schema k)) = (Inr (), s)"
    by (auto elim!: bootstrap_ok)
  note chain = apply_chain[OF ran]
  have "n \<in> set (ledger s engine_version_table)" using chain(1) assms(3) by force
  moreover have "sd_ledgers s engine_version_table \<noteq> None" using chain(5) by simp
  ultimately have "n \<le> v" using v
    by (auto simp: current_schema_version_def ledger_def split: sum.splits if_splits)
  with assms(4) show ?thesis by (simp add: code broker_status_def Let_def)
qed

text \<open>The terminal table has a header and one line per worker shown, and the queue option keeps exactly that queue.\<close>

lemma configure_backend_only:
  "snd (configure_backend db_backend db_url_env c) =
     c\<lparr>ec_db_url_env := ec_db_url_env (snd (configure_backend db_backend db_url_env c)),
       ec_db_backend := ec_db_backend (snd (configure_backend db_backend db_url_env c))\<rparr>"
  by (auto simp: configure_backend_def configure_groups put_defs checked_def no_args_def given_def split: sum.split)

section \<open>Witnesses\<close>

definition demo_rt :: web_rt where
  "demo_rt = \<lparr>wr_css = [], wr_time = show_int, wr_num = show_int, wr_dict = (\<lambda>_. []), wr_exc = (\<lambda>_. ''error''), wr_id = show_nat,
     wr_id_of = (\<lambda>s. case py_int s of Some i \<Rightarrow> if i < 0 then Inl (ValueError ''uuid'') else Inr (nat i) | None \<Rightarrow> Inl (ValueError ''uuid'')),
     wr_netloc_ok = (\<lambda>_. True), wr_utf8_ok = (\<lambda>_. True)\<rparr>"


definition demo_post :: request where
  "demo_post = \<lparr>rq_path = ''/requeue'', rq_origin = Some ''http://box:8787'', rq_host = Some ''box:8787'',
     rq_referer = Some ''http://box:8787/job/1?kind=node'', rq_content_length = Some ''8'', rq_body = ''job_id=1''\<rparr>"

theorem conductor_write_effect_witness:
  "\<exists>i j. job_of demo_claimed i = Some j \<and> nj_status j = Running \<and>
     job_of (snd (do_POST demo_rt True None demo_post demo_claimed)) i = Some ((back_to_queue j)\<lparr>nj_retries := nj_retries j + 1\<rparr>)"
proof -
  let ?d = "snd (do_POST demo_rt True None demo_post demo_claimed)"
  have "map nj_status (node_jobs ?d) \<noteq> map nj_status (node_jobs demo_claimed)" by code_simp
  then have ne: "?d \<noteq> demo_claimed" by metis
  have same: "controls ?d = controls demo_claimed" by code_simp
  have "do_POST demo_rt True None demo_post demo_claimed = (fst (do_POST demo_rt True None demo_post demo_claimed), ?d)" by simp
  from conductor_write_effect[OF demo_claimed_inv this ne] show ?thesis
  proof (elim conjE disjE exE, goal_cases)
    case 1
    from 1(5) have "?d = demo_claimed\<lparr>controls := controls demo_claimed\<rparr>" unfolding same .
    with ne show ?case by simp
  next
    case (2 i j)
    from 2(7) have "job_of ?d i = Some ((back_to_queue j)\<lparr>nj_retries := nj_retries j + 1\<rparr>)" by simp
    with 2(4,5) show ?case by blast
  qed
qed

definition two_slashes :: request where
  "two_slashes = demo_post\<lparr>rq_referer := Some ''http://box:8787//evil.example/x''\<rparr>"

theorem redirect_stays_local_witness:
  "redirect_back demo_rt demo_post = Inr (Redirect ''/job/1?kind=node'') \<and>
   redirect_back demo_rt two_slashes = Inr (Redirect ''//evil.example/x'') \<and>
   (\<exists>s u. rq_referer two_slashes = Some s \<and> urlparse (wr_netloc_ok demo_rt) s = Inr u \<and> starts_with (up_path u) ''//'')"
proof -
  have run: "redirect_back demo_rt demo_post = Inr (Redirect ''/job/1?kind=node'')"
    "redirect_back demo_rt two_slashes = Inr (Redirect ''//evil.example/x'')" by code_simp+
  from redirect_stays_local[OF run(2)] run show ?thesis by (simp add: starts_with_def)
qed

end
