(* ===== verification/Node_Executor.thy ===== *)
theory Node_Executor
  imports Dispatcher_Laws
begin

text \<open>
  \<^verbatim>\<open>node_executor.py\<close>: everything between a claimed row and its terminal mark with the outbox row.
  The node modules, the model cache and the host's wrapper are host code, so they are parameters.
  While they run other transactions commit, so they are actions on the database: the state they
  return is the database as it is when they have ended, whatever happened meanwhile. The
  thumbnail refresh is image processing and is left out; it writes no table of the model.
\<close>

section \<open>Calling a node module\<close>

text \<open>
  One parameter of \<^verbatim>\<open>inspect.signature(run)\<close>: whether it is a star parameter, has a default, and
  whether its resolved annotation mentions \<^verbatim>\<open>Path\<close>.
\<close>

record param =
  pm_name :: string
  pm_star :: bool
  pm_default :: bool
  pm_path :: bool

datatype arg =
  A_json json | A_path string | A_handle "string option" | A_callback | A_cancel | A_seconds "int option"

record invoke_args =
  iv_inputs :: jdict
  iv_out :: "string option"
  iv_handle :: "string option"
  iv_load_s :: "int option"

text \<open>What \<^verbatim>\<open>run\<close> returned; a delta a node returns is a JSON object.\<close>

datatype node_value = Dict_with_delta jdict | Other_dict jdict | Not_a_dict

record node_fn =
  nf_params :: "param list"
  nf_run :: "(string \<times> arg) list \<Rightarrow> (db, node_value) act"

definition kwarg_for :: "invoke_args \<Rightarrow> param \<Rightarrow> arg option" where
  "kwarg_for a p =
     (if pm_star p then None
      else if pm_name p = ''out'' then Some (case iv_out a of None \<Rightarrow> A_json JNull | Some s \<Rightarrow> A_path s)
      else if pm_name p = ''model_handle'' then Some (A_handle (iv_handle a))
      else if pm_name p = ''status_callback'' then Some A_callback
      else if pm_name p = ''cancel_event'' then Some A_cancel
      else if pm_name p = ''model_load_seconds'' then Some (A_seconds (iv_load_s a))
      else if pm_name p = ''inputs'' then Some (A_json (JObj (iv_inputs a)))
      else case jget (iv_inputs a) (pm_name p) of
             None \<Rightarrow> None
           | Some v \<Rightarrow>
               if v = JNull \<and> pm_default p then None
               else Some (case v of JStr s \<Rightarrow> if pm_path p then A_path s else A_json v | _ \<Rightarrow> A_json v))"

definition bind_kwargs :: "invoke_args \<Rightarrow> param list \<Rightarrow> (string \<times> arg) list" where
  "bind_kwargs a ps =
     concat (map (\<lambda>p. case kwarg_for a p of None \<Rightarrow> [] | Some v \<Rightarrow> [(pm_name p, v)]) ps)"

definition delta_of :: "node_value \<Rightarrow> jdict" where
  "delta_of v = (case v of Dict_with_delta m \<Rightarrow> m | Other_dict m \<Rightarrow> m | Not_a_dict \<Rightarrow> [])"

text \<open>A keyword call that leaves a parameter without a default unbound is a \<^verbatim>\<open>TypeError\<close>.\<close>

definition invoke :: "(string \<Rightarrow> node_fn result) \<Rightarrow> string \<Rightarrow> invoke_args \<Rightarrow> (db, jdict) act" where
  "invoke resolve module_name a d =
     (case resolve module_name of
        Inl e \<Rightarrow> (Inl e, d)
      | Inr fn \<Rightarrow>
          let kwargs = bind_kwargs a (nf_params fn)
          in if list_ex (\<lambda>p. \<not> pm_star p \<and> \<not> pm_default p \<and> jget kwargs (pm_name p) = None) (nf_params fn)
             then (Inl (TypeError ''run() missing a required argument''), d)
             else case nf_run fn kwargs d of
                    (Inl e, d') \<Rightarrow> (Inl e, d') | (Inr v, d') \<Rightarrow> (Inr (delta_of v), d'))"

section \<open>The execution environment\<close>

record exec_env =
  xe_host :: host
  xe_model_cache :: "(string \<Rightarrow> (db, string) act) option"
  xe_resolve :: "string \<Rightarrow> node_fn result"
  xe_mkdir :: "string \<Rightarrow> string \<Rightarrow> string result"
  xe_context :: "(node_job \<Rightarrow> run_row option \<Rightarrow> (jdict \<Rightarrow> jdict result) option result) option"
  xe_show :: "py_error \<Rightarrow> string"
  xe_trace :: "py_error \<Rightarrow> string"
  xe_max_retries :: int
  xe_rss :: "int option"

definition out_dir_for :: "exec_env \<Rightarrow> node_job \<Rightarrow> run_row option \<Rightarrow> string option result" where
  "out_dir_for env job run =
     (case run of
        None \<Rightarrow> Inr None
      | Some r \<Rightarrow>
          if nonempty (r_out_dir r)
          then (case xe_mkdir env (the (r_out_dir r)) (nj_node job) of Inl e \<Rightarrow> Inl e | Inr p \<Rightarrow> Inr (Some p))
          else Inr None)"

section \<open>Failure handling\<close>

definition gpu_error_markers :: "string list" where
  "gpu_error_markers = [''acceleratorerror'', ''cuda error'', ''cuda-capable'', ''cublas'', ''cudnn'',
     ''nvml'', ''out of memory'', ''device-side assert'', ''hip error'', ''rocm error'',
     ''busy or unavailable'', ''cudaerrordevicesunavailable'', ''no cuda-capable device'']"

definition is_transient_gpu_error :: "string \<Rightarrow> bool" where
  "is_transient_gpu_error txt = list_ex (\<lambda>m. contains_sub (map to_lower txt) m) gpu_error_markers"

definition event_base :: "node_job \<Rightarrow> event_args" where
  "event_base job =
     \<lparr>va_run = nj_run job, va_node = nj_node job, va_type = [], va_job = Some (nj_id job),
      va_attempt = nj_retries job,
      va_host = (if nonempty (nj_claimed job) then nj_claimed job else nj_host job),
      va_queue = Some (nj_queue job), va_model = nj_model job, va_elapsed = None, va_error = None,
      va_detail = []\<rparr>"

text \<open>
  The one transaction every terminal path ends with: the mark, and the outbox row only when the
  mark took. An exception of the insert rolls the mark back.
\<close>

definition terminal_txn :: "(db \<Rightarrow> node_job option \<times> db) \<Rightarrow> node_job \<Rightarrow> string \<Rightarrow> (db, bool) act" where
  "terminal_txn mark job kind =
     in_txn (\<lambda>d. case mark d of
       (None, d') \<Rightarrow> (Inr False, d')
     | (Some _, d') \<Rightarrow>
         (case enqueue_dispatch_event_in_txn (nj_run job) (nj_node job) kind d' of
            (Inl e, d'') \<Rightarrow> (Inl e, d'') | (Inr _, d'') \<Rightarrow> (Inr True, d'')))"

definition finalise_failed :: "node_job \<Rightarrow> string \<Rightarrow> int \<Rightarrow> (db, exec_outcome) act" where
  "finalise_failed job err t0 d =
     (let seconds = now d - t0
      in case terminal_txn (mark_failed (nj_id job) (Some err) (Some seconds)) job ''failed'' d of
           (Inl e, d') \<Rightarrow> (Inl e, d')
         | (Inr False, d') \<Rightarrow> (Inr X_skipped, d')
         | (Inr True, d') \<Rightarrow>
             (Inr X_failed, snd (record_node_event ((event_base job)
                \<lparr>va_type := ''failed'', va_elapsed := Some seconds, va_error := Some err\<rparr>) d')))"

definition requeue_for_transient_gpu :: "int \<Rightarrow> node_job \<Rightarrow> string \<Rightarrow> int \<Rightarrow> (db, exec_outcome) act" where
  "requeue_for_transient_gpu max_retries job err t0 d =
     (if int (nj_retries job) \<ge> max_retries then finalise_failed job err t0 d
      else case requeue_job_for_retry (nj_id job) d of
             (None, d') \<Rightarrow> finalise_failed job err t0 d'
           | (Some row, d') \<Rightarrow>
               (Inr X_requeued, snd (record_node_event ((event_base job)
                  \<lparr>va_type := ''requeued'', va_elapsed := Some (now d' - t0), va_error := Some err,
                   va_detail := [(''retry'', JInt (int (nj_retries row))),
                                 (''reason'', JStr ''transient_gpu_error'')]\<rparr>) d')))"

section \<open>Executing a node\<close>

text \<open>
  \<^verbatim>\<open>execute_node\<close> in two parts, at the point where the host code has ended: how the attempt went,
  and the transactions that conclude it.
\<close>

datatype verdict = Delivered jdict | Broken string bool | Escaped py_error

definition seconds_json :: "int \<Rightarrow> json" where
  "seconds_json us = JFloat (of_int ((us + 5000) div 10000) / 100)"

definition load_model :: "exec_env \<Rightarrow> node_job \<Rightarrow> db \<Rightarrow>
    (string \<times> bool + string option \<times> int option) \<times> db" where
  "load_model env job d =
     (if \<not> nonempty (nj_model job) then (Inr (None, None), d)
      else case xe_model_cache env of
             None \<Rightarrow> (Inl (''node '' @ h_repr (xe_host env) (nj_node job) @ '' declares required_model '' @
                      h_repr (xe_host env) (the (nj_model job)) @
                      '' but no model_cache was supplied'', False), d)
           | Some require_model \<Rightarrow>
               (case require_model (the (nj_model job)) d of
                  (Inl e, d') \<Rightarrow>
                    let err = ''model load failed: '' @ xe_show env e
                    in (Inl (err, is_transient_gpu_error err), d')
                | (Inr handle, d') \<Rightarrow>
                    (Inr (Some handle, Some (now d' - now d)),
                     snd (record_node_event ((event_base job)
                       \<lparr>va_type := ''model_load_done'', va_elapsed := Some (now d' - now d),
                        va_detail := [(''model_load_s'', seconds_json (now d' - now d))]\<rparr>) d'))))"

definition enter_context :: "exec_env \<Rightarrow> node_job \<Rightarrow> run_row option \<Rightarrow>
    (jdict \<Rightarrow> jdict result) option result" where
  "enter_context env job run = (case xe_context env of None \<Rightarrow> Inr None | Some cm \<Rightarrow> cm job run)"

definition invoke_in_context :: "exec_env \<Rightarrow> node_job \<Rightarrow> run_row option \<Rightarrow> jdict \<Rightarrow> string option \<Rightarrow>
    int option \<Rightarrow> (jdict \<Rightarrow> jdict result) option \<Rightarrow> db \<Rightarrow> verdict \<times> db" where
  "invoke_in_context env job run inputs handle load_s finalize d =
     (let attempt = and_then (lift_result (out_dir_for env job run))
            (\<lambda>out. invoke (xe_resolve env) (nj_module job)
               \<lparr>iv_inputs = inputs, iv_out = out, iv_handle = handle, iv_load_s = load_s\<rparr>)
      in case attempt d of
           (Inl e, d') \<Rightarrow> (Broken (xe_show env e @ [CHR 0x0A] @ xe_trace env e)
                              (is_transient_gpu_error (xe_show env e)), d')
         | (Inr delta, d') \<Rightarrow>
             (case finalize of
                None \<Rightarrow> (Delivered delta, d')
              | Some fin \<Rightarrow> (case fin delta of Inl e \<Rightarrow> (Escaped e, d') | Inr delta' \<Rightarrow> (Delivered delta', d'))))"

definition attempt_node :: "exec_env \<Rightarrow> node_job \<Rightarrow> db \<Rightarrow> verdict \<times> db" where
  "attempt_node env job d =
     (let run = get_run (nj_run job) d
      in case load_model env job d of
           (Inl (err, transient), d1) \<Rightarrow> (Broken err transient, d1)
         | (Inr (handle, load_s), d1) \<Rightarrow>
             (case resolve_inputs_for_job (xe_host env) job d1 of
                Inl e \<Rightarrow> (Escaped e, d1)
              | Inr inputs \<Rightarrow>
                  let d2 = set_resolved_inputs (nj_id job) inputs d1
                  in case enter_context env job run of
                       Inl e \<Rightarrow> (Escaped e, d2)
                     | Inr finalize \<Rightarrow> invoke_in_context env job run inputs handle load_s finalize d2))"

definition conclude_node :: "exec_env \<Rightarrow> node_job \<Rightarrow> int \<Rightarrow> verdict \<Rightarrow> (db, exec_outcome) act" where
  "conclude_node env job t0 v d =
     (case v of
        Escaped e \<Rightarrow> (Inl e, d)
      | Broken err transient \<Rightarrow>
          if transient then requeue_for_transient_gpu (xe_max_retries env) job err t0 d
          else finalise_failed job err t0 d
      | Delivered delta \<Rightarrow>
          let seconds = now d - t0
          in case terminal_txn (mark_completed (nj_id job) delta seconds (xe_rss env)) job ''completed'' d of
               (Inl e, d') \<Rightarrow> (Inl e, d')
             | (Inr False, d') \<Rightarrow> (Inr X_skipped, d')
             | (Inr True, d') \<Rightarrow>
                 (Inr X_completed, snd (record_node_event ((event_base job)
                    \<lparr>va_type := ''completed'', va_elapsed := Some seconds\<rparr>) d')))"

definition execute_node :: "exec_env \<Rightarrow> node_job \<Rightarrow> (db, exec_outcome) act" where
  "execute_node env job d =
     (case attempt_node env job d of (v, d') \<Rightarrow> conclude_node env job (now d) v d')"

section \<open>Laws of the concluding transactions\<close>

definition outbox_event :: "db \<Rightarrow> node_job \<Rightarrow> string \<Rightarrow> dispatch_event" where
  "outbox_event d job kind =
     \<lparr>ev_id = next_event d, ev_run = nj_run job, ev_node = nj_node job, ev_kind = kind,
      ev_processed = None, ev_error = None, ev_attempts = 0, ev_created = now d\<rparr>"

text \<open>
  What a concluded job is: its row went from a live state to the final one, exactly one outbox
  row of that kind was appended, and no other job moved.
\<close>

definition concluded_as :: "job_status \<Rightarrow> string \<Rightarrow> node_job \<Rightarrow> db \<Rightarrow> db \<Rightarrow> bool" where
  "concluded_as st kind job d d' \<longleftrightarrow>
     (case (job_of d (nj_id job), job_of d' (nj_id job)) of
        (Some row, Some row') \<Rightarrow> not_final row \<and> nj_status row' = st \<and> nj_finished row' = Some (now d)
      | _ \<Rightarrow> False) \<and>
     dispatch_events d' = dispatch_events d @ [outbox_event d job kind] \<and>
     (\<forall>k. k \<noteq> nj_id job \<longrightarrow> job_of d' k = job_of d k)"

text \<open>The snapshot the worker holds names the run and node of the row.\<close>

definition snapshot_of :: "node_job \<Rightarrow> db \<Rightarrow> bool" where
  "snapshot_of job d = (case job_of d (nj_id job) of None \<Rightarrow> True | Some row \<Rightarrow> job_cell row = job_cell job)"

definition settled :: "node_job \<Rightarrow> db \<Rightarrow> bool" where
  "settled job d =
     (case job_of d (nj_id job) of None \<Rightarrow> True | Some row \<Rightarrow> guarded_terminal (nj_status row))"

lemma terminal_txn_settled:
  assumes "jobs_inv d" and "mark d = update_job (nj_id job) not_final f d" and "settled job d"
  shows "terminal_txn mark job kind d = (Inr False, d)"
proof -
  have "mark d = (None, d)"
    using assms by (auto simp: settled_def intro: job_update_none split: option.splits)
  then show ?thesis by (simp add: terminal_txn_def in_txn_def)
qed

lemma terminal_txn_live:
  assumes inv: "jobs_inv d" and mark: "mark d = update_job (nj_id job) not_final f d"
    and id: "\<And>j. nj_id (f j) = nj_id j" and row: "job_of d (nj_id job) = Some row" "not_final row"
    and snap: "snapshot_of job d" and kind: "kind \<in> {''completed'', ''failed'', ''awaiting_input''}"
  shows "terminal_txn mark job kind d =
    (Inr True, (snd (mark d))\<lparr>dispatch_events := dispatch_events d @ [outbox_event d job kind],
       next_event := Suc (next_event d)\<rparr>)"
proof -
  have "fst (mark d) = Some (f row)"
    using job_fetch_update[OF inv id, of "nj_id job" not_final] row by (simp add: mark)
  then obtain d1 where up: "mark d = (Some (f row), d1)" by (cases "mark d") simp
  have "nj_run row \<in> r_id ` set (runs d)"
    using inv row_of_SomeD[OF row(1)] by (auto simp: jobs_inv_def)
  then have "nj_run job \<in> r_id ` set (runs d)"
    using snap row(1) by (simp add: snapshot_of_def)
  then have "enqueue_dispatch_event_in_txn (nj_run job) (nj_node job) kind (snd (mark d)) =
    (Inr (next_event d), (snd (mark d))\<lparr>dispatch_events := dispatch_events d @ [outbox_event d job kind],
       next_event := Suc (next_event d)\<rparr>)"
    using kind by (auto simp: enqueue_dispatch_event_in_txn_def outbox_event_def mark)
  with up show ?thesis by (simp add: terminal_txn_def in_txn_def)
qed

text \<open>Both cases together, for the two final marks.\<close>

lemma terminal_txn_concludes:
  assumes inv: "jobs_inv d" and mark: "mark d = update_job (nj_id job) not_final f d"
    and id: "\<And>j. nj_id (f j) = nj_id j" and st: "\<And>j. nj_status (f j) = st"
    and fin: "\<And>j. nj_finished (f j) = Some (now d)"
    and snap: "snapshot_of job d" and kind: "kind \<in> {''completed'', ''failed''}"
  obtains (settled) "settled job d" "terminal_txn mark job kind d = (Inr False, d)"
  | (live) d' where "\<not> settled job d" "terminal_txn mark job kind d = (Inr True, d')"
      "concluded_as st kind job d d'"
proof (cases "settled job d")
  case True
  with terminal_txn_settled[of d mark job f] inv mark settled show ?thesis by simp
next
  case False
  then obtain row where row: "job_of d (nj_id job) = Some row" "not_final row"
    by (auto simp: settled_def split: option.splits)
  note run = terminal_txn_live[of d mark job f row kind, OF inv mark id row snap]
  have "job_of (snd (mark d)) (nj_id job) = Some (f row)"
    using job_lookup_row[OF id, where d = d and k = "nj_id job" and k' = "nj_id job" and Q = not_final] row
    by (simp add: mark)
  moreover have "job_of (snd (mark d)) k = job_of d k" if "k \<noteq> nj_id job" for k
    using job_lookup_row[OF id, where d = d and k = "nj_id job" and k' = k and Q = not_final] that
    by (simp add: mark)
  ultimately have "concluded_as st kind job d ((snd (mark d))
      \<lparr>dispatch_events := dispatch_events d @ [outbox_event d job kind], next_event := Suc (next_event d)\<rparr>)"
    using row by (simp add: concluded_as_def st fin)
  with run kind False live show ?thesis by auto
qed

lemma concluded_as_event [simp]:
  "concluded_as st kind job d (snd (record_node_event a d')) = concluded_as st kind job d d'"
  by (simp add: concluded_as_def)

lemma finalise_failed_spec:
  assumes "jobs_inv d" and "snapshot_of job d"
  obtains (settled) "settled job d" "finalise_failed job err t0 d = (Inr X_skipped, d)"
  | (live) d' where "\<not> settled job d" "finalise_failed job err t0 d = (Inr X_failed, d')"
      "concluded_as Failed ''failed'' job d d'"
proof -
  let ?mark = "mark_failed (nj_id job) (Some err) (Some (now d - t0))"
  let ?f = "\<lambda>j. j\<lparr>nj_status := Failed, nj_finished := Some (now d), nj_error := clip_error (Some err),
              nj_seconds := Some (now d - t0), nj_host := coalesce (nj_host j) (nj_claimed j)\<rparr>"
  have "?mark d = update_job (nj_id job) not_final ?f d" by (simp add: mark_failed_def)
  then show ?thesis
    by (rule terminal_txn_concludes[OF assms(1), where kind = "''failed''" and st = Failed])
      (use assms settled live in \<open>auto simp: finalise_failed_def Let_def\<close>)
qed

text \<open>A job handed back for another attempt: queued again, one retry older, nothing in the outbox.\<close>

definition handed_back :: "node_job \<Rightarrow> db \<Rightarrow> db \<Rightarrow> bool" where
  "handed_back job d d' \<longleftrightarrow>
     (case job_of d (nj_id job) of
        None \<Rightarrow> False
      | Some row \<Rightarrow> nj_status row = Running \<and>
          job_of d' (nj_id job) = Some ((back_to_queue row)\<lparr>nj_retries := nj_retries row + 1\<rparr>)) \<and>
     dispatch_events d' = dispatch_events d \<and>
     (\<forall>k. k \<noteq> nj_id job \<longrightarrow> job_of d' k = job_of d k)"

lemma handed_back_event [simp]:
  "handed_back job d (snd (record_node_event a d')) = handed_back job d d'"
  by (simp add: handed_back_def cong: option.case_cong)

definition is_running :: "node_job \<Rightarrow> db \<Rightarrow> bool" where
  "is_running job d = (case job_of d (nj_id job) of None \<Rightarrow> False | Some row \<Rightarrow> nj_status row = Running)"

lemma requeue_job_for_retry_spec:
  assumes inv: "jobs_inv d"
  obtains (gone) "\<not> is_running job d" "requeue_job_for_retry (nj_id job) d = (None, d)"
  | (returned) row d' where "is_running job d" "requeue_job_for_retry (nj_id job) d = (Some row, d')"
      "handed_back job d d'"
proof (cases "is_running job d")
  case False
  then have "requeue_job_for_retry (nj_id job) d = (None, d)"
    using inv unfolding requeue_job_for_retry_def
    by (intro job_update_none) (auto simp: is_running_def)
  with False gone show ?thesis by blast
next
  case True
  let ?f = "\<lambda>j. (back_to_queue j)\<lparr>nj_retries := nj_retries j + 1\<rparr>"
  obtain row where row: "job_of d (nj_id job) = Some row" "nj_status row = Running"
    using True by (auto simp: is_running_def split: option.splits)
  have id: "nj_id (?f j) = nj_id j" for j by (simp add: back_to_queue_def)
  obtain d' where up: "requeue_job_for_retry (nj_id job) d = (Some (?f row), d')"
    using job_fetch_update[OF inv, of ?f "nj_id job" "\<lambda>j. nj_status j = Running"] row id
    by (cases "requeue_job_for_retry (nj_id job) d") (simp add: requeue_job_for_retry_def)
  have d': "d' = snd (update_job (nj_id job) (\<lambda>j. nj_status j = Running) ?f d)"
    using up by (simp add: requeue_job_for_retry_def)
  have "job_of d' k = (if k = nj_id job then Some (?f row) else job_of d k)" for k
    using job_lookup_row[of ?f k "nj_id job" "\<lambda>j. nj_status j = Running" d] row id by (simp add: d')
  then have "handed_back job d d'" using row by (simp add: handed_back_def d')
  with True up returned show ?thesis by blast
qed

lemma requeue_for_transient_gpu_spec:
  assumes inv: "jobs_inv d" and snap: "snapshot_of job d"
    and run: "requeue_for_transient_gpu cap job err t0 d = (out, d')"
  shows "if settled job d then out = Inr X_skipped \<and> d' = d
    else if int (nj_retries job) < cap \<and> is_running job d then out = Inr X_requeued \<and> handed_back job d d'
    else out = Inr X_failed \<and> concluded_as Failed ''failed'' job d d'"
proof -
  have not_settled: "\<not> settled job d" if "is_running job d"
    using that by (auto simp: is_running_def settled_def guarded_terminal_def split: option.splits)
  show ?thesis
  proof (cases "int (nj_retries job) \<ge> cap")
    case True
    with run have "finalise_failed job err t0 d = (out, d')"
      by (simp add: requeue_for_transient_gpu_def)
    with True show ?thesis
      by (cases rule: finalise_failed_spec[OF inv snap, of err t0]) auto
  next
    case False
    note cap = this
    from inv show ?thesis
    proof (cases rule: requeue_job_for_retry_spec[where job = job])
      case gone
      with run cap have "finalise_failed job err t0 d = (out, d')"
        by (simp add: requeue_for_transient_gpu_def)
      with gone show ?thesis
        by (cases rule: finalise_failed_spec[OF inv snap, of err t0]) auto
    next
      case (returned row d1)
      with run cap not_settled show ?thesis by (auto simp: requeue_for_transient_gpu_def)
    qed
  qed
qed

text \<open>
  C4. The outcome of executing a claimed node job, from the database \<open>dm\<close> the host code leaves: a
  delivered result completes the job, any other failure fails it, and a transient accelerator error
  below the retry cap hands a running job back. A final mark comes with exactly one outbox row of
  its kind and a handed-back job with none; a job that became final in the meantime is left alone
  and nothing is written; an exception that escapes leaves the database untouched.
\<close>

theorem execute_node_outcome:
  assumes at: "attempt_node env job d = (v, dm)" and inv: "jobs_inv dm" and snap: "snapshot_of job dm"
    and run: "execute_node env job d = (out, d')"
  shows "case v of
      Escaped e \<Rightarrow> out = Inl e \<and> d' = dm
    | Delivered delta \<Rightarrow>
        (if settled job dm then out = Inr X_skipped \<and> d' = dm
         else out = Inr X_completed \<and> concluded_as Completed ''completed'' job dm d')
    | Broken err transient \<Rightarrow>
        (if settled job dm then out = Inr X_skipped \<and> d' = dm
         else if transient \<and> int (nj_retries job) < xe_max_retries env \<and> is_running job dm
         then out = Inr X_requeued \<and> handed_back job dm d'
         else out = Inr X_failed \<and> concluded_as Failed ''failed'' job dm d')"
proof -
  have co: "conclude_node env job (now d) v dm = (out, d')" using run at by (simp add: execute_node_def)
  show ?thesis
  proof (cases v)
    case (Escaped e)
    with co show ?thesis by (simp add: conclude_node_def)
  next
    case (Broken err transient)
    show ?thesis
    proof (cases transient)
      case True
      with co Broken have "requeue_for_transient_gpu (xe_max_retries env) job err (now d) dm = (out, d')"
        by (simp add: conclude_node_def)
      from requeue_for_transient_gpu_spec[OF inv snap this] True Broken show ?thesis by simp
    next
      case False
      with co Broken have "finalise_failed job err (now d) dm = (out, d')"
        by (simp add: conclude_node_def)
      with False Broken show ?thesis
        by (cases rule: finalise_failed_spec[OF inv snap, of err "now d"]) auto
    qed
  next
    case (Delivered delta)
    let ?s = "now dm - now d"
    let ?f = "\<lambda>j. j\<lparr>nj_status := Completed, nj_finished := Some (now dm), nj_delta := delta,
              nj_seconds := Some ?s, nj_rss := xe_rss env, nj_host := coalesce (nj_host j) (nj_claimed j)\<rparr>"
    have "mark_completed (nj_id job) delta ?s (xe_rss env) dm = update_job (nj_id job) not_final ?f dm"
      by (simp add: mark_completed_def)
    then show ?thesis
      by (rule terminal_txn_concludes[OF inv, where kind = "''completed''" and st = Completed])
        (use co Delivered snap in \<open>auto simp: conclude_node_def Let_def\<close>)
  qed
qed

text \<open>A node that returns a plain dict, executed for the job host h1 has claimed.\<close>

definition demo_env :: exec_env where
  "demo_env = \<lparr>xe_host = demo_host, xe_model_cache = None,
     xe_resolve = (\<lambda>_. Inr \<lparr>nf_params = [\<lparr>pm_name = ''inputs'', pm_star = False, pm_default = False, pm_path = False\<rparr>],
       nf_run = (\<lambda>_ d. (Inr (Other_dict [(''k'', JInt 1)]), d))\<rparr>),
     xe_mkdir = (\<lambda>a b. Inr a), xe_context = None, xe_show = (\<lambda>_. ''CUDA error''), xe_trace = (\<lambda>_. []),
     xe_max_retries = 3, xe_rss = None\<rparr>"

definition demo_job :: node_job where
  "demo_job = the (job_of demo_claimed 1)"

theorem execute_node_outcome_witness:
  "fst (execute_node demo_env demo_job demo_claimed) = Inr X_completed \<and>
   concluded_as Completed ''completed'' demo_job (snd (attempt_node demo_env demo_job demo_claimed))
     (snd (execute_node demo_env demo_job demo_claimed))"
proof -
  let ?dm = "snd (attempt_node demo_env demo_job demo_claimed)"
  have v: "attempt_node demo_env demo_job demo_claimed = (Delivered [(''k'', JInt 1)], ?dm)"
    by (rule prod_eqI) (simp_all, code_simp)
  have inv: "jobs_inv ?dm" by code_simp
  have snap: "snapshot_of demo_job ?dm" by code_simp
  have live: "\<not> settled demo_job ?dm" by code_simp
  from execute_node_outcome[OF v inv snap prod.collapse[symmetric]] live show ?thesis by simp
qed

end
