(* ===== verification/Watchdogs.thy ===== *)
theory Watchdogs
  imports Node_Executor
begin

text \<open>
  The per-job threads of \<^verbatim>\<open>claim_worker.py\<close>: lease renewal, the wall-clock budget, the stall and
  GPU-health watchdogs with their shared trip policy, and the watcher that abandons a job taken
  away. A thread is a state and one function per poll; the clock reading, the GPU and RAM
  samples and the stop event are arguments. \<^verbatim>\<open>on_exit\<close> ends the process, so a trip returns the exit
  code with the database it leaves.
\<close>

section \<open>Budgets\<close>

definition gpu_default_budget_s :: int where "gpu_default_budget_s = 8100"
definition video_budget_s :: int where "video_budget_s = 1800"
definition cpu_budget_s :: int where "cpu_budget_s = 2100"
definition input_budget_s :: int where "input_budget_s = 120"
definition fetch_budget_s :: int where "fetch_budget_s = 2 * 3600"
definition load_budget_s :: int where "load_budget_s = 3600"

text \<open>The row is a node job or an ingest job; the latter has no model and no module.\<close>

datatype work = Node_work node_job | Ingest_work ingest_row

fun work_queue :: "work \<Rightarrow> string" where
  "work_queue (Node_work j) = nj_queue j"
| "work_queue (Ingest_work j) = ij_queue j"

fun work_model :: "work \<Rightarrow> string" where
  "work_model (Node_work j) = (case nj_model j of None \<Rightarrow> [] | Some m \<Rightarrow> m)"
| "work_model (Ingest_work j) = []"

fun work_module :: "work \<Rightarrow> string" where
  "work_module (Node_work j) = nj_module j"
| "work_module (Ingest_work j) = []"

definition node_queues :: "string list" where
  "node_queues = [''cpu'', ''gpu'']"

definition budget_for :: "config \<Rightarrow> work \<Rightarrow> int" where
  "budget_for cfg job =
     (if work_queue job = ''gpu''
      then (if work_model job \<in> set (cfg_video_models cfg) then video_budget_s else gpu_default_budget_s)
      else if work_queue job = ''fetch'' then fetch_budget_s
      else if work_queue job = ''load'' then load_budget_s
      else if work_queue job \<notin> set node_queues then cfg_ingest_budget cfg
      else if starts_with (work_module job) ''__input__'' then input_budget_s
      else cpu_budget_s)"

section \<open>The trip policy\<close>

datatype lease_table = T_node_jobs | T_ingest_jobs

text \<open>\<^verbatim>\<open>LeaseRenewer._renew_once\<close>\<close>

definition renew_once :: "lease_table \<Rightarrow> nat \<Rightarrow> string \<Rightarrow> int \<Rightarrow> db \<Rightarrow> bool \<times> db" where
  "renew_once table job_id claimed_by lease_s =
     (case table of T_ingest_jobs \<Rightarrow> renew_ingest_lease job_id claimed_by lease_s
      | T_node_jobs \<Rightarrow> renew_lease job_id claimed_by lease_s)"

definition trip_event_type :: "string \<Rightarrow> string" where
  "trip_event_type label =
     (let lbl = map to_lower label
      in if contains_sub lbl ''stall'' then ''stall_trip''
         else if contains_sub lbl ''gpu'' then ''gpu_health_trip''
         else ''budget_trip'')"

text \<open>The worker identity a watchdog carries.\<close>

record tripper =
  tp_host :: "string option"
  tp_queue :: "string option"

definition emit_node_event :: "nat \<Rightarrow> string \<Rightarrow> tripper \<Rightarrow> string option \<Rightarrow> jdict \<Rightarrow> node_job option \<Rightarrow>
    db \<Rightarrow> db" where
  "emit_node_event job_id event_type who error detail row d =
     (case (case row of None \<Rightarrow> get_node_job job_id d | Some r \<Rightarrow> Some r) of
        None \<Rightarrow> d
      | Some r \<Rightarrow>
          if nj_run r = [] then d
          else snd (record_node_event
            \<lparr>va_run = nj_run r, va_node = nj_node r, va_type = event_type, va_job = Some job_id,
             va_attempt = nj_retries r, va_host = tp_host who, va_queue = tp_queue who,
             va_model = nj_model r, va_elapsed = None, va_error = error, va_detail = detail\<rparr> d))"

text \<open>
  \<^verbatim>\<open>_fail_job_and_exit\<close>: the mark and the outbox row are one transaction, whose exception is
  swallowed; the exit happens in any case.
\<close>

definition fail_marked :: "nat \<Rightarrow> string \<Rightarrow> (db, node_job option) act" where
  "fail_marked job_id error =
     in_txn (\<lambda>d. case mark_failed job_id (Some error) None d of
       (None, d') \<Rightarrow> (Inr None, d')
     | (Some row, d') \<Rightarrow>
         (case enqueue_dispatch_event_in_txn (nj_run row) (nj_node row) ''failed'' d' of
            (Inl e, d'') \<Rightarrow> (Inl e, d'') | (Inr _, d'') \<Rightarrow> (Inr (Some row), d'')))"

definition fail_job_and_exit :: "config \<Rightarrow> nat \<Rightarrow> lease_table \<Rightarrow> string \<Rightarrow> int \<Rightarrow> tripper \<Rightarrow> db \<Rightarrow> int \<times> db" where
  "fail_job_and_exit cfg job_id table error exit_code who d =
     (let d1 = (case table of
                  T_ingest_jobs \<Rightarrow> snd (mark_ingest_failed job_id (Some error) None d)
                | T_node_jobs \<Rightarrow>
                    (case fail_marked job_id error d of
                       (Inr (Some row), d') \<Rightarrow> emit_node_event job_id ''failed'' who (Some error) [] (Some row) d'
                     | (_, d') \<Rightarrow> d'))
      in (exit_code, clear_busy_ghost cfg (tp_host who) (tp_queue who) d1))"

definition requeue_job_and_exit :: "config \<Rightarrow> int \<Rightarrow> nat \<Rightarrow> string \<Rightarrow> int \<Rightarrow> tripper \<Rightarrow> db \<Rightarrow> int \<times> db" where
  "requeue_job_and_exit cfg max_retries job_id error exit_code who d =
     (let d1 = (case requeue_job_for_retry job_id d of
                  (None, d') \<Rightarrow> d'
                | (Some row, d') \<Rightarrow>
                    emit_node_event job_id ''requeued'' who (Some error)
                      [(''retry'', JInt (int (nj_retries row))), (''cap'', JInt max_retries)] (Some row) d')
      in (exit_code, clear_busy_ghost cfg (tp_host who) (tp_queue who) d1))"

definition watchdog_trip :: "config \<Rightarrow> int \<Rightarrow> nat \<Rightarrow> lease_table \<Rightarrow> string \<Rightarrow> string \<Rightarrow> int \<Rightarrow> tripper \<Rightarrow> db \<Rightarrow>
    int \<times> db" where
  "watchdog_trip cfg max_retries job_id table error label exit_code who d =
     (case table of
        T_ingest_jobs \<Rightarrow> fail_job_and_exit cfg job_id table error exit_code who d
      | T_node_jobs \<Rightarrow>
          let row = get_node_job job_id d;
              retries = (case row of None \<Rightarrow> 0 | Some r \<Rightarrow> nj_retries r);
              d1 = emit_node_event job_id (trip_event_type label) who (Some error) [] row d
          in if int retries < max_retries
             then requeue_job_and_exit cfg max_retries job_id error exit_code who d1
             else fail_job_and_exit cfg job_id table error exit_code who d1)"

section \<open>The wall-clock watchdog\<close>

text \<open>Monotonic clock readings and windows are in microseconds; \<^verbatim>\<open>int(x)\<close> of one shows whole seconds.\<close>

definition show_secs :: "int \<Rightarrow> string" where
  "show_secs us = show_int (us div 1000000)"

definition budget_error :: "int \<Rightarrow> string" where
  "budget_error budget = ''exceeded wall-clock budget ('' @ show_secs budget @ ''s) '' @ em_dash @
     '' watchdog hard-stopped the worker''"

definition budget_deadline :: "int \<Rightarrow> int \<Rightarrow> int" where
  "budget_deadline clock budget = clock + budget"

text \<open>One round of \<^verbatim>\<open>Watchdog._loop\<close>: the exit code when it tripped.\<close>

definition budget_poll :: "config \<Rightarrow> int \<Rightarrow> nat \<Rightarrow> lease_table \<Rightarrow> tripper \<Rightarrow> int \<Rightarrow> int \<Rightarrow> int \<Rightarrow> db \<Rightarrow>
    int option \<times> db" where
  "budget_poll cfg max_retries job_id table who budget deadline clock d =
     (if clock \<ge> deadline
      then (case watchdog_trip cfg max_retries job_id table (budget_error budget) ''watchdog'' 75 who d of
              (code, d') \<Rightarrow> (Some code, d'))
      else (None, d))"

section \<open>Samples\<close>

text \<open>A sampler returns a reading or \<^verbatim>\<open>None\<close>, or raises; \<^verbatim>\<open>int(x or 0)\<close> and the handlers.\<close>

definition sample_gpu :: "int option result \<Rightarrow> int" where
  "sample_gpu raw = (case raw of Inr (Some v) \<Rightarrow> v | _ \<Rightarrow> 0)"

definition sample_ram :: "int option result \<Rightarrow> int option" where
  "sample_ram raw = (case raw of Inr v \<Rightarrow> v | Inl e \<Rightarrow> None)"

definition ram_moved :: "int \<Rightarrow> int option \<Rightarrow> int option \<Rightarrow> bool" where
  "ram_moved delta anchor ram_now =
     (case (anchor, ram_now) of (Some a, Some b) \<Rightarrow> \<bar>b - a\<bar> > delta | _ \<Rightarrow> False)"

section \<open>The stall watchdog\<close>

record stall_wd =
  sw_timeout :: int
  sw_idle_pct :: int
  sw_ram_delta :: int
  sw_samples :: nat
  sw_deadline :: "int option"

definition stall_init :: "int \<Rightarrow> int \<Rightarrow> int \<Rightarrow> int \<Rightarrow> stall_wd" where
  "stall_init timeout idle_pct ram_delta samples =
     \<lparr>sw_timeout = timeout, sw_idle_pct = idle_pct, sw_ram_delta = ram_delta,
      sw_samples = nat (max 1 samples), sw_deadline = None\<rparr>"

text \<open>\<^verbatim>\<open>beat\<close> and \<^verbatim>\<open>_rearm\<close> have the same body.\<close>

definition stall_beat :: "int \<Rightarrow> stall_wd \<Rightarrow> stall_wd" where
  "stall_beat clock w = w\<lparr>sw_deadline := Some (clock + sw_timeout w)\<rparr>"

text \<open>
  The sampling loop of \<^verbatim>\<open>_confirm_wedged\<close>, from the i-th reading on: whether the stop event was
  set during the wait, then the GPU and the RAM reading. The answer is \<open>None\<close> when stopped.
\<close>

type_synonym reading = "bool \<times> int option result \<times> int option result"

fun confirm_loop :: "(nat \<Rightarrow> reading) \<Rightarrow> nat \<Rightarrow> nat \<Rightarrow> int \<Rightarrow> int option \<Rightarrow> (int \<times> int option) option" where
  "confirm_loop readings i 0 max_util ram_now = Some (max_util, ram_now)"
| "confirm_loop readings i (Suc n) max_util ram_now =
     (case readings i of
        (stopped, gpu, ram) \<Rightarrow>
          if stopped then None
          else confirm_loop readings (Suc i) n (max max_util (sample_gpu gpu)) (sample_ram ram))"

datatype stall_verdict = Wedged | Busy int "int option" "int option" | Stopped

definition confirm_wedged :: "(nat \<Rightarrow> reading) \<Rightarrow> stall_wd \<Rightarrow> stall_verdict" where
  "confirm_wedged readings w =
     (case readings 0 of
        (_, gpu, ram) \<Rightarrow>
          let ram_anchor = sample_ram ram
          in case confirm_loop readings 1 (sw_samples w - 1) (sample_gpu gpu) ram_anchor of
               None \<Rightarrow> Stopped
             | Some (max_util, ram_now) \<Rightarrow>
                 if max_util \<le> sw_idle_pct w \<and> \<not> ram_moved (sw_ram_delta w) ram_anchor ram_now
                 then Wedged else Busy max_util ram_anchor ram_now)"

definition opt_int :: "int option \<Rightarrow> json" where
  "opt_int v = (case v of None \<Rightarrow> JNull | Some i \<Rightarrow> JInt i)"

definition stall_error :: "int \<Rightarrow> string" where
  "stall_error timeout = ''no progress for '' @ show_secs timeout @ ''s (no GPU step beat) '' @
     ''AND confirmed GPU-idle + static-RAM '' @ em_dash @ '' stall watchdog hard-stopped '' @ ''a wedged worker''"

definition suspected_error :: "int \<Rightarrow> string" where
  "suspected_error timeout = ''no beat for '' @ show_secs timeout @ ''s but GPU/RAM '' @
     ''active '' @ em_dash @ '' not killing''"

text \<open>
  One round of \<^verbatim>\<open>StallWatchdog._loop\<close>; \<^verbatim>\<open>clock'\<close> is the reading after the confirmation window.
\<close>

definition stall_poll :: "config \<Rightarrow> int \<Rightarrow> nat \<Rightarrow> lease_table \<Rightarrow> tripper \<Rightarrow>
    (nat \<Rightarrow> reading) \<Rightarrow> int \<Rightarrow> int \<Rightarrow> stall_wd \<Rightarrow> db \<Rightarrow> int option \<times> stall_wd \<times> db" where
  "stall_poll cfg max_retries job_id table who readings clock clock' w d =
     (case sw_deadline w of
        None \<Rightarrow> (None, w, d)
      | Some deadline \<Rightarrow>
          if clock \<ge> deadline
          then (case confirm_wedged readings w of
                  Wedged \<Rightarrow>
                    (case watchdog_trip cfg max_retries job_id table (stall_error (sw_timeout w))
                            ''stall-watchdog'' 76 who d of
                       (code, d') \<Rightarrow> (Some code, w, d'))
                | Stopped \<Rightarrow> (None, stall_beat clock' w, d)
                | Busy max_util ram_anchor ram_now \<Rightarrow>
                    (None, stall_beat clock' w,
                     emit_node_event job_id ''stall_suspected'' who (Some (suspected_error (sw_timeout w)))
                       [(''max_sm_pct'', JInt max_util), (''ram_anchor_mb'', opt_int ram_anchor),
                        (''ram_now_mb'', opt_int ram_now)] None d))
          else (None, w, d))"

section \<open>The GPU health watchdog\<close>

record health_wd =
  gh_interval :: int
  gh_load_grace :: int
  gh_idle_pct :: int
  gh_ram_delta :: int
  gh_armed :: bool
  gh_max_util :: int
  gh_ram_anchor :: "int option"
  gh_next :: int

definition reset_window :: "int \<Rightarrow> int option result \<Rightarrow> int option \<Rightarrow> health_wd \<Rightarrow> health_wd" where
  "reset_window clock ram window w =
     w\<lparr>gh_max_util := 0, gh_ram_anchor := sample_ram ram,
       gh_next := clock + (case window of None \<Rightarrow> gh_interval w | Some s \<Rightarrow> s)\<rparr>"

definition health_beat :: "int \<Rightarrow> int option result \<Rightarrow> health_wd \<Rightarrow> health_wd" where
  "health_beat clock ram w = reset_window clock ram None (w\<lparr>gh_armed := True\<rparr>)"

definition health_start :: "int \<Rightarrow> int option result \<Rightarrow> health_wd \<Rightarrow> health_wd" where
  "health_start clock ram w = reset_window clock ram (Some (gh_load_grace w)) (w\<lparr>gh_armed := True\<rparr>)"

text \<open>\<^verbatim>\<open>_evaluate_window_locked\<close>: whether the window trips, and the watchdog otherwise.\<close>

definition evaluate_window :: "int \<Rightarrow> int option result \<Rightarrow> int option result \<Rightarrow> health_wd \<Rightarrow> bool \<times> health_wd" where
  "evaluate_window clock ram ram_again w =
     (if gh_max_util w \<le> gh_idle_pct w \<and> \<not> ram_moved (gh_ram_delta w) (gh_ram_anchor w) (sample_ram ram)
      then (True, w)
      else (False, reset_window clock ram_again None w))"

text \<open>One round of \<^verbatim>\<open>GpuHealthWatchdog._loop\<close>: the clock, the GPU sample and the two RAM samples.\<close>

record health_sample =
  hr_clock :: int
  hr_gpu :: "int option result"
  hr_ram :: "int option result"
  hr_ram_again :: "int option result"

definition health_round :: "health_sample \<Rightarrow> health_wd \<Rightarrow> bool \<times> health_wd" where
  "health_round r w =
     (if \<not> gh_armed w then (False, w)
      else let util = sample_gpu (hr_gpu r);
               w1 = (if util > gh_max_util w then w\<lparr>gh_max_util := util\<rparr> else w)
           in if hr_clock r \<ge> gh_next w1 then evaluate_window (hr_clock r) (hr_ram r) (hr_ram_again r) w1
              else (False, w1))"

definition show_opt :: "int option \<Rightarrow> string" where
  "show_opt v = (case v of None \<Rightarrow> ''None'' | Some i \<Rightarrow> show_int i)"

definition health_error :: "health_wd \<Rightarrow> int option \<Rightarrow> string" where
  "health_error w ram_now =
     ''no GPU activity (max sm% '' @ show_int (gh_max_util w) @ '' <= '' @ show_int (gh_idle_pct w) @
     '') and static '' @ ''RAM (anchor='' @ show_opt (gh_ram_anchor w) @ ''MB now='' @ show_opt ram_now @
     ''MB, |'' @ [CHR 0xCE, CHR 0x94] @ ''| <= '' @ show_int (gh_ram_delta w) @ ''MB) '' @
     ''for '' @ show_secs (gh_interval w) @ ''s '' @ em_dash @
     '' health watchdog hard-stopped a wedged worker''"

definition health_poll :: "config \<Rightarrow> int \<Rightarrow> nat \<Rightarrow> lease_table \<Rightarrow> tripper \<Rightarrow> health_sample \<Rightarrow> health_wd \<Rightarrow>
    db \<Rightarrow> int option \<times> health_wd \<times> db" where
  "health_poll cfg max_retries job_id table who r w d =
     (case health_round r w of
        (False, w') \<Rightarrow> (None, w', d)
      | (True, w') \<Rightarrow>
          (case watchdog_trip cfg max_retries job_id table (health_error w' (sample_ram (hr_ram r)))
                  ''gpu-health'' 78 who d of
             (code, d') \<Rightarrow> (Some code, w', d')))"

section \<open>The job-status watcher\<close>

definition status_watch :: "nat \<Rightarrow> string \<Rightarrow> db \<Rightarrow> int option \<times> db" where
  "status_watch job_id claimed_by d =
     (case get_node_job job_id d of
        None \<Rightarrow> (Some 77, d)
      | Some row \<Rightarrow>
          if nj_claimed row \<noteq> Some claimed_by
          then (Some 77, emit_node_event job_id ''reassigned'' \<lparr>tp_host = Some claimed_by, tp_queue = None\<rparr> None
                  [(''new_claimed_by'', case nj_claimed row of None \<Rightarrow> JNull | Some h \<Rightarrow> JStr h),
                   (''status'', JStr (status_text (nj_status row)))] (Some row) d)
          else (None, d))"

section \<open>Laws of the trip policy\<close>

lemma emit_node_event_frame [simp]:
  "node_jobs (emit_node_event k ty who e dt row d) = node_jobs d"
  "dispatch_events (emit_node_event k ty who e dt row d) = dispatch_events d"
  "runs (emit_node_event k ty who e dt row d) = runs d"
  "next_event (emit_node_event k ty who e dt row d) = next_event d"
  "ingest_jobs (emit_node_event k ty who e dt row d) = ingest_jobs d"
  "heartbeats (emit_node_event k ty who e dt row d) = heartbeats d"
  "now (emit_node_event k ty who e dt row d) = now d"
  by (auto simp: emit_node_event_def split: option.splits)

lemma next_uuid_record [simp]: "next_uuid (snd (record_node_event a d)) = next_uuid d"
  by (auto simp: record_node_event_def best_effort_def in_txn_def record_node_event_in_txn_def
      split: prod.splits sum.splits)

lemma next_uuid_emit [simp]: "next_uuid (emit_node_event k ty who e dt row d) = next_uuid d"
  by (auto simp: emit_node_event_def split: option.splits)

lemma emit_node_event_inv: "jobs_inv d \<Longrightarrow> jobs_inv (emit_node_event k ty who e dt row d)"
  by (simp add: jobs_inv_def)

lemma clear_busy_ghost_frame [simp]:
  "node_jobs (clear_busy_ghost cfg h q d) = node_jobs d"
  "dispatch_events (clear_busy_ghost cfg h q d) = dispatch_events d"
  "ingest_jobs (clear_busy_ghost cfg h q d) = ingest_jobs d"
  "runs (clear_busy_ghost cfg h q d) = runs d"
  by (auto simp: clear_busy_ghost_def clear_worker_current_model_def Let_def split: option.splits)

text \<open>
  Two databases with the same jobs, runs, outbox and clock are alike for the outcome of a trip.
\<close>

definition alike :: "db \<Rightarrow> db \<Rightarrow> bool" where
  "alike d e \<longleftrightarrow> node_jobs d = node_jobs e \<and> dispatch_events d = dispatch_events e \<and>
     next_event d = next_event e \<and> now d = now e"

lemma alike_outcomes:
  assumes "alike d e"
  shows "handed_back job d x = handed_back job e x" and "concluded_as st kind job d x = concluded_as st kind job e x"
    and "is_running job d = is_running job e"
  using assms by (simp_all add: alike_def handed_back_def concluded_as_def outbox_event_def is_running_def
      cong: option.case_cong)

lemma outcome_frame:
  assumes "node_jobs x = node_jobs y" and "dispatch_events x = dispatch_events y"
  shows "handed_back job d x = handed_back job d y" and "concluded_as st kind job d x = concluded_as st kind job d y"
  using assms by (simp_all add: handed_back_def concluded_as_def cong: option.case_cong)

lemma fail_marked_terminal:
  assumes inv: "jobs_inv d" and row: "job_of d k = Some row"
  shows "snd (fail_marked k err d) = snd (terminal_txn (mark_failed k (Some err) None) row ''failed'' d)"
proof -
  let ?f = "\<lambda>j. j\<lparr>nj_status := Failed, nj_finished := Some (now d), nj_error := clip_error (Some err),
              nj_seconds := None, nj_host := coalesce (nj_host j) (nj_claimed j)\<rparr>"
  have fst: "fst (mark_failed k (Some err) None d) = (if not_final row then Some (?f row) else None)"
    using job_fetch_update[OF inv, of ?f k not_final] row by (simp add: mark_failed_def)
  obtain r d1 where m: "mark_failed k (Some err) None d = (r, d1)" by fastforce
  with fst have "r = (if not_final row then Some (?f row) else None)" by simp
  with m show ?thesis
    by (auto simp: fail_marked_def terminal_txn_def in_txn_def split: prod.splits sum.splits)
qed

lemma fail_marked_spec:
  assumes inv: "jobs_inv d" and row: "job_of d k = Some row"
  shows "if guarded_terminal (nj_status row) then snd (fail_marked k err d) = d
    else concluded_as Failed ''failed'' row d (snd (fail_marked k err d))"
proof -
  let ?f = "\<lambda>j. j\<lparr>nj_status := Failed, nj_finished := Some (now d), nj_error := clip_error (Some err),
              nj_seconds := None, nj_host := coalesce (nj_host j) (nj_claimed j)\<rparr>"
  have id: "nj_id row = k" using row_of_SomeD[OF row] by simp
  have snap: "snapshot_of row d" using row id by (simp add: snapshot_of_def)
  have set: "settled row d = guarded_terminal (nj_status row)" using row id by (simp add: settled_def)
  have "mark_failed k (Some err) None d = update_job (nj_id row) not_final ?f d"
    by (simp add: mark_failed_def id)
  then show ?thesis
    unfolding fail_marked_terminal[OF inv row]
    by (rule terminal_txn_concludes[OF inv, where kind = "''failed''" and st = Failed])
      (use snap set in auto)
qed

lemma fail_exit_frame:
  "node_jobs (snd (fail_job_and_exit cfg k T_node_jobs err code who d)) = node_jobs (snd (fail_marked k err d))"
  "dispatch_events (snd (fail_job_and_exit cfg k T_node_jobs err code who d)) =
     dispatch_events (snd (fail_marked k err d))"
  by (auto simp: fail_job_and_exit_def Let_def split: prod.splits sum.splits option.splits)

lemma requeue_exit_frame:
  "node_jobs (snd (requeue_job_and_exit cfg cap k err code who d)) = node_jobs (snd (requeue_job_for_retry k d))"
  "dispatch_events (snd (requeue_job_and_exit cfg cap k err code who d)) =
     dispatch_events (snd (requeue_job_for_retry k d))"
  by (auto simp: requeue_job_and_exit_def Let_def split: prod.splits option.splits)

lemma watchdog_trip_spec:
  assumes inv: "jobs_inv d" and row: "job_of d k = Some row"
    and trip: "watchdog_trip cfg cap k T_node_jobs err label code who d = (exit, d')"
  shows "exit = code \<and>
    (if guarded_terminal (nj_status row) \<or> (int (nj_retries row) < cap \<and> nj_status row \<noteq> Running)
     then node_jobs d' = node_jobs d \<and> dispatch_events d' = dispatch_events d
     else if int (nj_retries row) < cap then handed_back row d d'
     else concluded_as Failed ''failed'' row d d')"
proof -
  let ?d1 = "emit_node_event k (trip_event_type label) who (Some err) [] (Some row) d"
  have id: "nj_id row = k" using row_of_SomeD[OF row] by simp
  have inv1: "jobs_inv ?d1" using inv by (rule emit_node_event_inv)
  have row1: "job_of ?d1 k = Some row" using row by simp
  have al: "alike ?d1 d" by (simp add: alike_def)
  have run: "(exit, d') = (if int (nj_retries row) < cap then requeue_job_and_exit cfg cap k err code who ?d1
      else fail_job_and_exit cfg k T_node_jobs err code who ?d1)"
    using trip row by (simp add: watchdog_trip_def get_node_job_def Let_def split: if_splits)
  have code: "exit = code"
    using run by (auto simp: requeue_job_and_exit_def fail_job_and_exit_def Let_def split: if_splits)
  show ?thesis
  proof (cases "int (nj_retries row) < cap")
    case True
    then have fr: "node_jobs d' = node_jobs (snd (requeue_job_for_retry k ?d1))"
      "dispatch_events d' = dispatch_events (snd (requeue_job_for_retry k ?d1))"
      using run requeue_exit_frame[of cfg cap k err code who ?d1] by (metis snd_conv)+
    have "handed_back row d d'" if "nj_status row = Running"
    proof -
      from inv1 have "handed_back row ?d1 (snd (requeue_job_for_retry k ?d1))"
        by (cases rule: requeue_job_for_retry_spec[where job = row])
          (use that row1 id in \<open>auto simp: is_running_def\<close>)
      then show ?thesis using outcome_frame[OF fr] alike_outcomes[OF al] by blast
    qed
    moreover have "snd (requeue_job_for_retry k ?d1) = ?d1" if "nj_status row \<noteq> Running"
      using inv1 by (cases rule: requeue_job_for_retry_spec[where job = row])
        (use that row1 id in \<open>auto simp: is_running_def\<close>)
    ultimately show ?thesis using True code fr by (auto simp: guarded_terminal_def)
  next
    case False
    then have fr: "node_jobs d' = node_jobs (snd (fail_marked k err ?d1))"
      "dispatch_events d' = dispatch_events (snd (fail_marked k err ?d1))"
      using run fail_exit_frame[of cfg k err code who ?d1] by (metis snd_conv)+
    with False code fail_marked_spec[OF inv1 row1, of err] show ?thesis
      using outcome_frame(2)[OF fr] alike_outcomes(2)[OF al] by (auto split: if_splits)
  qed
qed

text \<open>
  C5. What a tripping watchdog does to its node job, whichever watchdog it is: below the retry cap a
  running job goes back to the queue one retry older and the run hears nothing; at the cap the job
  fails and exactly one outbox row tells the dispatcher; a job that is final by then is not touched.
  The process exits with the watchdog's code in every case.
\<close>

theorem watchdog_trip_outcome:
  assumes "jobs_inv d" and "job_of d k = Some row"
    and "watchdog_trip cfg cap k T_node_jobs err label code who d = (exit, d')"
  shows "exit = code \<and>
    (if guarded_terminal (nj_status row) \<or> (int (nj_retries row) < cap \<and> nj_status row \<noteq> Running)
     then node_jobs d' = node_jobs d \<and> dispatch_events d' = dispatch_events d
     else if int (nj_retries row) < cap then handed_back row d d'
     else concluded_as Failed ''failed'' row d d')"
  using assms by (rule watchdog_trip_spec)

theorem watchdog_trip_outcome_witness:
  "fst (watchdog_trip demo_cfg 3 1 T_node_jobs ''late'' ''watchdog'' 75 \<lparr>tp_host = None, tp_queue = None\<rparr> demo_claimed) = 75 \<and>
   handed_back demo_job demo_claimed
     (snd (watchdog_trip demo_cfg 3 1 T_node_jobs ''late'' ''watchdog'' 75 \<lparr>tp_host = None, tp_queue = None\<rparr> demo_claimed))"
proof -
  have row: "job_of demo_claimed 1 = Some demo_job" by code_simp
  have facts: "nj_status demo_job = Running" "nj_retries demo_job = 0" by code_simp+
  show ?thesis
    using watchdog_trip_outcome[OF demo_claimed_inv row prod.collapse[symmetric], of demo_cfg 3
        "''late''" "''watchdog''" 75 "\<lparr>tp_host = None, tp_queue = None\<rparr>"] facts
    by (simp add: guarded_terminal_def)
qed

text \<open>
  A job cannot be retried forever: in any sequence of trips of one running job, each handed back
  and tried again with its counter kept or higher, there are at most as many trips as the cap.
\<close>

theorem watchdog_retries_bounded:
  assumes state: "\<And>i. i < n \<Longrightarrow> jobs_inv (f i) \<and> job_of (f i) k = Some (row i) \<and> nj_status (row i) = Running"
    and again: "\<And>i. i < n \<Longrightarrow> \<exists>r'. job_of (snd (watchdog_trip cfg cap k T_node_jobs err label code who (f i))) k = Some r' \<and>
      nj_status r' = Queued \<and> nj_retries r' \<le> nj_retries (row (Suc i))"
  shows "int n \<le> max cap 0"
proof -
  have step: "int (nj_retries (row i)) < cap \<and> Suc (nj_retries (row i)) \<le> nj_retries (row (Suc i))"
    if "i < n" for i
  proof -
    let ?d' = "snd (watchdog_trip cfg cap k T_node_jobs err label code who (f i))"
    note ex = again[OF that]
    from state[OF that] have inv: "jobs_inv (f i)" and row: "job_of (f i) k = Some (row i)"
      and run: "nj_status (row i) = Running" by simp_all
    note out = watchdog_trip_spec[OF inv row prod.collapse[symmetric], of cfg cap err label code who]
    have id: "nj_id (row i) = k" using row_of_SomeD[OF row] by simp
    obtain r' where r': "job_of ?d' k = Some r'" "nj_status r' = Queued"
      "nj_retries r' \<le> nj_retries (row (Suc i))" using ex by blast
    have lt: "int (nj_retries (row i)) < cap"
    proof (rule ccontr)
      assume "\<not> int (nj_retries (row i)) < cap"
      with out run have "concluded_as Failed ''failed'' (row i) (f i) ?d'" by (simp add: guarded_terminal_def)
      with r' row id show False by (simp add: concluded_as_def)
    qed
    with out run have "handed_back (row i) (f i) ?d'" by (simp add: guarded_terminal_def)
    with r' row id have "nj_retries r' = Suc (nj_retries (row i))" by (simp add: handed_back_def)
    with lt r' show ?thesis by simp
  qed
  have "i \<le> nj_retries (row i)" if "i < n" for i
    using that
  proof (induction i)
    case (Suc i)
    then have "i < n" by simp
    with Suc.IH step[of i] show ?case by linarith
  qed simp
  with step[of "n - 1"] show ?thesis by (cases n) fastforce+
qed

theorem watchdog_retries_bounded_witness:
  "int 1 \<le> max (3::int) 0 \<and> nj_retries demo_job = 0"
proof -
  let ?who = "\<lparr>tp_host = None, tp_queue = None\<rparr>"
  let ?d' = "snd (watchdog_trip demo_cfg 3 1 T_node_jobs ''late'' ''watchdog'' 75 ?who demo_claimed)"
  have row: "job_of demo_claimed 1 = Some demo_job" by code_simp
  have facts: "nj_status demo_job = Running" "nj_retries demo_job = 0" "nj_id demo_job = 1" by code_simp+
  have "handed_back demo_job demo_claimed ?d'"
    using watchdog_trip_spec[OF demo_claimed_inv row prod.collapse[symmetric], of demo_cfg 3
        "''late''" "''watchdog''" 75 ?who] facts by (simp add: guarded_terminal_def)
  then have "\<exists>r'. job_of ?d' 1 = Some r' \<and> nj_status r' = Queued \<and> nj_retries r' \<le> nj_retries (demo_job\<lparr>nj_retries := Suc 0\<rparr>)"
    using row facts by (simp add: handed_back_def back_to_queue_def)
  moreover have "demo_job\<lparr>nj_retries := 0\<rparr> = demo_job" using facts(2) by (metis node_job.surjective node_job.update_convs(22))
  ultimately have "int 1 \<le> max (3::int) 0"
    using watchdog_retries_bounded[of 1 "\<lambda>_. demo_claimed" 1 "\<lambda>i. demo_job\<lparr>nj_retries := i\<rparr>" demo_cfg 3
        "''late''" "''watchdog''" 75 ?who] row facts demo_claimed_inv by simp
  with facts show ?thesis by simp
qed

section \<open>Laws of the health window\<close>

text \<open>The rounds of the loop, until one trips.\<close>

fun health_rounds :: "health_sample list \<Rightarrow> health_wd \<Rightarrow> bool \<times> health_wd" where
  "health_rounds [] w = (False, w)"
| "health_rounds (r # rs) w =
     (case health_round r w of (True, w') \<Rightarrow> (True, w') | (False, w') \<Rightarrow> health_rounds rs w')"

definition peak :: "int \<Rightarrow> health_sample list \<Rightarrow> int" where
  "peak m rs = fold (\<lambda>r m. max m (sample_gpu (hr_gpu r))) rs m"

lemma peak_le: "peak m rs \<le> L \<longleftrightarrow> m \<le> L \<and> (\<forall>r\<in>set rs. sample_gpu (hr_gpu r) \<le> L)"
  by (induction rs arbitrary: m) (auto simp: peak_def)

lemma health_round_quiet:
  assumes "gh_armed w" and "hr_clock r < gh_next w"
  shows "health_round r w = (False, w\<lparr>gh_max_util := max (gh_max_util w) (sample_gpu (hr_gpu r))\<rparr>)"
  using assms by (auto simp: health_round_def Let_def max_def)

lemma health_rounds_quiet:
  assumes "gh_armed w" and "\<forall>r\<in>set rs. hr_clock r < gh_next w"
  shows "health_rounds (rs @ rest) w = health_rounds rest (w\<lparr>gh_max_util := peak (gh_max_util w) rs\<rparr>)"
  using assms
proof (induction rs arbitrary: w)
  case (Cons r rs)
  let ?w = "w\<lparr>gh_max_util := max (gh_max_util w) (sample_gpu (hr_gpu r))\<rparr>"
  have "health_rounds (rs @ rest) ?w = health_rounds rest (?w\<lparr>gh_max_util := peak (gh_max_util ?w) rs\<rparr>)"
    by (rule Cons.IH) (use Cons.prems in auto)
  with Cons.prems show ?case by (simp add: health_round_quiet peak_def)
qed (simp add: peak_def)

text \<open>
  The health watchdog judges by health and never by elapsed time: over a window, however many
  polls it has, the job is stopped at the checkpoint exactly when every GPU sample of the window stayed
  at or under the idle level and memory did not move by more than the threshold; otherwise a new
  window opens. Before the checkpoint nothing can stop it.
\<close>

theorem health_window_verdict:
  assumes armed: "gh_armed w" and before: "\<forall>r\<in>set rs. hr_clock r < gh_next w"
    and due: "hr_clock r \<ge> gh_next w"
  shows "fst (health_rounds rs w) = False \<and>
    (fst (health_rounds (rs @ [r]) w) \<longleftrightarrow>
      gh_max_util w \<le> gh_idle_pct w \<and> (\<forall>x\<in>set (rs @ [r]). sample_gpu (hr_gpu x) \<le> gh_idle_pct w) \<and>
      \<not> ram_moved (gh_ram_delta w) (gh_ram_anchor w) (sample_ram (hr_ram r))) \<and>
    (\<not> fst (health_rounds (rs @ [r]) w) \<longrightarrow>
      snd (health_rounds (rs @ [r]) w) = reset_window (hr_clock r) (hr_ram_again r) None w)"
proof -
  let ?w = "w\<lparr>gh_max_util := peak (gh_max_util w) rs\<rparr>"
  let ?m = "peak (gh_max_util w) (rs @ [r])"
  have quiet: "health_rounds rs w = (False, ?w)"
    using health_rounds_quiet[OF armed before, of "[]"] by simp
  have last: "health_round r ?w =
      evaluate_window (hr_clock r) (hr_ram r) (hr_ram_again r) (w\<lparr>gh_max_util := ?m\<rparr>)"
    using armed due by (auto simp: health_round_def Let_def peak_def max_def)
  have all: "health_rounds (rs @ [r]) w =
      evaluate_window (hr_clock r) (hr_ram r) (hr_ram_again r) (w\<lparr>gh_max_util := ?m\<rparr>)"
    using health_rounds_quiet[OF armed before, of "[r]"] last by (simp split: prod.splits bool.splits)
  show ?thesis
    using quiet peak_le[of "gh_max_util w" "rs @ [r]" "gh_idle_pct w"]
    unfolding all by (auto simp: evaluate_window_def reset_window_def)
qed

text \<open>One GPU burst during a window keeps the job alive past its checkpoint.\<close>

definition demo_round :: "int \<Rightarrow> int \<Rightarrow> health_sample" where
  "demo_round t gpu = \<lparr>hr_clock = t, hr_gpu = Inr (Some gpu), hr_ram = Inr (Some 100), hr_ram_again = Inr (Some 100)\<rparr>"

definition demo_health :: health_wd where
  "demo_health = health_start 0 (Inr (Some 100))
     \<lparr>gh_interval = 300, gh_load_grace = 1200, gh_idle_pct = 5, gh_ram_delta = 5120, gh_armed = False,
      gh_max_util = 0, gh_ram_anchor = None, gh_next = 0\<rparr>"

theorem health_window_verdict_witness:
  "fst (health_rounds ([demo_round 600 3, demo_round 900 80] @ [demo_round 1200 0]) demo_health) = False \<and>
   fst (health_rounds ([demo_round 600 3, demo_round 900 4] @ [demo_round 1200 0]) demo_health) = True"
  using health_window_verdict[of demo_health "[demo_round 600 3, demo_round 900 80]" "demo_round 1200 0"]
    health_window_verdict[of demo_health "[demo_round 600 3, demo_round 900 4]" "demo_round 1200 0"]
  by (simp add: demo_health_def demo_round_def health_start_def reset_window_def sample_gpu_def
      sample_ram_def ram_moved_def)

section \<open>Laws of the stall watchdog\<close>

abbreviation rd_stop :: "(nat \<Rightarrow> reading) \<Rightarrow> nat \<Rightarrow> bool" where
  "rd_stop readings i \<equiv> fst (readings i)"

abbreviation rd_gpu :: "(nat \<Rightarrow> reading) \<Rightarrow> nat \<Rightarrow> int" where
  "rd_gpu readings i \<equiv> sample_gpu (fst (snd (readings i)))"

abbreviation rd_ram :: "(nat \<Rightarrow> reading) \<Rightarrow> nat \<Rightarrow> int option" where
  "rd_ram readings i \<equiv> sample_ram (snd (snd (readings i)))"

lemma confirm_loop_iff:
  "(\<exists>m' r'. confirm_loop readings i n m r = Some (m', r') \<and> m' \<le> L \<and> Q r') \<longleftrightarrow>
     m \<le> L \<and> (\<forall>j<n. \<not> rd_stop readings (i + j) \<and> rd_gpu readings (i + j) \<le> L) \<and>
     Q (if n = 0 then r else rd_ram readings (i + n - 1))"
proof (induction n arbitrary: i m r)
  case (Suc n)
  obtain s g x where rd: "readings i = (s, g, x)" by (cases "readings i")
  show ?case
    using Suc.IH[of "Suc i" "max m (sample_gpu g)" "sample_ram x"] rd
    by (auto simp: All_less_Suc2)
qed auto

lemma confirm_wedged_iff:
  assumes "sw_samples w = Suc n"
  shows "confirm_wedged readings w = Wedged \<longleftrightarrow>
    (\<forall>i\<le>n. rd_gpu readings i \<le> sw_idle_pct w \<and> (i > 0 \<longrightarrow> \<not> rd_stop readings i)) \<and>
    \<not> ram_moved (sw_ram_delta w) (rd_ram readings 0) (rd_ram readings n)"
proof -
  obtain s g x where rd: "readings 0 = (s, g, x)" by (cases "readings 0")
  have "confirm_wedged readings w = Wedged \<longleftrightarrow>
    (\<exists>m' r'. confirm_loop readings 1 n (sample_gpu g) (sample_ram x) = Some (m', r') \<and>
       m' \<le> sw_idle_pct w \<and> \<not> ram_moved (sw_ram_delta w) (sample_ram x) r')"
    using assms rd by (auto simp: confirm_wedged_def Let_def split: option.splits prod.splits)
  also have "\<dots> \<longleftrightarrow> sample_gpu g \<le> sw_idle_pct w \<and>
    (\<forall>j<n. \<not> rd_stop readings (Suc j) \<and> rd_gpu readings (Suc j) \<le> sw_idle_pct w) \<and>
    \<not> ram_moved (sw_ram_delta w) (sample_ram x) (rd_ram readings n)"
    using rd by (subst confirm_loop_iff) simp
  also have "\<dots> \<longleftrightarrow> (\<forall>i\<le>n. rd_gpu readings i \<le> sw_idle_pct w \<and> (i > 0 \<longrightarrow> \<not> rd_stop readings i)) \<and>
    \<not> ram_moved (sw_ram_delta w) (rd_ram readings 0) (rd_ram readings n)"
    using rd by (auto simp: All_less_Suc2 simp flip: less_Suc_eq_le)
  finally show ?thesis .
qed


definition demo_stall :: stall_wd where
  "demo_stall = stall_beat 0 (stall_init 120 5 5120 2)"


section \<open>Laws of the job-status watcher\<close>

lemma status_watch_iff:
  "fst (status_watch k h d) = (if map_option nj_claimed (job_of d k) = Some (Some h) then None else Some 77)"
  by (auto simp: status_watch_def get_node_job_def split: option.splits)

text \<open>
  The job-status watcher tells the worker's own terminal mark from a hand-off: after the owner
  completes, fails or parks its job, or renews its lease, the watcher stays quiet; after the job is
  handed back for a retry, taken by the lease sweep, released by an operator's stop of the
  worker, or claimed afterwards by another host, it ends the worker.
\<close>

theorem status_watch_tells_handoff:
  assumes inv: "jobs_inv d" and row: "job_of d k = Some row" "nj_status row = Running" "nj_claimed row = Some h"
  shows "(\<forall>delta s rss. fst (status_watch k h (snd (mark_completed k delta s rss d))) = None) \<and>
    (\<forall>e so. fst (status_watch k h (snd (mark_failed k e so d))) = None) \<and>
    fst (status_watch k h (snd (mark_awaiting_input k d))) = None \<and>
    (\<forall>l. fst (status_watch k h (snd (renew_lease k h l d))) = None) \<and>
    fst (status_watch k h (snd (requeue_job_for_retry k d))) = Some 77 \<and>
    (lease_lapsed d row \<longrightarrow> fst (status_watch k h (snd (reclaim_expired_leases d))) = Some 77) \<and>
    (nj_queue row \<notin> set (cfg_ingest_queues cfg) \<longrightarrow>
       fst (status_watch k h (snd (requeue_running_for_worker cfg h (nj_queue row) (Some (nj_project row)) d))) = Some 77) \<and>
    (\<forall>a d1 j d2. jobs_inv d1 \<and> claim_next_cpu_job cfg a d1 = (Some j, d2) \<and> nj_id j = k \<and> ca_host a \<noteq> Some h \<longrightarrow>
       fst (status_watch k h d2) = Some 77)"
proof (intro conjI allI impI)
  fix delta s rss
  show "fst (status_watch k h (snd (mark_completed k delta s rss d))) = None"
    using row by (simp add: status_watch_iff mark_completed_def row_of_update guarded_terminal_def)
next
  fix e so
  show "fst (status_watch k h (snd (mark_failed k e so d))) = None"
    using row by (simp add: status_watch_iff mark_failed_def row_of_update guarded_terminal_def)
next
  show "fst (status_watch k h (snd (mark_awaiting_input k d))) = None"
    using row by (simp add: status_watch_iff mark_awaiting_input_def row_of_update guarded_terminal_def)
next
  fix l
  show "fst (status_watch k h (snd (renew_lease k h l d))) = None"
    using row by (simp add: status_watch_iff renew_lease_def row_of_update split_def)
next
  show "fst (status_watch k h (snd (requeue_job_for_retry k d))) = Some 77"
    using row row_of_SomeD[OF row(1)]
    by (simp add: status_watch_iff requeue_job_for_retry_def row_of_update back_to_queue_def)
next
  assume "lease_lapsed d row"
  moreover have "run_of d (nj_run row) \<noteq> None"
    using inv row_of_SomeD[OF row(1)] by (auto simp: jobs_inv_def row_of_None)
  ultimately show "fst (status_watch k h (snd (reclaim_expired_leases d))) = Some 77"
    using row by (simp add: status_watch_iff reclaim_expired_leases_def row_of_update reclaim_row_def split_def)
next
  assume "nj_queue row \<notin> set (cfg_ingest_queues cfg)"
  then show "fst (status_watch k h
      (snd (requeue_running_for_worker cfg h (nj_queue row) (Some (nj_project row)) d))) = Some 77"
    using row by (simp add: status_watch_iff requeue_running_for_worker_def row_of_update
        back_to_queue_def project_of_def split_def)
next
  fix a d1 j d2
  assume c: "jobs_inv d1 \<and> claim_next_cpu_job cfg a d1 = (Some j, d2) \<and> nj_id j = k \<and> ca_host a \<noteq> Some h"
  then have "claim_sql d1 ''cpu'' (project_of cfg (ca_project a)) (\<lambda>c. True)
      (cpu_order (host_dir (ca_host_priority a))) a = (Some j, d2)" and "jobs_inv d1"
    by (simp_all add: claim_next_cpu_job_def)
  from this(2,1) show "fst (status_watch k h d2) = Some 77"
    by (rule claim_sql_Some) (use c in \<open>auto simp: status_watch_iff\<close>)
qed

theorem status_watch_tells_handoff_witness:
  "fst (status_watch 1 ''h1'' (snd (mark_completed 1 [] 5 None demo_claimed))) = None \<and>
   fst (status_watch 1 ''h1'' (snd (requeue_job_for_retry 1 demo_claimed))) = Some 77"
proof -
  have row: "job_of demo_claimed 1 = Some demo_job" by code_simp
  have "nj_status demo_job = Running" "nj_claimed demo_job = Some ''h1''" by code_simp+
  from status_watch_tells_handoff[OF demo_claimed_inv row this, of demo_cfg] show ?thesis by blast
qed

end
