(* ===== verification/Claim_Worker.thy ===== *)
theory Claim_Worker
  imports Watchdogs
begin

text \<open>
  The claim worker of \<^verbatim>\<open>claim_worker.py\<close>: its heartbeat, the boot gates, the claims of the two GPU
  lanes, running a claimed job under its guards, and the slot accounting that keeps the inline
  lane and the VLM pool of one machine within its parallelism. Threads are interleaved: each
  lock-protected section is one step of \<open>lane_step\<close>.
\<close>

section \<open>The worker\<close>

record worker =
  cw_cfg :: config
  cw_queue :: string
  cw_host :: string
  cw_host_priority :: int
  cw_lease_s :: int

definition is_ingest :: "worker \<Rightarrow> bool" where
  "is_ingest w \<longleftrightarrow> cw_queue w \<notin> set node_queues"

definition make_worker :: "config \<Rightarrow> string \<Rightarrow> string \<Rightarrow> int \<Rightarrow> int \<Rightarrow> worker result" where
  "make_worker cfg queue host host_priority lease_s =
     (if queue \<notin> set node_queues \<union> set (cfg_ingest_queues cfg) then Inl (ValueError ''queue'')
      else Inr \<lparr>cw_cfg = cfg, cw_queue = queue, cw_host = host, cw_host_priority = host_priority,
                cw_lease_s = lease_s\<rparr>)"

definition wake_channel :: "worker \<Rightarrow> string" where
  "wake_channel w = (if is_ingest w then ''ingest_job_ready'' else ''node_job_ready'')"

definition required_version :: "worker \<Rightarrow> nat" where
  "required_version w = (if cw_queue w \<in> set node_queues then 6 else 8)"

text \<open>Whether a worker past the schema gate may claim: the operator's switch and the GPU probe.\<close>

definition parked :: "worker \<Rightarrow> db \<Rightarrow> bool" where
  "parked w d \<longleftrightarrow> desired_state_for (cw_host w) (cw_queue w) d = ''off''"

definition refuse_blind_gpu :: "worker \<Rightarrow> bool option \<Rightarrow> bool" where
  "refuse_blind_gpu w usable \<longleftrightarrow> cw_queue w = ''gpu'' \<and> usable = Some False"

section \<open>Heartbeat\<close>

definition pool_parallelism :: "worker \<Rightarrow> db \<Rightarrow> int" where
  "pool_parallelism w d =
     (let par = lc_parallelism (llm_config_for (cw_host w) ''gpu'' d)
      in max 1 (if par = 0 then 1 else par))"

definition beat_concurrency :: "worker \<Rightarrow> db \<Rightarrow> int" where
  "beat_concurrency w d = (if cw_queue w = ''gpu'' then max 1 (pool_parallelism w d) else 1)"

definition fits_models :: "worker \<Rightarrow> registry \<Rightarrow> string list \<Rightarrow> int option \<Rightarrow> string list" where
  "fits_models w reg known vram =
     (if cw_queue w \<noteq> ''gpu'' then [] else filter (\<lambda>m. m \<in> set known) (fits_within reg vram 1))"

definition emit_once :: "worker \<Rightarrow> registry \<Rightarrow> string list \<Rightarrow> int option \<Rightarrow> string option \<Rightarrow> db \<Rightarrow> db" where
  "emit_once w reg llm_servers probed current_model d =
     (let known = known_ids reg;
          vram = (if cw_queue w = ''gpu'' then probed else None)
      in upsert_worker_heartbeat (cw_cfg w)
           \<lparr>ba_host = cw_host w, ba_queue = cw_queue w, ba_concurrency = beat_concurrency w d,
            ba_model = (if cw_queue w = ''gpu'' then current_model else None), ba_known = Some known,
            ba_llm = Some llm_servers, ba_vram = vram, ba_fits = Some (fits_models w reg known vram),
            ba_update_model = True, ba_project = None\<rparr> d)"

section \<open>Claims\<close>

definition gpu_capacity_for_claim :: "registry \<Rightarrow> int option \<Rightarrow> int option \<times> string list \<times> bool" where
  "gpu_capacity_for_claim reg vram =
     (let known = known_ids reg
      in (vram, filter (\<lambda>m. m \<in> set known) (fits_within reg vram 1), known \<noteq> []))"

definition worker_claim_args :: "worker \<Rightarrow> claim_args" where
  "worker_claim_args w = \<lparr>ca_lane = 0, ca_host = Some (cw_host w), ca_lease_s = cw_lease_s w,
     ca_host_priority = cw_host_priority w, ca_project = None\<rparr>"

definition worker_gpu_args :: "worker \<Rightarrow> string option \<Rightarrow> string list \<Rightarrow> bool \<Rightarrow> gpu_claim_args" where
  "worker_gpu_args w current known require_model =
     claim_args.extend (worker_claim_args w)
       \<lparr>ca_current_model = current, ca_known_models = known, ca_require_model = Some require_model,
        ca_pool_modules = cfg_vlm_pool_modules (cw_cfg w)\<rparr>"

text \<open>\<^verbatim>\<open>_claim\<close>: the warm model of the cache, the registry and the cached VRAM probe are arguments.\<close>

definition claim :: "worker \<Rightarrow> string option \<Rightarrow> registry \<Rightarrow> int option \<Rightarrow> db \<Rightarrow> work option \<times> db" where
  "claim w current_model reg vram d =
     (if is_ingest w
      then (case claim_next_ingest_job (cw_cfg w) (cw_queue w) (Some (cw_host w)) (cw_lease_s w) None d of
              (j, d') \<Rightarrow> (map_option Ingest_work j, d'))
      else if cw_queue w = ''gpu''
      then (case gpu_capacity_for_claim reg vram of
              (vram_total, fits, has_models) \<Rightarrow>
                if has_models \<and> vram_total \<noteq> None \<and> fits = [] then (None, d)
                else (case claim_next_gpu_job (cw_cfg w) (worker_gpu_args w current_model fits True) d of
                        (j, d') \<Rightarrow> (map_option Node_work j, d')))
      else (case claim_next_cpu_job (cw_cfg w) (worker_claim_args w) d of
              (j, d') \<Rightarrow> (map_option Node_work j, d')))"

definition claim_pool :: "worker \<Rightarrow> registry \<Rightarrow> db \<Rightarrow> node_job option \<times> db" where
  "claim_pool w reg d = claim_next_gpu_job (cw_cfg w) (worker_gpu_args w None (known_ids reg) False) d"

section \<open>Running a claimed job\<close>

text \<open>Which guards watch a job: the budget in seconds, the health and stall watchdogs, the busy bracket.\<close>

record guards =
  gd_budget :: "int option"
  gd_health :: bool
  gd_stall :: bool
  gd_busy :: bool

definition node_reports_progress :: "(string \<Rightarrow> node_fn result) \<Rightarrow> string \<Rightarrow> bool" where
  "node_reports_progress resolve module_name =
     (case resolve module_name of
        Inl e \<Rightarrow> False | Inr fn \<Rightarrow> ''status_callback'' \<in> set (map pm_name (nf_params fn)))"

definition guards_for :: "worker \<Rightarrow> exec_env \<Rightarrow> node_job \<Rightarrow> guards" where
  "guards_for w env job =
     (let is_gpu = (cw_queue w = ''gpu'');
          is_video = ((case nj_model job of None \<Rightarrow> [] | Some m \<Rightarrow> m) \<in> set (cfg_video_models (cw_cfg w)));
          reports = (is_gpu \<and> node_reports_progress (xe_resolve env) (nj_module job))
      in \<lparr>gd_budget = (if is_gpu then None else Some (budget_for (cw_cfg w) (Node_work job))),
          gd_health = is_gpu, gd_stall = (reports \<and> \<not> is_video),
          gd_busy = (is_gpu \<and> xe_model_cache env \<noteq> None)\<rparr>)"

text \<open>An input node parks: the mark and the outbox row are one transaction.\<close>

definition park_for_input :: "node_job \<Rightarrow> (db, unit) act" where
  "park_for_input job =
     in_txn (\<lambda>d. case enqueue_dispatch_event_in_txn (nj_run job) (nj_node job) ''awaiting_input''
                        (snd (mark_awaiting_input (nj_id job) d)) of
       (Inl e, d') \<Rightarrow> (Inl e, d') | (Inr _, d') \<Rightarrow> (Inr (), d'))"

definition claimed_event :: "worker \<Rightarrow> node_job \<Rightarrow> db \<Rightarrow> db" where
  "claimed_event w job d = emit_node_event (nj_id job) ''claimed''
     \<lparr>tp_host = Some (cw_host w), tp_queue = Some (cw_queue w)\<rparr> None [] (Some job) d"

definition then_true :: "('a result \<times> db) \<Rightarrow> bool result \<times> db" where
  "then_true r = (case r of (Inl e, d) \<Rightarrow> (Inl e, d) | (Inr _, d) \<Rightarrow> (Inr True, d))"

text \<open>
  \<^verbatim>\<open>_run_node\<close>; the guards of \<open>guards_for\<close> run beside it as the steps of the other theories.
\<close>

definition run_node :: "worker \<Rightarrow> exec_env \<Rightarrow> node_job \<Rightarrow> (db, bool) act" where
  "run_node w env job d =
     (let d1 = claimed_event w job d
      in if starts_with (nj_module job) ''__input__'' then then_true (park_for_input job d1)
         else then_true (execute_node env job d1))"

definition run_pool_node :: "worker \<Rightarrow> exec_env \<Rightarrow> node_job \<Rightarrow> (db, bool) act" where
  "run_pool_node w env job d =
     (let d1 = claimed_event w job d
      in if starts_with (nj_module job) ''__input__'' then then_true (park_for_input job d1)
         else then_true (execute_node (env\<lparr>xe_model_cache := None\<rparr>) job d1))"

definition run_ingest :: "(string \<Rightarrow> task_fn option) \<Rightarrow> (py_error \<Rightarrow> string) \<Rightarrow> int \<Rightarrow> ingest_row \<Rightarrow> (db, bool) act" where
  "run_ingest task_map fmt elapsed job d = (Inr True, snd (execute_ingest_job task_map fmt elapsed job d))"

section \<open>Slots\<close>

record slots =
  sl_inline :: bool
  sl_pool :: int

definition pool_budget :: "int \<Rightarrow> slots \<Rightarrow> int" where
  "pool_budget par s = max 0 (par - (if sl_inline s then 1 else 0))"

text \<open>The lock-protected sections of the two lanes; \<open>None\<close> is the early return.\<close>

definition inline_admit :: "int \<Rightarrow> slots \<Rightarrow> slots option" where
  "inline_admit par s = (if sl_pool s \<ge> par then None else Some (s\<lparr>sl_inline := True\<rparr>))"

definition inline_release :: "slots \<Rightarrow> slots" where
  "inline_release s = s\<lparr>sl_inline := False\<rparr>"

definition pool_reserve :: "int \<Rightarrow> slots \<Rightarrow> slots option" where
  "pool_reserve par s = (if sl_pool s \<ge> pool_budget par s then None else Some (s\<lparr>sl_pool := sl_pool s + 1\<rparr>))"

definition pool_release :: "slots \<Rightarrow> slots" where
  "pool_release s = s\<lparr>sl_pool := sl_pool s - 1\<rparr>"

text \<open>
  \<^verbatim>\<open>run_once\<close>, with what it needs from outside: how the claimed job is run, and the slots when that
  has ended, since the pool lane works meanwhile.
\<close>

record run_ctx =
  rc_current_model :: "string option"
  rc_registry :: registry
  rc_vram :: "int option"
  rc_env :: exec_env
  rc_tasks :: "string \<Rightarrow> task_fn option"
  rc_fmt :: "py_error \<Rightarrow> string"
  rc_elapsed :: int
  rc_meanwhile :: "slots \<Rightarrow> slots"

definition run_work :: "worker \<Rightarrow> run_ctx \<Rightarrow> work \<Rightarrow> (db, bool) act" where
  "run_work w ctx job =
     (case job of
        Ingest_work j \<Rightarrow> run_ingest (rc_tasks ctx) (rc_fmt ctx) (rc_elapsed ctx) j
      | Node_work j \<Rightarrow> run_node w (rc_env ctx) j)"

definition run_once :: "worker \<Rightarrow> run_ctx \<Rightarrow> slots \<times> db \<Rightarrow> bool result \<times> slots \<times> db" where
  "run_once w ctx sd =
     (case sd of (s, d) \<Rightarrow>
        if cw_queue w = ''gpu''
        then (case inline_admit (pool_parallelism w d) s of
                None \<Rightarrow> (Inr False, s, d)
              | Some s1 \<Rightarrow>
                  (case claim w (rc_current_model ctx) (rc_registry ctx) (rc_vram ctx) d of
                     (None, d1) \<Rightarrow> (Inr False, inline_release s1, d1)
                   | (Some job, d1) \<Rightarrow>
                       (case run_work w ctx job d1 of
                          (r, d2) \<Rightarrow> (r, inline_release (rc_meanwhile ctx s1), d2))))
        else (case claim w (rc_current_model ctx) (rc_registry ctx) (rc_vram ctx) d of
                (None, d1) \<Rightarrow> (Inr False, s, d1)
              | (Some job, d1) \<Rightarrow>
                  (case run_work w ctx job d1 of (r, d2) \<Rightarrow> (r, inline_release s, d2))))"

section \<open>The pool feeder\<close>

text \<open>
  The inner loop of \<^verbatim>\<open>_pool_feeder_loop\<close> on one reading of the parallelism: why it stopped and the
  jobs it submitted. The loop reserves before it claims, so it ends when the budget is used up.
\<close>

datatype feed_stop = Deferred | Full | Drained

function feeder_drain :: "worker \<Rightarrow> registry \<Rightarrow> int \<Rightarrow> slots \<Rightarrow> db \<Rightarrow> feed_stop \<times> node_job list \<times> slots \<times> db" where
  "feeder_drain w reg par s d =
     (if vlm_pool_should_defer (cw_cfg w) (cw_host w) par stale_worker_after_s None d
      then (Deferred, [], s, d)
      else if sl_pool s \<ge> pool_budget par s then (Full, [], s, d)
      else let s1 = s\<lparr>sl_pool := sl_pool s + 1\<rparr>
           in case claim_pool w reg d of
                (None, d1) \<Rightarrow> (Drained, [], pool_release s1, d1)
              | (Some job, d1) \<Rightarrow>
                  (case feeder_drain w reg par s1 d1 of (why, jobs, s2, d2) \<Rightarrow> (why, job # jobs, s2, d2)))"
  by pat_completeness auto
termination
  by (relation "measure (\<lambda>(w, reg, par, s, d). nat (pool_budget par s - sl_pool s))")
    (auto simp: pool_budget_def)

declare feeder_drain.simps [simp del]

section \<open>The cancel watcher\<close>

text \<open>One poll of \<^verbatim>\<open>_start_run_cancel_watcher\<close>: whether it sets the cancel event.\<close>

definition cancel_poll :: "string \<Rightarrow> db \<Rightarrow> bool" where
  "cancel_poll run_id d =
     (case get_run run_id d of None \<Rightarrow> False | Some r \<Rightarrow> r_status r = R_cancelled \<or> r_status r = R_failed)"

section \<open>The two lanes together\<close>

definition idle_slots :: slots where
  "idle_slots = \<lparr>sl_inline = False, sl_pool = 0\<rparr>"

definition in_use :: "slots \<Rightarrow> int" where
  "in_use s = sl_pool s + (if sl_inline s then 1 else 0)"

text \<open>
  The interleaved steps of one machine. A lane reads the parallelism before it takes the lock, so
  each admission uses a reading of its own, between 1 and the largest value ever configured.
\<close>

inductive lane_step :: "int \<Rightarrow> slots \<Rightarrow> slots \<Rightarrow> bool" for B where
  admit: "1 \<le> par \<Longrightarrow> par \<le> B \<Longrightarrow> \<not> sl_inline s \<Longrightarrow> inline_admit par s = Some s' \<Longrightarrow> lane_step B s s'"
| finish: "sl_inline s \<Longrightarrow> lane_step B s (inline_release s)"
| reserve: "1 \<le> par \<Longrightarrow> par \<le> B \<Longrightarrow> pool_reserve par s = Some s' \<Longrightarrow> lane_step B s s'"
| free: "sl_pool s > 0 \<Longrightarrow> lane_step B s (pool_release s)"

inductive_cases lane_stepE: "lane_step B s s'"

lemma lane_step_inv:
  assumes "lane_step B s s'" and "0 \<le> sl_pool s" and "in_use s \<le> B"
  shows "0 \<le> sl_pool s' \<and> in_use s' \<le> B"
  using assms
  by (cases rule: lane_step.cases)
    (auto simp: in_use_def inline_admit_def inline_release_def pool_reserve_def pool_release_def
      pool_budget_def max_def split: if_splits)

lemma lane_reachable_inv:
  assumes "(lane_step B)\<^sup>*\<^sup>* s s'" and "0 \<le> sl_pool s" and "in_use s \<le> B"
  shows "0 \<le> sl_pool s' \<and> in_use s' \<le> B"
  using assms by (induction rule: rtranclp_induct) (auto dest: lane_step_inv)

text \<open>
  C6. A GPU machine never runs more node jobs than its parallelism: however the inline lane and
  the pool lane interleave from an idle machine, the slots in use stay within the largest configured
  value. And no capacity is wasted: in every reachable state an idle inline lane or the pool is
  admitted exactly when the total with the new job is within the value just read.
\<close>

theorem lanes_within_parallelism:
  assumes "0 \<le> B" and "(lane_step B)\<^sup>*\<^sup>* idle_slots s"
  shows "0 \<le> sl_pool s \<and> in_use s \<le> B \<and>
    (\<forall>par\<ge>1. (\<not> sl_inline s \<longrightarrow> (inline_admit par s \<noteq> None \<longleftrightarrow> in_use s + 1 \<le> par)) \<and>
              (pool_reserve par s \<noteq> None \<longleftrightarrow> in_use s + 1 \<le> par))"
proof -
  have inv: "0 \<le> sl_pool s" "in_use s \<le> B"
    using lane_reachable_inv[OF assms(2)] assms(1) by (simp_all add: idle_slots_def in_use_def)
  then show ?thesis
    by (auto simp: in_use_def inline_admit_def pool_reserve_def pool_budget_def max_def split: if_splits)
qed

theorem lanes_within_parallelism_witness:
  "in_use \<lparr>sl_inline = True, sl_pool = 1\<rparr> \<le> 2 \<and> pool_reserve 2 \<lparr>sl_inline = True, sl_pool = 1\<rparr> = None"
proof -
  have a: "lane_step 2 idle_slots \<lparr>sl_inline = True, sl_pool = 0\<rparr>"
    by (rule lane_step.admit[of 2]) (simp_all add: idle_slots_def inline_admit_def)
  have b: "lane_step 2 \<lparr>sl_inline = True, sl_pool = 0\<rparr> \<lparr>sl_inline = True, sl_pool = 1\<rparr>"
    by (rule lane_step.reserve[of 2]) (simp_all add: pool_reserve_def pool_budget_def)
  have "(lane_step 2)\<^sup>*\<^sup>* idle_slots \<lparr>sl_inline = True, sl_pool = 1\<rparr>"
    using a b by (meson converse_rtranclp_into_rtranclp rtranclp.rtrancl_refl)
  from lanes_within_parallelism[OF _ this] show ?thesis
    by (auto simp: in_use_def dest!: spec[of _ "2::int"])
qed

section \<open>Laws of the claims\<close>

lemma claim_pool_spec:
  assumes "jobs_inv d" and "claim_pool w reg d = (r, d')"
  shows "case r of
      None \<Rightarrow> d' = d
    | Some j \<Rightarrow> nj_queue j = ''gpu'' \<and> nj_model j = None \<and> nj_status j = Running \<and>
        nj_claimed j = Some (cw_host w) \<and> job_of d' (nj_id j) = Some j \<and>
        (\<exists>c. job_of d (nj_id j) = Some c \<and> nj_status c = Queued) \<and>
        (\<forall>k. k \<noteq> nj_id j \<longrightarrow> job_of d' k = job_of d k)"
proof -
  let ?known = "filter (\<lambda>m. m \<noteq> []) (known_ids reg)"
  let ?pool = "filter (\<lambda>m. m \<noteq> []) (cfg_vlm_pool_modules (cw_cfg w))"
  have cl: "claim_sql d ''gpu'' (cfg_project (cw_cfg w)) (gpu_capability ?known (Some False) ?pool)
      (gpu_order None (host_dir (cw_host_priority w))) (worker_claim_args w) = (r, d')"
    using assms(2)
    by (simp add: claim_pool_def claim_next_gpu_job_def worker_gpu_args_def claim_args.defs
        worker_claim_args_def project_of_def)
  show ?thesis
  proof (cases r)
    case None
    with claim_sql_None[OF assms(1) cl[unfolded None]] show ?thesis by simp
  next
    case (Some j)
    from assms(1) cl[unfolded Some] show ?thesis
      by (rule claim_sql_Some)
        (use Some in \<open>auto simp: claimable_def gpu_capability_def worker_claim_args_def split: if_splits\<close>)
  qed
qed

lemma claim_pool_inv: "jobs_inv d \<Longrightarrow> jobs_inv (snd (claim_pool w reg d))"
  by (simp add: claim_pool_def claim_inv)

text \<open>What the feeder loop leaves, by induction on its recursion.\<close>

lemma feeder_drain_effect:
  assumes "feeder_drain w reg par s d = (why, jobs, s', d')" and "jobs_inv d"
  shows "sl_pool s' = sl_pool s + int (length jobs) \<and> sl_inline s' = sl_inline s \<and>
    (jobs \<noteq> [] \<longrightarrow> sl_pool s' \<le> pool_budget par s) \<and> distinct (map nj_id jobs) \<and>
    (\<forall>j\<in>set jobs. nj_queue j = ''gpu'' \<and> nj_model j = None \<and> nj_status j = Running \<and>
       nj_claimed j = Some (cw_host w) \<and> job_of d' (nj_id j) = Some j \<and>
       (\<exists>c. job_of d (nj_id j) = Some c \<and> nj_status c = Queued)) \<and>
    (\<forall>k. k \<notin> nj_id ` set jobs \<longrightarrow> job_of d' k = job_of d k)"
  using assms
proof (induction w reg par s d arbitrary: why jobs s' d' rule: feeder_drain.induct)
  case (1 w reg par s d)
  let ?stop = "vlm_pool_should_defer (cw_cfg w) (cw_host w) par stale_worker_after_s None d"
  show ?case
  proof (cases "?stop \<or> sl_pool s \<ge> pool_budget par s")
    case True
    with "1.prems"(1) show ?thesis by (auto simp: feeder_drain.simps split: if_splits)
  next
    case False
    note go = this
    obtain r d1 where cp: "claim_pool w reg d = (r, d1)" by fastforce
    note spec = claim_pool_spec[OF "1.prems"(2) cp]
    show ?thesis
    proof (cases r)
      case None
      with go cp "1.prems"(1) spec show ?thesis
        by (auto simp: feeder_drain.simps[of w reg par s d] pool_release_def)
    next
      case (Some job)
      let ?s1 = "s\<lparr>sl_pool := sl_pool s + 1\<rparr>"
      obtain why2 jobs2 s2 d2 where rest: "feeder_drain w reg par ?s1 d1 = (why2, jobs2, s2, d2)"
        by (metis prod_cases4)
      have res: "jobs = job # jobs2" "s' = s2" "d' = d2"
        using "1.prems"(1) go cp Some rest by (auto simp: feeder_drain.simps[of w reg par s d])
      have inv1: "jobs_inv d1" using claim_pool_inv[OF "1.prems"(2), of w reg] cp by simp
      have IH: "sl_pool s2 = sl_pool ?s1 + int (length jobs2) \<and> sl_inline s2 = sl_inline ?s1 \<and>
        (jobs2 \<noteq> [] \<longrightarrow> sl_pool s2 \<le> pool_budget par ?s1) \<and> distinct (map nj_id jobs2) \<and>
        (\<forall>j\<in>set jobs2. nj_queue j = ''gpu'' \<and> nj_model j = None \<and> nj_status j = Running \<and>
           nj_claimed j = Some (cw_host w) \<and> job_of d2 (nj_id j) = Some j \<and>
           (\<exists>c. job_of d1 (nj_id j) = Some c \<and> nj_status c = Queued)) \<and>
        (\<forall>k. k \<notin> nj_id ` set jobs2 \<longrightarrow> job_of d2 k = job_of d1 k)"
        by (rule "1.IH"[OF _ _ _ cp[symmetric] Some rest inv1]) (use go in simp_all)
      have job: "nj_status job = Running" "job_of d1 (nj_id job) = Some job"
        "\<forall>k. k \<noteq> nj_id job \<longrightarrow> job_of d1 k = job_of d k"
        using spec Some by simp_all
      have fresh: "nj_id job \<notin> nj_id ` set jobs2"
      proof
        assume "nj_id job \<in> nj_id ` set jobs2"
        then obtain j where "j \<in> set jobs2" "nj_id j = nj_id job" by auto
        with IH job(1,2) show False by force
      qed
      have old: "\<exists>c. job_of d (nj_id j) = Some c \<and> nj_status c = Queued" if "j \<in> set jobs2" for j
        using IH job(3) fresh that by (metis image_eqI)
      show ?thesis using IH spec Some go fresh old job(3) by (auto simp: res pool_budget_def)
    qed
  qed
qed

text \<open>Why the feeder stopped.\<close>

lemma feeder_drain_stop:
  assumes "feeder_drain w reg par s d = (why, jobs, s', d')" and "jobs_inv d"
  shows "case why of
      Deferred \<Rightarrow> vlm_pool_should_defer (cw_cfg w) (cw_host w) par stale_worker_after_s None d'
    | Full \<Rightarrow> sl_pool s' \<ge> pool_budget par s'
    | Drained \<Rightarrow> fst (claim_pool w reg d') = None"
  using assms
proof (induction w reg par s d arbitrary: why jobs s' d' rule: feeder_drain.induct)
  case (1 w reg par s d)
  show ?case
  proof (cases "vlm_pool_should_defer (cw_cfg w) (cw_host w) par stale_worker_after_s None d \<or>
      sl_pool s \<ge> pool_budget par s")
    case True
    with "1.prems"(1) show ?thesis by (auto simp: feeder_drain.simps split: if_splits)
  next
    case False
    note go = this
    obtain r d1 where cp: "claim_pool w reg d = (r, d1)" by fastforce
    show ?thesis
    proof (cases r)
      case None
      then have "d1 = d" using claim_pool_spec[OF "1.prems"(2) cp] by simp
      with None go cp "1.prems"(1) show ?thesis
        by (auto simp: feeder_drain.simps[of w reg par s d] pool_release_def)
    next
      case (Some job)
      let ?s1 = "s\<lparr>sl_pool := sl_pool s + 1\<rparr>"
      obtain why2 jobs2 s2 d2 where rest: "feeder_drain w reg par ?s1 d1 = (why2, jobs2, s2, d2)"
        by (metis prod_cases4)
      have res: "why = why2" "s' = s2" "d' = d2"
        using "1.prems"(1) go cp Some rest by (auto simp: feeder_drain.simps[of w reg par s d])
      have inv1: "jobs_inv d1" using claim_pool_inv[OF "1.prems"(2), of w reg] cp by simp
      show ?thesis unfolding res
        by (rule "1.IH"[OF _ _ _ cp[symmetric] Some rest inv1]) (use go in simp_all)
    qed
  qed
qed

text \<open>
  One drain of the pool feeder: it returns, the slots it reserved are exactly the jobs it
  submitted and within the budget, the jobs are distinct queued no-model GPU jobs that are now running
  under this host, every other job is untouched, and it stopped only because a better-placed peer has
  room, the budget is used up, or no claimable job is left.
\<close>

theorem feeder_drain_sound:
  assumes "jobs_inv d" and "feeder_drain w reg par s d = (why, jobs, s', d')"
  shows "sl_pool s' = sl_pool s + int (length jobs) \<and>
    (jobs \<noteq> [] \<longrightarrow> sl_pool s' \<le> pool_budget par s) \<and> distinct (map nj_id jobs) \<and>
    (\<forall>j\<in>set jobs. nj_queue j = ''gpu'' \<and> nj_model j = None \<and> nj_status j = Running \<and>
       nj_claimed j = Some (cw_host w) \<and> job_of d' (nj_id j) = Some j \<and>
       (\<exists>c. job_of d (nj_id j) = Some c \<and> nj_status c = Queued)) \<and>
    (\<forall>k. k \<notin> nj_id ` set jobs \<longrightarrow> job_of d' k = job_of d k) \<and>
    (case why of
       Deferred \<Rightarrow> vlm_pool_should_defer (cw_cfg w) (cw_host w) par stale_worker_after_s None d'
     | Full \<Rightarrow> sl_pool s' \<ge> pool_budget par s'
     | Drained \<Rightarrow> fst (claim_pool w reg d') = None)"
  using feeder_drain_effect[OF assms(2,1)] feeder_drain_stop[OF assms(2,1)] by blast

text \<open>A GPU worker h1 and three no-model jobs of the pool module; one run, parallelism 2.\<close>

definition demo_worker :: worker where
  "demo_worker = \<lparr>cw_cfg = demo_cfg, cw_queue = ''gpu'', cw_host = ''h1'', cw_host_priority = 0, cw_lease_s = 600\<rparr>"

definition demo_vlm :: "string \<Rightarrow> db \<Rightarrow> db" where
  "demo_vlm node d = snd (enqueue_node_job demo_cfg ((demo_enqueue node ''gpu'' None 50)\<lparr>ea_module := ''vlm''\<rparr>) d)"

definition demo_vlm_db :: db where
  "demo_vlm_db = demo_vlm ''v3'' (demo_vlm ''v2'' (demo_vlm ''v1'' (empty_db\<lparr>runs := [demo_run]\<rparr>)))"

theorem feeder_drain_sound_witness:
  "length (fst (snd (feeder_drain demo_worker [] 2 idle_slots demo_vlm_db))) = 2 \<and>
   sl_pool (fst (snd (snd (feeder_drain demo_worker [] 2 idle_slots demo_vlm_db)))) = 2"
proof -
  have inv: "jobs_inv demo_vlm_db" by code_simp
  have n: "length (fst (snd (feeder_drain demo_worker [] 2 idle_slots demo_vlm_db))) = 2" by code_simp
  obtain why jobs s' d' where run: "feeder_drain demo_worker [] 2 idle_slots demo_vlm_db = (why, jobs, s', d')"
    by (metis prod_cases4)
  have "sl_pool s' = sl_pool idle_slots + int (length jobs)" using feeder_drain_sound[OF inv run] by blast
  moreover have "length jobs = 2" using n run by simp
  ultimately have "sl_pool s' = 2" by (simp add: idle_slots_def)
  with n run show ?thesis by simp
qed

text \<open>The ids a capacity-filtered registry offers.\<close>

lemma capacity_fits:
  "m \<in> set (fst (snd (gpu_capacity_for_claim reg (Some cap)))) \<longleftrightarrow>
     (\<exists>spec. (m, spec) \<in> set reg \<and> (ms_est_vram_gb spec \<le> 0 \<or> ms_est_vram_gb spec * 1024 \<le> of_int cap))"
  by (force simp: gpu_capacity_for_claim_def Let_def fits_within_def known_ids_def)

lemma gpu_claim_model:
  assumes "jobs_inv d" and "claim_next_gpu_job cfg (worker_gpu_args w cur fits rq) d = (Some j, d')"
    and "[] \<notin> set fits" and "fits \<noteq> []" and "nj_model j = Some m"
  shows "m \<in> set fits"
proof -
  have fl: "filter (\<lambda>x. x \<noteq> []) fits = fits" using assms(3) by (auto intro: filter_True)
  have cl: "claim_sql d ''gpu'' (project_of cfg (ca_project (worker_gpu_args w cur fits rq)))
      (gpu_capability fits (Some rq) (filter (\<lambda>m. m \<noteq> []) (cfg_vlm_pool_modules (cw_cfg w))))
      (gpu_order cur (host_dir (ca_host_priority (worker_gpu_args w cur fits rq))))
      (claim_args.truncate (worker_gpu_args w cur fits rq)) = (Some j, d')"
    using assms(2) fl by (simp add: claim_next_gpu_job_def worker_gpu_args_def claim_args.defs)
  from assms(1) cl show ?thesis
    by (rule claim_sql_Some) (use assms(4,5) in \<open>auto simp: claimable_def gpu_capability_def\<close>)
qed

text \<open>
  The capacity gate of the inline lane: on a machine whose VRAM is known and whose registry is
  populated, a claimed job's model is a registered one that the machine's VRAM can hold; when no
  registered model fits, nothing is claimed and the queue is left as it is.
\<close>

theorem gpu_claim_fits_vram:
  assumes "jobs_inv d" and "cw_queue w = ''gpu''" and "reg \<noteq> []" and "[] \<notin> fst ` set reg"
  shows "case claim w cur reg (Some cap) d of
      (None, d') \<Rightarrow> d' = d
    | (Some (Ingest_work _), _) \<Rightarrow> False
    | (Some (Node_work j), d') \<Rightarrow>
        (\<forall>m. nj_model j = Some m \<longrightarrow>
          (\<exists>spec. (m, spec) \<in> set reg \<and> (ms_est_vram_gb spec \<le> 0 \<or> ms_est_vram_gb spec * 1024 \<le> of_int cap))) \<and>
        (\<exists>mid spec. (mid, spec) \<in> set reg \<and> (ms_est_vram_gb spec \<le> 0 \<or> ms_est_vram_gb spec * 1024 \<le> of_int cap))"
proof -
  obtain fits where cap: "gpu_capacity_for_claim reg (Some cap) = (Some cap, fits, True)"
    using assms(3) by (simp add: gpu_capacity_for_claim_def Let_def known_ids_def)
      (metis length_0_conv length_map length_sort)
  have fits: "m \<in> set fits \<longleftrightarrow>
      (\<exists>spec. (m, spec) \<in> set reg \<and> (ms_est_vram_gb spec \<le> 0 \<or> ms_est_vram_gb spec * 1024 \<le> of_int cap))" for m
    using capacity_fits[of m reg cap] cap by simp
  have ne: "[] \<notin> set fits" using assms(4) fits by force
  have ni: "\<not> is_ingest w" using assms(2) by (simp add: is_ingest_def node_queues_def)
  obtain r d' where cl: "claim_next_gpu_job (cw_cfg w) (worker_gpu_args w cur fits True) d = (r, d')" by fastforce
  show ?thesis
  proof (cases "fits = []")
    case True
    then show ?thesis using cap ni assms(2) by (simp add: claim_def)
  next
    case False
    then have run: "claim w cur reg (Some cap) d = (map_option Node_work r, d')"
      using cap ni assms(2) cl by (simp add: claim_def)
    show ?thesis
    proof (cases r)
      case None
      then have "claim_sql d ''gpu'' (project_of (cw_cfg w) (ca_project (worker_gpu_args w cur fits True)))
          (gpu_capability (filter (\<lambda>m. m \<noteq> []) fits) (Some True) (filter (\<lambda>m. m \<noteq> []) (cfg_vlm_pool_modules (cw_cfg w))))
          (gpu_order cur (host_dir (ca_host_priority (worker_gpu_args w cur fits True))))
          (claim_args.truncate (worker_gpu_args w cur fits True)) = (None, d')"
        using cl by (simp add: claim_next_gpu_job_def worker_gpu_args_def claim_args.defs)
      from claim_sql_None[OF assms(1) this] None run show ?thesis by simp
    next
      case (Some j)
      have "\<exists>mid. mid \<in> set fits" using False by (cases fits) auto
      with Some run fits gpu_claim_model[OF assms(1) cl[unfolded Some] ne False] show ?thesis by auto
    qed
  qed
qed

definition demo_registry :: registry where
  "demo_registry = register_model \<lparr>ms_id = ''sdxl'', ms_est_vram_gb = 8\<rparr> []"

theorem gpu_claim_fits_vram_witness:
  "fst (claim demo_worker None demo_registry (Some 4096) demo_db) = None \<and>
   (\<exists>spec. (''sdxl'', spec) \<in> set demo_registry \<and> (ms_est_vram_gb spec \<le> 0 \<or> ms_est_vram_gb spec * 1024 \<le> of_int 16384))"
proof -
  have reg: "demo_registry \<noteq> []" "[] \<notin> fst ` set demo_registry" and q: "cw_queue demo_worker = ''gpu''"
    by (simp_all add: demo_registry_def register_model_def demo_worker_def)
  obtain j d' where big: "claim demo_worker None demo_registry (Some 16384) demo_db = (Some (Node_work j), d')"
    and m: "nj_model j = Some ''sdxl''"
  proof -
    have "fst (claim demo_worker None demo_registry (Some 16384) demo_db) =
        Some (Node_work (case fst (claim demo_worker None demo_registry (Some 16384) demo_db) of Some (Node_work j) \<Rightarrow> j))"
      and "nj_model (case fst (claim demo_worker None demo_registry (Some 16384) demo_db) of Some (Node_work j) \<Rightarrow> j) = Some ''sdxl''"
      by code_simp+
    then show thesis using that by (metis prod.collapse)
  qed
  have "fst (claim demo_worker None demo_registry (Some 4096) demo_db) = None" by code_simp
  moreover have "\<exists>spec. (''sdxl'', spec) \<in> set demo_registry \<and>
      (ms_est_vram_gb spec \<le> 0 \<or> ms_est_vram_gb spec * 1024 \<le> of_int 16384)"
    using gpu_claim_fits_vram[OF demo_db_inv q reg, where cur = None and cap = 16384] big m by simp
  ultimately show ?thesis by blast
qed

text \<open>
  An input node never reaches host code, in either lane: whatever the node modules, the job is
  parked as awaiting input and the same transaction writes the one outbox row the dispatcher needs.
\<close>

theorem input_node_parks:
  assumes inv: "jobs_inv d" and snap: "snapshot_of job d" and row: "job_of d (nj_id job) = Some row" "not_final row"
    and inp: "starts_with (nj_module job) ''__input__''"
  shows "run_pool_node w env job d = run_node w env' job d \<and>
    (case run_node w env job d of (r, d') \<Rightarrow>
       r = Inr True \<and> job_of d' (nj_id job) = Some (row\<lparr>nj_status := Awaiting_input\<rparr>) \<and>
       dispatch_events d' = dispatch_events d @ [outbox_event d job ''awaiting_input''] \<and>
       (\<forall>k. k \<noteq> nj_id job \<longrightarrow> job_of d' k = job_of d k))"
proof -
  let ?d1 = "claimed_event w job d"
  let ?f = "\<lambda>j. j\<lparr>nj_status := Awaiting_input\<rparr>"
  let ?d2 = "snd (mark_awaiting_input (nj_id job) ?d1)"
  have fr: "node_jobs ?d1 = node_jobs d" "dispatch_events ?d1 = dispatch_events d" "runs ?d1 = runs d"
    "next_event ?d1 = next_event d" "now ?d1 = now d" by (simp_all add: claimed_event_def)
  have "nj_run row \<in> r_id ` set (runs d)" using inv row_of_SomeD[OF row(1)] by (auto simp: jobs_inv_def)
  then have "nj_run job \<in> r_id ` set (runs d)" using snap row(1) by (simp add: snapshot_of_def)
  then have park: "park_for_input job ?d1 = (Inr (), ?d2\<lparr>dispatch_events := dispatch_events d @
      [outbox_event d job ''awaiting_input''], next_event := Suc (next_event d)\<rparr>)"
    by (simp add: park_for_input_def in_txn_def enqueue_dispatch_event_in_txn_def mark_awaiting_input_def
        outbox_event_def fr)
  have "job_of ?d2 k = (if k = nj_id job then Some (?f row) else job_of d k)" for k
    using job_lookup_row[of ?f k "nj_id job" not_final ?d1] row fr(1) by (simp add: mark_awaiting_input_def)
  then show ?thesis using inp by (simp add: run_node_def run_pool_node_def Let_def park then_true_def)
qed

definition demo_input_db :: db where
  "demo_input_db = snd (claim_next_cpu_job demo_cfg (demo_claim ''h1'')
     (snd (enqueue_node_job demo_cfg ((demo_enqueue ''ask'' ''cpu'' None 5)\<lparr>ea_module := ''__input__choose''\<rparr>)
       (empty_db\<lparr>runs := [demo_run]\<rparr>))))"

theorem input_node_parks_witness:
  "map_option nj_status (job_of (snd (run_node demo_worker demo_env (the (job_of demo_input_db 0)) demo_input_db)) 0) =
     Some Awaiting_input"
proof -
  let ?job = "the (job_of demo_input_db 0)"
  have inv: "jobs_inv demo_input_db" and snap: "snapshot_of ?job demo_input_db"
    and row: "job_of demo_input_db (nj_id ?job) = Some ?job" and live: "not_final ?job"
    and inp: "starts_with (nj_module ?job) ''__input__''" and id: "nj_id ?job = 0" by code_simp+
  from input_node_parks[OF inv snap row live inp, of demo_worker demo_env demo_env] id show ?thesis
    by (simp add: split_def)
qed

end
