(* ===== verification/Telemetry.thy ===== *)
theory Telemetry
  imports Json_Refs
begin

text \<open>
  \<^verbatim>\<open>gpu_health.py\<close>, \<^verbatim>\<open>cgroup_attribution.py\<close>, \<^verbatim>\<open>hw_feed.py\<close> and the decisions of \<^verbatim>\<open>hw_metrics.py\<close>: the
  readings the watchdogs and the claim gate act on. The texts that the vendor tools and the kernel files
  return are arguments (\<open>None\<close> when the tool or the file failed), as are the clock and what \<^verbatim>\<open>float\<close> makes
  of a text. Percentages are reals.
\<close>

section \<open>GPU utilisation of this container\<close>

text \<open>A process row of \<^verbatim>\<open>nvidia-smi pmon\<close> and its \<^verbatim>\<open>sm\<close> column; \<open>None\<close> is a line that is skipped.\<close>

definition pmon_row :: "string \<Rightarrow> int option" where
  "pmon_row raw_line =
     (let line = py_strip raw_line; parts = py_split line
      in if line = [] \<or> starts_with line ''#'' then None
         else if length parts < 4 then None
         else if parts ! 1 = ''-'' then None
         else Some (if parts ! 3 = ''-'' then 0 else case py_int (parts ! 3) of None \<Rightarrow> 0 | Some n \<Rightarrow> n))"

fun pmon_scan :: "int option \<Rightarrow> string list \<Rightarrow> int option" where
  "pmon_scan best [] = best"
| "pmon_scan best (l # ls) =
     (case pmon_row l of
        None \<Rightarrow> pmon_scan best ls
      | Some sm \<Rightarrow> pmon_scan (Some (case best of None \<Rightarrow> sm | Some b \<Rightarrow> max b sm)) ls)"

definition parse_pmon_sm_pct :: "string \<Rightarrow> int option" where
  "parse_pmon_sm_pct raw = pmon_scan None (py_splitlines raw)"

record gpu_info =
  gi_id :: int
  gi_use_pct :: int
  gi_vram_used_mb :: int
  gi_vram_total_mb :: int

definition box_gpu_util_pct :: "gpu_info list option \<Rightarrow> int" where
  "box_gpu_util_pct probe =
     (case probe of
        None \<Rightarrow> 0
      | Some gpus \<Rightarrow> if gpus = [] then 0 else Max (gi_use_pct ` set gpus))"

definition gpu_util_pct :: "string option \<Rightarrow> gpu_info list option \<Rightarrow> int" where
  "gpu_util_pct pmon probe =
     (case (case pmon of None \<Rightarrow> None | Some raw \<Rightarrow> parse_pmon_sm_pct raw) of
        Some v \<Rightarrow> v
      | None \<Rightarrow> box_gpu_util_pct probe)"

text \<open>One line of \<^verbatim>\<open>nvidia-smi --query-gpu\<close>: a field that is no number counts as 0.\<close>

definition smi_field :: "string \<Rightarrow> int" where
  "smi_field v = (case py_int v of None \<Rightarrow> 0 | Some n \<Rightarrow> n)"

definition smi_row :: "string \<Rightarrow> gpu_info option" where
  "smi_row raw_line =
     (let line = py_strip raw_line
      in if line = [] then None
         else case map py_strip (split_on (CHR '','') line) of
                [idx, use, used, whole] \<Rightarrow>
                  Some \<lparr>gi_id = smi_field idx, gi_use_pct = smi_field use, gi_vram_used_mb = smi_field used,
                    gi_vram_total_mb = smi_field whole\<rparr>
              | _ \<Rightarrow> None)"

definition nvidia_smi :: "string option \<Rightarrow> gpu_info list" where
  "nvidia_smi raw = (case raw of None \<Rightarrow> [] | Some text \<Rightarrow> List.map_filter smi_row (py_splitlines text))"

section \<open>The VRAM a model is measured against\<close>

text \<open>What \<^verbatim>\<open>float(s)\<close> gives: not a number text, a finite value with its integer part, or an infinity or NaN.\<close>

datatype float_read = No_float | Finite int | Infinite | Not_a_number

definition min_plausible_vram_mb :: int where
  "min_plausible_vram_mb = 2048"

text \<open>
  \<^verbatim>\<open>total_vram_mb\<close>: \<^verbatim>\<open>int(float(raw))\<close> raises \<^verbatim>\<open>ValueError\<close> for a text that is no number and for NaN, which is
  caught, and \<^verbatim>\<open>OverflowError\<close> for an infinity, which is not. A failing probe is \<open>None\<close>.
\<close>

definition total_vram_mb :: "(string \<Rightarrow> float_read) \<Rightarrow> string option \<Rightarrow> gpu_info list option \<Rightarrow> int option result" where
  "total_vram_mb fl setting probe =
     (let raw = (case setting of None \<Rightarrow> [] | Some s \<Rightarrow> py_strip s);
          probed = (case probe of
                      None \<Rightarrow> Inr None
                    | Some gpus \<Rightarrow>
                        let best = (if gpus = [] then 0 else Max (gi_vram_total_mb ` set gpus))
                        in Inr (if best < min_plausible_vram_mb then None else Some best))
      in if raw = [] then probed
         else case fl raw of
                Finite v \<Rightarrow> Inr (if v > 0 then Some v else None)
              | Infinite \<Rightarrow> Inl (OtherError ''OverflowError'')
              | _ \<Rightarrow> probed)"

section \<open>Memory of this container\<close>

definition bytes_per_mb :: int where
  "bytes_per_mb = 1024 * 1024"

fun vm_rss :: "string list \<Rightarrow> int option" where
  "vm_rss [] = None"
| "vm_rss (l # ls) =
     (if starts_with l ''VmRSS:''
      then (case py_split l of
              _ # kb # _ \<Rightarrow> map_option (\<lambda>n. n div 1024) (py_int kb)
            | _ \<Rightarrow> None)
      else vm_rss ls)"

definition proc_self_rss_mb :: "string option \<Rightarrow> int option" where
  "proc_self_rss_mb status = (case status of None \<Rightarrow> None | Some text \<Rightarrow> vm_rss (py_splitlines text))"

definition read_memory_current :: "string option \<Rightarrow> int option" where
  "read_memory_current file = (case file of None \<Rightarrow> None | Some text \<Rightarrow> py_int text)"

definition container_ram_mb :: "string option \<Rightarrow> string option \<Rightarrow> int option" where
  "container_ram_mb cgroup status =
     (case read_memory_current cgroup of
        Some b \<Rightarrow> Some (b div bytes_per_mb)
      | None \<Rightarrow> proc_self_rss_mb status)"

section \<open>The share of our containers\<close>

fun usage_line :: "string list \<Rightarrow> int option" where
  "usage_line [] = None"
| "usage_line (l # ls) =
     (if starts_with l ''usage_usec ''
      then (case py_split l of _ # n # _ \<Rightarrow> py_int n | _ \<Rightarrow> None)
      else usage_line ls)"

definition read_usage_usec :: "string option \<Rightarrow> int option" where
  "read_usage_usec file = (case file of None \<Rightarrow> None | Some text \<Rightarrow> usage_line (py_splitlines text))"

definition our_container_ids :: "string \<Rightarrow> (string \<times> string) list option \<Rightarrow> string list option" where
  "our_container_ids name_prefix listing =
     map_option (\<lambda>cs. map fst (filter (\<lambda>(_, name). starts_with name name_prefix) cs)) listing"

record attrib_acc =
  aa_last :: "(string \<times> (real \<times> int)) list"
  aa_cpu_delta :: int
  aa_ram :: int
  aa_baseline :: bool
  aa_oldest :: "real option"
  aa_seen :: "string list"

definition sample_one :: "real \<Rightarrow> (string \<Rightarrow> int option) \<Rightarrow> (string \<Rightarrow> int option) \<Rightarrow> string \<Rightarrow> attrib_acc \<Rightarrow> attrib_acc" where
  "sample_one clock usage rss cid a =
     (let a1 = a\<lparr>aa_ram := aa_ram a + (case rss cid of None \<Rightarrow> 0 | Some b \<Rightarrow> b)\<rparr>
      in case usage cid of
           None \<Rightarrow> a1
         | Some u \<Rightarrow>
             let a2 = a1\<lparr>aa_seen := cid # aa_seen a1, aa_last := jset cid (clock, u) (aa_last a1)\<rparr>
             in case jget (aa_last a) cid of
                  None \<Rightarrow> a2\<lparr>aa_baseline := False\<rparr>
                | Some (prev_t, prev_u) \<Rightarrow>
                    if u - prev_u < 0 then a2
                    else a2\<lparr>aa_cpu_delta := aa_cpu_delta a2 + (u - prev_u),
                            aa_oldest := Some (case aa_oldest a2 of
                               None \<Rightarrow> prev_t | Some t \<Rightarrow> if prev_t < t then prev_t else t)\<rparr>)"

record attribution =
  at_cpu_percent :: "real option"
  at_ram_used_mb :: int

definition cpu_share :: "real \<Rightarrow> int \<Rightarrow> attrib_acc \<Rightarrow> real option" where
  "cpu_share clock ncpu a =
     (case aa_oldest a of
        None \<Rightarrow> None
      | Some t \<Rightarrow>
          if \<not> aa_baseline a then None
          else let elapsed = clock - t
               in if elapsed \<le> 0 then None
                  else Some (max 0 (min 100
                    (real_of_int (aa_cpu_delta a) / (elapsed * real_of_int ncpu * 1000000) * 100))))"

text \<open>
  \<^verbatim>\<open>CgroupAttribution.sample\<close> over the readings of one tick; the state is the last usage per container.
\<close>

definition attrib_sample ::
  "int \<Rightarrow> bool \<Rightarrow> string list option \<Rightarrow> real \<Rightarrow> (string \<Rightarrow> int option) \<Rightarrow> (string \<Rightarrow> int option) \<Rightarrow>
   (string \<times> (real \<times> int)) list \<Rightarrow> attribution option \<times> (string \<times> (real \<times> int)) list" where
  "attrib_sample ncpu root_exists ids clock usage rss prev =
     (if \<not> root_exists then (None, prev)
      else case ids of
             None \<Rightarrow> (None, prev)
           | Some cids \<Rightarrow>
               let a = fold (sample_one clock usage rss) cids
                         \<lparr>aa_last = prev, aa_cpu_delta = 0, aa_ram = 0, aa_baseline = True, aa_oldest = None,
                          aa_seen = []\<rparr>
               in (Some \<lparr>at_cpu_percent = cpu_share clock ncpu a, at_ram_used_mb = aa_ram a div bytes_per_mb\<rparr>,
                   filter (\<lambda>(cid, _). cid \<in> set (aa_seen a)) (aa_last a)))"

definition ram_ours_percent :: "int option \<Rightarrow> int option \<Rightarrow> real option" where
  "ram_ours_percent total_mb ours_mb =
     (case (total_mb, ours_mb) of
        (Some t, Some o_mb) \<Rightarrow>
          if t = 0 then None else Some (max 0 (min 100 (real_of_int o_mb / real_of_int t * 100)))
      | _ \<Rightarrow> None)"

section \<open>The sampler of a host\<close>

text \<open>
  \<^verbatim>\<open>start_hw_metrics_sampler_flocked\<close>: the lock file of the box, held by at most one descriptor, and what
  this process remembers of it.
\<close>

record sampler_proc =
  sp_locked :: bool
  sp_fd :: bool
  sp_sampler :: bool

definition start_sampler :: "bool \<Rightarrow> bool \<Rightarrow> bool \<Rightarrow> sampler_proc \<Rightarrow> bool \<times> sampler_proc" where
  "start_sampler disabled can_open starts p =
     (if disabled then (False, p)
      else if sp_fd p \<and> sp_sampler p then (True, p)
      else if \<not> can_open then (False, p)
      else if sp_locked p then (False, p)
      else if \<not> starts then (False, p\<lparr>sp_locked := True, sp_fd := True\<rparr>)
      else (True, p\<lparr>sp_locked := True, sp_fd := True, sp_sampler := True\<rparr>))"

section \<open>The feed\<close>

record hw_feed =
  hf_latest :: "(string \<times> (jdict \<times> real)) list"
  hf_hist :: "(string \<times> (jdict \<times> real) list) list"

text \<open>\<^verbatim>\<open>deque(maxlen=n).append\<close>\<close>

definition deque_append :: "nat \<Rightarrow> 'a \<Rightarrow> 'a list \<Rightarrow> 'a list" where
  "deque_append n x xs = (let ys = xs @ [x] in drop (length ys - n) ys)"

definition history_limit :: "int \<Rightarrow> nat" where
  "history_limit history = nat (max 2 history)"

definition feed_host :: "(json \<Rightarrow> string) \<Rightarrow> jdict \<Rightarrow> string" where
  "feed_host str sample =
     (case jget sample ''host'' of
        None \<Rightarrow> ''?''
      | Some v \<Rightarrow> if truthy v then (case v of JStr s \<Rightarrow> s | _ \<Rightarrow> str v) else ''?'')"

definition feed_store ::
  "(string \<Rightarrow> json option) \<Rightarrow> (json \<Rightarrow> string) \<Rightarrow> nat \<Rightarrow> real \<Rightarrow> string \<Rightarrow> (hw_feed, unit) act" where
  "feed_store loads str n clock payload f =
     (case loads payload of
        None \<Rightarrow> (Inr (), f)
      | Some (JObj sample) \<Rightarrow>
          let host = feed_host str sample;
              buf = (case jget (hf_hist f) host of None \<Rightarrow> [] | Some b \<Rightarrow> b)
          in (Inr (), f\<lparr>hf_latest := jset host (sample, clock) (hf_latest f),
                        hf_hist := jset host (deque_append n (sample, clock) buf) (hf_hist f)\<rparr>)
      | Some _ \<Rightarrow> (Inl (OtherError ''AttributeError''), f))"

definition with_stale :: "real \<Rightarrow> real \<Rightarrow> jdict \<times> real \<Rightarrow> jdict" where
  "with_stale stale_after clock rec =
     (case rec of (sample, t) \<Rightarrow> jset ''stale'' (JBool (clock - t > stale_after)) sample)"

definition latest_by_host :: "real \<Rightarrow> real \<Rightarrow> hw_feed \<Rightarrow> (string \<times> jdict) list" where
  "latest_by_host stale_after clock f = map (map_prod id (with_stale stale_after clock)) (hf_latest f)"

definition history_by_host :: "real \<Rightarrow> real \<Rightarrow> hw_feed \<Rightarrow> (string \<times> jdict list) list" where
  "history_by_host stale_after clock f = map (map_prod id (map (with_stale stale_after clock))) (hf_hist f)"

section \<open>Laws\<close>

text \<open>The pmon scan is the maximum over the process rows, and nothing exactly when there are none.\<close>

lemma pmon_scan_max:
  "pmon_scan best ls =
    (let sms = (case best of None \<Rightarrow> [] | Some b \<Rightarrow> [b]) @ List.map_filter pmon_row ls
     in if sms = [] then None else Some (Max (set sms)))"
proof (induction ls arbitrary: best)
  case Nil
  then show ?case by (simp add: List.map_filter_simps split: option.split)
next
  case (Cons l ls)
  have "Max (insert (max b x) S) = Max (insert b (insert x S))" if "finite S" for b x :: int and S
    using that by (cases "S = {}") (simp_all add: max.assoc)
  then show ?case
    by (cases "pmon_row l"; cases best) (simp_all add: Cons List.map_filter_simps Let_def)
qed

lemma parse_pmon_max:
  "parse_pmon_sm_pct raw =
    (let sms = List.map_filter pmon_row (py_splitlines raw) in if sms = [] then None else Some (Max (set sms)))"
  by (simp add: parse_pmon_sm_pct_def pmon_scan_max)

text \<open>
  Capacity fails open: whatever the tools report, the answer is unknown, the operator's positive number,
  or a probed total that is plausible; only an infinite setting raises.
\<close>

lemma total_vram_fails_open:
  "case total_vram_mb fl setting probe of
     Inl e \<Rightarrow> \<exists>s. setting = Some s \<and> fl (py_strip s) = Infinite
   | Inr None \<Rightarrow> True
   | Inr (Some v) \<Rightarrow> 0 < v \<and> (\<exists>s. setting = Some s \<and> fl (py_strip s) = Finite v) \<or>
       min_plausible_vram_mb \<le> v \<and> (\<exists>gpus. probe = Some gpus \<and> v \<in> gi_vram_total_mb ` set gpus)"
proof -
  have "Max (gi_vram_total_mb ` set gpus) \<in> gi_vram_total_mb ` set gpus" if "gpus \<noteq> []" for gpus
    using that by (intro Max_in) simp_all
  moreover have "\<not> min_plausible_vram_mb \<le> 0" by (simp add: min_plausible_vram_mb_def)
  ultimately show ?thesis
    by (auto simp: total_vram_mb_def Let_def not_less simp del: Max_less_iff Max_ge_iff
        split: option.splits float_read.splits if_splits)
qed

text \<open>What one reading, and one tick, leave of the containers seen.\<close>

lemma sample_one_effect:
  "set (aa_seen (sample_one clock usage rss c a)) = set (aa_seen a) \<union> (if usage c = None then {} else {c})"
  "aa_ram (sample_one clock usage rss c a) = aa_ram a + (case rss c of None \<Rightarrow> 0 | Some x \<Rightarrow> x)"
  "fst ` set (aa_last (sample_one clock usage rss c a)) = fst ` set (aa_last a) \<union> (if usage c = None then {} else {c})"
  "aa_cpu_delta a \<le> aa_cpu_delta (sample_one clock usage rss c a)"
  "aa_baseline (sample_one clock usage rss c a) \<longleftrightarrow>
     aa_baseline a \<and> (usage c \<noteq> None \<longrightarrow> c \<in> fst ` set (aa_last a))"
  by (auto simp: sample_one_def Let_def jget_def map_of_eq_None_iff split: option.split prod.split
      dest: map_of_SomeD)
     (force dest: map_of_SomeD simp: image_iff)+

lemma sample_fold:
  "set (aa_seen (fold (sample_one clock usage rss) cids a)) = set (aa_seen a) \<union> {c \<in> set cids. usage c \<noteq> None}"
  "aa_ram (fold (sample_one clock usage rss) cids a) =
     aa_ram a + sum_list (map (\<lambda>c. case rss c of None \<Rightarrow> 0 | Some x \<Rightarrow> x) cids)"
  "fst ` set (aa_last (fold (sample_one clock usage rss) cids a)) =
     fst ` set (aa_last a) \<union> {c \<in> set cids. usage c \<noteq> None}"
  by (induction cids arbitrary: a) (auto simp: sample_one_effect)

text \<open>
  The attribution of a tick: a share between 0 and 100, the memory of exactly the listed containers in whole
  megabytes, and a memory of last readings that names exactly the containers that could be read, so it does
  not grow; without cgroup mount or docker nothing changes.
\<close>

lemma attrib_sample_exact:
  assumes "attrib_sample ncpu root_exists ids clock usage rss prev = (r, next)"
  shows "case r of
      None \<Rightarrow> next = prev \<and> (\<not> root_exists \<or> ids = None)
    | Some s \<Rightarrow> \<exists>cids. ids = Some cids \<and>
        (\<forall>p. at_cpu_percent s = Some p \<longrightarrow> 0 \<le> p \<and> p \<le> 100) \<and>
        at_ram_used_mb s = sum_list (map (\<lambda>c. case rss c of None \<Rightarrow> 0 | Some x \<Rightarrow> x) cids) div bytes_per_mb \<and>
        fst ` set next = {c \<in> set cids. usage c \<noteq> None}"
proof (cases "root_exists \<and> ids \<noteq> None")
  case True
  then obtain cids where ids: "ids = Some cids" by auto
  have share: "cpu_share clock ncpu a = Some p \<Longrightarrow> 0 \<le> p \<and> p \<le> 100" for a p
    by (auto simp: cpu_share_def Let_def split: option.splits if_splits)
  let ?a = "fold (sample_one clock usage rss) cids
    \<lparr>aa_last = prev, aa_cpu_delta = 0, aa_ram = 0, aa_baseline = True, aa_oldest = None, aa_seen = []\<rparr>"
  have r: "r = Some \<lparr>at_cpu_percent = cpu_share clock ncpu ?a, at_ram_used_mb = aa_ram ?a div bytes_per_mb\<rparr>"
    and n: "next = filter (\<lambda>(cid, _). cid \<in> set (aa_seen ?a)) (aa_last ?a)"
    using assms True ids by (simp_all add: attrib_sample_def Let_def)
  have "fst ` set next = fst ` set (aa_last ?a) \<inter> set (aa_seen ?a)" unfolding n by force
  also have "\<dots> = {c \<in> set cids. usage c \<noteq> None}" by (auto simp: sample_fold)
  finally show ?thesis using ids share by (simp add: r sample_fold)
next
  case False
  with assms show ?thesis by (auto simp: attrib_sample_def split: if_splits)
qed

text \<open>The history of a host ends with its latest sample and never exceeds its limit.\<close>

definition feed_inv :: "nat \<Rightarrow> hw_feed \<Rightarrow> bool" where
  "feed_inv n f \<longleftrightarrow> (\<forall>h. case (jget (hf_latest f) h, jget (hf_hist f) h) of
     (None, None) \<Rightarrow> True
   | (Some x, Some xs) \<Rightarrow> xs \<noteq> [] \<and> last xs = x \<and> length xs \<le> n
   | _ \<Rightarrow> False)"

lemma deque_append_last: "0 < n \<Longrightarrow> length xs \<le> n \<Longrightarrow>
    deque_append n x xs \<noteq> [] \<and> last (deque_append n x xs) = x \<and> length (deque_append n x xs) \<le> n"
  by (auto simp: deque_append_def Let_def)

lemma feed_store_inv:
  assumes "feed_inv n f" and "0 < n"
  shows "feed_inv n (snd (feed_store loads str n clock payload f))"
proof (cases "loads payload")
  case (Some v)
  show ?thesis
  proof (cases v)
    case (JObj sample)
    let ?h = "feed_host str sample"
    have "length (case jget (hf_hist f) ?h of None \<Rightarrow> [] | Some b \<Rightarrow> b) \<le> n"
      using spec[OF assms(1)[unfolded feed_inv_def], of ?h] by (auto split: option.splits)
    from deque_append_last[OF assms(2) this] assms(1) Some JObj show ?thesis
      by (auto simp: feed_store_def feed_inv_def Let_def)
  qed (use assms Some in \<open>simp_all add: feed_store_def\<close>)
qed (use assms in \<open>simp add: feed_store_def\<close>)

text \<open>A sampler that fails to start keeps the lock it took: no later call of the process can start one.\<close>

lemma failed_sampler_start_is_final:
  "start_sampler False True False \<lparr>sp_locked = False, sp_fd = False, sp_sampler = False\<rparr> = (False, p) \<Longrightarrow>
   fst (start_sampler False can_open starts p) = False"
  by (auto simp: start_sampler_def)

text \<open>The operator's setting can raise although the function is documented never to.\<close>

lemma infinite_vram_setting_raises:
  "fl ''inf'' = Infinite \<Longrightarrow> total_vram_mb fl (Some ''inf'') probe = Inl (OtherError ''OverflowError'')"
proof -
  have "py_strip ''inf'' = ''inf''" by code_simp
  then show "fl ''inf'' = Infinite \<Longrightarrow> total_vram_mb fl (Some ''inf'') probe = Inl (OtherError ''OverflowError'')"
    by (simp add: total_vram_mb_def)
qed

end
