(* ===== verification/Worker_Loop.thy ===== *)
theory Worker_Loop
  imports Claim_Worker Migrations Telemetry
begin

text \<open>
  The life of a claim worker process: the settings it reads from the environment, the threads it
  keeps beside its loop, the boot gates, the drain-and-wait loop of \<^verbatim>\<open>run_forever\<close> and its teardown
  (\<^verbatim>\<open>claim_worker.py\<close>), and the watcher and console of \<^verbatim>\<open>worker_control.py\<close>. A thread that ticks on
  \<^verbatim>\<open>Event.wait\<close> is a loop over the answers of those waits; a loop that may never end is a partial
  function. The laws: a drain ends only for cause and leaves nothing the worker could have
  claimed, a renewed lease is never swept, and what the process holds when it ends.
\<close>

section \<open>Settings\<close>

text \<open>\<^verbatim>\<open>_env_float\<close> and \<^verbatim>\<open>_env_int\<close>; \<open>fl\<close> is Python's \<^verbatim>\<open>float\<close> on a string.\<close>

definition env_text :: "string option \<Rightarrow> string" where
  "env_text raw = (case raw of None \<Rightarrow> [] | Some s \<Rightarrow> py_strip s)"

definition env_float :: "(string \<Rightarrow> real option) \<Rightarrow> string option \<Rightarrow> real \<Rightarrow> real" where
  "env_float fl raw dflt =
     (if env_text raw = [] then dflt else case fl (env_text raw) of None \<Rightarrow> dflt | Some x \<Rightarrow> x)"

definition env_int :: "(string \<Rightarrow> float_read) \<Rightarrow> string option \<Rightarrow> int \<Rightarrow> int result" where
  "env_int fl raw dflt =
     (if env_text raw = [] then Inr dflt
      else case fl (env_text raw) of
             Finite i \<Rightarrow> Inr i | Infinite \<Rightarrow> Inl (OtherError ''OverflowError'') | _ \<Rightarrow> Inr dflt)"

lemma infinite_setting_raises: "fl (env_text raw) = Infinite \<Longrightarrow> env_text raw \<noteq> [] \<Longrightarrow> env_int fl raw dflt = Inl (OtherError ''OverflowError'')"
  by (simp add: env_int_def)

definition watchdog_max_retries :: "(string \<Rightarrow> float_read) \<Rightarrow> string option \<Rightarrow> int \<Rightarrow> int result" where
  "watchdog_max_retries fl raw at_import = env_int fl raw at_import"

definition host_label :: "string option \<Rightarrow> string \<Rightarrow> string" where
  "host_label raw hostname = (if env_text raw = [] then hostname else env_text raw)"

definition host_priority :: "string option \<Rightarrow> int" where
  "host_priority raw = (case raw of None \<Rightarrow> 0 | Some s \<Rightarrow> (case py_int s of None \<Rightarrow> 0 | Some i \<Rightarrow> i))"

definition worker_control_poll_s :: "(string \<Rightarrow> real option) \<Rightarrow> string option \<Rightarrow> real" where
  "worker_control_poll_s fl raw =
     (if env_text raw = [] then 5 else case fl (env_text raw) of None \<Rightarrow> 5 | Some x \<Rightarrow> max (1 / 10) x)"

text \<open>\<^verbatim>\<open>_probe_gpu_usable\<close>: whether torch imports, and what its probe says.\<close>

definition probe_gpu_usable :: "bool \<Rightarrow> bool result \<Rightarrow> bool option" where
  "probe_gpu_usable imports available =
     (if \<not> imports then None else case available of Inl _ \<Rightarrow> Some False | Inr b \<Rightarrow> Some b)"

section \<open>Ticking threads\<close>

text \<open>\<^verbatim>\<open>while not stop.wait(interval): tick()\<close> over the answers of the waits.\<close>

fun ticking :: "('s \<Rightarrow> 's) \<Rightarrow> bool list \<Rightarrow> 's \<Rightarrow> 's" where
  "ticking tick [] s = s"
| "ticking tick (stopped # ws) s = (if stopped then s else ticking tick ws (tick s))"

record ticker =
  tk_stop :: bool
  tk_thread :: bool

definition new_ticker :: ticker where
  "new_ticker = \<lparr>tk_stop = False, tk_thread = False\<rparr>"

definition start_ticker :: "ticker \<Rightarrow> ticker" where
  "start_ticker t = t\<lparr>tk_thread := True\<rparr>"

definition stop_ticker :: "ticker \<Rightarrow> ticker" where
  "stop_ticker t = t\<lparr>tk_stop := True, tk_thread := False\<rparr>"

text \<open>\<^verbatim>\<open>LeaseRenewer._loop\<close>; between two ticks the rest of the world moves.\<close>

definition renew_loop :: "nat \<Rightarrow> string \<Rightarrow> int \<Rightarrow> (db \<Rightarrow> db) \<Rightarrow> bool list \<Rightarrow> db \<Rightarrow> db" where
  "renew_loop job_id claimed_by lease_s world = ticking (\<lambda>d. snd (renew_lease job_id claimed_by lease_s (world d)))"

text \<open>
  The heartbeat emitter: the VRAM probe is made once and its answer, a failed probe as unknown,
  is kept. A tick whose statement fails leaves the database alone.
\<close>

record emitter =
  em_ticker :: ticker
  em_probed :: "int option option"

definition vram_total :: "worker \<Rightarrow> int option result \<Rightarrow> emitter \<Rightarrow> int option \<times> emitter" where
  "vram_total w probe em =
     (if cw_queue w \<noteq> ''gpu'' then (None, em)
      else case em_probed em of
             Some v \<Rightarrow> (v, em)
           | None \<Rightarrow> let v = (case probe of Inl _ \<Rightarrow> None | Inr x \<Rightarrow> x) in (v, em\<lparr>em_probed := Some v\<rparr>))"

definition heartbeat_tick ::
  "worker \<Rightarrow> registry \<Rightarrow> string list \<Rightarrow> int option result \<Rightarrow> string option \<Rightarrow> bool \<Rightarrow> emitter \<times> db \<Rightarrow> emitter \<times> db" where
  "heartbeat_tick w reg llm probe current_model fails s =
     (case s of (em, d) \<Rightarrow>
        (case vram_total w probe em of
           (v, em') \<Rightarrow> (em', if fails then d else emit_once w reg llm v current_model d)))"

definition heartbeat_start ::
  "bool \<Rightarrow> worker \<Rightarrow> registry \<Rightarrow> string list \<Rightarrow> int option result \<Rightarrow> string option \<Rightarrow> bool \<Rightarrow> emitter \<times> db \<Rightarrow> emitter \<times> db" where
  "heartbeat_start disabled w reg llm probe current_model fails s =
     (if disabled then s
      else (case heartbeat_tick w reg llm probe current_model fails s of
              (em, d) \<Rightarrow> (em\<lparr>em_ticker := start_ticker (em_ticker em)\<rparr>, d)))"

section \<open>The pool lane\<close>

text \<open>The executor (its size), the largest size so far, and the feeder thread.\<close>

record pool_lane =
  pl_pool :: "int option"
  pl_max :: int
  pl_feeder :: bool
  pl_retired :: nat

definition no_lane :: pool_lane where
  "no_lane = \<lparr>pl_pool = None, pl_max = 0, pl_feeder = False, pl_retired = 0\<rparr>"

text \<open>\<^verbatim>\<open>_ensure_pool\<close>: a pool that has to grow is replaced, and the old one shut down without waiting.\<close>

definition ensure_pool :: "int \<Rightarrow> pool_lane \<Rightarrow> pool_lane" where
  "ensure_pool par l =
     (case pl_pool l of
        None \<Rightarrow> l\<lparr>pl_pool := Some par, pl_max := par\<rparr>
      | Some _ \<Rightarrow> if par > pl_max l then l\<lparr>pl_pool := Some par, pl_max := par, pl_retired := pl_retired l + 1\<rparr> else l)"

definition start_pool_lane :: "worker \<Rightarrow> db \<Rightarrow> pool_lane \<Rightarrow> pool_lane" where
  "start_pool_lane w d l =
     (if cw_queue w \<noteq> ''gpu'' then l else (ensure_pool (pool_parallelism w d) l)\<lparr>pl_feeder := True\<rparr>)"

definition stop_pool_lane :: "pool_lane \<Rightarrow> pool_lane" where
  "stop_pool_lane l = l\<lparr>pl_feeder := False, pl_pool := None\<rparr>"

section \<open>The claim loop\<close>

text \<open>
  The inner loop of \<^verbatim>\<open>_body\<close>: \<open>step\<close> is \<^verbatim>\<open>run_once\<close>, and the exception that ends it, if any, is logged.
\<close>

partial_function (option) drain :: "('s \<Rightarrow> bool result \<times> 's) \<Rightarrow> ('s \<Rightarrow> bool) \<Rightarrow> 's \<Rightarrow> (py_error option \<times> 's) option" where
  "drain step stopped s =
     (if stopped s then Some (None, s)
      else case step s of (r, s') \<Rightarrow>
        (case r of Inl e \<Rightarrow> Some (Some e, s')
         | Inr again \<Rightarrow> if again then drain step stopped s' else Some (None, s')))"

text \<open>\<^verbatim>\<open>_body\<close>: drain, then wait for a wake; \<open>wait\<close> is one \<^verbatim>\<open>notifies\<close> with the world moving meanwhile.\<close>

partial_function (option) claim_body ::
  "('s \<Rightarrow> bool result \<times> 's) \<Rightarrow> ('s \<Rightarrow> bool) \<Rightarrow> ('s \<Rightarrow> unit result \<times> 's) \<Rightarrow> 's \<Rightarrow> (unit result \<times> 's) option" where
  "claim_body step stopped wait s =
     (if stopped s then Some (Inr (), s)
      else Option.bind (drain step stopped s) (\<lambda>r.
        if stopped (snd r) then Some (Inr (), snd r)
        else case wait (snd r) of (a, s') \<Rightarrow>
          (case a of Inl e \<Rightarrow> Some (Inl e, s') | Inr _ \<Rightarrow> claim_body step stopped wait s')))"

section \<open>Boot and teardown\<close>

text \<open>
  The parking loop over its rounds: at the head of each the stop event and the database as it is
  then. \<open>None\<close> is still parked.
\<close>

fun park_rounds :: "worker \<Rightarrow> (bool \<times> db) list \<Rightarrow> bool option" where
  "park_rounds w [] = None"
| "park_rounds w ((stopped, d) # rs) =
     (if stopped then Some False
      else if desired_state_for (cw_host w) (cw_queue w) d \<noteq> ''off'' then Some True
      else park_rounds w rs)"

definition park_until_enabled :: "worker \<Rightarrow> db \<Rightarrow> (bool \<times> db) list \<Rightarrow> bool option" where
  "park_until_enabled w d rounds = (if parked w d then park_rounds w rounds else Some True)"

datatype part = Sampler | Heartbeat | Llm_factory | Control_watcher | Pool_lane

datatype life = Started part | Stopped part

text \<open>
  What the environment decides during a run: whether the schema arrives, whether this process wins
  the sampler lock, the database at the park gate and the rounds of parking, the GPU probe, the opt-outs, the failures of the optional
  factory, whether arming the pool lane raises, and how the listening loop ends.
\<close>

record boot =
  bo_schema :: "unit result"
  bo_sampler :: bool
  bo_db :: db
  bo_rounds :: "(bool \<times> db) list"
  bo_usable :: "bool option"
  bo_beats :: bool
  bo_watches :: bool
  bo_factory_start :: bool
  bo_factory_stop :: bool
  bo_arming :: "unit result"
  bo_listening :: "unit result"

definition note_if :: "bool \<Rightarrow> life \<Rightarrow> life list" where
  "note_if b x = (if b then [x] else [])"

text \<open>The \<^verbatim>\<open>finally\<close> block: the lane first, the sampler last and only if this process holds it.\<close>

definition teardown :: "worker \<Rightarrow> boot \<Rightarrow> life list" where
  "teardown w b =
     (let gpu = (cw_queue w = ''gpu'')
      in note_if gpu (Stopped Pool_lane) @ note_if (bo_watches b) (Stopped Control_watcher) @
         note_if (gpu \<and> bo_factory_stop b) (Stopped Llm_factory) @ note_if (bo_beats b) (Stopped Heartbeat) @
         note_if (gpu \<and> bo_sampler b) (Stopped Sampler))"

text \<open>
  \<^verbatim>\<open>run_forever\<close>: how it ended (nothing while it is still parked) and what it started and stopped, in order.
\<close>

definition run_forever :: "worker \<Rightarrow> boot \<Rightarrow> unit result option \<times> life list" where
  "run_forever w b =
     (let gpu = (cw_queue w = ''gpu'')
      in case bo_schema b of
           Inl e \<Rightarrow> (Some (Inl e), [])
         | Inr _ \<Rightarrow>
             let l1 = note_if (gpu \<and> bo_sampler b) (Started Sampler)
             in case park_until_enabled w (bo_db b) (bo_rounds b) of
                  None \<Rightarrow> (None, l1)
                | Some on \<Rightarrow>
                    if \<not> on then (Some (Inr ()), l1)
                    else if refuse_blind_gpu w (bo_usable b) then (Some (Inr ()), l1)
                    else let l2 = l1 @ note_if (bo_beats b) (Started Heartbeat) @
                                    note_if (gpu \<and> bo_factory_start b) (Started Llm_factory) @
                                    note_if (bo_watches b) (Started Control_watcher)
                         in case (if gpu then bo_arming b else Inr ()) of
                              Inl e \<Rightarrow> (Some (Inl e), l2)
                            | Inr _ \<Rightarrow> (Some (bo_listening b), l2 @ note_if gpu (Started Pool_lane) @ teardown w b))"

text \<open>
  \<^verbatim>\<open>main\<close>: a queue that is not configured is a usage error, exit code 2; a GPU worker first calls the host's
  model registrar, whose outcome is an argument. Then \<^verbatim>\<open>run_forever\<close>.
\<close>

definition claim_worker_main ::
  "config \<Rightarrow> string \<Rightarrow> string \<Rightarrow> int \<Rightarrow> int \<Rightarrow> unit result \<Rightarrow> boot \<Rightarrow> unit result option \<times> life list" where
  "claim_worker_main cfg queue host priority lease_s registrar b =
     (if queue \<notin> set node_queues \<union> set (cfg_ingest_queues cfg) then (Some (Inl (OtherError ''SystemExit 2'')), [])
      else case (if queue = ''gpu'' then registrar else Inr ()) of
             Inl e \<Rightarrow> (Some (Inl e), [])
           | Inr _ \<Rightarrow> (case make_worker cfg queue host priority lease_s of
                         Inl e \<Rightarrow> (Some (Inl e), []) | Inr w \<Rightarrow> run_forever w b))"

section \<open>The control watcher\<close>

text \<open>
  \<^verbatim>\<open>WorkerControlWatcher._loop\<close>: one check before subscribing, then one per wake unless the stop event
  was set meanwhile. Each round has that event and what the world did; the exit code is that of the
  hard stop.
\<close>

fun watch_rounds :: "config \<Rightarrow> string \<Rightarrow> string \<Rightarrow> (bool \<times> (db \<Rightarrow> db)) list \<Rightarrow> db \<Rightarrow> int option \<times> db" where
  "watch_rounds cfg host queue [] d = (None, d)"
| "watch_rounds cfg host queue ((stopped, world) # rs) d =
     (if stopped then (None, world d)
      else case check_once cfg host queue (world d) of
             (Some code, d') \<Rightarrow> (Some code, d')
           | (None, d') \<Rightarrow> watch_rounds cfg host queue rs d')"

definition watch_loop :: "config \<Rightarrow> string \<Rightarrow> string \<Rightarrow> (bool \<times> (db \<Rightarrow> db)) list \<Rightarrow> db \<Rightarrow> int option \<times> db" where
  "watch_loop cfg host queue rs d =
     (case check_once cfg host queue d of
        (Some code, d') \<Rightarrow> (Some code, d') | (None, d') \<Rightarrow> watch_rounds cfg host queue rs d')"

text \<open>\<^verbatim>\<open>queue-worker-control\<close>: exactly one of the two switches; a refused value is a usage error.\<close>

definition control_main ::
  "string option \<Rightarrow> string option \<Rightarrow> string \<Rightarrow> string \<Rightarrow> bool \<Rightarrow> bool \<Rightarrow> string \<Rightarrow> string option \<Rightarrow> (db, int) act" where
  "control_main host_arg label_env hostname queue on off policy requested_by d =
     (if on = off then (Inl (OtherError ''SystemExit 2''), d)
      else let host = (case host_arg of None \<Rightarrow> host_label label_env hostname
                       | Some h \<Rightarrow> if h = [] then host_label label_env hostname else h)
           in case set_worker_control host queue (if off then ''off'' else ''on'') policy requested_by d of
                (Inl (ValueError m), d') \<Rightarrow> (Inl (OtherError ''SystemExit 2''), d')
              | (Inl e, d') \<Rightarrow> (Inl e, d')
              | (Inr _, d') \<Rightarrow> (Inr 0, d'))"

section \<open>What runs, and when\<close>

lemma park_rounds_on: "park_rounds w rs = Some True \<Longrightarrow> \<exists>r\<in>set rs. desired_state_for (cw_host w) (cw_queue w) (snd r) \<noteq> ''off''"
  by (induction w rs rule: park_rounds.induct) (auto split: if_splits)

lemma park_admits_on:
  assumes "park_until_enabled w d rs = Some True"
  shows "\<exists>d'\<in>insert d (snd ` set rs). desired_state_for (cw_host w) (cw_queue w) d' \<noteq> ''off''"
  using assms park_rounds_on[of w rs] by (auto simp: park_until_enabled_def parked_def split: if_splits)

lemma note_if_set [simp]: "set (note_if b x) = (if b then {x} else {})"
  unfolding note_if_def by (cases b) simp_all

text \<open>
  Behind the gates only the sampler runs: whatever else a process has started, the schema was ready, its
  control row read on, and its device was usable.
\<close>

lemma started_behind_gates:
  assumes "Started p \<in> set (snd (run_forever w b))" and "p \<noteq> Sampler"
  shows "bo_schema b = Inr ()" and "park_until_enabled w (bo_db b) (bo_rounds b) = Some True"
    and "\<not> refuse_blind_gpu w (bo_usable b)"
  using assms by (auto simp: run_forever_def Let_def split: sum.splits option.splits if_splits)

lemma teardown_only_stops: "Started p \<notin> set (teardown w b)"
  by (simp add: teardown_def Let_def)

text \<open>
  A process that got as far as listening leaves nothing running, however the listening ended: the one
  exception is an optional factory whose own stop failed. The lane stops before anything else does.
\<close>

lemma listening_stops_all:
  assumes "bo_schema b = Inr ()" and "park_until_enabled w (bo_db b) (bo_rounds b) = Some True"
    and "\<not> refuse_blind_gpu w (bo_usable b)" and "cw_queue w = ''gpu'' \<Longrightarrow> bo_arming b = Inr ()"
    and "Started p \<in> set (snd (run_forever w b))" and "p = Llm_factory \<Longrightarrow> bo_factory_stop b"
  shows "Stopped p \<in> set (snd (run_forever w b))"
  using assms by (cases p) (auto simp: run_forever_def teardown_def Let_def split: if_splits)

lemma lane_stops_first:
  assumes "cw_queue w = ''gpu''"
  shows "hd (teardown w b) = Stopped Pool_lane"
  using assms by (simp add: teardown_def note_if_def Let_def)

text \<open>A process that ran anything at all was given a queue the engine knows.\<close>

lemma main_known_queue:
  assumes "claim_worker_main cfg queue host priority lease_s registrar b = (r, notes)" and "notes \<noteq> []"
  shows "queue \<in> set node_queues \<union> set (cfg_ingest_queues cfg)"
  using assms by (auto simp: claim_worker_main_def split: if_splits)

text \<open>The watcher ends its process only on a row it saw switched off.\<close>

lemma check_once_off: "check_once cfg host queue d = (Some code, d') \<Longrightarrow> desired_state_for host queue d = ''off''"
  by (auto simp: check_once_def desired_state_for_def split: option.splits if_splits)

lemma watch_rounds_off:
  "watch_rounds cfg host queue rs d = (Some code, d') \<Longrightarrow>
     \<exists>d0. desired_state_for host queue d0 = ''off'' \<and> check_once cfg host queue d0 = (Some code, d')"
  by (induction cfg host queue rs d rule: watch_rounds.induct) (auto split: if_splits prod.splits option.splits dest: check_once_off)

lemma watch_loop_off:
  assumes "watch_loop cfg host queue rs d = (Some code, d')"
  shows "\<exists>d0. desired_state_for host queue d0 = ''off'' \<and> check_once cfg host queue d0 = (Some code, d')"
  using assms watch_rounds_off[of cfg host queue rs _ code d']
  by (auto simp: watch_loop_def split: prod.splits option.splits dest: check_once_off)

text \<open>The pool of the lane only ever grows.\<close>

lemma ensure_pool_grows:
  assumes "pl_pool l = Some (pl_max l)"
  shows "pl_pool (ensure_pool par l) = Some (pl_max (ensure_pool par l))" and "pl_max (ensure_pool par l) = max par (pl_max l)"
  using assms by (auto simp: ensure_pool_def)

section \<open>A drain ends for cause\<close>

lemma drain_last_step:
  assumes "drain step stopped s = Some y"
  shows "case y of (None, s') \<Rightarrow> stopped s' \<or> (\<exists>s0. step s0 = (Inr False, s')) | (Some e, s') \<Rightarrow> \<exists>s0. step s0 = (Inl e, s')"
  using assms
proof (rule drain.raw_induct[rotated], goal_cases)
  case (1 drn step stopped s y)
  obtain r s' where st: "step s = (r, s')" by fastforce
  consider (stop) "stopped s" | (raised) e where "\<not> stopped s" "r = Inl e" | (empty) "\<not> stopped s" "r = Inr False"
    | (again) "\<not> stopped s" "r = Inr True"
    by (metis (full_types) sum.exhaust)
  then show ?case
  proof cases
    case again
    with 1(2) st have "drn step stopped s' = Some y" by simp
    from 1(1)[OF this] show ?thesis .
  qed (use 1(2) st in auto)
qed

text \<open>If every job taken brings a measure of the remaining work down, the drain comes to an end.\<close>

lemma worker_drain_returns:
  assumes "\<And>s s'. step s = (Inr True, s') \<Longrightarrow> m s' < (m s :: nat)"
  shows "\<exists>y. drain step stopped s = Some y"
proof (induction "m s" arbitrary: s rule: less_induct)
  case less
  obtain r s' where st: "step s = (r, s')" by fastforce
  show ?case
  proof (cases "stopped s \<or> r \<noteq> Inr True")
    case True
    with st show ?thesis by (subst drain.simps) (auto split: sum.splits)
  next
    case False
    with st less[of s'] assms[of s s'] show ?thesis by (subst drain.simps) auto
  qed
qed

lemma claim_body_stops:
  assumes "claim_body step stopped wait s = Some y"
  shows "case y of (Inr _, s') \<Rightarrow> stopped s' | (Inl e, s') \<Rightarrow> \<exists>s0. wait s0 = (Inl e, s')"
  using assms
proof (rule claim_body.raw_induct[rotated], goal_cases)
  case (1 body step stopped wait s y)
  show ?case
  proof (cases "stopped s")
    case True
    with 1(2) show ?thesis by auto
  next
    case False
    with 1(2) obtain f s1 where d: "drain step stopped s = Some (f, s1)" by (auto simp: bind_eq_Some_conv)
    obtain a s2 where w: "wait s1 = (a, s2)" by fastforce
    consider (stop) "stopped s1" | (raised) e where "\<not> stopped s1" "a = Inl e" | (again) "\<not> stopped s1" "a = Inr ()"
      by (metis old.unit.exhaust sum.exhaust)
    then show ?thesis
    proof cases
      case again
      with False 1(2) d w have "body step stopped wait s2 = Some y" by simp
      from 1(1)[OF this] show ?thesis .
    qed (use False 1(2) d w in auto)
  qed
qed

text \<open>
  The interface a drain relies on: a source of work whose step answers no only when nothing is left that this
  client could take.
\<close>

locale claim_source =
  fixes step :: "'s \<Rightarrow> bool result \<times> 's" and work_left :: "'s \<Rightarrow> bool"
  assumes no_means_empty: "step s = (Inr False, s') \<Longrightarrow> \<not> work_left s'"
begin

lemma drain_ends:
  assumes "drain step stopped s = Some (failed, s')"
  shows "case failed of None \<Rightarrow> stopped s' \<or> \<not> work_left s' | Some e \<Rightarrow> \<exists>s0. step s0 = (Inl e, s')"
  using drain_last_step[OF assms] no_means_empty by (auto split: option.splits)

end

text \<open>What the inline lane of a worker could take in a given state.\<close>

definition work_left :: "worker \<Rightarrow> run_ctx \<Rightarrow> slots \<times> db \<Rightarrow> bool" where
  "work_left w ctx sd =
     (case sd of (s, d) \<Rightarrow>
        if is_ingest w
        then (\<exists>c\<in>set (ingest_jobs d). ingest_claimable (cw_queue w) (cfg_project (cw_cfg w)) c)
        else if cw_queue w = ''gpu''
        then inline_admit (pool_parallelism w d) s \<noteq> None \<and>
          (case gpu_capacity_for_claim (rc_registry ctx) (rc_vram ctx) of
             (vram, fits, has_models) \<Rightarrow> \<not> (has_models \<and> vram \<noteq> None \<and> fits = []) \<and>
               (\<exists>c\<in>set (node_jobs d). claimable d ''gpu'' (cfg_project (cw_cfg w))
                  (gpu_capability (filter (\<lambda>m. m \<noteq> []) fits) (Some True)
                    (filter (\<lambda>m. m \<noteq> []) (cfg_vlm_pool_modules (cw_cfg w)))) c))
        else (\<exists>c\<in>set (node_jobs d). claimable d ''cpu'' (cfg_project (cw_cfg w)) (\<lambda>_. True) c))"

lemma fetchone_some: "x \<in> set xs \<Longrightarrow> fetchone xs \<noteq> None"
  by (cases xs) (simp_all add: fetchone_def)

lemma claim_sql_empty:
  assumes "claim_sql d q p cap key a = (None, d')"
  shows "d' = d \<and> (\<forall>c\<in>set (node_jobs d). \<not> claimable d q p cap c)"
proof (cases "first_by key (sql_select (claimable d q p cap) (node_jobs d))")
  case None
  with assms show ?thesis by (auto simp: claim_sql_def sql_select_def filter_empty_conv)
next
  case (Some c)
  then have "c \<in> set (node_jobs d)" by (auto dest!: first_by_mem simp: sql_select_def)
  then have "stamp_claim d a c \<in> set (sql_returning (\<lambda>j. nj_id j = nj_id c \<and> True) (stamp_claim d a) (node_jobs d))"
    by (auto simp: sql_returning_def)
  from fetchone_some[OF this] Some assms show ?thesis
    by (simp add: claim_sql_def update_job_def update_jobs_def)
qed

lemma claim_ingest_empty:
  assumes "claim_next_ingest_job cfg q h l prj d = (None, d')"
  shows "d' = d \<and> (\<forall>c\<in>set (ingest_jobs d). \<not> ingest_claimable q (project_of cfg prj) c)"
proof (cases "first_by ingest_order (sql_select (ingest_claimable q (project_of cfg prj)) (ingest_jobs d))")
  case None
  with assms show ?thesis by (auto simp: claim_next_ingest_job_def sql_select_def filter_empty_conv)
next
  case (Some c)
  let ?f = "\<lambda>j. j\<lparr>ij_status := Running, ij_started := Some (now d), ij_claimed := h, ij_lease := Some (now d + secs l)\<rparr>"
  from Some have "c \<in> set (ingest_jobs d)" by (auto dest!: first_by_mem simp: sql_select_def)
  then have "?f c \<in> set (sql_returning (\<lambda>j. ij_id j = ij_id c \<and> True) ?f (ingest_jobs d))"
    by (auto simp: sql_returning_def)
  from fetchone_some[OF this] Some assms show ?thesis
    by (simp add: claim_next_ingest_job_def update_ingest_row_def update_ingest_def)
qed

lemma run_work_true: "run_work w ctx job d \<noteq> (Inr False, d')"
  by (auto simp: run_work_def run_ingest_def run_node_def then_true_def Let_def split: work.splits prod.splits sum.splits)

lemma run_once_no:
  assumes "run_once w (ctx (snd sd)) sd = (Inr False, sd')"
  shows "\<not> work_left w (ctx (snd sd')) sd'"
proof -
  obtain s d where sd: "sd = (s, d)" by (cases sd)
  let ?c = "ctx d"
  show ?thesis
  proof (cases "cw_queue w = ''gpu''")
    case True
    then have node: "\<not> is_ingest w" by (simp add: is_ingest_def node_queues_def)
    show ?thesis
    proof (cases "inline_admit (pool_parallelism w d) s")
      case None
      with assms True sd have "sd' = (s, d)" by (simp add: run_once_def)
      with None True node show ?thesis by (simp add: work_left_def)
    next
      case (Some s1)
      obtain r d1 where cl: "claim w (rc_current_model ?c) (rc_registry ?c) (rc_vram ?c) d = (r, d1)" by fastforce
      have r: "r = None"
      proof (rule ccontr)
        assume "r \<noteq> None"
        then obtain job where "r = Some job" by blast
        with assms True sd Some cl run_work_true[of w ?c job d1] show False
          by (auto simp: run_once_def split: prod.splits)
      qed
      with assms True sd Some cl have sd': "sd' = (inline_release s1, d1)" by (simp add: run_once_def)
      obtain v fits has where cap: "gpu_capacity_for_claim (rc_registry ?c) (rc_vram ?c) = (v, fits, has)"
        by (cases "gpu_capacity_for_claim (rc_registry ?c) (rc_vram ?c)")
      show ?thesis
      proof (cases "has \<and> v \<noteq> None \<and> fits = []")
        case True
        with cl r cap node \<open>cw_queue w = ''gpu''\<close> have "d1 = d" by (simp add: claim_def)
        with True sd' cap node \<open>cw_queue w = ''gpu''\<close> show ?thesis by (simp add: work_left_def)
      next
        case False
        with cl r cap node \<open>cw_queue w = ''gpu''\<close>
        have none: "claim_next_gpu_job (cw_cfg w) (worker_gpu_args w (rc_current_model ?c) fits True) d = (None, d1)"
          by (auto simp: claim_def split: prod.splits)
        note empty = claim_sql_empty[OF none[unfolded claim_next_gpu_job_def Let_def]]
        then have "d1 = d" by simp
        with empty sd' cap node \<open>cw_queue w = ''gpu''\<close> show ?thesis
          by (simp add: work_left_def worker_gpu_args_def worker_claim_args_def claim_args.defs project_of_def)
      qed
    qed
  next
    case False
    obtain r d1 where cl: "claim w (rc_current_model ?c) (rc_registry ?c) (rc_vram ?c) d = (r, d1)" by fastforce
    have r: "r = None"
    proof (rule ccontr)
      assume "r \<noteq> None"
      then obtain job where "r = Some job" by blast
      with assms False sd cl run_work_true[of w ?c job d1] show False
        by (auto simp: run_once_def split: prod.splits)
    qed
    with assms False sd cl have sd': "sd' = (s, d1)" by (simp add: run_once_def)
    show ?thesis
    proof (cases "is_ingest w")
      case True
      with cl r have "claim_next_ingest_job (cw_cfg w) (cw_queue w) (Some (cw_host w)) (cw_lease_s w) None d = (None, d1)"
        by (auto simp: claim_def split: prod.splits)
      from claim_ingest_empty[OF this] True sd' show ?thesis by (simp add: work_left_def project_of_def)
    next
      case node: False
      with cl r False have "claim_next_cpu_job (cw_cfg w) (worker_claim_args w) d = (None, d1)"
        by (auto simp: claim_def split: prod.splits)
      from claim_sql_empty[OF this[unfolded claim_next_cpu_job_def]] node False sd' show ?thesis
        by (simp add: work_left_def worker_claim_args_def project_of_def)
    qed
  qed
qed

text \<open>One \<^verbatim>\<open>run_once\<close> in the context the process has at that moment.\<close>

definition inline_step :: "worker \<Rightarrow> (db \<Rightarrow> run_ctx) \<Rightarrow> slots \<times> db \<Rightarrow> bool result \<times> slots \<times> db" where
  "inline_step w ctx sd = run_once w (ctx (snd sd)) sd"

interpretation inline_lane: claim_source "inline_step w ctx" "\<lambda>sd. work_left w (ctx (snd sd)) sd"
  for w and ctx :: "db \<Rightarrow> run_ctx"
  by unfold_locales (unfold inline_step_def, rule run_once_no)

text \<open>
  C8. The greedy drain ends only for cause and leaves nothing behind. When the inner loop of a worker comes back without an
  exception, either the worker has been told to stop, or there is nothing its inline lane could take: no queued job of its queue and
  project under a live run (for a GPU worker: none its machine can hold, or no slot or capacity for one). When it comes back with
  one, that was the exception of its last step. And it does come back whenever each job run makes some measure of the remaining
  work smaller.
\<close>

theorem drain_leaves_nothing:
  assumes "\<And>sd sd'. inline_step w ctx sd = (Inr True, sd') \<Longrightarrow> m sd' < (m sd :: nat)"
  shows "\<exists>failed sd'. drain (inline_step w ctx) stopped sd = Some (failed, sd') \<and>
    (case failed of
       None \<Rightarrow> stopped sd' \<or> \<not> work_left w (ctx (snd sd')) sd'
     | Some e \<Rightarrow> \<exists>sd0. inline_step w ctx sd0 = (Inl e, sd'))"
proof -
  from worker_drain_returns[of "inline_step w ctx" m stopped sd] assms
  obtain failed sd' where d: "drain (inline_step w ctx) stopped sd = Some (failed, sd')" by fastforce
  from inline_lane.drain_ends[OF d] d show ?thesis by blast
qed

text \<open>An ingest worker has such a measure: every job it runs leaves one queued ingest job fewer.\<close>

definition queued_ingest :: "db \<Rightarrow> nat" where
  "queued_ingest d = length (filter (\<lambda>j. ij_status j = Queued) (ingest_jobs d))"

lemma queued_update_le:
  assumes "\<And>j. P j \<Longrightarrow> ij_status (f j) \<noteq> Queued"
  shows "length (filter (\<lambda>j. ij_status j = Queued) (sql_update P f rows)) \<le> length (filter (\<lambda>j. ij_status j = Queued) rows)"
  using assms by (induction rows) (auto simp: sql_update_def le_SucI)

lemma queued_update_less:
  assumes "\<And>j. P j \<Longrightarrow> ij_status (f j) \<noteq> Queued" and "c \<in> set rows" and "P c" and "ij_status c = Queued"
  shows "length (filter (\<lambda>j. ij_status j = Queued) (sql_update P f rows)) < length (filter (\<lambda>j. ij_status j = Queued) rows)"
  using assms(2)
proof (induction rows)
  case Nil
  then show ?case by simp
next
  case (Cons a rows)
  have "length (filter (\<lambda>j. ij_status j = Queued) (sql_update P f rows)) \<le> length (filter (\<lambda>j. ij_status j = Queued) rows)"
    by (rule queued_update_le) (rule assms(1))
  with Cons assms show ?case by (auto simp: sql_update_def)
qed

lemma ingest_step_decreases:
  assumes "is_ingest w" and "inline_step w ctx sd = (Inr True, sd')"
  shows "queued_ingest (snd sd') < queued_ingest (snd sd)"
proof -
  obtain s d where sd: "sd = (s, d)" by (cases sd)
  let ?c = "ctx d"
  have q: "cw_queue w \<noteq> ''gpu''" using assms(1) by (auto simp: is_ingest_def node_queues_def)
  obtain r d1 where cl: "claim_next_ingest_job (cw_cfg w) (cw_queue w) (Some (cw_host w)) (cw_lease_s w) None d = (r, d1)" by fastforce
  with assms q sd obtain job where r: "r = Some job"
    by (cases r) (auto simp: inline_step_def run_once_def claim_def)
  with assms q sd cl have sd': "snd sd' = snd (execute_ingest_job (rc_tasks ?c) (rc_fmt ?c) (rc_elapsed ?c) job d1)"
    by (auto simp: inline_step_def run_once_def claim_def run_work_def run_ingest_def)
  have "queued_ingest d1 < queued_ingest d"
  proof (cases "first_by ingest_order (sql_select (ingest_claimable (cw_queue w) (project_of (cw_cfg w) None)) (ingest_jobs d))")
    case None
    with cl r show ?thesis by (simp add: claim_next_ingest_job_def)
  next
    case (Some c)
    then have c: "c \<in> set (ingest_jobs d)" "ij_status c = Queued"
      by (auto dest!: first_by_mem simp: sql_select_def ingest_claimable_def)
    have "d1 = snd (claim_next_ingest_job (cw_cfg w) (cw_queue w) (Some (cw_host w)) (cw_lease_s w) None d)" using cl by simp
    with Some c show ?thesis
      by (auto simp: claim_next_ingest_job_def queued_ingest_def intro!: queued_update_less[of _ _ c])
  qed
  moreover have "queued_ingest (snd sd') \<le> queued_ingest d1"
    unfolding sd'
    by (auto simp: execute_ingest_job_def Let_def queued_ingest_def mark_ingest_failed_def mark_ingest_completed_def
        split: sum.split prod.split intro!: queued_update_le dest!: arg_cong[where f = snd])
  ultimately show ?thesis by (simp add: sd)
qed

definition demo_fetcher :: worker where
  "demo_fetcher = \<lparr>cw_cfg = demo_cfg, cw_queue = ''fetch'', cw_host = ''h1'', cw_host_priority = 0, cw_lease_s = 600\<rparr>"

theorem drain_leaves_nothing_witness:
  "\<forall>ctx. \<exists>failed sd'. drain (inline_step demo_fetcher ctx) (\<lambda>_. False) (idle_slots, demo_db) = Some (failed, sd') \<and>
     (case failed of None \<Rightarrow> \<not> work_left demo_fetcher (ctx (snd sd')) sd' | Some e \<Rightarrow> \<exists>sd0. inline_step demo_fetcher ctx sd0 = (Inl e, sd'))"
proof
  fix ctx
  have ingest: "is_ingest demo_fetcher" by (simp add: is_ingest_def demo_fetcher_def node_queues_def)
  show "\<exists>failed sd'. drain (inline_step demo_fetcher ctx) (\<lambda>_. False) (idle_slots, demo_db) = Some (failed, sd') \<and>
     (case failed of None \<Rightarrow> \<not> work_left demo_fetcher (ctx (snd sd')) sd' | Some e \<Rightarrow> \<exists>sd0. inline_step demo_fetcher ctx sd0 = (Inl e, sd'))"
  proof -
    from drain_leaves_nothing[of demo_fetcher ctx "queued_ingest \<circ> snd" "\<lambda>_. False" "(idle_slots, demo_db)"]
      ingest_step_decreases[OF ingest, of ctx]
    obtain failed sd' where "drain (inline_step demo_fetcher ctx) (\<lambda>_. False) (idle_slots, demo_db) = Some (failed, sd')"
      and "case failed of None \<Rightarrow> False \<or> \<not> work_left demo_fetcher (ctx (snd sd')) sd'
        | Some e \<Rightarrow> \<exists>sd0. inline_step demo_fetcher ctx sd0 = (Inl e, sd')" unfolding comp_def by blast
    then show ?thesis unfolding simp_thms by blast
  qed
qed

section \<open>A renewed lease is never swept\<close>

text \<open>
  What may happen to a running job: time passes, its renewer ticks, somebody sweeps lapsed leases, and the rest of the
  system works on other rows.
\<close>

datatype lease_event = Passes int | Renews | Sweeps | Elsewhere "db \<Rightarrow> db"

fun lease_happens :: "nat \<Rightarrow> string \<Rightarrow> int \<Rightarrow> lease_event \<Rightarrow> db \<Rightarrow> db" where
  "lease_happens k host lease_s (Passes dt) d = d\<lparr>now := now d + dt\<rparr>"
| "lease_happens k host lease_s Renews d = snd (renew_lease k host lease_s d)"
| "lease_happens k host lease_s Sweeps d = snd (reclaim_expired_leases d)"
| "lease_happens k host lease_s (Elsewhere f) d = f d"

text \<open>No stretch without a renewal is longer than the lease; \<open>since\<close> is the time since the last one.\<close>

fun renewed_in_time :: "int \<Rightarrow> int \<Rightarrow> lease_event list \<Rightarrow> bool" where
  "renewed_in_time lease_s since [] = True"
| "renewed_in_time lease_s since (Passes dt # es) = (0 \<le> dt \<and> since + dt \<le> secs lease_s \<and> renewed_in_time lease_s (since + dt) es)"
| "renewed_in_time lease_s since (Renews # es) = renewed_in_time lease_s 0 es"
| "renewed_in_time lease_s since (Sweeps # es) = renewed_in_time lease_s since es"
| "renewed_in_time lease_s since (Elsewhere f # es) = renewed_in_time lease_s since es"

definition leaves_job :: "nat \<Rightarrow> lease_event \<Rightarrow> bool" where
  "leaves_job k e \<longleftrightarrow> (\<forall>f. e = Elsewhere f \<longrightarrow> (\<forall>d. job_of (f d) k = job_of d k \<and> now (f d) = now d))"

definition held_by :: "nat \<Rightarrow> string \<Rightarrow> int \<Rightarrow> int \<Rightarrow> node_job \<Rightarrow> db \<Rightarrow> bool" where
  "held_by k host lease_s since j d \<longleftrightarrow>
     job_of d k = Some (j\<lparr>nj_lease := Some (now d - since + secs lease_s)\<rparr>) \<and> nj_status j = Running \<and> nj_claimed j = Some host"

lemma held_sweep:
  assumes "held_by k host lease_s since j d" and "since \<le> secs lease_s"
  shows "held_by k host lease_s since j (snd (reclaim_expired_leases d))"
proof -
  let ?P = "\<lambda>j. run_of d (nj_run j) \<noteq> None \<and> lease_lapsed d j"
  have id: "nj_id (reclaim_row d j) = nj_id j" for j by (simp add: reclaim_row_def)
  have sweep: "snd (reclaim_expired_leases d) = snd (update_jobs ?P (reclaim_row d) d)"
    by (simp add: reclaim_expired_leases_def split: prod.split)
  have "job_of (snd (reclaim_expired_leases d)) k = map_option (\<lambda>j. if ?P j then reclaim_row d j else j) (job_of d k)"
    unfolding sweep by (rule job_lookup_update) (rule id)
  with assms show ?thesis by (simp add: held_by_def lease_lapsed_def sweep)
qed

lemma held_renew:
  assumes "held_by k host lease_s since j d"
  shows "held_by k host lease_s 0 j (snd (renew_lease k host lease_s d))"
proof -
  let ?f = "\<lambda>j. j\<lparr>nj_lease := Some (now d + secs lease_s)\<rparr>" and ?Q = "\<lambda>j. nj_claimed j = Some host \<and> nj_status j = Running"
  have up: "snd (renew_lease k host lease_s d) = snd (update_job k ?Q ?f d)"
    by (simp add: renew_lease_def split: prod.split)
  have "job_of (snd (update_job k ?Q ?f d)) k = map_option (\<lambda>j. if ?Q j then ?f j else j) (job_of d k)"
    by (subst job_lookup_row) simp_all
  with assms show ?thesis unfolding up held_by_def by simp
qed

fun since_after :: "int \<Rightarrow> lease_event \<Rightarrow> int" where
  "since_after since (Passes dt) = since + dt"
| "since_after since Renews = 0"
| "since_after since _ = since"

lemma held_step:
  assumes "held_by k host lease_s since j d" and "since \<le> secs lease_s" and "renewed_in_time lease_s since (e # es)"
    and "leaves_job k e"
  shows "held_by k host lease_s (since_after since e) j (lease_happens k host lease_s e d)"
proof (cases e)
  case (Passes dt)
  with assms show ?thesis by (simp add: held_by_def)
next
  case Renews
  with held_renew[OF assms(1)] show ?thesis by simp
next
  case Sweeps
  with held_sweep[OF assms(1,2)] show ?thesis by simp
next
  case (Elsewhere f)
  with assms show ?thesis by (auto simp: held_by_def leaves_job_def)
qed

lemma since_step:
  assumes "since \<le> secs lease_s" and "renewed_in_time lease_s since (e # es)" and "0 \<le> secs lease_s"
  shows "since_after since e \<le> secs lease_s" and "renewed_in_time lease_s (since_after since e) es"
  using assms by (cases e; simp)+

lemma held_fold:
  assumes "held_by k host lease_s since j d" and "since \<le> secs lease_s" and "renewed_in_time lease_s since es"
    and "list_all (leaves_job k) es" and "0 \<le> secs lease_s"
  shows "\<exists>s. s \<le> secs lease_s \<and> held_by k host lease_s s j (fold (lease_happens k host lease_s) es d)"
  using assms
proof (induction es arbitrary: since d)
  case Nil
  then show ?case by auto
next
  case (Cons e es)
  then have e: "leaves_job k e" and es: "list_all (leaves_job k) es" by simp_all
  have "\<exists>s. s \<le> secs lease_s \<and>
      held_by k host lease_s s j (fold (lease_happens k host lease_s) es (lease_happens k host lease_s e d))"
    by (rule Cons.IH[OF held_step[OF Cons.prems(1-3) e] since_step[OF Cons.prems(2,3,5)] es Cons.prems(5)])
  then show ?case by (simp only: fold_simps)
qed

text \<open>
  C7. A job whose renewer keeps up is never taken away by the lease sweep: however time, renewals, sweeps and work on other
  rows interleave after a claim, as long as no stretch without a renewal is longer than the lease, the job is still running, still
  owned by its worker, unchanged but for its lease, and that lease has not lapsed.
\<close>

theorem renewed_job_kept:
  assumes "job_of d k = Some j" and "nj_status j = Running" and "nj_claimed j = Some host"
    and "nj_lease j = Some (now d + secs lease_s)" and "0 \<le> lease_s"
    and "renewed_in_time lease_s 0 es" and "list_all (leaves_job k) es"
  defines "d' \<equiv> fold (lease_happens k host lease_s) es d"
  shows "\<exists>t. job_of d' k = Some (j\<lparr>nj_lease := Some t\<rparr>) \<and> now d' \<le> t"
proof -
  have secs: "0 \<le> secs lease_s" using assms(5) by simp
  have "held_by k host lease_s 0 j d" using assms(1-4) by (simp add: held_by_def)
  from held_fold[OF this secs assms(6,7) secs] obtain s
    where "s \<le> secs lease_s" "held_by k host lease_s s j d'" unfolding d'_def by blast
  then show ?thesis by (auto simp: held_by_def)
qed

text \<open>Fifteen minutes of work under a ten-minute lease, with one renewal and two sweeps.\<close>

theorem renewed_job_kept_witness:
  "\<exists>j t. job_of demo_claimed 1 = Some j \<and>
     job_of (fold (lease_happens 1 ''h1'' 600) [Passes (secs 400), Sweeps, Renews, Passes (secs 500), Sweeps] demo_claimed) 1
       = Some (j\<lparr>nj_lease := Some t\<rparr>)"
proof -
  have "job_of demo_claimed 1 \<noteq> None" by code_simp
  then obtain j where j: "job_of demo_claimed 1 = Some j" by blast
  have "map_option nj_status (job_of demo_claimed 1) = Some Running" "map_option nj_claimed (job_of demo_claimed 1) = Some (Some ''h1'')"
    "map_option nj_lease (job_of demo_claimed 1) = Some (Some (now demo_claimed + secs 600))" by code_simp+
  with renewed_job_kept[OF j, of "''h1''" 600 "[Passes (secs 400), Sweeps, Renews, Passes (secs 500), Sweeps]"] j show ?thesis
    by (auto simp: leaves_job_def)
qed

end
