(* ===== verification/Hw_Sample.thy ===== *)
theory Hw_Sample
  imports Telemetry Engine_Config
begin

text \<open>
  The telemetry of a host from reading to feed: the choice of the vendor probe, the ROCm parser, the sample
  and where it is published (\<^verbatim>\<open>hw_metrics.py\<close>), the listener of the feed (\<^verbatim>\<open>hw_feed.py\<close>) and its start in the
  conductor (\<^verbatim>\<open>web.py\<close>). Environment variables, the output of the tools, what \<^verbatim>\<open>psutil\<close> reads and what \<^verbatim>\<open>json.loads\<close>
  and \<^verbatim>\<open>float\<close> make of a text are arguments. The laws: publisher and reader agree on the database, a sample
  never claims more memory than the host has, and a failure never ends either loop.
\<close>

section \<open>The database of the metrics\<close>

type_synonym environ = "string \<Rightarrow> string option"

definition metrics_dsn :: "environ \<Rightarrow> 'h engine_config \<Rightarrow> string option" where
  "metrics_dsn env c =
     env (case ec_metrics_db_url_env c of None \<Rightarrow> ec_db_url_env c | Some v \<Rightarrow> if v = [] then ec_db_url_env c else v)"

definition uses_dedicated_metrics_dsn :: "'h engine_config \<Rightarrow> bool" where
  "uses_dedicated_metrics_dsn c \<longleftrightarrow>
     (case ec_metrics_db_url_env c of None \<Rightarrow> False | Some v \<Rightarrow> v \<noteq> [] \<and> v \<noteq> ec_db_url_env c)"

definition db_url :: "environ \<Rightarrow> 'h engine_config \<Rightarrow> string result" where
  "db_url env c =
     (case env (ec_db_url_env c) of
        None \<Rightarrow> Inl (RuntimeError ''db_url'') | Some url \<Rightarrow> if url = [] then Inl (RuntimeError ''db_url'') else Inr url)"

section \<open>The GPU probe\<close>

datatype gpu_vendor = Nvidia | Rocm | No_gpu

definition select_gpu_probe :: "(string \<Rightarrow> bool) \<Rightarrow> gpu_vendor" where
  "select_gpu_probe which = (if which ''nvidia-smi'' then Nvidia else if which ''rocm-smi'' then Rocm else No_gpu)"

definition as_int :: "(string \<Rightarrow> float_read) \<Rightarrow> json option \<Rightarrow> int option result" where
  "as_int fl v =
     (case v of
        None \<Rightarrow> Inr None
      | Some JNull \<Rightarrow> Inr None
      | Some (JBool b) \<Rightarrow> Inr (Some (if b then 1 else 0))
      | Some (JInt i) \<Rightarrow> Inr (Some i)
      | Some (JFloat q) \<Rightarrow> Inr (Some (if q < 0 then - floor (- q) else floor q))
      | Some (JStr s) \<Rightarrow>
          (case fl (rstrip CHR ''%'' (py_strip s)) of
             Finite i \<Rightarrow> Inr (Some i) | Infinite \<Rightarrow> Inl (OtherError ''OverflowError'') | _ \<Rightarrow> Inr None)
      | Some _ \<Rightarrow> Inr None)"

text \<open>The number of a key that begins with \<^verbatim>\<open>card\<close> and a digit.\<close>

definition card_id :: "string \<Rightarrow> int option" where
  "card_id key =
     (let ds = takeWhile is_digit (drop 4 key)
      in if starts_with key ''card'' \<and> ds \<noteq> [] then Some (int (digits_val ds)) else None)"

definition rocm_card :: "(string \<Rightarrow> float_read) \<Rightarrow> int \<Rightarrow> json \<Rightarrow> gpu_info result" where
  "rocm_card fl gpu_id val =
     (case val of
        JObj kvs \<Rightarrow>
          (case as_int fl (jget kvs ''GPU use (%)'') of
             Inl e \<Rightarrow> Inl e
           | Inr use \<Rightarrow>
               (case as_int fl (jget kvs ''VRAM Total Used Memory (B)'') of
                  Inl e \<Rightarrow> Inl e
                | Inr used \<Rightarrow>
                    (case as_int fl (jget kvs ''VRAM Total Memory (B)'') of
                       Inl e \<Rightarrow> Inl e
                     | Inr whole \<Rightarrow> Inr \<lparr>gi_id = gpu_id, gi_use_pct = (case use of None \<Rightarrow> 0 | Some u \<Rightarrow> u),
                           gi_vram_used_mb = (case used of None \<Rightarrow> 0 | Some b \<Rightarrow> b) div bytes_per_mb,
                           gi_vram_total_mb = (case whole of None \<Rightarrow> 0 | Some b \<Rightarrow> b) div bytes_per_mb\<rparr>)))
      | _ \<Rightarrow> Inl (OtherError ''AttributeError''))"

fun rocm_cards :: "(string \<Rightarrow> float_read) \<Rightarrow> jdict \<Rightarrow> gpu_info list result" where
  "rocm_cards fl [] = Inr []"
| "rocm_cards fl ((key, val) # rest) =
     (case card_id key of
        None \<Rightarrow> rocm_cards fl rest
      | Some i \<Rightarrow>
          (case rocm_card fl i val of
             Inl e \<Rightarrow> Inl e
           | Inr g \<Rightarrow> (case rocm_cards fl rest of Inl e \<Rightarrow> Inl e | Inr gs \<Rightarrow> Inr (g # gs))))"

definition rocm_smi :: "(string \<Rightarrow> json option) \<Rightarrow> (string \<Rightarrow> float_read) \<Rightarrow> string option \<Rightarrow> gpu_info list result" where
  "rocm_smi loads fl raw =
     (case raw of
        None \<Rightarrow> Inr []
      | Some text \<Rightarrow>
          (case loads text of
             None \<Rightarrow> Inr []
           | Some (JObj kvs) \<Rightarrow> rocm_cards fl (sort_key fst kvs)
           | Some _ \<Rightarrow> Inl (OtherError ''AttributeError'')))"

text \<open>\<^verbatim>\<open>_gpu_probe\<close>: the vendor is chosen at the first call and kept.\<close>

definition gpu_probe ::
  "(string \<Rightarrow> bool) \<Rightarrow> (string \<Rightarrow> json option) \<Rightarrow> (string \<Rightarrow> float_read) \<Rightarrow> string option \<Rightarrow> string option \<Rightarrow>
   gpu_vendor option \<Rightarrow> gpu_info list result \<times> gpu_vendor option" where
  "gpu_probe which loads fl nvidia rocm pinned =
     (let v = (case pinned of None \<Rightarrow> select_gpu_probe which | Some v \<Rightarrow> v)
      in ((case v of Nvidia \<Rightarrow> Inr (nvidia_smi nvidia) | Rocm \<Rightarrow> rocm_smi loads fl rocm | No_gpu \<Rightarrow> Inr []), Some v))"

section \<open>The sample\<close>

text \<open>The three readings of \<^verbatim>\<open>psutil\<close>: processor, memory (percent, used, total) and swap, in bytes.\<close>

record ps_reading =
  ps_cpu :: "real result"
  ps_vm :: "(real \<times> int \<times> int) result"
  ps_swap :: "int result"

record hw_reading =
  hr_cpu_percent :: "real option"
  hr_cpu_ours_percent :: "real option"
  hr_ram_percent :: "real option"
  hr_ram_used_mb :: "int option"
  hr_ram_total_mb :: "int option"
  hr_ram_ours_used_mb :: "int option"
  hr_ram_ours_percent :: "real option"
  hr_swap_used_mb :: "int option"
  hr_gpus :: "gpu_info list"

text \<open>One \<^verbatim>\<open>try\<close> for all three: what was assigned before the failing call is kept, the rest is missing.\<close>

definition host_part :: "ps_reading option \<Rightarrow> real option \<times> (real \<times> int \<times> int) option \<times> int option" where
  "host_part ps =
     (case ps of
        None \<Rightarrow> (None, None, None)
      | Some r \<Rightarrow>
          (case ps_cpu r of
             Inl _ \<Rightarrow> (None, None, None)
           | Inr cpu \<Rightarrow>
               (case (ps_vm r, ps_swap r) of
                  (Inr (pct, used, whole), Inr sw) \<Rightarrow>
                    (Some cpu, Some (pct, used div bytes_per_mb, whole div bytes_per_mb), Some (sw div bytes_per_mb))
                | _ \<Rightarrow> (Some cpu, None, None))))"

definition build_sample :: "ps_reading option \<Rightarrow> attribution option result option \<Rightarrow> gpu_info list result \<Rightarrow> hw_reading result" where
  "build_sample ps attrib gpus =
     (case host_part ps of (cpu, mem, swap) \<Rightarrow>
        let share = (case attrib of Some (Inr (Some a)) \<Rightarrow> Some a | _ \<Rightarrow> None);
            ours = map_option at_ram_used_mb share
        in case gpus of
             Inl e \<Rightarrow> Inl e
           | Inr gs \<Rightarrow> Inr \<lparr>hr_cpu_percent = cpu, hr_cpu_ours_percent = Option.bind share at_cpu_percent,
               hr_ram_percent = map_option fst mem, hr_ram_used_mb = map_option (fst \<circ> snd) mem,
               hr_ram_total_mb = map_option (snd \<circ> snd) mem, hr_ram_ours_used_mb = ours,
               hr_ram_ours_percent = ram_ours_percent (map_option (snd \<circ> snd) mem) ours,
               hr_swap_used_mb = swap, hr_gpus = gs\<rparr>)"

section \<open>Publishing\<close>

datatype target = On_pool | On_dsn string | Nowhere

definition broadcast_target :: "environ \<Rightarrow> 'h engine_config \<Rightarrow> target" where
  "broadcast_target env c =
     (if uses_dedicated_metrics_dsn c
      then (case metrics_dsn env c of None \<Rightarrow> Nowhere | Some dsn \<Rightarrow> if dsn = [] then Nowhere else On_dsn dsn)
      else On_pool)"

text \<open>
  The sampler thread: each round has the stop flag at its head, the sample or the exception of building it, whether
  the notification failed, and the answer of the wait. The result is what was published, and where.
\<close>

fun sampler_run ::
  "environ \<Rightarrow> 'h engine_config \<Rightarrow> (bool \<times> hw_reading result \<times> bool \<times> bool) list \<Rightarrow> (target \<times> hw_reading) list" where
  "sampler_run env c [] = []"
| "sampler_run env c ((stopped, sample, fails, waited) # rounds) =
     (if stopped then []
      else (case sample of
              Inl _ \<Rightarrow> []
            | Inr s \<Rightarrow> if fails \<or> broadcast_target env c = Nowhere then [] else [(broadcast_target env c, s)]) @
           (if waited then [] else sampler_run env c rounds))"

section \<open>The listener of the feed\<close>

datatype feed_round = No_dsn bool | Attempt bool "string list" bool

text \<open>
  \<^verbatim>\<open>HwFeed._run\<close>: without a DSN wait a second; otherwise listen until the connection drops, then back off. An
  attempt says whether it got as far as listening, the payloads it was given, and the answer of the wait that
  followed. The result is the feed and the waits in seconds.
\<close>

definition reconnect_max_s :: int where
  "reconnect_max_s = 30"

fun feed_run :: "(string \<Rightarrow> 'f \<Rightarrow> 'f) \<Rightarrow> int \<Rightarrow> feed_round list \<Rightarrow> 'f \<Rightarrow> 'f \<times> int list" where
  "feed_run store backoff [] s = (s, [])"
| "feed_run store backoff (No_dsn stopped # rs) s =
     (if stopped then (s, [1]) else case feed_run store backoff rs s of (s', ws) \<Rightarrow> (s', 1 # ws))"
| "feed_run store backoff (Attempt listening notes stopped # rs) s =
     (let b = (if listening then 1 else backoff); s1 = (if listening then fold store notes s else s)
      in if stopped then (s1, [b])
         else case feed_run store (min (b * 2) reconnect_max_s) rs s1 of (s', ws) \<Rightarrow> (s', b # ws))"

text \<open>\<^verbatim>\<open>_start_hw_feed\<close> of the conductor: only for a PostgreSQL DSN, and never fatal.\<close>

definition start_hw_feed :: "environ \<Rightarrow> 'h engine_config \<Rightarrow> 'f result \<Rightarrow> 'f option" where
  "start_hw_feed env c started =
     (case metrics_dsn env c of
        None \<Rightarrow> None
      | Some dsn \<Rightarrow>
          if \<not> (starts_with dsn ''postgres://'' \<or> starts_with dsn ''postgresql://'') then None
          else (case started of Inl _ \<Rightarrow> None | Inr f \<Rightarrow> Some f))"

section \<open>Laws\<close>

text \<open>Whatever is published goes to the database the reader listens on: the DSN itself, or the engine's own.\<close>

lemma publisher_reader_agree:
  "broadcast_target env c = On_dsn dsn \<Longrightarrow> metrics_dsn env c = Some dsn"
  "broadcast_target env c = On_pool \<Longrightarrow> metrics_dsn env c = env (ec_db_url_env c)"
  by (auto simp: broadcast_target_def metrics_dsn_def uses_dedicated_metrics_dsn_def split: if_splits option.splits)

lemma feed_reads_the_engine:
  assumes "broadcast_target env c = On_pool" and "start_hw_feed env c started = Some f"
  shows "\<exists>url. db_url env c = Inr url \<and> metrics_dsn env c = Some url"
  using assms publisher_reader_agree(2)[OF assms(1)]
  by (auto simp: start_hw_feed_def db_url_def starts_with_def split: option.splits if_splits)

text \<open>The share of our containers is a percentage, and it is missing whenever the host's memory is.\<close>

lemma ours_within_host:
  assumes "build_sample ps attrib gpus = Inr r"
  shows "case hr_ram_ours_percent r of None \<Rightarrow> True | Some p \<Rightarrow> 0 \<le> p \<and> p \<le> 100 \<and> hr_ram_total_mb r \<noteq> None \<and> hr_ram_ours_used_mb r \<noteq> None"
  using assms
  by (auto simp: build_sample_def ram_ours_percent_def Let_def split: prod.splits sum.splits option.splits if_splits)

text \<open>The probe is chosen once; after that the presence of the other tool does not matter.\<close>

lemma probe_pinned:
  assumes "gpu_probe which loads fl nv ro pinned = (r, pinned')"
  shows "pinned' \<noteq> None" and "pinned \<noteq> None \<Longrightarrow> pinned' = pinned"
    and "pinned \<noteq> None \<Longrightarrow> gpu_probe which' loads fl nv ro pinned = (r, pinned')"
  using assms by (auto simp: gpu_probe_def Let_def)

text \<open>A round that fails publishes nothing and ends nothing.\<close>

lemma sampler_survives:
  "sampler_run env c ((False, Inl e, fails, False) # rounds) = sampler_run env c rounds"
  "sampler_run env c ((False, sample, True, False) # rounds) = sampler_run env c rounds"
  by (cases sample; simp)+

text \<open>The listener never waits longer than its bound, and everything it was given while listening is in the feed.\<close>

lemma feed_waits_bounded:
  "1 \<le> backoff \<Longrightarrow> backoff \<le> reconnect_max_s \<Longrightarrow> list_all (\<lambda>w. 1 \<le> w \<and> w \<le> reconnect_max_s) (snd (feed_run store backoff rs s))"
  by (induction store backoff rs s rule: feed_run.induct) (auto simp: reconnect_max_s_def Let_def split: prod.splits)

lemma feed_run_stores:
  assumes "list_all (\<lambda>r. case r of No_dsn stopped \<Rightarrow> \<not> stopped | Attempt _ _ stopped \<Rightarrow> \<not> stopped) rs"
  shows "fst (feed_run store backoff rs s) =
    fold store (concat (map (\<lambda>r. case r of Attempt True notes _ \<Rightarrow> notes | _ \<Rightarrow> []) rs)) s"
  using assms
  by (induction store backoff rs s rule: feed_run.induct) (auto simp: Let_def split: prod.splits)

text \<open>The ROCm probe is documented to give an empty list when it fails; output that is valid JSON of another shape raises.\<close>

lemma rocm_smi_can_raise: "rocm_smi loads fl (Some text) = Inl (OtherError ''AttributeError'')" if "loads text = Some (JList [])"
  using that by (simp add: rocm_smi_def)

end
