(* ===== verification/Sqlite_Text.thy ===== *)
theory Sqlite_Text
  imports Migrations Json_Refs "HOL-Library.Monad_Syntax" "HOL-Library.AList"
begin

text \<open>
  How the engine's PostgreSQL statements run on SQLite: the fragments of \<^verbatim>\<open>dialect.py\<close>, and the translator
  and the row factory of \<^verbatim>\<open>db.py\<close>. A regular expression is a matcher: from the character before the
  position and the rest of the text it gives the replacement and what is left, and \<open>re_sub\<close> applies it at
  every position from the left, as \<^verbatim>\<open>re.sub\<close> does. Each of the source's patterns is such that a greedy match
  never has to give characters back, so a matcher is a plain scan. Statements are ASCII text. The laws: what
  the placeholders of a statement become, and where that goes wrong.
\<close>

section \<open>Matching\<close>

type_synonym matcher = "char option \<Rightarrow> string \<Rightarrow> (string \<times> string) option"

function sub_from :: "matcher \<Rightarrow> char option \<Rightarrow> string \<Rightarrow> string" where
  "sub_from m prev [] = []"
| "sub_from m prev (c # s) =
     (case m prev (c # s) of
        None \<Rightarrow> c # sub_from m (Some c) s
      | Some (rep, rest) \<Rightarrow>
          if length rest \<le> length s
          then rep @ sub_from m (Some (last (take (length (c # s) - length rest) (c # s)))) rest
          else c # sub_from m (Some c) s)"
  by pat_completeness auto
termination
  by (relation "measure (\<lambda>(m, prev, s). length s)") auto

definition re_sub :: "matcher \<Rightarrow> string \<Rightarrow> string" where
  "re_sub m s = sub_from m None s"

definition is_word :: "char \<Rightarrow> bool" where
  "is_word c \<longleftrightarrow> (let n = of_char c :: nat in 48 \<le> n \<and> n \<le> 57 \<or> 65 \<le> n \<and> n \<le> 90 \<or> n = 95 \<or> 97 \<le> n \<and> n \<le> 122)"

definition name_start :: "char \<Rightarrow> bool" where
  "name_start c \<longleftrightarrow> is_word c \<and> \<not> is_digit c"

text \<open>A word boundary before a word character.\<close>

definition at_word :: "char option \<Rightarrow> bool" where
  "at_word prev \<longleftrightarrow> (case prev of None \<Rightarrow> True | Some c \<Rightarrow> \<not> is_word c)"

definition after :: "string \<Rightarrow> string \<Rightarrow> string option" where
  "after p s = (if starts_with s p then Some (drop (length p) s) else None)"

definition after_ci :: "string \<Rightarrow> string \<Rightarrow> string option" where
  "after_ci p s = (if starts_with (map to_lower s) p then Some (drop (length p) s) else None)"

definition spaces :: "string \<Rightarrow> string" where
  "spaces s = dropWhile is_space s"

definition spaces1 :: "string \<Rightarrow> string option" where
  "spaces1 s = (if s \<noteq> [] \<and> is_space (hd s) then Some (spaces s) else None)"

definition name_at :: "(char \<Rightarrow> bool) \<Rightarrow> string \<Rightarrow> (string \<times> string) option" where
  "name_at more_ok s =
     (if s \<noteq> [] \<and> name_start (hd s) then Some (takeWhile more_ok s, dropWhile more_ok s) else None)"

definition str_replace :: "string \<Rightarrow> string \<Rightarrow> string \<Rightarrow> string" where
  "str_replace old new = re_sub (\<lambda>_ s. map_option (\<lambda>r. (new, r)) (after old s))"

section \<open>The translator\<close>

definition now_text :: string where
  \<open>now_text = ''(strftime('' @ [CHR 0x27] @ ''%Y-%m-%d %H:%M:%f'' @ [CHR 0x27] @ '', '' @ [CHR 0x27] @ ''now'' @ [CHR 0x27] @ ''))''\<close>

definition m_for_update :: matcher where
  "m_for_update prev s =
     (if \<not> at_word prev then None
      else do {
        r \<leftarrow> after_ci ''for'' s; r \<leftarrow> spaces1 r; r \<leftarrow> after_ci ''update'' r;
        Some ([], case (do { t \<leftarrow> spaces1 r; t \<leftarrow> after_ci ''skip'' t; t \<leftarrow> spaces1 t; after_ci ''locked'' t }) of
                    None \<Rightarrow> r | Some t \<Rightarrow> t) })"

text \<open>A magnitude: a named or a positional parameter, digits, or a column.\<close>

definition magnitude :: "string \<Rightarrow> (string \<times> string) option" where
  "magnitude s =
     (case (do { r \<leftarrow> after ''%('' s; (n, r) \<leftarrow> name_at is_word r; r \<leftarrow> after '')s'' r; Some (''%('' @ n @ '')s'', r) }) of
        Some x \<Rightarrow> Some x
      | None \<Rightarrow>
          (case after ''%s'' s of
             Some r \<Rightarrow> Some (''%s'', r)
           | None \<Rightarrow>
               if s \<noteq> [] \<and> is_digit (hd s) then Some (takeWhile is_digit s, dropWhile is_digit s)
               else name_at (\<lambda>c. is_word c \<or> c = CHR ''.'') s))"

definition sign_at :: "string \<Rightarrow> (char \<times> string) option" where
  "sign_at s = (case s of [] \<Rightarrow> None | c # r \<Rightarrow> if c = CHR ''+'' \<or> c = CHR ''-'' then Some (c, r) else None)"

text \<open>\<^verbatim>\<open>_interval_sub\<close>: the operator is folded into the value, and \<^verbatim>\<open>printf\<close> writes the sign.\<close>

definition interval_text :: "string \<Rightarrow> char \<Rightarrow> string \<Rightarrow> string" where
  \<open>interval_text unit oper x =
     concat [''strftime('', [CHR 0x27], ''%Y-%m-%d %H:%M:%f'', [CHR 0x27], '', '', [CHR 0x27], ''now'', [CHR 0x27], '', printf('', [CHR 0x27],
       ''%+d '', unit, [CHR 0x27], '', '', if oper = CHR ''+'' then ''('' @ x @ '')'' else ''(-('' @ x @ ''))'', ''))'']\<close>

definition m_interval :: "string \<Rightarrow> string \<Rightarrow> matcher" where
  "m_interval word unit prev s = do {
     r \<leftarrow> after ''now()'' s; (oper, r) \<leftarrow> sign_at (spaces r); r \<leftarrow> after ''make_interval('' (spaces r); r \<leftarrow> after word (spaces r);
     r \<leftarrow> after ''=>'' (spaces r); (x, r) \<leftarrow> magnitude (spaces r); r \<leftarrow> after '')'' (spaces r);
     Some (interval_text unit oper x, r) }"

definition rewrite_intervals :: "string \<Rightarrow> string" where
  "rewrite_intervals s = re_sub (m_interval ''days'' ''days'') (re_sub (m_interval ''secs'' ''seconds'') s)"

definition m_now :: matcher where
  "m_now prev s = (if at_word prev then map_option (\<lambda>r. (now_text, r)) (after ''now()'' s) else None)"

definition m_cast :: matcher where
  "m_cast prev s = do {
     r \<leftarrow> after ''::'' s; (_, r) \<leftarrow> name_at is_word r;
     Some ([], case (do { t \<leftarrow> after ''['' (spaces r); after '']'' (spaces t) }) of None \<Rightarrow> r | Some t \<Rightarrow> t) }"

definition m_call :: "string \<Rightarrow> string \<Rightarrow> matcher" where
  "m_call old new prev s =
     (if at_word prev then do { r \<leftarrow> after old s; r \<leftarrow> after ''('' (spaces r); Some (new @ ''('', r) } else None)"

definition m_named :: matcher where
  "m_named prev s = do { r \<leftarrow> after ''%('' s; (n, r) \<leftarrow> name_at is_word r; r \<leftarrow> after '')s'' r; Some (CHR '':'' # n, r) }"

text \<open>The last three lines of \<^verbatim>\<open>_rewrite_chunk\<close>: named parameters, then positional ones, then the escaped percent sign.\<close>

definition paramstyle :: "string \<Rightarrow> string" where
  "paramstyle s = str_replace ''%%'' ''%'' (str_replace ''%s'' ''?'' (re_sub m_named s))"

definition rewrite_chunk :: "string \<Rightarrow> string" where
  "rewrite_chunk s =
     (let s = re_sub m_for_update s; s = rewrite_intervals s; s = re_sub m_now s; s = re_sub m_cast s;
          s = re_sub (m_call ''LEAST'' ''MIN'') s; s = re_sub (m_call ''GREATEST'' ''MAX'') s
      in paramstyle s)"

definition m_interval_literal :: matcher where
  \<open>m_interval_literal prev s = do {
     r \<leftarrow> after ''now()'' s; (oper, r) \<leftarrow> sign_at (spaces r); r \<leftarrow> after ''interval'' (spaces r); r \<leftarrow> after [CHR 0x27] (spaces r);
     n \<leftarrow> (if r \<noteq> [] \<and> is_digit (hd r) then Some (takeWhile is_digit r) else None);
     r \<leftarrow> spaces1 (dropWhile is_digit r); r \<leftarrow> after ''second'' r;
     r \<leftarrow> after [CHR 0x27] (case after ''s'' r of None \<Rightarrow> r | Some t \<Rightarrow> t);
     Some (concat [''datetime('', [CHR 0x27], ''now'', [CHR 0x27], '', '', [CHR 0x27], [oper], n, '' seconds'', [CHR 0x27], '')''], r) }\<close>

definition pre_split_intervals :: "string \<Rightarrow> string" where
  "pre_split_intervals sql = re_sub m_interval_literal sql"

definition translate_sql_for_sqlite :: "string \<Rightarrow> string" where
  "translate_sql_for_sqlite sql =
     concat (map (\<lambda>(lit, seg). if lit then seg else rewrite_chunk seg) (split_sql_literals (pre_split_intervals sql)))"

section \<open>Rows\<close>

text \<open>
  The row factory: SQLite has integers, reals, texts and blobs; the columns the engine keeps as JSON, as
  timestamps or as flags are restored by name. \<open>loads\<close> is \<^verbatim>\<open>json.loads\<close> and \<open>strptime\<close> the library's, from
  text and format to a time.
\<close>

datatype lite_value = L_null | L_int int | L_real real | L_text string | L_blob string

datatype py_value = P_null | P_int int | P_real real | P_text string | P_blob string | P_json json | P_time int | P_bool bool

definition json_cols :: "string list" where
  "json_cols = [''context'', ''steps_done'', ''input_spec'', ''inputs'', ''resolved_inputs'', ''context_delta'', ''args'',
     ''result'', ''detail'', ''value'', ''known_models'', ''fits_models'', ''llm_servers_available'']"

definition ts_cols :: "string list" where
  "ts_cols = [''created_at'', ''updated_at'', ''queued_at'', ''started_at'', ''finished_at'', ''lease_expires_at'', ''last_seen'',
     ''last_flagged_dead_at'', ''claimed_at'', ''applied_at'', ''unassignable_at'', ''processed_at'']"

definition bool_cols :: "string list" where
  "bool_cols = [''is_priority'', ''is_primary'', ''fresh'', ''flagged_dead'']"

definition parse_ts :: "(string \<Rightarrow> string \<Rightarrow> int option) \<Rightarrow> string \<Rightarrow> py_value" where
  "parse_ts strptime value =
     (let s = py_strip value
      in if s = [] then P_text value
         else let s = str_replace ''T'' '' '' s;
                  s = (if last s = CHR ''Z'' then butlast s else s);
                  fmt = (if CHR ''.'' \<in> set s then ''%Y-%m-%d %H:%M:%S.%f'' else ''%Y-%m-%d %H:%M:%S'')
              in case strptime s fmt of None \<Rightarrow> P_text value | Some time \<Rightarrow> P_time time)"

definition stored_as :: "lite_value \<Rightarrow> py_value" where
  "stored_as v = (case v of L_null \<Rightarrow> P_null | L_int i \<Rightarrow> P_int i | L_real x \<Rightarrow> P_real x | L_text s \<Rightarrow> P_text s | L_blob b \<Rightarrow> P_blob b)"

definition sqlite_cell ::
  "(string \<Rightarrow> json option) \<Rightarrow> (string \<Rightarrow> string \<Rightarrow> int option) \<Rightarrow> string \<Rightarrow> lite_value \<Rightarrow> py_value" where
  "sqlite_cell loads strptime name v =
     (case v of
        L_text s \<Rightarrow>
          if name \<in> set json_cols then (case loads s of None \<Rightarrow> P_text s | Some j \<Rightarrow> P_json j)
          else if name \<in> set ts_cols then parse_ts strptime s
          else P_text s
      | L_int i \<Rightarrow> if name \<in> set bool_cols then P_bool (i \<noteq> 0) else P_int i
      | _ \<Rightarrow> stored_as v)"

definition sqlite_row_to_dict ::
  "(string \<Rightarrow> json option) \<Rightarrow> (string \<Rightarrow> string \<Rightarrow> int option) \<Rightarrow> string list \<Rightarrow> lite_value list \<Rightarrow> (string \<times> py_value) list" where
  "sqlite_row_to_dict loads strptime description row =
     fold (\<lambda>(name, v) out. AList.update name (sqlite_cell loads strptime name v) out) (zip description row) []"

text \<open>What a flag column was written from comes back; a column of no list comes back as it was stored.\<close>

lemma flag_roundtrip: "name \<in> set bool_cols \<Longrightarrow> sqlite_cell loads strptime name (L_int (if b then 1 else 0)) = P_bool b"
  by (simp add: sqlite_cell_def)

lemma plain_column_as_stored:
  "name \<notin> set (json_cols @ ts_cols @ bool_cols) \<Longrightarrow> sqlite_cell loads strptime name v = stored_as v"
  by (cases v) (simp_all add: sqlite_cell_def stored_as_def)

lemma row_cell:
  assumes "distinct description" and "length row = length description" and "i < length description"
  shows "map_of (sqlite_row_to_dict loads strptime description row) (description ! i) =
    Some (sqlite_cell loads strptime (description ! i) (row ! i))"
proof -
  let ?g = "\<lambda>(name, v) out. AList.update name (sqlite_cell loads strptime name v) out"
  have keep: "map_of (fold ?g zs out) k = map_of out k" if "k \<notin> fst ` set zs" for zs out k
    using that by (induction zs arbitrary: out) (auto simp: update_conv)
  have "map_of (fold ?g zs out) (fst (zs ! i)) = Some (sqlite_cell loads strptime (fst (zs ! i)) (snd (zs ! i)))"
    if "distinct (map fst zs)" "i < length zs" for zs out i
    using that
  proof (induction zs arbitrary: out i)
    case (Cons z zs)
    then show ?case by (cases i) (auto simp: keep update_conv split: prod.splits)
  qed simp
  from this[of "zip description row" i "[]"] assms show ?thesis by (simp add: sqlite_row_to_dict_def)
qed

section \<open>Dialects\<close>

text \<open>
  The SQL fragments of the two dialects. The encoding of a list that is bound as a parameter (the list itself, or
  its JSON text) belongs to the driver and is not here.
\<close>

record dialect =
  d_name :: string
  d_now :: string
  d_future_seconds :: "string \<Rightarrow> string"
  d_past_seconds :: "string \<Rightarrow> string"
  d_past_days :: "string \<Rightarrow> string"
  d_epoch :: "string \<Rightarrow> string"
  d_creation_order :: "string \<Rightarrow> string"
  d_least :: "string list \<Rightarrow> string"
  d_skip_locked :: string
  d_not_distinct_from :: "string \<Rightarrow> string \<Rightarrow> string"
  d_array_contains_value :: "string \<Rightarrow> string \<Rightarrow> string"
  d_value_in_param_array :: "string \<Rightarrow> string \<Rightarrow> string"
  d_qualify_returning :: "string \<Rightarrow> string list \<Rightarrow> string"
  d_table_exists :: "string \<Rightarrow> string"

definition quoted :: "string \<Rightarrow> string" where
  "quoted s = [CHR 0x27] @ s @ [CHR 0x27]"

definition pg_dialect :: dialect where
  "pg_dialect = \<lparr>d_name = ''pg'', d_now = ''now()'',
     d_future_seconds = (\<lambda>p. ''now() + make_interval(secs => '' @ p @ '')''),
     d_past_seconds = (\<lambda>p. ''now() - make_interval(secs => '' @ p @ '')''),
     d_past_days = (\<lambda>p. ''now() - make_interval(days => '' @ p @ '')''),
     d_epoch = (\<lambda>c. ''EXTRACT(EPOCH FROM '' @ c @ '')''),
     d_creation_order = (\<lambda>a. ''EXTRACT(EPOCH FROM '' @ a @ ''.created_at)''),
     d_least = (\<lambda>es. ''LEAST('' @ join_with '', '' es @ '')''), d_skip_locked = ''FOR UPDATE SKIP LOCKED'',
     d_not_distinct_from = (\<lambda>a b. a @ '' IS NOT DISTINCT FROM '' @ b),
     d_array_contains_value = (\<lambda>col v. v @ '' = ANY('' @ col @ '')''),
     d_value_in_param_array = (\<lambda>v p. v @ '' = ANY('' @ p @ ''::text[])''),
     d_qualify_returning = (\<lambda>a cs. join_with '', '' (map (\<lambda>c. a @ ''.'' @ c) cs)),
     d_table_exists = (\<lambda>p. ''to_regclass('' @ quoted ''public.'' @ '' || '' @ p @ '')'')\<rparr>"

definition sqlite_dialect :: dialect where
  "sqlite_dialect = \<lparr>d_name = ''sqlite'', d_now = ''datetime('' @ quoted ''now'' @ '')'',
     d_future_seconds = (\<lambda>p. concat [''datetime('', quoted ''now'', '', ('', quoted ''+'', '' || '', p, '' || '', quoted '' seconds'', ''))'']),
     d_past_seconds = (\<lambda>p. concat [''datetime('', quoted ''now'', '', ('', quoted ''-'', '' || '', p, '' || '', quoted '' seconds'', ''))'']),
     d_past_days = (\<lambda>p. concat [''datetime('', quoted ''now'', '', ('', quoted ''-'', '' || '', p, '' || '', quoted '' days'', ''))'']),
     d_epoch = (\<lambda>c. concat [''CAST(strftime('', quoted ''%s'', '', '', c, '') AS REAL)'']),
     d_creation_order = (\<lambda>a. a @ ''.rowid''), d_least = (\<lambda>es. ''MIN('' @ join_with '', '' es @ '')''), d_skip_locked = [],
     d_not_distinct_from = (\<lambda>a b. a @ '' IS '' @ b),
     d_array_contains_value = (\<lambda>col v. concat [''EXISTS (SELECT 1 FROM json_each('', col, '') WHERE value = '', v, '')'']),
     d_value_in_param_array = (\<lambda>v p. concat [v, '' IN (SELECT value FROM json_each('', p, ''))'']),
     d_qualify_returning = (\<lambda>a cs. join_with '', '' cs),
     d_table_exists = (\<lambda>p. concat [''(SELECT name FROM sqlite_master WHERE type = '', quoted ''table'', '' AND name = '', p, '')''])\<rparr>"

definition get_dialect :: "string \<Rightarrow> dialect" where
  "get_dialect db_backend = (if db_backend = ''sqlite'' then sqlite_dialect else pg_dialect)"

section \<open>Placeholders\<close>

text \<open>
  The contract the three parameter rewrites share: a matcher that looks at nothing before its position and fires only at a
  percent sign.
\<close>

locale percent_matcher =
  fixes m :: matcher
  assumes free: "m p s = m None s" and only_percent: "c \<noteq> CHR ''%'' \<Longrightarrow> m p (c # s) = None"
begin

lemma sub_free: "sub_from m p s = re_sub m s"
proof (induction s arbitrary: p)
  case (Cons c s)
  show ?case unfolding re_sub_def sub_from.simps free[of p] ..
qed (simp add: re_sub_def)

lemma sub_nil: "re_sub m [] = []"
  by (simp add: re_sub_def)

lemma sub_skip: "m None (c # s) = None \<Longrightarrow> re_sub m (c # s) = c # re_sub m s"
  unfolding re_sub_def[of m "c # s"] sub_from.simps by (simp add: sub_free)

lemma sub_hit: "m None (c # s) = Some (rep, rest) \<Longrightarrow> length rest \<le> length s \<Longrightarrow> re_sub m (c # s) = rep @ re_sub m rest"
  unfolding re_sub_def[of m "c # s"] sub_from.simps by (simp add: sub_free)

lemma sub_text: "CHR ''%'' \<notin> set t \<Longrightarrow> re_sub m (t @ rest) = t @ re_sub m rest"
  by (induction t) (auto simp: sub_skip only_percent)

end

lemma after_Cons: "after (a # p) (c # s) = (if a = c then after p s else None)"
  by (auto simp: after_def starts_with_def)

lemma after_Nil [simp]: "after [] s = Some s"
  by (simp add: after_def starts_with_def)

lemma after_end [simp]: "after (a # p) [] = None"
  by (simp add: after_def starts_with_def)

interpretation named: percent_matcher m_named
  by unfold_locales (simp_all add: m_named_def after_Cons)

interpretation positional: percent_matcher "\<lambda>_ s. map_option (\<lambda>r. (''?'', r)) (after ''%s'' s)"
  by unfold_locales (simp_all add: after_Cons)

interpretation escaped: percent_matcher "\<lambda>_ s. map_option (\<lambda>r. (''%'', r)) (after ''%%'' s)"
  by unfold_locales (simp_all add: after_Cons)

text \<open>A chunk of a statement as its author means it, in the driver's notation and in SQLite's.\<close>

datatype sql_piece = Text string | Named string | Positional | Percent

fun py_piece :: "sql_piece \<Rightarrow> string" where
  "py_piece (Text s) = s"
| "py_piece (Named n) = ''%('' @ n @ '')s''"
| "py_piece Positional = ''%s''"
| "py_piece Percent = ''%%''"

fun lite_piece :: "sql_piece \<Rightarrow> string" where
  "lite_piece (Text s) = s"
| "lite_piece (Named n) = '':'' @ n"
| "lite_piece Positional = ''?''"
| "lite_piece Percent = ''%''"

fun piece_ok :: "sql_piece \<Rightarrow> bool" where
  "piece_ok (Text s) \<longleftrightarrow> s \<noteq> [] \<and> CHR ''%'' \<notin> set s"
| "piece_ok (Named n) \<longleftrightarrow> n \<noteq> [] \<and> name_start (hd n) \<and> list_all is_word n"
| "piece_ok _ \<longleftrightarrow> True"

text \<open>No escaped percent sign is followed at once by a letter s or an opening parenthesis.\<close>

fun percents_apart :: "sql_piece list \<Rightarrow> bool" where
  "percents_apart [] \<longleftrightarrow> True"
| "percents_apart (Percent # Text s # ps) \<longleftrightarrow> hd s \<noteq> CHR ''s'' \<and> hd s \<noteq> CHR ''('' \<and> percents_apart (Text s # ps)"
| "percents_apart (p # ps) \<longleftrightarrow> percents_apart ps"

text \<open>The chunk between the rewrites.\<close>

fun named_done :: "sql_piece \<Rightarrow> string" where
  "named_done (Named n) = '':'' @ n"
| "named_done p = py_piece p"

fun positional_done :: "sql_piece \<Rightarrow> string" where
  "positional_done Percent = ''%%''"
| "positional_done p = lite_piece p"

lemma percents_apart_tl: "percents_apart (p # ps) \<Longrightarrow> percents_apart ps"
  by (cases "(p, ps)" rule: prod.exhaust; cases p; cases ps; cases "hd ps") auto

lemma after_percent:
  assumes "percents_apart (Percent # ps)" and "list_all piece_ok ps" and "r \<in> {py_piece, named_done, positional_done}"
  shows "after ''('' (concat (map r ps)) = None" and "after ''s'' (concat (map r ps)) = None"
  using assms by (cases ps; cases "hd ps"; cases "py_piece (hd ps)"; auto simp: after_Cons)+

lemma name_no_percent: "list_all is_word n \<Longrightarrow> CHR ''%'' \<notin> set n"
  by (auto simp: list_all_iff is_word_def)

lemma named_skips: "after ''('' s = None \<Longrightarrow> m_named None (CHR ''%'' # s) = None"
  by (simp add: m_named_def after_Cons)

lemma named_skips_other: "c \<noteq> CHR ''%'' \<Longrightarrow> m_named None (c # s) = None"
  by (rule named.only_percent)

lemma named_stage:
  "list_all piece_ok ps \<Longrightarrow> percents_apart ps \<Longrightarrow> re_sub m_named (concat (map py_piece ps)) = concat (map named_done ps)"
proof (induction ps)
  case (Cons p ps)
  note IH = Cons.IH[OF _ percents_apart_tl[OF Cons.prems(2)]]
  show ?case
  proof (cases p)
    case (Text s)
    with Cons.prems IH show ?thesis by (simp add: named.sub_text)
  next
    case (Named n)
    with Cons.prems have n: "n \<noteq> []" "name_start (hd n)" "list_all is_word n" by simp_all
    have "takeWhile is_word (n @ '')s'' @ rest) = n" "dropWhile is_word (n @ '')s'' @ rest) = '')s'' @ rest" for rest
      using n(3) by (simp_all add: list_all_iff takeWhile_append dropWhile_append is_word_def)
    with n have "m_named None (''%('' @ n @ '')s'' @ rest) = Some (CHR '':'' # n, rest)" for rest
      by (simp add: m_named_def after_Cons name_at_def)
    from named.sub_hit[OF this[simplified]] Named Cons.prems IH show ?thesis by simp
  next
    case Positional
    with Cons.prems IH show ?thesis by (simp add: named.sub_skip named_skips named_skips_other after_Cons)
  next
    case Percent
    with Cons.prems have "after ''('' (concat (map py_piece ps)) = None" by (intro after_percent(1)) simp_all
    with Percent Cons.prems IH show ?thesis by (simp add: named.sub_skip named_skips after_Cons)
  qed
qed (simp add: named.sub_nil)

lemma positional_stage:
  "list_all piece_ok ps \<Longrightarrow> percents_apart ps \<Longrightarrow>
     str_replace ''%s'' ''?'' (concat (map named_done ps)) = concat (map positional_done ps)"
  unfolding str_replace_def
proof (induction ps)
  case (Cons p ps)
  note IH = Cons.IH[OF _ percents_apart_tl[OF Cons.prems(2)]]
  show ?case
  proof (cases p)
    case (Text s)
    with Cons.prems IH show ?thesis by (simp add: positional.sub_text)
  next
    case (Named n)
    with Cons.prems have "CHR ''%'' \<notin> set ('':'' @ n)" by (simp add: name_no_percent)
    from positional.sub_text[OF this] Named Cons.prems IH show ?thesis by simp
  next
    case Positional
    have "(map_option (\<lambda>r. (''?'', r)) (after ''%s'' (CHR ''%'' # CHR ''s'' # rest))) = Some (''?'', rest)" for rest
      by (simp add: after_Cons)
    from positional.sub_hit[OF this] Positional Cons.prems IH show ?thesis by simp
  next
    case Percent
    with Cons.prems have "after ''s'' (concat (map named_done ps)) = None" by (intro after_percent(2)) simp_all
    with Percent Cons.prems IH show ?thesis by (simp add: positional.sub_skip after_Cons)
  qed
qed (simp add: positional.sub_nil)

lemma escaped_stage:
  "list_all piece_ok ps \<Longrightarrow> str_replace ''%%'' ''%'' (concat (map positional_done ps)) = concat (map lite_piece ps)"
  unfolding str_replace_def
proof (induction ps)
  case (Cons p ps)
  show ?case
  proof (cases p)
    case (Text s)
    with Cons show ?thesis by (simp add: escaped.sub_text)
  next
    case (Named n)
    with Cons.prems have "CHR ''%'' \<notin> set ('':'' @ n)" by (simp add: name_no_percent)
    from escaped.sub_text[OF this] Named Cons show ?thesis by simp
  next
    case Positional
    with Cons escaped.sub_text[of "''?''"] show ?thesis by simp
  next
    case Percent
    have "(map_option (\<lambda>r. (''%'', r)) (after ''%%'' (CHR ''%'' # CHR ''%'' # rest))) = Some (''%'', rest)" for rest
      by (simp add: after_Cons)
    from escaped.sub_hit[OF this] Percent Cons show ?thesis by simp
  qed
qed (simp add: escaped.sub_nil)

text \<open>
  C37. The translation of placeholders is right for every chunk in which an escaped percent sign is not followed at once by
  an s or an opening parenthesis: each named parameter becomes the named parameter of SQLite with the same name, each positional
  one a question mark, in the same order, an escaped percent sign becomes a percent sign, and all other text stays.
\<close>

theorem paramstyle_correct:
  assumes "list_all piece_ok ps" and "percents_apart ps"
  shows "paramstyle (concat (map py_piece ps)) = concat (map lite_piece ps)"
  using assms by (simp add: paramstyle_def named_stage positional_stage escaped_stage)

theorem paramstyle_correct_witness:
  "paramstyle (concat (map py_piece [Text ''a '', Percent, Text '' 2 = '', Positional, Percent, Named ''x''])) = ''a % 2 = ?%:x''"
  using paramstyle_correct[of "[Text ''a '', Percent, Text '' 2 = '', Positional, Percent, Named ''x'']"]
  by (simp add: name_start_def is_word_def is_digit_def)

text \<open>Without the condition it is not: the positional rewrite runs first and takes the second half of the escape.\<close>

lemma escaped_percent_misread: "paramstyle ''a %%size'' = ''a %?ize''"
  by code_simp

text \<open>The renewal of a lease, and the fragment of a capability test, as SQLite gets them.\<close>

lemma lease_renewal_translated:
  "translate_sql_for_sqlite (''SET lease_expires_at = '' @ d_future_seconds pg_dialect ''%s'' @ '' WHERE id = %s'') =
     concat [''SET lease_expires_at = strftime('', quoted ''%Y-%m-%d %H:%M:%f'', '', '', quoted ''now'', '', printf('', quoted ''%+d seconds'',
       '', (?))) WHERE id = ?'']"
  by code_simp

lemma epoch_survives_translation:
  "translate_sql_for_sqlite (d_epoch sqlite_dialect ''c.created_at'') = d_epoch sqlite_dialect ''c.created_at''"
  by code_simp

end
