(* ===== verification/Spec2Isabelle.thy ===== *)
theory Spec2Isabelle
  imports Input_Listener Scheduler Model_Cache Backend_Laws Llm_Factory Conductor Worker_Loop Hw_Sample Sqlite_Text
begin

text \<open>
  \<^bold>\<open>A verification development of queue_workflows\<close>, a Postgres-as-queue workflow engine: a run of a
  workflow is expanded into a DAG of node jobs, workers claim the jobs from one table, and an
  orchestrator fans completed nodes out to their successors. The development models the engine's
  Python package under \<^verbatim>\<open>src/queue_workflows\<close> and the operator's package under
  \<^verbatim>\<open>src/conductor/queue_workflows_conductor\<close>.

  \<^bold>\<open>How the parts interact.\<close> \<^verbatim>\<open>dispatcher.py\<close> expands a run and inserts job rows. A
  \<^verbatim>\<open>claim_worker.py\<close> process claims a row (\<^verbatim>\<open>node_queue.py\<close>), runs it (\<^verbatim>\<open>node_executor.py\<close>) under
  watchdogs and a lease, and ends it with a terminal mark and an outbox row in one transaction.
  \<^verbatim>\<open>node_pool.py\<close>, in the orchestrator, drains the outbox into the dispatcher callbacks, expands
  queued runs and sweeps what died. \<^verbatim>\<open>input_listener.py\<close> feeds user input back in;
  \<^verbatim>\<open>scheduler.py\<close> feeds the ingest queue. A host application sets the engine up through
  \<^verbatim>\<open>__init__.py\<close> and \<^verbatim>\<open>config.py\<close>; an operator watches and steers it through the conductor's pages
  and the consoles, which read the same tables.

  \<^bold>\<open>State.\<close> One record \<open>db\<close> (theory \<open>Schema\<close>) holds the tables of the migrations as lists of rows,
  the database clock in microseconds, and the sequences. Every SQL statement of the source is one
  function on it, built from the four statement shapes of \<open>Prelude\<close>; a handler is the sequence of
  its statements, and what it committed stays when it raises (\<open>act\<close>: a result and the state). What
  the engine calls but does not contain (workflow and schema loaders, node modules, the regex engine,
  the disk, \<^verbatim>\<open>json.loads\<close>, GPU readings, model loaders) is a field of a parameter record
  (\<open>py_rt\<close>, \<open>host\<close>, \<open>fs\<close>, \<open>pool_env\<close>, \<open>listener_env\<close>, \<open>cache_env\<close>, ...).

  \<^bold>\<open>Theories, in order, with the source each models.\<close>
  \<^item> \<open>Prelude\<close>: exceptions as values, actions, tables, strings; \<open>Json_Refs\<close>: \<^verbatim>\<open>refs.py\<close>; \<open>Schema\<close>:
    \<^verbatim>\<open>migrations/\<close> and the database invariant \<open>db_inv\<close>.
  \<^item> \<open>Queue_Interface\<close>: the contract of a leased work queue as a locale, with delivery counting proved
    once. \<open>Node_Queue\<close>, \<open>Fleet\<close>: the node-job half of \<^verbatim>\<open>node_queue.py\<close> with \<^verbatim>\<open>model_registry.py\<close>;
    \<open>Ingest_Queue\<close>: the ingest half with \<^verbatim>\<open>ingest_executor.py\<close>; both interpret the contract.
    \<open>Worker_Control\<close>: \<^verbatim>\<open>worker_control.py\<close> and the read models. \<open>Queue_Laws\<close>: their properties.
    \<open>Examples\<close>: the concrete states of the witnesses.
  \<^item> \<open>Run_Store\<close>: \<^verbatim>\<open>run_store.py\<close>, the outbox and the event history. \<open>Dag\<close>, \<open>Dispatcher\<close>,
    \<open>Dispatcher_Laws\<close>, \<open>Input_Spec\<close>: \<^verbatim>\<open>dispatcher.py\<close>.
  \<^item> \<open>Node_Executor\<close>: \<^verbatim>\<open>node_executor.py\<close>. \<open>Watchdogs\<close>, \<open>Claim_Worker\<close>: \<^verbatim>\<open>claim_worker.py\<close> and
    \<^verbatim>\<open>cancel_watcher.py\<close>; the two GPU lanes are an inductive step relation.
  \<^item> \<open>Node_Pool\<close>, \<open>Orchestrator\<close>: \<^verbatim>\<open>node_pool.py\<close> and \<^verbatim>\<open>orchestrator.py\<close>. \<open>Input_Listener\<close>:
    \<^verbatim>\<open>input_listener.py\<close>. \<open>Scheduler\<close>: \<^verbatim>\<open>scheduler.py\<close>. \<open>Model_Cache\<close>: \<^verbatim>\<open>model_cache.py\<close> and
    \<^verbatim>\<open>gpu_model_cache.py\<close>.
  \<^item> \<open>Storage_Backend\<close>: \<^verbatim>\<open>backends/base.py\<close>, the port for other stores, as an abstract queue (a
    transition relation over jobs and events) and a locale for its implementations, itself a leased
    queue. \<open>Postgres_Backend\<close>, \<open>Mongo_Backend\<close>, \<open>Redis_Backend\<close>: the three adapters under
    \<^verbatim>\<open>backends/\<close>, each interpreting it. \<open>Gpu_Pool\<close>: \<^verbatim>\<open>gpu_pool.py\<close>; \<open>Ingest_Store\<close>:
    \<^verbatim>\<open>ingest_store.py\<close> and the registry \<^verbatim>\<open>backends/__init__.py\<close>: clients of the port, proved from
    the locale alone. \<open>Backend_Laws\<close>: their properties, and the calls on which Redis leaves the port.
  \<^item> \<open>Llm_Backend\<close>: \<^verbatim>\<open>llm_backends/base.py\<close>, \<^verbatim>\<open>ollama.py\<close>, \<^verbatim>\<open>vllm.py\<close> and \<^verbatim>\<open>supervisor.py\<close>, with the
    injected seams as a parameter; \<open>Llm_Laws\<close>: the port as a locale, interpreted for both vendors, the
    interleavings of requests and supervisor as a step relation, and the properties; \<open>Llm_Factory\<close>:
    \<^verbatim>\<open>factory.py\<close>, the cache of live backends over the settings of \<open>Worker_Control\<close>.
  \<^item> \<open>Polling\<close>: the wait loop two components share. \<open>Migrations\<close>: the migration runner of \<^verbatim>\<open>db.py\<close>, the wait
    for a schema, the reconnecting LISTEN loop and the SQLite layer's connection, DSN and literal splitter.
    \<open>Telemetry\<close>: the parsers and decisions of \<^verbatim>\<open>gpu_health.py\<close>, \<^verbatim>\<open>cgroup_attribution.py\<close>, \<^verbatim>\<open>hw_metrics.py\<close>
    and \<^verbatim>\<open>hw_feed.py\<close>; \<open>Hw_Sample\<close>: the ROCm parser, the sample, its publication and the listener of the feed.
    \<open>Sqlite_Text\<close>: \<^verbatim>\<open>dialect.py\<close>, and the SQL translator and row factory of \<^verbatim>\<open>db.py\<close>.
  \<^item> \<open>Worker_Loop\<close>: the life of a worker process in \<^verbatim>\<open>claim_worker.py\<close> (settings, ticking threads, boot
    gates, the drain-and-wait loop, teardown) and the watcher and console of \<^verbatim>\<open>worker_control.py\<close>, with the
    source of work of a drain as a locale. \<open>Engine_Config\<close>: \<^verbatim>\<open>config.py\<close> and \<^verbatim>\<open>__init__.py\<close>.
  \<^item> \<open>Web_Text\<close>: what the pages use of Python's \<^verbatim>\<open>html\<close> and \<^verbatim>\<open>urllib.parse\<close>. \<open>Html_View\<close>: every render
    function of the conductor's \<^verbatim>\<open>web.py\<close>; \<open>Conductor\<close>: its request handler, the fleet table of \<^verbatim>\<open>conductor.py\<close>
    and \<^verbatim>\<open>broker.py\<close>.

  \<^bold>\<open>What is shown.\<close> Of the queue: no job is delivered twice without a requeue, each further delivery
  is paid for by one, final states are final, claims take the first eligible row of the documented
  order, sweeps touch exactly what they should. Of the dispatcher: a cascade is sound, complete and
  terminates; a run is completed exactly when its DAG is; a handler stays within its run; the
  reconciler reports what it did; which input widgets can raise. Of the worker: every execution ends
  in one of the listed outcomes with mark and outbox row together, trips are bounded, the lanes stay
  within the configured parallelism under every interleaving. Of the orchestrator: what a drain does
  to every event, when it returns, and that no sequence of ticks changes another project's runs or
  exceeds the retry bound. Of the edges: submissions are settled, the ticker fires the earliest due
  entries, the warm model slot and its advertisement agree in every history. Of the backends: each
  adapter refines the abstract queue (Redis for calls that end or send back only claimed jobs and
  enqueue fresh ids), so claims are exactly-once, the outbox is atomic and the counters are exact;
  tenants of one PostgreSQL database do not see each other; a pooled GPU task reaches its submitter
  as what its handler made of it; the ingest seam keeps rows and their order. Of the LLM backends:
  \<^verbatim>\<open>ensure_ready\<close> ends and returns normally exactly when the requested model is served; the handle stays
  well formed under every interleaving; an idle sidecar is stopped in the first round past its TTL;
  the factory keeps one supervisor per live vLLM backend, hands out the same object while the settings
  stand and one for the new settings after a change. Of the migrations: \<^verbatim>\<open>bootstrap\<close> is exact and
  idempotent, \<^verbatim>\<open>downgrade\<close> takes it back. Of the worker process: a drain comes to an end only for cause and
  leaves nothing it could have taken, a lease renewed in time is never swept, behind closed gates only the
  sampler runs, and what was started is stopped. Of the configuration: no sequence of calls opens the DAG
  queues to ingest work or selects a store that does not exist, and repeating a call changes nothing. Of the
  web view: no stored or requested text reaches the markup, its links lead where they say, its totals are
  exact, a request changes nothing but the two gated actions, and where a redirect may point. Of the SQLite layer:
  the translator turns the placeholders of a statement into the right ones, and on which texts it does not.

  \<^bold>\<open>Bounds and fuel.\<close> The cascade loop of \<^verbatim>\<open>_process_ready\<close> runs with one more unit of fuel than the
  DAG has nodes, which is proved to be enough (\<open>cascade_terminates\<close>): each round gives at least one
  node its row. The hour walk of the scheduler is the source's own loop of 24 steps. A drain that
  waits for its own lock is \<open>None\<close>, and \<open>drain_returns\<close> says when that cannot happen. The reclaim loop of
  the Mongo adapter has one unit of fuel more than there are documents, and is proved to return
  (\<open>mongo_reclaim_loop_returns\<close>). The health wait of the vLLM backend and the wait for a schema are
  \<open>None\<close> when they never end, and are proved to return when the clock moves while they sleep
  (\<open>poll_until_returns\<close>). The claim loop of a worker runs for as long as the process does and is a partial
  function; its inner drain is proved to return when jobs make the remaining work smaller, which ingest jobs do
  (\<open>ingest_step_decreases\<close>). \<^verbatim>\<open>await_pool_result\<close> runs over the polls it makes. Integers are
  Python's unbounded ones or timestamps; no fixed width matters in this code.

  \<^bold>\<open>Abstractions.\<close> A \<^verbatim>\<open>SKIP LOCKED\<close> claim is atomic. The order SQL leaves open among equal sort keys
  is the table order, and no statement below depends on it. Row ids drawn from \<^verbatim>\<open>uuid4\<close> are fresh
  numbers. The database is up: a connection that drops is modelled only in the recovery gate. The JSON
  text in a Redis hash is the value it encodes, a member \<^verbatim>\<open>%020d|id\<close> of a sorted set the pair it encodes,
  and a Lua script or a \<^verbatim>\<open>find_one_and_update\<close> one step at one clock reading. The text of a page is its
  UTF-8 bytes, without the line breaks of the source's templates; the style sheet, the text of ids and times and
  the check of a host name with brackets are arguments. Percentages and chart coordinates are rationals where Python has floats. A hook a
  host registers is a value of a type parameter. A thread that ticks is a loop over the answers of its waits. A
  regular expression is a scanning function on ASCII text.

  \<^bold>\<open>Not modelled.\<close> The wake listeners and connection handling of the storage backends; the HTTP probes
  and the signal of the LLM sidecar (parameters); the calls of vendor tools and the threads of the hardware
  telemetry (the texts and readings are arguments); connection pooling, the adapters for values written to
  SQLite, the snapshot loader that calls \<^verbatim>\<open>psql\<close>, and the text of the migration scripts beyond the tables they leave; starting the conductor's HTTP server,
  argument parsing and the JSON form of the fleet table; the thumbnail refresh of the executor;
  \<^verbatim>\<open>LISTEN/NOTIFY\<close> wake-ups, which only shorten the polls; the creation of threads and the delivery of
  signals, whose effect on a loop is the answer of its next wait.
\<close>

end
